(* ===== verification/Prelude.thy ===== *)
theory Prelude
  imports Main "HOL-Library.Word"
begin

text \<open>
  Shared vocabulary of the development: the sentinel errors of \<^verbatim>\<open>errors.go\<close>, the part of Go's
  \<^verbatim>\<open>strings\<close>, \<^verbatim>\<open>strconv\<close>, \<^verbatim>\<open>bytes\<close> and \<^verbatim>\<open>bufio\<close> packages the program calls, and the generic
  lemmas on them.

  A Go string or byte slice is a \<^typ>\<open>string\<close>: a list of 8-bit characters, one per byte.
  A Go \<^verbatim>\<open>int\<close> is an \<^typ>\<open>int\<close> whose 64-bit range is enforced where a value enters the program
  (\<open>Atoi\<close>); a \<^verbatim>\<open>uint32\<close> is a \<^typ>\<open>32 word\<close>. A pointer that may be \<^verbatim>\<open>nil\<close> is an \<open>option\<close>.
  A call that may fail returns \<open>error + 'a\<close>; \<open>Inl GoPanic\<close> is a run-time panic (a nil
  dereference or a slice index out of range), every other \<open>Inl\<close> is the sentinel that the returned
  error wraps (\<^verbatim>\<open>errors.Is\<close>); the formatted message text is not modelled.

  White space (\<open>TrimSpace\<close>, \<open>Fields\<close>) is Unicode's, on the UTF-8 encoding. Case mapping
  (\<open>ToLower\<close>, \<open>ToUpper\<close>, \<open>EqualFold\<close>) is modelled on ASCII letters and leaves the bytes
  from 0x80 on alone: it is exact for every string whose case-mapped part is ASCII.
\<close>

section \<open>Collections of facts\<close>

named_theorems go_defs \<open>definitions that simplification may unfold\<close>
named_theorems go_trim \<open>strings that trimming leaves alone\<close>
named_theorems inv_intros \<open>operations keep the invariant of their component\<close>

section \<open>Errors (errors.go)\<close>

datatype error =
    ErrParse | ErrShortMessage | ErrBadStartLine | ErrBadHeader | ErrBadUri | ErrBadAddress
  | ErrNoVia | ErrNoFrom | ErrNoTo | ErrNoCallID | ErrNoCSeq | ErrNoContact
  | ErrDialogNotFound | ErrTxNotFound | ErrTxExists | ErrTxTerminated | ErrTransportClosed
  | ErrInvalidResponse | ErrUnsupported | ErrTimeout
  | ErrMaxForwards
  | ErrOther
  | GoPanic

type_synonym 'a result = "error + 'a"

definition bind_result :: "'a result \<Rightarrow> ('a \<Rightarrow> 'b result) \<Rightarrow> 'b result" where
  "bind_result r f = (case r of Inl e \<Rightarrow> Inl e | Inr x \<Rightarrow> f x)"

lemma bind_result_simps [simp]:
  "bind_result (Inl e) f = Inl e" "bind_result (Inr x) f = f x"
  by (simp_all add: bind_result_def)

lemma bind_result_eq_Inr:
  "bind_result r f = Inr y \<longleftrightarrow> (\<exists>x. r = Inr x \<and> f x = Inr y)"
  by (simp add: bind_result_def split: sum.splits)

fun map_result :: "('a \<Rightarrow> 'b result) \<Rightarrow> 'a list \<Rightarrow> 'b list result" where
  "map_result f [] = Inr []"
| "map_result f (x # xs) =
     bind_result (f x) (\<lambda>y. bind_result (map_result f xs) (\<lambda>ys. Inr (y # ys)))"

lemma map_result_all:
  "(\<And>x. x \<in> set xs \<Longrightarrow> f (g x) = Inr x) \<Longrightarrow> map_result f (map g xs) = Inr xs"
  by (induction xs) auto

lemma find_append: "find P (xs @ ys) = (case find P xs of Some x \<Rightarrow> Some x | None \<Rightarrow> find P ys)"
  by (induction xs) auto

section \<open>Bytes\<close>

abbreviation CR :: char where "CR \<equiv> CHR 0x0D"
abbreviation LF :: char where "LF \<equiv> CHR 0x0A"
abbreviation TAB :: char where "TAB \<equiv> CHR 0x09"
abbreviation NUL :: char where "NUL \<equiv> CHR 0x00"
abbreviation SP :: char where "SP \<equiv> CHR 0x20"
abbreviation DQ :: char where "DQ \<equiv> CHR 0x22"
abbreviation BS :: char where "BS \<equiv> CHR 0x5C"
abbreviation CRLF :: string where "CRLF \<equiv> [CR, LF]"

definition visible :: "char \<Rightarrow> bool" where
  "visible c \<longleftrightarrow> 0x21 \<le> (of_char c :: nat) \<and> (of_char c :: nat) \<le> 0x7E"

definition is_control :: "char \<Rightarrow> bool" where
  "is_control c \<longleftrightarrow> (of_char c :: nat) < 0x20 \<or> (of_char c :: nat) = 0x7F"

definition is_digit :: "char \<Rightarrow> bool" where
  "is_digit c \<longleftrightarrow> 0x30 \<le> (of_char c :: nat) \<and> (of_char c :: nat) \<le> 0x39"

section \<open>Case mapping\<close>

definition lower_char :: "char \<Rightarrow> char" where
  "lower_char c = (let n = (of_char c :: nat) in
     if 0x41 \<le> n \<and> n \<le> 0x5A then char_of (n + 0x20) else c)"

definition upper_char :: "char \<Rightarrow> char" where
  "upper_char c = (let n = (of_char c :: nat) in
     if 0x61 \<le> n \<and> n \<le> 0x7A then char_of (n - 0x20) else c)"

definition ToLower :: "string \<Rightarrow> string" where
  "ToLower s = map lower_char s"

definition ToUpper :: "string \<Rightarrow> string" where
  "ToUpper s = map upper_char s"

definition EqualFold :: "string \<Rightarrow> string \<Rightarrow> bool" where
  "EqualFold s t \<longleftrightarrow> ToLower s = ToLower t"

lemma char_eq_iff: "c = d \<longleftrightarrow> (of_char c :: nat) = of_char d"
  by (simp add: of_char_eq_iff)

lemma of_char_lower:
  "(of_char (lower_char c) :: nat) =
     (if 0x41 \<le> (of_char c :: nat) \<and> (of_char c :: nat) \<le> 0x5A then of_char c + 0x20 else of_char c)"
  by (simp add: lower_char_def Let_def)

lemma of_char_upper:
  "(of_char (upper_char c) :: nat) =
     (if 0x61 \<le> (of_char c :: nat) \<and> (of_char c :: nat) \<le> 0x7A then of_char c - 0x20 else of_char c)"
  by (auto simp add: upper_char_def Let_def)

lemma lower_char_idem [simp]: "lower_char (lower_char c) = lower_char c"
  by (simp add: char_eq_iff of_char_lower)

lemma upper_char_idem [simp]: "upper_char (upper_char c) = upper_char c"
  by (auto simp add: char_eq_iff of_char_upper)

lemma lower_upper_char [simp]: "lower_char (upper_char c) = lower_char c"
  by (auto simp add: char_eq_iff of_char_lower of_char_upper)

lemma ToLower_idem [simp]: "ToLower (ToLower s) = ToLower s"
  by (simp add: ToLower_def)

lemma ToUpper_idem [simp]: "ToUpper (ToUpper s) = ToUpper s"
  by (simp add: ToUpper_def)

lemma ToLower_Nil_iff [simp]: "ToLower s = [] \<longleftrightarrow> s = []"
  by (simp add: ToLower_def)

lemma ToUpper_Nil_iff [simp]: "ToUpper s = [] \<longleftrightarrow> s = []"
  by (simp add: ToUpper_def)

lemma length_ToLower [simp]: "length (ToLower s) = length s"
  by (simp add: ToLower_def)

lemma EqualFold_refl [simp]: "EqualFold s s"
  by (simp add: EqualFold_def)

lemma EqualFold_sym: "EqualFold s t \<Longrightarrow> EqualFold t s"
  by (simp add: EqualFold_def)

lemma EqualFold_trans: "EqualFold s t \<Longrightarrow> EqualFold t u \<Longrightarrow> EqualFold s u"
  by (simp add: EqualFold_def)

lemma EqualFold_ToLower [simp]: "EqualFold (ToLower s) t = EqualFold s t" "EqualFold s (ToLower t) = EqualFold s t"
  by (simp_all add: EqualFold_def)

end
