(* ===== verification/GoStrings.thy ===== *)
theory GoStrings
  imports Prelude
begin

text \<open>
  The functions of Go's packages \<^verbatim>\<open>strings\<close> and \<^verbatim>\<open>bufio\<close> that the program calls, at the
  argument shapes it calls them with (separators are single bytes, or CRLF), and the lemmas about
  them that the parsers' proofs share. Indices are \<open>nat option\<close>: \<open>None\<close> is Go's -1.
\<close>

section \<open>White space\<close>

text \<open>The width in bytes of the white-space rune at the front of a string, 0 if there is none
  (\<^verbatim>\<open>unicode.IsSpace\<close> on the decoded rune; U+0085, U+00A0 and the Zs/Zl/Zp code points).\<close>

definition ascii_space :: "char \<Rightarrow> bool" where
  "ascii_space c \<longleftrightarrow> c = SP \<or> (0x09 \<le> (of_char c :: nat) \<and> (of_char c :: nat) \<le> 0x0D)"

definition wide_space2 :: "char \<Rightarrow> char \<Rightarrow> bool" where
  "wide_space2 a b \<longleftrightarrow> a = CHR 0xC2 \<and> (b = CHR 0x85 \<or> b = CHR 0xA0)"

definition wide_space3 :: "char \<Rightarrow> char \<Rightarrow> char \<Rightarrow> bool" where
  "wide_space3 a b c \<longleftrightarrow>
     (a = CHR 0xE1 \<and> b = CHR 0x9A \<and> c = CHR 0x80) \<or>
     (a = CHR 0xE2 \<and> b = CHR 0x80 \<and>
        ((0x80 \<le> (of_char c :: nat) \<and> (of_char c :: nat) \<le> 0x8A)
          \<or> c = CHR 0xA8 \<or> c = CHR 0xA9 \<or> c = CHR 0xAF)) \<or>
     (a = CHR 0xE2 \<and> b = CHR 0x81 \<and> c = CHR 0x9F) \<or>
     (a = CHR 0xE3 \<and> b = CHR 0x80 \<and> c = CHR 0x80)"

definition ws_width :: "string \<Rightarrow> nat" where
  "ws_width s = (case s of [] \<Rightarrow> 0 | a # s1 \<Rightarrow>
     if ascii_space a then 1
     else (case s1 of [] \<Rightarrow> 0 | b # s2 \<Rightarrow>
       if wide_space2 a b then 2
       else (case s2 of [] \<Rightarrow> 0 | c # _ \<Rightarrow> if wide_space3 a b c then 3 else 0)))"

text \<open>The same at the end of a string (\<^verbatim>\<open>utf8.DecodeLastRuneInString\<close>), read backwards.\<close>

definition ws_width_rev :: "string \<Rightarrow> nat" where
  "ws_width_rev r = (case r of [] \<Rightarrow> 0 | c # r1 \<Rightarrow>
     if ascii_space c then 1
     else (case r1 of [] \<Rightarrow> 0 | b # r2 \<Rightarrow>
       if wide_space2 b c then 2
       else (case r2 of [] \<Rightarrow> 0 | a # _ \<Rightarrow> if wide_space3 a b c then 3 else 0)))"

lemma ws_width_Nil [simp]: "ws_width [] = 0"
  by (simp add: ws_width_def)

lemma ws_width_rev_Nil [simp]: "ws_width_rev [] = 0"
  by (simp add: ws_width_rev_def)

lemma ws_width_le: "ws_width s \<le> length s"
  by (auto simp: ws_width_def split: list.splits)

lemma ws_width_rev_le: "ws_width_rev s \<le> length s"
  by (auto simp: ws_width_rev_def split: list.splits)

function trim_left :: "string \<Rightarrow> string" where
  "trim_left s = (if ws_width s = 0 then s else trim_left (drop (ws_width s) s))"
  by pat_completeness auto
termination
proof (relation "measure length")
  fix s :: string
  assume "ws_width s \<noteq> 0"
  then show "(drop (ws_width s) s, s) \<in> measure length"
    using ws_width_le [of s] by auto
qed simp

function trim_rev :: "string \<Rightarrow> string" where
  "trim_rev r = (if ws_width_rev r = 0 then r else trim_rev (drop (ws_width_rev r) r))"
  by pat_completeness auto
termination
proof (relation "measure length")
  fix r :: string
  assume "ws_width_rev r \<noteq> 0"
  then show "(drop (ws_width_rev r) r, r) \<in> measure length"
    using ws_width_rev_le [of r] by auto
qed simp

declare trim_left.simps [simp del] trim_rev.simps [simp del]

definition TrimSpace :: "string \<Rightarrow> string" where
  "TrimSpace s = rev (trim_rev (rev (trim_left s)))"

text \<open>Strings that \<open>TrimSpace\<close> leaves alone.\<close>

definition trimmed :: "string \<Rightarrow> bool" where
  "trimmed s \<longleftrightarrow> ws_width s = 0 \<and> ws_width_rev (rev s) = 0"

lemma trim_left_id: "ws_width s = 0 \<Longrightarrow> trim_left s = s"
  by (simp add: trim_left.simps [of s])

lemma trim_rev_id: "ws_width_rev s = 0 \<Longrightarrow> trim_rev s = s"
  by (simp add: trim_rev.simps [of s])

lemma TrimSpace_trimmed: "trimmed s \<Longrightarrow> TrimSpace s = s"
  by (simp add: TrimSpace_def trimmed_def trim_left_id trim_rev_id)

lemma ws_width_trim_left: "ws_width (trim_left s) = 0"
proof (induction s rule: trim_left.induct)
  case (1 s)
  then show ?case by (cases "ws_width s = 0") (simp_all add: trim_left.simps [of s])
qed

lemma ws_width_trim_rev: "ws_width_rev (trim_rev s) = 0"
proof (induction s rule: trim_rev.induct)
  case (1 s)
  then show ?case by (cases "ws_width_rev s = 0") (simp_all add: trim_rev.simps [of s])
qed

lemma trim_rev_suffix: "\<exists>p. r = p @ trim_rev r"
proof (induction r rule: trim_rev.induct)
  case (1 r)
  show ?case
  proof (cases "ws_width_rev r = 0")
    case False
    then obtain p where "drop (ws_width_rev r) r = p @ trim_rev (drop (ws_width_rev r) r)"
      using 1 by blast
    then have "r = (take (ws_width_rev r) r @ p) @ trim_rev (drop (ws_width_rev r) r)"
      by (metis append_assoc append_take_drop_id)
    with False show ?thesis by (metis trim_rev.simps)
  qed (simp add: trim_rev.simps [of r])
qed

lemma trim_left_suffix: "\<exists>p. s = p @ trim_left s"
proof (induction s rule: trim_left.induct)
  case (1 s)
  show ?case
  proof (cases "ws_width s = 0")
    case False
    then obtain p where "drop (ws_width s) s = p @ trim_left (drop (ws_width s) s)"
      using 1 by blast
    then have "s = (take (ws_width s) s @ p) @ trim_left (drop (ws_width s) s)"
      by (metis append_assoc append_take_drop_id)
    with False show ?thesis by (metis trim_left.simps)
  qed (simp add: trim_left.simps [of s])
qed

lemma ws_width_append: "ws_width s \<noteq> 0 \<Longrightarrow> ws_width (s @ t) \<noteq> 0"
  by (auto simp: ws_width_def split: list.splits if_splits)

lemma TrimSpace_infix: "\<exists>p q. s = p @ TrimSpace s @ q"
proof -
  obtain p where p: "s = p @ trim_left s" using trim_left_suffix by blast
  obtain q where "rev (trim_left s) = q @ trim_rev (rev (trim_left s))"
    using trim_rev_suffix by blast
  then have "trim_left s = TrimSpace s @ rev q"
    by (metis TrimSpace_def rev_append rev_rev_ident)
  with p show ?thesis by metis
qed

lemma trimmed_TrimSpace: "trimmed (TrimSpace s)"
proof -
  obtain q where q: "rev (trim_left s) = q @ trim_rev (rev (trim_left s))"
    using trim_rev_suffix by blast
  then have "trim_left s = rev (trim_rev (rev (trim_left s))) @ rev q"
    by (metis rev_append rev_rev_ident)
  then have "ws_width (rev (trim_rev (rev (trim_left s)))) = 0"
    using ws_width_trim_left [of s] ws_width_append by metis
  then show ?thesis
    by (simp add: trimmed_def TrimSpace_def ws_width_trim_rev)
qed

lemma TrimSpace_idem [simp]: "TrimSpace (TrimSpace s) = TrimSpace s"
  by (rule TrimSpace_trimmed [OF trimmed_TrimSpace])

lemma set_TrimSpace: "set (TrimSpace s) \<subseteq> set s"
  using TrimSpace_infix [of s] by (metis Un_upper2 inf_sup_ord(3) order_trans set_append)

subsection \<open>Strings that start and end with a visible character\<close>

lemma visible_not_space: "visible c \<Longrightarrow> \<not> ascii_space c"
  by (auto simp: visible_def ascii_space_def)

lemma visible_not_wide:
  "visible a \<Longrightarrow> \<not> wide_space2 a b" "visible b \<Longrightarrow> \<not> wide_space2 a b"
  "visible a \<Longrightarrow> \<not> wide_space3 a b c" "visible c \<Longrightarrow> \<not> wide_space3 a b c"
  by (auto simp: visible_def wide_space2_def wide_space3_def)

lemma ws_width_visible: "visible a \<Longrightarrow> ws_width (a # s) = 0"
  by (simp add: ws_width_def visible_not_space visible_not_wide split: list.split)

lemma ws_width_rev_visible: "visible a \<Longrightarrow> ws_width_rev (a # s) = 0"
  by (simp add: ws_width_rev_def visible_not_space visible_not_wide split: list.split)

definition vis_ends :: "string \<Rightarrow> bool" where
  "vis_ends s \<longleftrightarrow> (s \<noteq> [] \<longrightarrow> visible (hd s) \<and> visible (last s))"

lemma trimmed_vis_ends: "vis_ends s \<Longrightarrow> trimmed s"
proof (cases s rule: rev_cases)
  case (snoc t a)
  moreover assume "vis_ends s"
  ultimately show ?thesis
    by (cases t) (simp_all add: trimmed_def vis_ends_def ws_width_visible ws_width_rev_visible)
qed (simp add: trimmed_def)

lemma TrimSpace_vis [go_trim]: "vis_ends s \<Longrightarrow> TrimSpace s = s"
  by (rule TrimSpace_trimmed [OF trimmed_vis_ends])

lemma TrimSpace_Nil [simp]: "TrimSpace [] = []"
  by (simp add: TrimSpace_trimmed trimmed_def)

lemma vis_ends_all: "list_all visible s \<Longrightarrow> vis_ends s"
  by (simp add: vis_ends_def list_all_iff)

lemma vis_ends_append:
  "vis_ends s \<Longrightarrow> vis_ends t \<Longrightarrow> vis_ends (s @ t)"
  by (cases "s = []"; cases "t = []") (simp_all add: vis_ends_def)

lemma vis_ends_Cons: "vis_ends (c # s) \<longleftrightarrow> visible c \<and> (s \<noteq> [] \<longrightarrow> visible (last s))"
  by (auto simp: vis_ends_def)

text \<open>A single leading space, as the printers put after a colon, is trimmed away.\<close>

lemma trim_left_space: "trim_left (SP # s) = trim_left s"
  by (subst trim_left.simps) (simp add: ws_width_def ascii_space_def)

lemma TrimSpace_space: "TrimSpace (SP # s) = TrimSpace s"
  by (simp add: TrimSpace_def trim_left_space)

section \<open>Searching\<close>

fun index_where :: "(char \<Rightarrow> bool) \<Rightarrow> string \<Rightarrow> nat option" where
  "index_where P [] = None"
| "index_where P (c # s) = (if P c then Some 0 else map_option Suc (index_where P s))"

fun last_index_where :: "(char \<Rightarrow> bool) \<Rightarrow> string \<Rightarrow> nat option" where
  "last_index_where P [] = None"
| "last_index_where P (c # s) =
     (case last_index_where P s of Some i \<Rightarrow> Some (Suc i) | None \<Rightarrow> if P c then Some 0 else None)"

definition IndexByte :: "string \<Rightarrow> char \<Rightarrow> nat option" where
  "IndexByte s c = index_where (\<lambda>x. x = c) s"

definition LastIndexByte :: "string \<Rightarrow> char \<Rightarrow> nat option" where
  "LastIndexByte s c = last_index_where (\<lambda>x. x = c) s"

definition IndexAny :: "string \<Rightarrow> string \<Rightarrow> nat option" where
  "IndexAny s cs = index_where (\<lambda>x. x \<in> set cs) s"

definition ContainsAny :: "string \<Rightarrow> string \<Rightarrow> bool" where
  "ContainsAny s cs \<longleftrightarrow> (\<exists>c \<in> set s. c \<in> set cs)"

definition HasPrefix :: "string \<Rightarrow> string \<Rightarrow> bool" where
  "HasPrefix s p \<longleftrightarrow> take (length p) s = p"

definition TrimPrefix :: "string \<Rightarrow> string \<Rightarrow> string" where
  "TrimPrefix s p = (if HasPrefix s p then drop (length p) s else s)"

definition TrimRightSet :: "string \<Rightarrow> string \<Rightarrow> string" where
  "TrimRightSet s cs = rev (dropWhile (\<lambda>c. c \<in> set cs) (rev s))"

definition TrimLeftSet :: "string \<Rightarrow> string \<Rightarrow> string" where
  "TrimLeftSet s cs = dropWhile (\<lambda>c. c \<in> set cs) s"

lemma index_where_None: "index_where P s = None \<longleftrightarrow> (\<forall>c \<in> set s. \<not> P c)"
  by (induction s) auto

lemma index_where_append:
  "(\<forall>x \<in> set a. \<not> P x) \<Longrightarrow> P c \<Longrightarrow> index_where P (a @ c # b) = Some (length a)"
  by (induction a) auto

lemma index_where_eq: "c \<notin> set a \<Longrightarrow> index_where (\<lambda>x. x = c) (a @ c # b) = Some (length a)"
  by (induction a) auto

lemma index_where_Some:
  "index_where P s = Some i \<Longrightarrow>
     i < length s \<and> P (s ! i) \<and> (\<forall>x \<in> set (take i s). \<not> P x)"
  by (induction s arbitrary: i) (auto split: if_splits)

lemma last_index_where_None: "last_index_where P s = None \<longleftrightarrow> (\<forall>c \<in> set s. \<not> P c)"
  by (induction s) (auto split: option.splits)

lemma last_index_where_append:
  "(\<forall>x \<in> set b. \<not> P x) \<Longrightarrow> P c \<Longrightarrow> last_index_where P (a @ c # b) = Some (length a)"
  by (induction a) (auto split: option.splits simp: last_index_where_None)

lemma last_index_where_Some:
  "last_index_where P s = Some i \<Longrightarrow>
     i < length s \<and> P (s ! i) \<and> (\<forall>x \<in> set (drop (Suc i) s). \<not> P x)"
  by (induction s arbitrary: i) (auto split: if_splits option.splits simp: last_index_where_None)

lemma IndexByte_append: "c \<notin> set a \<Longrightarrow> IndexByte (a @ c # b) c = Some (length a)"
  by (auto simp: IndexByte_def intro: index_where_append)

lemma IndexByte_None: "IndexByte s c = None \<longleftrightarrow> c \<notin> set s"
  by (auto simp: IndexByte_def index_where_None)

lemma LastIndexByte_append: "c \<notin> set b \<Longrightarrow> LastIndexByte (a @ c # b) c = Some (length a)"
  by (auto simp: LastIndexByte_def intro: last_index_where_append)

lemma LastIndexByte_None: "LastIndexByte s c = None \<longleftrightarrow> c \<notin> set s"
  by (auto simp: LastIndexByte_def last_index_where_None)

lemma IndexAny_None: "IndexAny s cs = None \<longleftrightarrow> set s \<inter> set cs = {}"
  by (auto simp: IndexAny_def index_where_None)

lemmas IndexByte_absent = IndexByte_None [THEN iffD2]
lemmas LastIndexByte_absent = LastIndexByte_None [THEN iffD2]
lemmas IndexAny_absent = IndexAny_None [THEN iffD2]

lemma IndexAny_append:
  "set a \<inter> set cs = {} \<Longrightarrow> c \<in> set cs \<Longrightarrow> IndexAny (a @ c # b) cs = Some (length a)"
  unfolding IndexAny_def by (rule index_where_append) auto

lemma ContainsAny_iff: "ContainsAny s cs \<longleftrightarrow> set s \<inter> set cs \<noteq> {}"
  by (auto simp: ContainsAny_def)

section \<open>Splitting and joining\<close>

text \<open>\<^verbatim>\<open>strings.Cut\<close> with a one-byte separator: before, after, found.\<close>

definition Cut :: "string \<Rightarrow> char \<Rightarrow> string \<times> string \<times> bool" where
  "Cut s c = (case index_where (\<lambda>x. x = c) s of
     None \<Rightarrow> (s, [], False)
   | Some i \<Rightarrow> (take i s, drop (Suc i) s, True))"

lemma Cut_append: "c \<notin> set a \<Longrightarrow> Cut (a @ c # b) c = (a, b, True)"
  by (simp add: Cut_def index_where_eq)

lemma Cut_none: "c \<notin> set s \<Longrightarrow> Cut s c = (s, [], False)"
  using index_where_None [of "\<lambda>x. x = c" s] by (auto simp: Cut_def)

lemma Cut_cases:
  obtains (found) a b where "s = a @ c # b" "c \<notin> set a" "Cut s c = (a, b, True)"
    | (absent) "c \<notin> set s" "Cut s c = (s, [], False)"
proof (cases "c \<in> set s")
  case True
  then obtain a b where "s = a @ c # b" "c \<notin> set a" by (meson split_list_first)
  then show ?thesis using found Cut_append by metis
next
  case False
  then show ?thesis using absent Cut_none by metis
qed

text \<open>\<^verbatim>\<open>strings.Split\<close> with a one-byte separator.\<close>

fun Split :: "string \<Rightarrow> char \<Rightarrow> string list" where
  "Split [] c = [[]]"
| "Split (x # s) c =
     (if x = c then [] # Split s c
      else (case Split s c of [] \<Rightarrow> [[x]] | p # ps \<Rightarrow> (x # p) # ps))"

text \<open>\<^verbatim>\<open>strings.Split\<close> with the separator CRLF.\<close>

fun SplitCRLF :: "string \<Rightarrow> string list" where
  "SplitCRLF [] = [[]]"
| "SplitCRLF [x] = [[x]]"
| "SplitCRLF (x # y # s) =
     (if x = CR \<and> y = LF then [] # SplitCRLF s
      else (case SplitCRLF (y # s) of [] \<Rightarrow> [[x]] | p # ps \<Rightarrow> (x # p) # ps))"

text \<open>\<^verbatim>\<open>strings.SplitN\<close> with a one-byte separator and a positive limit.\<close>

fun SplitN :: "string \<Rightarrow> char \<Rightarrow> nat \<Rightarrow> string list" where
  "SplitN s c 0 = []"
| "SplitN s c (Suc 0) = [s]"
| "SplitN s c (Suc (Suc n)) =
     (case Cut s c of (a, b, found) \<Rightarrow> if found then a # SplitN b c (Suc n) else [s])"

fun Join :: "string list \<Rightarrow> string \<Rightarrow> string" where
  "Join [] sep = []"
| "Join [p] sep = p"
| "Join (p # ps) sep = p @ sep @ Join ps sep"

lemma Split_not_Nil [simp]: "Split s c \<noteq> []"
  by (induction s) (auto split: list.splits)

lemma Split_absent: "c \<notin> set s \<Longrightarrow> Split s c = [s]"
  by (induction s) auto

lemma Split_append: "c \<notin> set a \<Longrightarrow> Split (a @ c # b) c = a # Split b c"
  by (induction a) auto

lemma Split_Join:
  "ps \<noteq> [] \<Longrightarrow> (\<And>p. p \<in> set ps \<Longrightarrow> c \<notin> set p) \<Longrightarrow> Split (Join ps [c]) c = ps"
  by (induction ps "[c]" rule: Join.induct) (auto simp: Split_absent Split_append)

lemma Join_Split: "Join (Split s c) [c] = s"
proof (induction s)
  case (Cons x s)
  obtain p ps where "Split s c = p # ps" by (meson Split_not_Nil neq_Nil_conv)
  with Cons show ?case by (cases ps) auto
qed simp

lemma Split_part_absent: "p \<in> set (Split s c) \<Longrightarrow> c \<notin> set p"
proof (induction s arbitrary: p)
  case (Cons x s)
  then show ?case by (cases "Split s c") (auto split: if_splits)
qed simp

text \<open>\<^verbatim>\<open>strings.Fields\<close>: the maximal runs of non-space runes.\<close>

fun take_field :: "string \<Rightarrow> string" where
  "take_field [] = []"
| "take_field (c # s) = (if ws_width (c # s) \<noteq> 0 then [] else c # take_field s)"

lemma length_take_field: "length (take_field s) \<le> length s"
  by (induction s) auto

lemma take_field_pos: "s \<noteq> [] \<Longrightarrow> ws_width s = 0 \<Longrightarrow> take_field s \<noteq> []"
  by (cases s) auto

lemma length_trim_left: "length (trim_left s) \<le> length s"
  using trim_left_suffix [of s] by (metis le_add2 length_append)

function Fields :: "string \<Rightarrow> string list" where
  "Fields s =
     (let t = trim_left s in
      if t = [] then [] else take_field t # Fields (drop (length (take_field t)) t))"
  by pat_completeness auto
termination
proof (relation "measure length")
  fix s t :: string
  assume t: "t = trim_left s" "t \<noteq> []"
  then have "take_field t \<noteq> []" by (simp add: take_field_pos ws_width_trim_left)
  then have "length (drop (length (take_field t)) t) < length t" using t by simp
  then show "(drop (length (take_field t)) t, s) \<in> measure length"
    using t length_trim_left [of s] by simp
qed simp

declare Fields.simps [simp del]

lemma Fields_Nil [simp]: "Fields [] = []"
  by (simp add: Fields.simps trim_left_id)

lemma take_field_visible:
  "list_all visible w \<Longrightarrow> take_field (w @ SP # s) = w"
  by (induction w) (auto simp: ws_width_visible, simp add: ws_width_def ascii_space_def)

lemma take_field_all: "list_all visible w \<Longrightarrow> take_field w = w"
  by (induction w) (auto simp: ws_width_visible)

lemma ws_width_word: "list_all visible w \<Longrightarrow> w \<noteq> [] \<Longrightarrow> ws_width (w @ s) = 0"
  by (cases w) (auto simp: ws_width_visible)

lemma Fields_space: "Fields (SP # s) = Fields s"
  by (simp add: Fields.simps [of "SP # s"] Fields.simps [of s] trim_left_space)

lemma Fields_word:
  assumes "list_all visible w" "w \<noteq> []"
  shows "Fields (w @ SP # s) = w # Fields s"
proof -
  have "trim_left (w @ SP # s) = w @ SP # s"
    using assms by (simp add: trim_left_id ws_width_word)
  then show ?thesis
    using assms by (simp add: Fields.simps [of "w @ SP # s"] take_field_visible Fields_space)
qed

lemma Fields_last:
  assumes "list_all visible w" "w \<noteq> []"
  shows "Fields w = [w]"
proof -
  have "trim_left w = w"
    using assms ws_width_word [of w "[]"] by (simp add: trim_left_id)
  then show ?thesis
    using assms by (simp add: Fields.simps [of w] take_field_all)
qed

section \<open>Replacing\<close>

text \<open>\<^verbatim>\<open>ReplaceAll(s, `"`, `\"`)\<close>, its inverse on adjacent pairs, and the escaping of backslashes.\<close>

definition escape_quotes :: "string \<Rightarrow> string" where
  "escape_quotes s = concat (map (\<lambda>c. if c = DQ then [BS, DQ] else [c]) s)"

fun unescape_quotes :: "string \<Rightarrow> string" where
  "unescape_quotes (c # d # s) =
     (if c = BS \<and> d = DQ then DQ # unescape_quotes s else c # unescape_quotes (d # s))"
| "unescape_quotes s = s"

definition escape_backslashes :: "string \<Rightarrow> string" where
  "escape_backslashes s = concat (map (\<lambda>c. if c = BS then [BS, BS] else [c]) s)"

lemma escape_quotes_simps [simp]:
  "escape_quotes [] = []"
  "escape_quotes (c # s) = (if c = DQ then BS # DQ # escape_quotes s else c # escape_quotes s)"
  by (simp_all add: escape_quotes_def)

lemma escape_quotes_id: "DQ \<notin> set s \<Longrightarrow> escape_quotes s = s"
  by (induction s) auto

lemma unescape_cons: "c \<noteq> BS \<Longrightarrow> unescape_quotes (c # s) = c # unescape_quotes s"
  by (cases s) auto

lemma unescape_escape: "BS \<notin> set s \<Longrightarrow> unescape_quotes (escape_quotes s) = s"
  by (induction s) (auto simp: unescape_cons)

lemma set_escape_quotes: "set (escape_quotes s) \<subseteq> insert BS (set s)"
  by (induction s) auto

section \<open>Reading lines (bufio)\<close>

text \<open>\<^verbatim>\<open>reader.ReadString('\n')\<close> on the unread bytes: the line with its LF, the bytes after it and
  whether a delimiter was found (otherwise the error is \<^verbatim>\<open>io.EOF\<close>).\<close>

definition ReadString :: "string \<Rightarrow> string \<times> string \<times> bool" where
  "ReadString s = (case index_where (\<lambda>x. x = LF) s of
     None \<Rightarrow> (s, [], False)
   | Some i \<Rightarrow> (take (Suc i) s, drop (Suc i) s, True))"

lemma ReadString_append: "LF \<notin> set a \<Longrightarrow> ReadString (a @ LF # b) = (a @ [LF], b, True)"
  by (simp add: ReadString_def index_where_eq)

lemma ReadString_length:
  "ReadString s = (line, rest, ok) \<Longrightarrow> line @ rest = s \<and> (s \<noteq> [] \<longrightarrow> line \<noteq> [])"
  by (auto simp: ReadString_def split: option.splits)

lemma TrimRightSet_CRLF:
  "CR \<notin> set a \<Longrightarrow> LF \<notin> set a \<Longrightarrow> TrimRightSet (a @ [CR, LF]) [CR, LF] = a"
  by (cases a rule: rev_cases) (auto simp: TrimRightSet_def)

end
