(* ===== verification/GoStrconv.thy ===== *)
theory GoStrconv
  imports GoStrings
begin

text \<open>
  Go's \<^verbatim>\<open>strconv\<close>: decimal and hexadecimal numerals, printed and read back. \<open>Atoi\<close> accepts an
  optional sign and rejects what does not fit a 64-bit \<^verbatim>\<open>int\<close>; \<open>ParseUint\<close> accepts digits only and
  rejects what does not fit the given number of bits.
\<close>

section \<open>Digits\<close>

definition digit_char :: "nat \<Rightarrow> char" where
  "digit_char d = (if d < 10 then char_of (0x30 + d) else char_of (0x61 + d - 10))"

definition digit_val :: "nat \<Rightarrow> char \<Rightarrow> nat option" where
  "digit_val base c = (let n = (of_char c :: nat);
      d = (if 0x30 \<le> n \<and> n \<le> 0x39 then Some (n - 0x30)
           else if 0x61 \<le> n \<and> n \<le> 0x7A then Some (n - 0x61 + 10)
           else if 0x41 \<le> n \<and> n \<le> 0x5A then Some (n - 0x41 + 10)
           else None)
     in case d of None \<Rightarrow> None | Some v \<Rightarrow> if v < base then Some v else None)"

fun parse_digits :: "nat \<Rightarrow> nat \<Rightarrow> string \<Rightarrow> nat option" where
  "parse_digits base acc [] = Some acc"
| "parse_digits base acc (c # s) =
     (case digit_val base c of None \<Rightarrow> None | Some d \<Rightarrow> parse_digits base (base * acc + d) s)"

function format_nat :: "nat \<Rightarrow> nat \<Rightarrow> string" where
  "format_nat base n =
     (if base < 2 \<or> n < base then [digit_char n]
      else format_nat base (n div base) @ [digit_char (n mod base)])"
  by pat_completeness auto
termination
  by (relation "measure snd") (auto simp: not_less)

declare format_nat.simps [simp del]

definition ParseUint :: "string \<Rightarrow> nat \<Rightarrow> nat \<Rightarrow> nat option" where
  "ParseUint s base bits =
     (if s = [] then None
      else case parse_digits base 0 s of
             None \<Rightarrow> None
           | Some n \<Rightarrow> if n < 2 ^ bits then Some n else None)"

definition int_in_range :: "int \<Rightarrow> bool" where
  "int_in_range n \<longleftrightarrow> - (2 ^ 63) \<le> n \<and> n < 2 ^ 63"

definition Atoi :: "string \<Rightarrow> int option" where
  "Atoi s = (case s of
     [] \<Rightarrow> None
   | c # t \<Rightarrow>
       (let neg = (c = CHR ''-''); digits = (if c = CHR ''-'' \<or> c = CHR ''+'' then t else s)
        in if digits = [] then None
           else case parse_digits 10 0 digits of
                  None \<Rightarrow> None
                | Some n \<Rightarrow> (let v = (if neg then - int n else int n) in
                             if int_in_range v then Some v else None)))"

definition Itoa :: "int \<Rightarrow> string" where
  "Itoa n = (if n < 0 then CHR ''-'' # format_nat 10 (nat (- n)) else format_nat 10 (nat n))"

text \<open>\<^verbatim>\<open>%08x\<close>: hexadecimal, padded with zeros to eight digits.\<close>

definition format_hex8 :: "nat \<Rightarrow> string" where
  "format_hex8 n = (let h = format_nat 16 n in replicate (8 - length h) CHR ''0'' @ h)"

section \<open>Reading back what was printed\<close>

lemma of_char_digit_char:
  "d < 16 \<Longrightarrow> (of_char (digit_char d) :: nat) = (if d < 10 then 0x30 + d else 0x57 + d)"
  by (simp add: digit_char_def)

lemma digit_val_digit_char: "d < base \<Longrightarrow> base \<le> 16 \<Longrightarrow> digit_val base (digit_char d) = Some d"
  by (simp add: digit_val_def of_char_digit_char Let_def)

lemma parse_digits_append:
  "parse_digits base acc (s @ t) =
     (case parse_digits base acc s of None \<Rightarrow> None | Some n \<Rightarrow> parse_digits base n t)"
  by (induction s arbitrary: acc) (auto split: option.splits)

lemma parse_format:
  assumes "2 \<le> base" "base \<le> 16"
  shows "parse_digits base 0 (format_nat base n) = Some n"
  using assms
proof (induction base n rule: format_nat.induct)
  case (1 base n)
  show ?case
  proof (cases "n < base")
    case True
    with 1 show ?thesis
      by (simp add: format_nat.simps [of base n] digit_val_digit_char)
  next
    case False
    with 1 have IH: "parse_digits base 0 (format_nat base (n div base)) = Some (n div base)" by simp
    have "n mod base < base" using 1 by simp
    with False IH 1 show ?thesis
      by (simp add: format_nat.simps [of base n] parse_digits_append digit_val_digit_char)
  qed
qed

lemma format_nat_not_Nil [simp]: "format_nat base n \<noteq> []"
  by (subst format_nat.simps) simp

lemma is_digit_digit_char: "d < 10 \<Longrightarrow> is_digit (digit_char d)"
  by (simp add: is_digit_def of_char_digit_char)

lemma visible_digit_char: "d < 16 \<Longrightarrow> visible (digit_char d)"
  by (simp add: visible_def of_char_digit_char)

lemma format_nat_digits: "list_all is_digit (format_nat 10 n)"
proof (induction "10::nat" n rule: format_nat.induct)
  case (1 n)
  then show ?case
    by (cases "n < 10") (simp_all add: format_nat.simps [of 10 n] is_digit_digit_char)
qed

lemma is_digit_visible: "is_digit c \<Longrightarrow> visible c"
  by (simp add: is_digit_def visible_def)

lemma format_nat_visible: "list_all visible (format_nat 10 n)"
  using format_nat_digits [of n] by (auto simp: list_all_iff is_digit_visible)

lemma format_nat_set: "c \<in> set (format_nat 10 n) \<Longrightarrow> is_digit c"
  using format_nat_digits [of n] by (simp add: list_all_iff)

lemma ParseUint_format:
  "2 \<le> base \<Longrightarrow> base \<le> 16 \<Longrightarrow> n < 2 ^ bits \<Longrightarrow> ParseUint (format_nat base n) base bits = Some n"
  by (simp add: ParseUint_def parse_format)

lemma ParseUint_bound: "ParseUint s base bits = Some n \<Longrightarrow> n < 2 ^ bits"
  by (auto simp: ParseUint_def split: if_splits option.splits)

lemma Atoi_format:
  "int n < 2 ^ 63 \<Longrightarrow> Atoi (format_nat 10 n) = Some (int n)"
proof -
  assume n: "int n < 2 ^ 63"
  obtain c t where ct: "format_nat 10 n = c # t" by (meson format_nat_not_Nil neq_Nil_conv)
  then have "is_digit c" using format_nat_set [of c n] by simp
  then have "c \<noteq> CHR ''-''" "c \<noteq> CHR ''+''" by (auto simp: is_digit_def)
  with ct n parse_format [of 10 n] show ?thesis
    by (simp add: Atoi_def int_in_range_def)
qed

lemma Atoi_Itoa: "int_in_range n \<Longrightarrow> Atoi (Itoa n) = Some n"
proof (cases "n < 0")
  case True
  moreover assume "int_in_range n"
  ultimately show ?thesis
    using parse_format [of 10 "nat (- n)"] by (simp add: Itoa_def Atoi_def)
next
  case False
  moreover assume "int_in_range n"
  ultimately show ?thesis
    using Atoi_format [of "nat n"] by (simp add: Itoa_def int_in_range_def)
qed

lemma Atoi_range: "Atoi s = Some n \<Longrightarrow> int_in_range n"
  by (auto simp: Atoi_def Let_def split: list.splits if_splits option.splits)

lemma Itoa_chars: "0 \<le> n \<Longrightarrow> c \<in> set (Itoa n) \<Longrightarrow> is_digit c"
  by (auto simp: Itoa_def dest: format_nat_set)

lemma Itoa_absent: "0 \<le> n \<Longrightarrow> \<not> is_digit c \<Longrightarrow> c \<notin> set (Itoa n)"
  using Itoa_chars by blast

lemma Itoa_not_Nil [simp]: "Itoa n \<noteq> []"
  by (simp add: Itoa_def)

lemma Itoa_visible: "list_all visible (Itoa n)"
  by (simp add: Itoa_def format_nat_visible visible_def)

lemma parse_digits_zeros:
  "0 < base \<Longrightarrow> parse_digits base 0 (replicate k CHR ''0'' @ s) = parse_digits base 0 s"
  by (induction k) (simp_all add: digit_val_def)

lemma ParseUint_hex8: "n < 2 ^ 32 \<Longrightarrow> ParseUint (format_hex8 n) 16 32 = Some n"
  by (simp add: ParseUint_def format_hex8_def Let_def parse_digits_zeros parse_format)

lemma format_nat_length: "2 \<le> b \<Longrightarrow> n < b ^ Suc k \<Longrightarrow> length (format_nat b n) \<le> Suc k"
proof (induction k arbitrary: n)
  case 0
  then show ?case by (simp add: format_nat.simps)
next
  case (Suc k)
  show ?case
  proof (cases "n < b")
    case False
    have "n div b < b ^ Suc k" using Suc.prems by (simp add: less_mult_imp_div_less mult.commute)
    with Suc False show ?thesis by (simp add: format_nat.simps [of b n])
  qed (simp add: format_nat.simps)
qed

lemma length_format_hex8: "n < 2 ^ 32 \<Longrightarrow> length (format_hex8 n) = 8"
  using format_nat_length [of 16 n 7] by (simp add: format_hex8_def Let_def)

lemma format_nat_visible16: "list_all visible (format_nat 16 n)"
proof (induction "16::nat" n rule: format_nat.induct)
  case (1 n)
  then show ?case
    by (cases "n < 16") (simp_all add: format_nat.simps [of 16 n] visible_digit_char)
qed

lemma format_hex8_visible: "list_all visible (format_hex8 n)"
  using format_nat_visible16 [of n] by (auto simp: format_hex8_def Let_def list_all_iff visible_def)

end
