(* ===== verification/Interfaces.thy ===== *)
theory Interfaces
  imports GoStrconv
begin

text \<open>
  The contracts the components offer each other, as locales. A \<open>keyed_store\<close> is a container of
  values looked up by a key under an equivalence of keys: parameter lists (case-folded keys), header
  lists (canonical names) and the dialog table are interpretations. A \<open>codec\<close> is a printer with the
  parser that reads it back on the values \<open>wf\<close> describes. A \<open>step_system\<close> is a state machine with an
  invariant, a \<open>monotone_system\<close> one whose steps also respect an order.
\<close>

section \<open>Keyed stores\<close>

locale keyed_store =
  fixes put :: "'v \<Rightarrow> 's \<Rightarrow> 's"
    and get :: "'s \<Rightarrow> 'k \<Rightarrow> 'v option"
    and del :: "'k \<Rightarrow> 's \<Rightarrow> 's"
    and key :: "'v \<Rightarrow> 'k"
    and same :: "'k \<Rightarrow> 'k \<Rightarrow> bool"
    and invar :: "'s \<Rightarrow> bool"
  assumes same_refl: "same k k"
    and same_sym: "same k l \<Longrightarrow> same l k"
    and same_trans: "same k l \<Longrightarrow> same l m \<Longrightarrow> same k m"
    and invar_put: "invar s \<Longrightarrow> invar (put v s)"
    and invar_del: "invar s \<Longrightarrow> invar (del k s)"
    and get_put_hit: "invar s \<Longrightarrow> same (key v) k \<Longrightarrow> get (put v s) k = Some v"
    and get_put_miss: "invar s \<Longrightarrow> \<not> same (key v) k \<Longrightarrow> get (put v s) k = get s k"
    and get_del_hit: "invar s \<Longrightarrow> same k l \<Longrightarrow> get (del k s) l = None"
    and get_del_miss: "invar s \<Longrightarrow> \<not> same k l \<Longrightarrow> get (del k s) l = get s l"
begin

lemma get_put: "invar s \<Longrightarrow> get (put v s) k = (if same (key v) k then Some v else get s k)"
  by (simp add: get_put_hit get_put_miss)

lemma get_del: "invar s \<Longrightarrow> get (del k s) l = (if same k l then None else get s l)"
  by (simp add: get_del_hit get_del_miss)

lemma put_overwrites:
  "invar s \<Longrightarrow> same (key v) (key w) \<Longrightarrow> get (put w (put v s)) k = get (put w s) k"
  by (simp add: get_put invar_put) (meson same_sym same_trans)

lemma put_commutes:
  "invar s \<Longrightarrow> \<not> same (key v) (key w) \<Longrightarrow> get (put w (put v s)) k = get (put v (put w s)) k"
  by (simp add: get_put invar_put) (meson same_sym same_trans)

lemma del_put: "invar s \<Longrightarrow> get (del (key v) (put v s)) k = get (del (key v) s) k"
  by (simp add: get_put get_del invar_put)

text \<open>After a sequence of insertions the last one of a key is what a lookup finds.\<close>

lemma invar_puts: "invar s \<Longrightarrow> invar (fold put vs s)"
  by (induction vs arbitrary: s) (simp_all add: invar_put)

lemma get_puts:
  "invar s \<Longrightarrow> get (fold put vs s) k =
     (case find (\<lambda>v. same (key v) k) (rev vs) of Some v \<Rightarrow> Some v | None \<Rightarrow> get s k)"
proof (induction vs arbitrary: s)
  case (Cons v vs)
  then show ?case
    by (simp add: find_append get_put invar_put split: option.splits)
qed simp

end

section \<open>Printers with parsers\<close>

locale codec =
  fixes enc :: "'a \<Rightarrow> 's"
    and dec :: "'s \<Rightarrow> 'e + 'a"
    and wf :: "'a \<Rightarrow> bool"
  assumes dec_enc: "wf x \<Longrightarrow> dec (enc x) = Inr x"
begin

lemma enc_inj: "wf x \<Longrightarrow> wf y \<Longrightarrow> enc x = enc y \<Longrightarrow> x = y"
  by (metis dec_enc sum.inject(2))

lemma enc_never_fails: "wf x \<Longrightarrow> dec (enc x) \<noteq> Inl e"
  by (simp add: dec_enc)

end

text \<open>When the parser only yields well-formed values, printing is a normal form: parsing what was
  printed from a parsed value gives the value back.\<close>

locale normalising_codec = codec +
  assumes dec_wf: "dec s = Inr x \<Longrightarrow> wf x"
begin

lemma reparse: "dec s = Inr x \<Longrightarrow> dec (enc x) = Inr x"
  by (simp add: dec_enc dec_wf)

lemma same_meaning: "dec s = Inr x \<Longrightarrow> dec t = Inr y \<Longrightarrow> enc x = enc y \<longleftrightarrow> x = y"
  by (metis dec_wf enc_inj)

end

section \<open>Systems that run in steps\<close>

text \<open>A component that takes steps keeps an invariant; on the states of a run that satisfy it, an order
  that no step ever goes down (what is decided stays decided) holds between any two states of the run.\<close>

locale step_system =
  fixes init :: "'s \<Rightarrow> bool"
    and step :: "'s \<Rightarrow> 's \<Rightarrow> bool"
    and inv :: "'s \<Rightarrow> bool"
  assumes init_inv: "init s \<Longrightarrow> inv s"
    and step_inv: "inv s \<Longrightarrow> step s s' \<Longrightarrow> inv s'"
begin

lemma steps_inv: "step\<^sup>*\<^sup>* s s' \<Longrightarrow> inv s \<Longrightarrow> inv s'"
  by (induction rule: rtranclp_induct) (auto intro: step_inv)

lemma reachable_inv: "init s \<Longrightarrow> step\<^sup>*\<^sup>* s s' \<Longrightarrow> inv s'"
  using steps_inv init_inv by blast

end

locale monotone_system = step_system +
  fixes le :: "'s \<Rightarrow> 's \<Rightarrow> bool"
  assumes le_refl: "le s s"
    and le_trans: "le s t \<Longrightarrow> le t u \<Longrightarrow> le s u"
    and step_le: "inv s \<Longrightarrow> step s s' \<Longrightarrow> le s s'"
begin

lemma steps_le: "step\<^sup>*\<^sup>* s s' \<Longrightarrow> inv s \<Longrightarrow> le s s'"
proof (induction rule: rtranclp_induct)
  case (step t u)
  then have "inv t" using steps_inv by blast
  then show ?case using step le_trans step_le by blast
qed (rule le_refl)

end

text \<open>A component built on another that only changes the lower one by its steps: seen through \<open>below\<close>, every
  step of the upper component is a run of the lower one, so the lower one's guarantees hold in it.\<close>

locale layered_system = monotone_system +
  fixes upper :: "'u \<Rightarrow> 'u \<Rightarrow> bool"
    and below :: "'u \<Rightarrow> 's"
  assumes upper_step: "upper u u' \<Longrightarrow> step\<^sup>*\<^sup>* (below u) (below u')"
begin

lemma upper_run: "upper\<^sup>*\<^sup>* u u' \<Longrightarrow> step\<^sup>*\<^sup>* (below u) (below u')"
  by (induction rule: rtranclp_induct) (auto dest: upper_step)

lemma upper_inv: "upper\<^sup>*\<^sup>* u u' \<Longrightarrow> inv (below u) \<Longrightarrow> inv (below u')"
  using upper_run steps_inv by blast

lemma upper_le: "upper\<^sup>*\<^sup>* u u' \<Longrightarrow> inv (below u) \<Longrightarrow> le (below u) (below u')"
  using upper_run steps_le by blast

end

end
