(* ===== verification/Params.thy ===== *)
theory Params
  imports Interfaces
begin

text \<open>
  \<^verbatim>\<open>params.go\<close>: the ordered parameter lists of URIs and headers. A \<^verbatim>\<open>*Params\<close> is a
  \<open>Param list option\<close> (\<open>None\<close> is nil); the methods that tolerate a nil receiver take the option,
  the ones that would dereference it take the list. Keys are compared with \<open>EqualFold\<close>.
  Also \<open>sanitizeField\<close> of \<^verbatim>\<open>uri.go\<close>, which every printer uses.
\<close>

section \<open>Data and operations\<close>

record Param =
  Key :: string
  Val :: string
  HasValue :: bool

type_synonym Params = "Param list"

definition NewParams :: Params where
  "NewParams = []"

definition Params_Len :: "Params option \<Rightarrow> nat" where
  "Params_Len p = (case p of None \<Rightarrow> 0 | Some its \<Rightarrow> length its)"

fun Params_set :: "Param \<Rightarrow> Params \<Rightarrow> Params" where
  "Params_set param [] = [param]"
| "Params_set param (it # its) =
     (if EqualFold (Key it) (Key param) then param # its else it # Params_set param its)"

definition Params_Set :: "string \<Rightarrow> string \<Rightarrow> Params \<Rightarrow> Params" where
  "Params_Set key value p = Params_set \<lparr>Key = key, Val = value, HasValue = True\<rparr> p"

definition Params_SetFlag :: "string \<Rightarrow> Params \<Rightarrow> Params" where
  "Params_SetFlag key p = Params_set \<lparr>Key = key, Val = [], HasValue = False\<rparr> p"

text \<open>The loop that \<^verbatim>\<open>Get\<close> and \<^verbatim>\<open>Has\<close> share: the first item with the key.\<close>

definition Params_find :: "Params \<Rightarrow> string \<Rightarrow> Param option" where
  "Params_find p key = find (\<lambda>it. EqualFold (Key it) key) p"

definition Params_Get :: "Params option \<Rightarrow> string \<Rightarrow> string \<times> bool" where
  "Params_Get p key = (case p of
     None \<Rightarrow> ([], False)
   | Some its \<Rightarrow> (case Params_find its key of
        None \<Rightarrow> ([], False)
      | Some it \<Rightarrow> (Val it, HasValue it)))"

definition Params_Has :: "Params option \<Rightarrow> string \<Rightarrow> bool" where
  "Params_Has p key = (case p of None \<Rightarrow> False | Some its \<Rightarrow> Params_find its key \<noteq> None)"

fun Params_del :: "string \<Rightarrow> Params \<Rightarrow> Params" where
  "Params_del key [] = []"
| "Params_del key (it # its) = (if EqualFold (Key it) key then its else it # Params_del key its)"

definition Params_Del :: "string \<Rightarrow> Params option \<Rightarrow> Params option" where
  "Params_Del key p = map_option (Params_del key) p"

definition Params_Keys :: "Params option \<Rightarrow> string list" where
  "Params_Keys p = (case p of None \<Rightarrow> [] | Some its \<Rightarrow> map Key its)"

definition Params_Items :: "Params option \<Rightarrow> Param list" where
  "Params_Items p = (case p of None \<Rightarrow> [] | Some its \<Rightarrow> its)"

definition Params_Clone :: "Params option \<Rightarrow> Params option" where
  "Params_Clone p = (case p of None \<Rightarrow> None | Some its \<Rightarrow> Some its)"

definition sanitizeField :: "string \<Rightarrow> string" where
  "sanitizeField s =
     (if \<not> ContainsAny s [CR, LF, NUL] then s
      else filter (\<lambda>c. c \<notin> {CR, LF, NUL}) s)"

definition escapeParam :: "string \<Rightarrow> string" where
  "escapeParam v =
     (if \<not> ContainsAny v [DQ, CHR '';'', CHR ''?'', CHR '',''] then sanitizeField v
      else DQ # sanitizeField (escape_quotes v) @ [DQ])"

definition Param_String :: "Param \<Rightarrow> string" where
  "Param_String it = escapeParam (Key it) @ (if HasValue it then CHR ''='' # escapeParam (Val it) else [])"

definition Params_String :: "Params option \<Rightarrow> string" where
  "Params_String p = (case p of
     None \<Rightarrow> []
   | Some its \<Rightarrow> concat (map (\<lambda>it. CHR '';'' # Param_String it) its))"

text \<open>The scan of \<^verbatim>\<open>splitParamList\<close>: the two flags, the bytes since \<^verbatim>\<open>start\<close> and the rest.\<close>

fun splitParamList_loop :: "bool \<Rightarrow> bool \<Rightarrow> string \<Rightarrow> string \<Rightarrow> string list" where
  "splitParamList_loop escaped inQuote cur [] = [cur]"
| "splitParamList_loop escaped inQuote cur (c # s) =
     (if escaped then splitParamList_loop False inQuote (cur @ [c]) s
      else if c = BS \<and> inQuote then splitParamList_loop True inQuote (cur @ [c]) s
      else if c = DQ then splitParamList_loop escaped (\<not> inQuote) (cur @ [c]) s
      else if c = CHR '';'' \<and> \<not> inQuote then cur # splitParamList_loop escaped inQuote [] s
      else splitParamList_loop escaped inQuote (cur @ [c]) s)"

definition splitParamList :: "string \<Rightarrow> string list" where
  "splitParamList s = splitParamList_loop False False [] s"

definition unquote :: "string \<Rightarrow> string" where
  "unquote s =
     (if 2 \<le> length s \<and> hd s = DQ \<and> last s = DQ then unescape_quotes (butlast (tl s)) else s)"

definition key_forbidden :: string where
  "key_forbidden = [DQ] @ '';,?<>()@:'' @ [BS] @ ''[]''"

fun ParseParams_loop :: "string list \<Rightarrow> Params \<Rightarrow> Params result" where
  "ParseParams_loop [] p = Inr p"
| "ParseParams_loop (part # parts) p =
     (if part = [] then ParseParams_loop parts p
      else (case Cut part CHR ''='' of (k0, v, found) \<Rightarrow>
        (let k = TrimSpace k0 in
         if k = [] then Inl ErrParse
         else if ContainsAny k key_forbidden then Inl ErrParse
         else if found then
           ParseParams_loop parts (Params_Set (ToLower k) (unquote (TrimSpace v)) p)
         else ParseParams_loop parts (Params_SetFlag (ToLower k) p))))"

definition ParseParams :: "string \<Rightarrow> Params result" where
  "ParseParams s0 =
     (let s = TrimPrefix s0 '';'' in
      if s = [] then Inr NewParams
      else ParseParams_loop (splitParamList s) NewParams)"

section \<open>A parameter list is a keyed store\<close>

definition params_inv :: "Params \<Rightarrow> bool" where
  "params_inv p \<longleftrightarrow> distinct (map (ToLower \<circ> Key) p)"

lemma params_inv_Nil [simp, inv_intros]: "params_inv []"
  by (simp add: params_inv_def)

lemma keys_Params_set:
  "(ToLower \<circ> Key) ` set (Params_set q p) = insert (ToLower (Key q)) ((ToLower \<circ> Key) ` set p)"
  by (induction p) (auto simp: EqualFold_def)

lemma params_inv_set [inv_intros]: "params_inv p \<Longrightarrow> params_inv (Params_set q p)"
proof (induction p)
  case (Cons it p)
  then show ?case
    using keys_Params_set [of q p] by (auto simp: params_inv_def EqualFold_def)
qed (simp add: params_inv_def)

lemma set_Params_del: "set (Params_del k p) \<subseteq> set p"
  by (induction p) auto

lemma params_inv_del [inv_intros]: "params_inv p \<Longrightarrow> params_inv (Params_del k p)"
  using set_Params_del by (induction p) (fastforce simp: params_inv_def)+

lemma find_set_hit: "EqualFold (Key q) k \<Longrightarrow> Params_find (Params_set q p) k = Some q"
  by (induction p) (auto simp: Params_find_def EqualFold_def)

lemma find_set_miss:
  "\<not> EqualFold (Key q) k \<Longrightarrow> Params_find (Params_set q p) k = Params_find p k"
  by (induction p) (auto simp: Params_find_def EqualFold_def)

lemma find_None_iff_keys: "Params_find p k = None \<longleftrightarrow> ToLower k \<notin> (ToLower \<circ> Key) ` set p"
  by (force simp: Params_find_def find_None_iff EqualFold_def)

lemma find_del_hit:
  "params_inv p \<Longrightarrow> EqualFold k l \<Longrightarrow> Params_find (Params_del k p) l = None"
proof (induction p)
  case (Cons it p)
  then show ?case
    by (auto simp: params_inv_def EqualFold_def find_None_iff_keys)
qed (simp add: Params_find_def)

lemma find_del_miss: "\<not> EqualFold k l \<Longrightarrow> Params_find (Params_del k p) l = Params_find p l"
  by (induction p) (auto simp: Params_find_def EqualFold_def)

interpretation params_store: keyed_store Params_set Params_find Params_del Key EqualFold params_inv
  by unfold_locales
    (auto intro: EqualFold_sym EqualFold_trans inv_intros
          simp: find_set_hit find_set_miss find_del_hit find_del_miss)

section \<open>What the printers emit\<close>

lemma set_sanitizeField: "set (sanitizeField s) \<inter> {CR, LF, NUL} = {}"
  by (auto simp: sanitizeField_def ContainsAny_iff)

lemma sanitizeField_id: "set s \<inter> {CR, LF, NUL} = {} \<Longrightarrow> sanitizeField s = s"
  by (simp add: sanitizeField_def ContainsAny_iff)

lemma sanitizeField_idem [simp]: "sanitizeField (sanitizeField s) = sanitizeField s"
  by (rule sanitizeField_id [OF set_sanitizeField])

lemma set_escapeParam: "set (escapeParam v) \<inter> {CR, LF, NUL} = {}"
  using set_sanitizeField [of v] set_sanitizeField [of "escape_quotes v"]
  by (auto simp: escapeParam_def)

lemma set_Params_String: "set (Params_String p) \<inter> {CR, LF, NUL} = {}"
  using set_escapeParam
  by (fastforce simp: Params_String_def Param_String_def split: option.splits if_splits)

section \<open>Reading back what was printed\<close>

text \<open>Values that survive printing: no backslash and no CR, LF or NUL (which are stripped), and
  either a character that forces quoting or no surrounding white space.\<close>

definition wf_value :: "string \<Rightarrow> bool" where
  "wf_value v \<longleftrightarrow> BS \<notin> set v \<and> set v \<inter> {CR, LF, NUL} = {} \<and>
     (ContainsAny v [DQ, CHR '';'', CHR ''?'', CHR '',''] \<or> trimmed v)"

definition wf_key :: "string \<Rightarrow> bool" where
  "wf_key k \<longleftrightarrow> k \<noteq> [] \<and> ToLower k = k \<and> list_all visible k \<and>
     CHR ''='' \<notin> set k \<and> \<not> ContainsAny k key_forbidden"

definition wf_param :: "Param \<Rightarrow> bool" where
  "wf_param it \<longleftrightarrow> wf_key (Key it) \<and> (if HasValue it then wf_value (Val it) else Val it = [])"

definition wf_params :: "Params \<Rightarrow> bool" where
  "wf_params p \<longleftrightarrow> list_all wf_param p \<and> params_inv p"

lemma visible_not_ctl: "list_all visible s \<Longrightarrow> set s \<inter> {CR, LF, NUL} = {}"
  by (auto simp: list_all_iff visible_def)

lemma escapeParam_key: "wf_key k \<Longrightarrow> escapeParam k = k"
  by (auto simp: wf_key_def escapeParam_def ContainsAny_iff key_forbidden_def
      intro!: sanitizeField_id visible_not_ctl)

lemma splitParamList_plain:
  "set w \<inter> {DQ, CHR '';''} = {} \<Longrightarrow>
   splitParamList_loop False False cur (w @ s) = splitParamList_loop False False (cur @ w) s"
  by (induction w arbitrary: cur) auto

lemma splitParamList_quoted:
  "BS \<notin> set v \<Longrightarrow>
   splitParamList_loop False True cur (escape_quotes v @ DQ # s) =
   splitParamList_loop False False (cur @ escape_quotes v @ [DQ]) s"
  by (induction v arbitrary: cur) auto

lemma splitParamList_value:
  assumes "wf_value v"
  shows "splitParamList_loop False False cur (escapeParam v @ s) =
         splitParamList_loop False False (cur @ escapeParam v) s"
proof (cases "ContainsAny v [DQ, CHR '';'', CHR ''?'', CHR '','']")
  case True
  have "set (escape_quotes v) \<inter> {CR, LF, NUL} = {}"
    using assms set_escape_quotes [of v] by (fastforce simp: wf_value_def)
  then have "escapeParam v = DQ # escape_quotes v @ [DQ]"
    using True by (simp add: escapeParam_def sanitizeField_id)
  then show ?thesis
    using assms by (simp add: splitParamList_quoted wf_value_def)
next
  case False
  then have "escapeParam v = v" "set v \<inter> {DQ, CHR '';''} = {}"
    using assms by (auto simp: escapeParam_def wf_value_def sanitizeField_id ContainsAny_iff)
  then show ?thesis by (simp add: splitParamList_plain)
qed

lemma splitParamList_param:
  assumes "wf_param it"
  shows "splitParamList_loop False False cur (Param_String it @ s) =
         splitParamList_loop False False (cur @ Param_String it) s"
proof -
  have k: "set (Key it) \<inter> {DQ, CHR '';''} = {}" "escapeParam (Key it) = Key it"
    using assms
    by (auto simp: wf_param_def wf_key_def ContainsAny_iff key_forbidden_def escapeParam_key)
  show ?thesis
    using assms k
      splitParamList_plain [of "Key it" cur "CHR ''='' # escapeParam (Val it) @ s"]
      splitParamList_value [of "Val it" "cur @ Key it @ ''=''" s]
    by (auto simp: Param_String_def wf_param_def splitParamList_plain)
qed

lemma splitParamList_params:
  "list_all wf_param (it # its) \<Longrightarrow>
   splitParamList_loop False False cur
     (Param_String it @ concat (map (\<lambda>it. CHR '';'' # Param_String it) its)) =
   (cur @ Param_String it) # map Param_String its"
proof (induction its arbitrary: it cur)
  case Nil
  then show ?case using splitParamList_param [of it cur "[]"] by simp
next
  case (Cons it' its)
  then show ?case using Cons.IH [of it' "[]"] by (simp add: splitParamList_param)
qed

lemma unquote_escapeParam: "wf_value v \<Longrightarrow> unquote (TrimSpace (escapeParam v)) = v"
proof (cases "ContainsAny v [DQ, CHR '';'', CHR ''?'', CHR '','']")
  case True
  assume v: "wf_value v"
  then have "set (escape_quotes v) \<inter> {CR, LF, NUL} = {}"
    using set_escape_quotes [of v] by (fastforce simp: wf_value_def)
  then have e: "escapeParam v = DQ # escape_quotes v @ [DQ]"
    using True by (simp add: escapeParam_def sanitizeField_id)
  then have "TrimSpace (escapeParam v) = escapeParam v"
    by (simp add: TrimSpace_vis vis_ends_def visible_def)
  then show ?thesis
    using v e by (simp add: unquote_def unescape_escape wf_value_def butlast_append)
next
  case False
  assume v: "wf_value v"
  with False have e: "escapeParam v = v" "trimmed v" "DQ \<notin> set v"
    by (auto simp: escapeParam_def wf_value_def sanitizeField_id ContainsAny_iff)
  then show ?thesis
    by (cases v) (auto simp: TrimSpace_trimmed unquote_def)
qed

lemma Params_set_fresh:
  "ToLower (Key q) \<notin> (ToLower \<circ> Key) ` set p \<Longrightarrow> Params_set q p = p @ [q]"
  by (induction p) (auto simp: EqualFold_def)

lemma ParseParams_part:
  assumes "wf_param it" "ToLower (Key it) \<notin> (ToLower \<circ> Key) ` set p"
  shows "ParseParams_loop (Param_String it # parts) p = ParseParams_loop parts (p @ [it])"
proof -
  have k: "wf_key (Key it)" using assms by (simp add: wf_param_def)
  then have key: "TrimSpace (Key it) = Key it" "Key it \<noteq> []" "ToLower (Key it) = Key it"
      "\<not> ContainsAny (Key it) key_forbidden" "CHR ''='' \<notin> set (Key it)"
      "escapeParam (Key it) = Key it"
    by (auto simp: wf_key_def escapeParam_key intro: TrimSpace_vis vis_ends_all)
  show ?thesis
  proof (cases "HasValue it")
    case True
    then have "it = \<lparr>Key = Key it, Val = Val it, HasValue = True\<rparr>" by (cases it) simp
    then have "Params_Set (Key it) (Val it) p = p @ [it]"
      using assms(2) Params_set_fresh by (metis Params_Set_def)
    with True assms key show ?thesis
      by (simp add: Param_String_def Cut_append unquote_escapeParam wf_param_def)
  next
    case False
    then have "it = \<lparr>Key = Key it, Val = [], HasValue = False\<rparr>"
      using assms by (cases it) (simp add: wf_param_def)
    then have "Params_SetFlag (Key it) p = p @ [it]"
      using assms(2) Params_set_fresh by (metis Params_SetFlag_def)
    with False assms key show ?thesis
      by (simp add: Param_String_def Cut_none)
  qed
qed

lemma ParseParams_parts:
  "list_all wf_param its \<Longrightarrow> distinct (map (ToLower \<circ> Key) (p @ its)) \<Longrightarrow>
   ParseParams_loop (map Param_String its) p = Inr (p @ its)"
proof (induction its arbitrary: p)
  case (Cons it its)
  then have "ParseParams_loop (map Param_String (it # its)) p =
      ParseParams_loop (map Param_String its) (p @ [it])"
    using ParseParams_part [of it p "map Param_String its"] by (simp del: ParseParams_loop.simps)
  also have "\<dots> = Inr ((p @ [it]) @ its)"
    using Cons.prems by (intro Cons.IH) simp_all
  finally show ?case by simp
qed simp

lemma Param_String_not_Nil: "wf_param it \<Longrightarrow> Param_String it \<noteq> []"
  by (simp add: Param_String_def wf_param_def escapeParam_key) (simp add: wf_key_def)

lemma ParseParams_String:
  assumes "wf_params p"
  shows "ParseParams (Params_String (Some p)) = Inr p"
proof (cases p)
  case Nil
  then show ?thesis
    by (simp add: Params_String_def ParseParams_def TrimPrefix_def HasPrefix_def NewParams_def)
next
  case (Cons it its)
  then have wf: "list_all wf_param (it # its)" "distinct (map (ToLower \<circ> Key) (it # its))"
    using assms by (simp_all add: wf_params_def params_inv_def)
  let ?s = "Param_String it @ concat (map (\<lambda>it. CHR '';'' # Param_String it) its)"
  have "TrimPrefix (Params_String (Some p)) '';'' = ?s"
    using Cons by (simp add: Params_String_def TrimPrefix_def HasPrefix_def)
  moreover have "?s \<noteq> []" using wf by (simp add: Param_String_not_Nil)
  moreover have "splitParamList ?s = map Param_String (it # its)"
    using splitParamList_params [of it its "[]"] wf by (simp add: splitParamList_def)
  moreover have "ParseParams_loop (map Param_String (it # its)) NewParams = Inr p"
    using ParseParams_parts [of "it # its" "[]"] wf Cons by (simp add: NewParams_def)
  ultimately show ?thesis by (simp only: ParseParams_def Let_def if_False)
qed

interpretation params_codec: codec "\<lambda>p. Params_String (Some p)" ParseParams wf_params
  by unfold_locales (rule ParseParams_String)

section \<open>What the parser accepts\<close>

definition parsed_params :: "Params \<Rightarrow> bool" where
  "parsed_params p \<longleftrightarrow> params_inv p \<and>
     (\<forall>it \<in> set p. Key it \<noteq> [] \<and> ToLower (Key it) = Key it)"

lemma parsed_params_set:
  "parsed_params p \<Longrightarrow> Key q \<noteq> [] \<Longrightarrow> ToLower (Key q) = Key q \<Longrightarrow> parsed_params (Params_set q p)"
proof -
  have "set (Params_set q p) \<subseteq> insert q (set p)" by (induction p) auto
  then show "parsed_params p \<Longrightarrow> Key q \<noteq> [] \<Longrightarrow> ToLower (Key q) = Key q \<Longrightarrow> ?thesis"
    by (auto simp: parsed_params_def params_inv_set)
qed

lemma ParseParams_loop_parsed:
  "parsed_params p \<Longrightarrow> ParseParams_loop parts p = Inr q \<Longrightarrow> parsed_params q"
proof (induction parts arbitrary: p)
  case (Cons part parts)
  then show ?case
    by (cases "Cut part CHR ''=''")
       (auto simp: Let_def Params_Set_def Params_SetFlag_def split: if_splits
             intro!: parsed_params_set dest!: Cons.IH [rotated])
qed simp

lemma ParseParams_parsed: "ParseParams s = Inr p \<Longrightarrow> parsed_params p"
  by (auto simp: ParseParams_def Let_def NewParams_def parsed_params_def split: if_splits
      dest: ParseParams_loop_parsed [rotated])

section \<open>Properties\<close>

text \<open>A parameter list with well-formed, distinct keys is read back from what \<open>String\<close>
  prints for it, quoted and escaped values included.\<close>

theorem params_roundtrip: "wf_params p \<Longrightarrow> ParseParams (Params_String (Some p)) = Inr p"
  by (rule params_codec.dec_enc)

theorem params_roundtrip_witness:
  "ParseParams (Params_String (Some [\<lparr>Key = ''tag'', Val = ''a;b'', HasValue = True\<rparr>, \<lparr>Key = ''lr'', Val = [], HasValue = False\<rparr>]))
     = Inr [\<lparr>Key = ''tag'', Val = ''a;b'', HasValue = True\<rparr>, \<lparr>Key = ''lr'', Val = [], HasValue = False\<rparr>]"
  by (rule params_roundtrip) code_simp

text \<open>A parameter list is a map with case-insensitive keys: after any sequence of
  settings, a lookup finds the last value set under that key, and what was there before if there is none.\<close>

theorem params_lookup:
  "params_inv p \<Longrightarrow> Params_find (fold Params_set qs p) k =
     (case find (\<lambda>q. EqualFold (Key q) k) (rev qs) of Some q \<Rightarrow> Some q | None \<Rightarrow> Params_find p k)"
  by (rule params_store.get_puts)

theorem params_lookup_witness:
  "Params_find (fold Params_set [\<lparr>Key = ''Tag'', Val = ''1'', HasValue = True\<rparr>] []) ''TAG'' =
     Some \<lparr>Key = ''Tag'', Val = ''1'', HasValue = True\<rparr>"
proof -
  have "EqualFold ''Tag'' ''TAG''" by code_simp
  then show ?thesis
    using params_lookup [of "[]" "[\<lparr>Key = ''Tag'', Val = ''1'', HasValue = True\<rparr>]" "''TAG''"] by simp
qed

end
