(* ===== verification/Uri.thy ===== *)
theory Uri
  imports Params
begin

text \<open>
  \<^verbatim>\<open>uri.go\<close>: SIP URIs, their parser and printer, comparison and redaction. A \<^verbatim>\<open>*Uri\<close> is a
  \<open>Uri option\<close> for the methods that tolerate nil.
\<close>

section \<open>Data\<close>

record Uri =
  Scheme :: string
  User :: string
  Password :: string
  Host :: string
  Port :: int
  UParams :: "Params option"
  UHeaders :: "Params option"

definition SchemeSIP :: string where "SchemeSIP = ''sip''"
definition SchemeSIPS :: string where "SchemeSIPS = ''sips''"
definition SchemeTel :: string where "SchemeTel = ''tel''"

section \<open>Parser\<close>

text \<open>The three parts of \<^verbatim>\<open>ParseUri\<close>, in the order the code has them: the cut at the first of
  semicolon and question mark, the user info, the host with its port.\<close>

definition uri_split_rest :: "string \<Rightarrow> string \<times> string \<times> string" where
  "uri_split_rest rest = (case IndexAny rest '';?'' of
     None \<Rightarrow> (rest, [], [])
   | Some i \<Rightarrow>
       (let hostPart = TrimSpace (take i rest); r = drop i rest in
        if r ! 0 = CHR '';'' then
          (case IndexByte r CHR ''?'' of
             Some pi \<Rightarrow> (hostPart, take pi r, drop (pi + 1) r)
           | None \<Rightarrow> (hostPart, r, []))
        else (hostPart, [], drop 1 r)))"

definition uri_userinfo :: "string \<Rightarrow> string \<times> string \<times> string" where
  "uri_userinfo hostPart = (case LastIndexByte hostPart CHR ''@'' of
     None \<Rightarrow> ([], [], hostPart)
   | Some at \<Rightarrow>
       (let userinfo = take at hostPart; h = drop (at + 1) hostPart in
        case IndexByte userinfo CHR '':'' of
          Some up \<Rightarrow> (take up userinfo, drop (up + 1) userinfo, h)
        | None \<Rightarrow> (userinfo, [], h)))"

definition uri_host_port :: "string \<Rightarrow> (string \<times> int) result" where
  "uri_host_port host =
     (if HasPrefix host ''['' then
        (case IndexByte host CHR '']'' of
           None \<Rightarrow> Inl ErrBadUri
         | Some e \<Rightarrow>
             if e + 1 < length host then
               (if host ! (e + 1) \<noteq> CHR '':'' then Inl ErrBadUri
                else (case Atoi (drop (e + 2) host) of
                        None \<Rightarrow> Inl ErrBadUri
                      | Some port \<Rightarrow> Inr (take (e + 1) host, port)))
             else Inr (take (e + 1) host, 0))
      else (case LastIndexByte host CHR '':'' of
              Some i \<Rightarrow> (case Atoi (drop (i + 1) host) of
                           None \<Rightarrow> Inl ErrBadUri
                         | Some port \<Rightarrow> Inr (take i host, port))
            | None \<Rightarrow> Inr (host, 0)))"

fun uri_headers_loop :: "string list \<Rightarrow> Params \<Rightarrow> Params" where
  "uri_headers_loop [] p = p"
| "uri_headers_loop (part # parts) p =
     (case Cut part CHR ''='' of (k, v, _) \<Rightarrow>
        uri_headers_loop parts (if k \<noteq> [] then Params_Set k v p else p))"

definition ParseUri :: "string \<Rightarrow> Uri result" where
  "ParseUri s0 =
     (let s = TrimSpace s0 in
      if s = [] then Inl ErrBadUri
      else if list_ex is_control s then Inl ErrBadUri
      else (case Cut s CHR '':'' of (scheme, rest, found) \<Rightarrow>
        if \<not> found then Inl ErrBadUri
        else if ToLower scheme \<notin> {SchemeSIP, SchemeSIPS, SchemeTel} then Inl ErrBadUri
        else (case uri_split_rest rest of (hostPart, params, headers) \<Rightarrow>
          (case uri_userinfo hostPart of (user, password, hostPart1) \<Rightarrow>
            (let hostPart2 = TrimSpace hostPart1 in
             if hostPart1 = [] \<or> hostPart2 = [] then Inl ErrBadUri
             else bind_result (uri_host_port hostPart2) (\<lambda>(host0, port).
               (let host = TrimSpace host0 in
                if host = [] then Inl ErrBadUri
                else if CHR '':'' \<in> set host \<and> \<not> HasPrefix host ''['' then Inl ErrBadUri
                else bind_result
                  (if params \<noteq> [] then bind_result (ParseParams params) (\<lambda>p. Inr (Some p))
                   else Inr None)
                  (\<lambda>ps. Inr \<lparr>Scheme = ToLower scheme, User = user, Password = password,
                     Host = host, Port = port, UParams = ps,
                     UHeaders = (if headers \<noteq> []
                       then Some (uri_headers_loop (Split headers CHR ''&'') NewParams)
                       else None)\<rparr>))))))))"

section \<open>Printer and accessors\<close>

definition Uri_IsEncrypted :: "Uri option \<Rightarrow> bool" where
  "Uri_IsEncrypted u = (case u of None \<Rightarrow> False | Some v \<Rightarrow> Scheme v = SchemeSIPS)"

definition Uri_HostPort :: "Uri option \<Rightarrow> string" where
  "Uri_HostPort u = (case u of
     None \<Rightarrow> []
   | Some v \<Rightarrow> if 0 < Port v then Host v @ '':'' @ Itoa (Port v) else Host v)"

definition Uri_EffectivePort :: "Uri option \<Rightarrow> int" where
  "Uri_EffectivePort u = (case u of
     None \<Rightarrow> 0
   | Some v \<Rightarrow> if 0 < Port v then Port v else if Scheme v = SchemeSIPS then 5061 else 5060)"

definition Uri_Clone :: "Uri option \<Rightarrow> Uri option" where
  "Uri_Clone u = (case u of
     None \<Rightarrow> None
   | Some v \<Rightarrow> Some (v\<lparr>UParams := Params_Clone (UParams v), UHeaders := Params_Clone (UHeaders v)\<rparr>))"

definition Uri_paramsEqual :: "Uri \<Rightarrow> Uri \<Rightarrow> bool" where
  "Uri_paramsEqual u v \<longleftrightarrow>
     list_all (\<lambda>k. Params_Get (UParams u) k = Params_Get (UParams v) k)
       [''user'', ''transport'', ''lr'', ''method'', ''ttl'', ''maddr'']"

definition Uri_Equal :: "Uri option \<Rightarrow> Uri option \<Rightarrow> bool" where
  "Uri_Equal a b = (case (a, b) of
     (Some u, Some v) \<Rightarrow>
       if Scheme u \<noteq> Scheme v \<or> \<not> EqualFold (User u) (User v) \<or>
          \<not> EqualFold (Host u) (Host v) \<or> Port u \<noteq> Port v
       then False else Uri_paramsEqual u v
   | _ \<Rightarrow> a = None \<and> b = None)"

definition uri_header_string :: "Param \<Rightarrow> string" where
  "uri_header_string it =
     sanitizeField (Key it) @ (if HasValue it then ''='' @ sanitizeField (Val it) else [])"

definition Uri_String :: "Uri option \<Rightarrow> string" where
  "Uri_String u = (case u of
     None \<Rightarrow> []
   | Some v \<Rightarrow>
       (let host = sanitizeField (Host v) in
        sanitizeField (Scheme v) @ '':'' @
        (if User v \<noteq> [] then
           sanitizeField (User v) @
           (if Password v \<noteq> [] then '':'' @ sanitizeField (Password v) else []) @ ''@''
         else []) @
        (if CHR '':'' \<in> set host \<and> \<not> HasPrefix host ''['' then ''['' @ host @ '']'' else host) @
        (if 0 < Port v then '':'' @ Itoa (Port v) else []) @
        sanitizeField (Params_String (UParams v)) @
        (case UHeaders v of
           None \<Rightarrow> []
         | Some h \<Rightarrow> if 0 < length h then ''?'' @ Join (map uri_header_string h) ''&'' else [])))"

definition RedactUri :: "Uri option \<Rightarrow> string" where
  "RedactUri u = (case u of
     None \<Rightarrow> []
   | Some v \<Rightarrow> if Password v = [] then Uri_String u
               else Uri_String (map_option (\<lambda>r. r\<lparr>Password := ''***''\<rparr>) (Uri_Clone u)))"

section \<open>Clones and comparison\<close>

lemma Params_Clone_id [simp]: "Params_Clone p = p"
  by (simp add: Params_Clone_def split: option.split)

lemma Uri_Clone_id [simp]: "Uri_Clone u = u"
  by (simp add: Uri_Clone_def split: option.split)

lemma Uri_Equal_refl: "Uri_Equal u u"
  by (cases u) (simp_all add: Uri_Equal_def Uri_paramsEqual_def)

lemma Uri_Equal_sym: "Uri_Equal u v \<Longrightarrow> Uri_Equal v u"
  by (cases u; cases v)
     (auto simp: Uri_Equal_def Uri_paramsEqual_def intro: EqualFold_sym split: if_splits)

lemma Uri_Equal_trans: "Uri_Equal u v \<Longrightarrow> Uri_Equal v w \<Longrightarrow> Uri_Equal u w"
  by (cases u; cases v; cases w)
     (auto simp: Uri_Equal_def Uri_paramsEqual_def intro: EqualFold_trans split: if_splits)

section \<open>What the printer emits\<close>

lemma set_Join: "set (Join ps sep) \<subseteq> set sep \<union> (\<Union>p \<in> set ps. set p)"
  by (induction ps sep rule: Join.induct) auto

lemma Itoa_no_ctl: "set (Itoa n) \<inter> {CR, LF, NUL} = {}"
  by (rule visible_not_ctl [OF Itoa_visible])

lemma Itoa_not_ctl_chars [simp]:
  "CR \<notin> set (Itoa n)" "LF \<notin> set (Itoa n)" "NUL \<notin> set (Itoa n)"
  using Itoa_no_ctl [of n] by auto

lemma sanitizeField_not_ctl_chars [simp]:
  "CR \<notin> set (sanitizeField s)" "LF \<notin> set (sanitizeField s)" "NUL \<notin> set (sanitizeField s)"
  using set_sanitizeField [of s] by auto

lemma uri_headers_no_ctl: "set (Join (map uri_header_string h) ''&'') \<inter> {CR, LF, NUL} = {}"
proof -
  have "set (uri_header_string it) \<inter> {CR, LF, NUL} = {}" for it
    by (auto simp: uri_header_string_def)
  then show ?thesis
    using set_Join [of "map uri_header_string h" "''&''"] by fastforce
qed

lemma Uri_String_no_ctl: "set (Uri_String u) \<inter> {CR, LF, NUL} = {}"
proof (cases u)
  case (Some v)
  have "set (case UHeaders v of None \<Rightarrow> [] | Some h \<Rightarrow>
      if 0 < length h then ''?'' @ Join (map uri_header_string h) ''&'' else []) \<inter> {CR, LF, NUL} = {}"
    using uri_headers_no_ctl by (auto split: option.split)
  then show ?thesis
    using Some by (auto simp: Uri_String_def Let_def)
qed (simp add: Uri_String_def)

lemma RedactUri_password:
  "p \<noteq> [] \<Longrightarrow> q \<noteq> [] \<Longrightarrow> RedactUri (Some (u\<lparr>Password := p\<rparr>)) = RedactUri (Some (u\<lparr>Password := q\<rparr>))"
  by (simp add: RedactUri_def)

section \<open>What the parser accepts\<close>

lemma take_drop_chars: "set (take i s) \<subseteq> set s" "set (drop i s) \<subseteq> set s"
  by (rule set_take_subset, rule set_drop_subset)

lemma Cut_chars: "Cut s c = (a, b, f) \<Longrightarrow> set a \<subseteq> set s \<and> set b \<subseteq> set s"
  by (auto simp: Cut_def split: option.splits dest: in_set_takeD in_set_dropD)

lemma uri_split_rest_chars:
  "uri_split_rest r = (h, p, q) \<Longrightarrow> set h \<subseteq> set r"
  using set_TrimSpace
  by (fastforce simp: uri_split_rest_def Let_def split: option.splits if_splits dest: in_set_takeD)

lemma uri_userinfo_chars:
  "uri_userinfo r = (u, p, h) \<Longrightarrow> set u \<subseteq> set r \<and> set p \<subseteq> set r \<and> set h \<subseteq> set r"
  by (auto simp: uri_userinfo_def Let_def split: option.splits dest: in_set_takeD in_set_dropD)

lemma uri_host_port_chars:
  "uri_host_port h = Inr (h', n) \<Longrightarrow> set h' \<subseteq> set h \<and> int_in_range n"
  by (auto simp: uri_host_port_def int_in_range_def split: if_splits option.splits
      dest: in_set_takeD Atoi_range [unfolded int_in_range_def])

definition parsed_uri :: "Uri \<Rightarrow> bool" where
  "parsed_uri u \<longleftrightarrow>
     Scheme u \<in> {SchemeSIP, SchemeSIPS, SchemeTel} \<and> Host u \<noteq> [] \<and> trimmed (Host u) \<and>
     \<not> list_ex is_control (User u @ Password u @ Host u) \<and> int_in_range (Port u) \<and>
     (CHR '':'' \<in> set (Host u) \<longrightarrow> HasPrefix (Host u) ''['') \<and>
     (\<forall>p. UParams u = Some p \<longrightarrow> parsed_params p)"

lemma ParseUri_parsed:
  assumes "ParseUri s0 = Inr u"
  shows "parsed_uri u"
proof -
  define s where "s = TrimSpace s0"
  obtain scheme rest found where cut: "Cut s CHR '':'' = (scheme, rest, found)"
    by (cases "Cut s CHR '':''") auto
  obtain h0 ps hs where split: "uri_split_rest rest = (h0, ps, hs)"
    by (cases "uri_split_rest rest") auto
  obtain us pw h1 where ui: "uri_userinfo h0 = (us, pw, h1)"
    by (cases "uri_userinfo h0") auto
  from assms cut split ui have s: "\<not> list_ex is_control s"
    and sch: "ToLower scheme \<in> {SchemeSIP, SchemeSIPS, SchemeTel}"
    by (auto simp: ParseUri_def Let_def s_def [symmetric] split: if_splits)
  from assms cut split ui s sch obtain host0 port where
    hp: "uri_host_port (TrimSpace h1) = Inr (host0, port)" and
    h: "TrimSpace host0 \<noteq> []" and
    colon: "CHR '':'' \<in> set (TrimSpace host0) \<longrightarrow> HasPrefix (TrimSpace host0) ''[''" and
    u: "Scheme u = ToLower scheme" "User u = us" "Password u = pw" "Host u = TrimSpace host0"
       "Port u = port" and
    pp: "\<forall>p. UParams u = Some p \<longrightarrow> ParseParams ps = Inr p"
    by (auto simp: ParseUri_def Let_def s_def [symmetric] bind_result_eq_Inr split: if_splits)
  have "set us \<union> set pw \<union> set (TrimSpace host0) \<subseteq> set s"
    using Cut_chars [OF cut] uri_split_rest_chars [OF split] uri_userinfo_chars [OF ui]
      uri_host_port_chars [OF hp] set_TrimSpace [of h1] set_TrimSpace [of host0] by blast
  then have "\<not> list_ex is_control (us @ pw @ TrimSpace host0)"
    using s by (auto simp: list_ex_iff)
  then show ?thesis
    using u sch h colon pp uri_host_port_chars [OF hp] trimmed_TrimSpace [of host0] ParseParams_parsed
    by (auto simp: parsed_uri_def)
qed

section \<open>Reading back what was printed\<close>

text \<open>URIs that survive printing: visible characters, the delimiters only where the grammar has
  them, a bracketed or colon-free host, a port that is printed (positive) or absent.\<close>

definition wf_host :: "string \<Rightarrow> bool" where
  "wf_host h \<longleftrightarrow> list_all visible h \<and> h \<noteq> [] \<and> set h \<inter> set '';?@'' = {} \<and>
     (if HasPrefix h ''['' then IndexByte h CHR '']'' = Some (length h - 1) else CHR '':'' \<notin> set h)"

definition wf_userinfo :: "string \<Rightarrow> string \<Rightarrow> bool" where
  "wf_userinfo u p \<longleftrightarrow> list_all visible (u @ p) \<and> set (u @ p) \<inter> set '';?'' = {} \<and>
     CHR '':'' \<notin> set u \<and> (u = [] \<longrightarrow> p = [])"

definition wf_uri_header :: "Param \<Rightarrow> bool" where
  "wf_uri_header it \<longleftrightarrow> HasValue it \<and> Key it \<noteq> [] \<and> list_all visible (Key it @ Val it) \<and>
     set (Key it) \<inter> set ''=&'' = {} \<and> CHR ''&'' \<notin> set (Val it)"

definition wf_uri :: "Uri \<Rightarrow> bool" where
  "wf_uri u \<longleftrightarrow>
     Scheme u \<in> {SchemeSIP, SchemeSIPS, SchemeTel} \<and> wf_userinfo (User u) (Password u) \<and>
     wf_host (Host u) \<and> 0 \<le> Port u \<and> int_in_range (Port u) \<and>
     (case UParams u of None \<Rightarrow> True
      | Some p \<Rightarrow> p \<noteq> [] \<and> wf_params p \<and> list_all visible (Params_String (Some p))
                 \<and> CHR ''?'' \<notin> set (Params_String (Some p))) \<and>
     (case UHeaders u of None \<Rightarrow> True
      | Some h \<Rightarrow> h \<noteq> [] \<and> list_all wf_uri_header h \<and> params_inv h)"

definition uri_authority :: "Uri \<Rightarrow> string" where
  "uri_authority u =
     (if User u \<noteq> [] then User u @ (if Password u \<noteq> [] then '':'' @ Password u else []) @ ''@'' else []) @
     Host u @ (if 0 < Port u then '':'' @ Itoa (Port u) else [])"

definition uri_params_part :: "Uri \<Rightarrow> string" where
  "uri_params_part u = Params_String (UParams u)"

definition uri_headers_part :: "Uri \<Rightarrow> string" where
  "uri_headers_part u = (case UHeaders u of None \<Rightarrow> [] | Some h \<Rightarrow> Join (map uri_header_string h) ''&'')"

lemma sanitize_visible: "list_all visible s \<Longrightarrow> sanitizeField s = s"
  by (rule sanitizeField_id [OF visible_not_ctl])

lemma Uri_String_wf:
  assumes "wf_uri u"
  shows "Uri_String (Some u) = Scheme u @ '':'' @ uri_authority u @ uri_params_part u @
    (if UHeaders u = None then [] else CHR ''?'' # uri_headers_part u)"
proof -
  have san: "sanitizeField (Scheme u) = Scheme u" "sanitizeField (User u) = User u"
      "sanitizeField (Password u) = Password u" "sanitizeField (Host u) = Host u"
    using assms
    by (auto simp: wf_uri_def wf_userinfo_def wf_host_def SchemeSIP_def SchemeSIPS_def SchemeTel_def
        visible_def intro!: sanitize_visible)
  have "sanitizeField (Params_String (UParams u)) = Params_String (UParams u)"
    by (rule sanitizeField_id [OF set_Params_String])
  moreover have "\<not> (CHR '':'' \<in> set (Host u) \<and> \<not> HasPrefix (Host u) ''['')"
    using assms by (auto simp: wf_uri_def wf_host_def split: if_splits)
  ultimately show ?thesis
    using assms san
    by (auto simp: Uri_String_def Let_def uri_authority_def uri_params_part_def uri_headers_part_def
        wf_uri_def split: option.splits)
qed

lemma uri_host_port_wf:
  assumes "wf_host h" "0 \<le> n" "int_in_range n"
  shows "uri_host_port (h @ (if 0 < n then '':'' @ Itoa n else [])) = Inr (h, n)"
proof (cases "HasPrefix h ''[''")
  case True
  then have idx: "IndexByte h CHR '']'' = Some (length h - 1)" "h \<noteq> []"
    using assms by (auto simp: wf_host_def)
  then have "index_where (\<lambda>x. x = CHR '']'') h = Some (length h - 1)" by (simp add: IndexByte_def)
  then have "index_where (\<lambda>x. x = CHR '']'') (h @ t) = Some (length h - 1)" for t
  proof -
    obtain a where a: "h = a @ [CHR '']'']" "CHR '']'' \<notin> set a"
      using index_where_Some [of "\<lambda>x. x = CHR '']''" h "length h - 1"] idx
        \<open>index_where (\<lambda>x. x = CHR '']'') h = Some (length h - 1)\<close>
      by (metis append_butlast_last_id butlast_conv_take last_conv_nth)
    then show ?thesis using index_where_eq [of "CHR '']''" a t] by simp
  qed
  moreover have "HasPrefix (h @ t) ''[''" for t using True idx(2) by (cases h) (auto simp: HasPrefix_def)
  ultimately show ?thesis
    using assms idx by (simp add: uri_host_port_def IndexByte_def nth_append Atoi_Itoa Suc_diff_Suc)
next
  case False
  then have "\<not> HasPrefix (h @ t) ''[''" for t using assms by (cases h) (auto simp: HasPrefix_def wf_host_def)
  moreover have "CHR '':'' \<notin> set h" using False assms by (simp add: wf_host_def)
  moreover have "CHR '':'' \<notin> set (Itoa n)" using Itoa_chars [of n "CHR '':''"] assms by (auto simp: is_digit_def)
  ultimately show ?thesis
    using assms by (simp add: uri_host_port_def LastIndexByte_append LastIndexByte_absent Atoi_Itoa)
qed

lemma uri_userinfo_wf:
  assumes "wf_userinfo us pw" "CHR ''@'' \<notin> set h"
  shows "uri_userinfo ((if us \<noteq> [] then us @ (if pw \<noteq> [] then '':'' @ pw else []) @ ''@'' else []) @ h) = (us, pw, h)"
proof (cases "us = []")
  case True
  with assms show ?thesis by (simp add: uri_userinfo_def wf_userinfo_def LastIndexByte_absent)
next
  case False
  let ?ui = "us @ (if pw \<noteq> [] then '':'' @ pw else [])"
  have "LastIndexByte (?ui @ CHR ''@'' # h) CHR ''@'' = Some (length ?ui)"
    using assms by (rule_tac LastIndexByte_append) simp
  moreover have "IndexByte ?ui CHR '':'' = (if pw \<noteq> [] then Some (length us) else None)"
    using assms by (auto simp: wf_userinfo_def IndexByte_append IndexByte_None)
  ultimately show ?thesis using False by (auto simp: uri_userinfo_def Let_def)
qed

lemma uri_split_rest_wf:
  assumes "set a \<inter> set '';?'' = {}" "vis_ends a" "p = [] \<or> hd p = CHR '';''" "CHR ''?'' \<notin> set p"
  shows "uri_split_rest (a @ p @ (if q = None then [] else CHR ''?'' # the q)) =
         (a, p, case q of None \<Rightarrow> [] | Some h \<Rightarrow> h)"
proof (cases "p = []")
  case True
  then show ?thesis
    using assms IndexAny_append [of a "'';?''" "CHR ''?''" "the q"]
    by (cases q) (simp_all add: uri_split_rest_def IndexAny_absent Let_def TrimSpace_vis)
next
  case False
  then obtain p' where p: "p = CHR '';'' # p'" using assms by (cases p) auto
  have "IndexAny (a @ CHR '';'' # t) '';?'' = Some (length a)" for t
    using assms by (intro IndexAny_append) auto
  moreover have "IndexByte (p @ CHR ''?'' # h) CHR ''?'' = Some (length p)" for h
    using assms by (intro IndexByte_append) auto
  moreover have "IndexByte p CHR ''?'' = None" using assms by (simp add: IndexByte_None)
  ultimately show ?thesis
    using p assms by (cases q) (simp_all add: uri_split_rest_def Let_def TrimSpace_vis)
qed

lemma uri_headers_loop_wf:
  "list_all wf_uri_header h \<Longrightarrow> distinct (map (ToLower \<circ> Key) (p @ h)) \<Longrightarrow>
   uri_headers_loop (map uri_header_string h) p = p @ h"
proof (induction h arbitrary: p)
  case (Cons it h)
  then have it: "uri_header_string it = Key it @ CHR ''='' # Val it" "Key it \<noteq> []" "CHR ''='' \<notin> set (Key it)"
    by (auto simp: wf_uri_header_def uri_header_string_def sanitize_visible)
  have "it = \<lparr>Key = Key it, Val = Val it, HasValue = True\<rparr>"
    using Cons.prems by (cases it) (simp add: wf_uri_header_def)
  then have "Params_Set (Key it) (Val it) p = p @ [it]"
    using Cons.prems Params_set_fresh [of it p] by (simp add: Params_Set_def)
  with it Cons show ?case by (simp add: Cut_append)
qed simp

lemma Split_headers_part:
  assumes "list_all wf_uri_header h" "h \<noteq> []"
  shows "Split (Join (map uri_header_string h) ''&'') CHR ''&'' = map uri_header_string h"
  using assms
  by (intro Split_Join) (auto simp: wf_uri_header_def uri_header_string_def sanitize_visible list_all_iff)

lemma vis_ends_last: "list_all visible s \<Longrightarrow> s \<noteq> [] \<Longrightarrow> visible (last s)"
  by (simp add: list_all_iff)

lemma uri_authority_wf:
  assumes "wf_uri u"
  shows "list_all visible (uri_authority u)" "set (uri_authority u) \<inter> set '';?'' = {}" "uri_authority u \<noteq> []"
proof -
  have "CHR '';'' \<notin> set (Itoa (Port u))" "CHR ''?'' \<notin> set (Itoa (Port u))"
    using assms by (simp_all add: wf_uri_def Itoa_absent is_digit_def)
  then show "list_all visible (uri_authority u)" "set (uri_authority u) \<inter> set '';?'' = {}" "uri_authority u \<noteq> []"
    using assms
    by (auto simp: wf_uri_def wf_userinfo_def wf_host_def uri_authority_def Itoa_visible visible_def)
qed

lemma Params_String_shape: "p \<noteq> [] \<Longrightarrow> Params_String (Some p) \<noteq> [] \<and> hd (Params_String (Some p)) = CHR '';''"
  by (cases p) (simp_all add: Params_String_def)

lemma uri_params_part_wf:
  assumes "wf_uri u"
  shows "list_all visible (uri_params_part u)" "CHR ''?'' \<notin> set (uri_params_part u)"
    "uri_params_part u = [] \<longleftrightarrow> UParams u = None" "uri_params_part u = [] \<or> hd (uri_params_part u) = CHR '';''"
    "UParams u = Some p \<Longrightarrow> ParseParams (uri_params_part u) = Inr p"
proof -
  have none: "Params_String None = []" by (simp add: Params_String_def)
  from assms consider "UParams u = None" | q where "UParams u = Some q" "q \<noteq> []" "wf_params q"
      "list_all visible (Params_String (Some q))" "CHR ''?'' \<notin> set (Params_String (Some q))"
    by (auto simp: wf_uri_def split: option.splits)
  note * = this
  show "list_all visible (uri_params_part u)" "CHR ''?'' \<notin> set (uri_params_part u)"
    "uri_params_part u = [] \<longleftrightarrow> UParams u = None" "uri_params_part u = [] \<or> hd (uri_params_part u) = CHR '';''"
    by (use * in cases; simp add: uri_params_part_def none Params_String_shape)+
  show "UParams u = Some p \<Longrightarrow> ParseParams (uri_params_part u) = Inr p"
    by (use * in cases) (simp_all add: uri_params_part_def ParseParams_String)
qed

lemma list_all_Join: "list_all P sep \<Longrightarrow> (\<And>p. p \<in> set ps \<Longrightarrow> list_all P p) \<Longrightarrow> list_all P (Join ps sep)"
  using set_Join [of ps sep] by (fastforce simp: list_all_iff)

lemma uri_headers_part_wf:
  assumes "wf_uri u" "UHeaders u = Some h"
  shows "list_all visible (uri_headers_part u)" "uri_headers_part u \<noteq> []"
    "uri_headers_loop (Split (uri_headers_part u) CHR ''&'') NewParams = h"
proof -
  have h: "h \<noteq> []" "list_all wf_uri_header h" "distinct (map (ToLower \<circ> Key) h)"
    using assms by (auto simp: wf_uri_def params_inv_def)
  have vis: "list_all visible (uri_header_string it)" "uri_header_string it \<noteq> []" if "it \<in> set h" for it
    using that h by (auto simp: list_all_iff wf_uri_header_def uri_header_string_def sanitize_visible visible_def)
  show "list_all visible (uri_headers_part u)"
    using assms vis by (auto simp: uri_headers_part_def visible_def intro!: list_all_Join)
  obtain it h' where "h = it # h'" using h by (cases h) auto
  then show "uri_headers_part u \<noteq> []"
    using assms vis(2) [of it] by (cases h') (simp_all add: uri_headers_part_def)
  show "uri_headers_loop (Split (uri_headers_part u) CHR ''&'') NewParams = h"
    using assms h uri_headers_loop_wf [of h "[]"]
    by (simp add: uri_headers_part_def Split_headers_part NewParams_def)
qed

lemma Uri_String_visible: "wf_uri u \<Longrightarrow> list_all visible (Uri_String (Some u))"
  using uri_authority_wf [of u] uri_params_part_wf [of u] uri_headers_part_wf [of u]
  by (auto simp: Uri_String_wf wf_uri_def SchemeSIP_def SchemeSIPS_def SchemeTel_def visible_def)

lemma visible_no_control: "list_all visible s \<Longrightarrow> \<not> list_ex is_control s"
  by (auto simp: list_all_iff list_ex_iff visible_def is_control_def)

lemma wf_scheme:
  "wf_uri u \<Longrightarrow> ToLower (Scheme u) = Scheme u \<and> CHR '':'' \<notin> set (Scheme u) \<and>
     Scheme u \<in> {SchemeSIP, SchemeSIPS, SchemeTel}"
  by (auto simp: wf_uri_def SchemeSIP_def SchemeSIPS_def SchemeTel_def ToLower_def lower_char_def Let_def)

lemma ParseUri_String:
  assumes "wf_uri u"
  shows "ParseUri (Uri_String (Some u)) = Inr u"
proof -
  let ?q = "if UHeaders u = None then None else Some (uri_headers_part u)"
  let ?rest = "uri_authority u @ uri_params_part u @ (if ?q = None then [] else CHR ''?'' # the ?q)"
  let ?hp = "Host u @ (if 0 < Port u then '':'' @ Itoa (Port u) else [])"
  have s: "Uri_String (Some u) = Scheme u @ CHR '':'' # ?rest"
    using Uri_String_wf [OF assms] by simp
  have vis: "list_all visible (Uri_String (Some u))" by (rule Uri_String_visible [OF assms])
  then have trim: "TrimSpace (Uri_String (Some u)) = Uri_String (Some u)"
    by (simp add: TrimSpace_vis vis_ends_all)
  have cut: "Cut (Uri_String (Some u)) CHR '':'' = (Scheme u, ?rest, True)"
    using s wf_scheme [OF assms] Cut_append by metis
  have split: "uri_split_rest ?rest = (uri_authority u, uri_params_part u, case ?q of None \<Rightarrow> [] | Some h \<Rightarrow> h)"
    using uri_authority_wf [OF assms] uri_params_part_wf [OF assms]
    by (intro uri_split_rest_wf vis_ends_all)
  have hp_vis: "list_all visible ?hp" "?hp \<noteq> []" "CHR ''@'' \<notin> set ?hp"
    using assms Itoa_chars [of "Port u" "CHR ''@''"]
    by (auto simp: wf_uri_def wf_host_def Itoa_visible visible_def is_digit_def)
  have ui: "uri_userinfo (uri_authority u) = (User u, Password u, ?hp)"
    using uri_userinfo_wf [of "User u" "Password u" ?hp] assms hp_vis
    by (simp add: uri_authority_def wf_uri_def)
  have hp: "uri_host_port ?hp = Inr (Host u, Port u)"
    using assms by (intro uri_host_port_wf) (simp_all add: wf_uri_def)
  have trims: "TrimSpace ?hp = ?hp" "TrimSpace (Host u) = Host u" "Host u \<noteq> []"
      "\<not> (CHR '':'' \<in> set (Host u) \<and> \<not> HasPrefix (Host u) ''['')"
    using hp_vis assms by (auto simp: wf_uri_def wf_host_def TrimSpace_vis vis_ends_all split: if_splits)
  have ps: "(if uri_params_part u \<noteq> [] then bind_result (ParseParams (uri_params_part u)) (\<lambda>p. Inr (Some p))
      else Inr None) = Inr (UParams u)"
    using uri_params_part_wf [OF assms] by (cases "UParams u") auto
  have hs: "(if (case ?q of None \<Rightarrow> [] | Some h \<Rightarrow> h) \<noteq> []
      then Some (uri_headers_loop (Split (case ?q of None \<Rightarrow> [] | Some h \<Rightarrow> h) CHR ''&'') NewParams) else None) = UHeaders u"
    using uri_headers_part_wf [OF assms] by (cases "UHeaders u") auto
  have "Uri_String (Some u) \<noteq> []" using s by simp
  then show ?thesis
    using wf_scheme [OF assms] visible_no_control [OF vis] trims hp_vis
    by (simp only: ParseUri_def trim Let_def cut split ui hp ps hs prod.case bind_result_simps if_False if_True
          not_True_eq_False de_Morgan_disj simp_thms trims) simp
qed

interpretation uri_codec: codec "\<lambda>u. Uri_String (Some u)" ParseUri wf_uri
  by unfold_locales (rule ParseUri_String)

section \<open>Properties\<close>

text \<open>C35 (round trip): a well-formed URI is read back from what \<open>String\<close> prints for it: scheme, user,
  password, host (IPv6 brackets included), port, parameters and headers.\<close>

theorem uri_roundtrip: "wf_uri u \<Longrightarrow> ParseUri (Uri_String (Some u)) = Inr u"
  by (rule uri_codec.dec_enc)

theorem uri_roundtrip_witness:
  "ParseUri (Uri_String (Some \<lparr>Scheme = ''sip'', User = ''alice'', Password = ''x'', Host = ''[::1]'', Port = 5,
      UParams = Some [\<lparr>Key = ''lr'', Val = [], HasValue = False\<rparr>], UHeaders = None\<rparr>)) =
    Inr \<lparr>Scheme = ''sip'', User = ''alice'', Password = ''x'', Host = ''[::1]'', Port = 5,
      UParams = Some [\<lparr>Key = ''lr'', Val = [], HasValue = False\<rparr>], UHeaders = None\<rparr>"
  by (rule uri_roundtrip) code_simp

text \<open>Whatever the fields of a URI hold, printing it emits no CR, LF or NUL, so a URI
  cannot add a line to a message it is written into.\<close>

theorem uri_no_injection: "set (Uri_String u) \<inter> {CR, LF, NUL} = {}"
  by (rule Uri_String_no_ctl)

text \<open>The logged form of a URI does not depend on the password.\<close>

theorem redact_hides_password:
  "RedactUri (Some (u\<lparr>Password := CHR ''x'' # p\<rparr>)) = RedactUri (Some (u\<lparr>Password := CHR ''y'' # q\<rparr>))"
  by (rule RedactUri_password) simp_all

text \<open>The comparison of URIs is an equivalence relation.\<close>

theorem uri_equal_equivalence: "equivp Uri_Equal"
  by (intro equivpI reflpI sympI transpI) (rule Uri_Equal_refl, erule Uri_Equal_sym, erule (1) Uri_Equal_trans)

text \<open>C36 (type): what \<open>ParseUri\<close> accepts has one of the three schemes, a non-empty trimmed host that is
  bracketed if it has a colon, no control character in user, password or host, and lower-case, distinct
  parameter keys.\<close>

theorem parsed_uri_wellformed: "ParseUri s = Inr u \<Longrightarrow> parsed_uri u"
  by (rule ParseUri_parsed)

theorem parsed_uri_wellformed_witness:
  "ParseUri ''sip:a@h'' = Inr \<lparr>Scheme = ''sip'', User = ''a'', Password = [], Host = ''h'', Port = 0,
      UParams = None, UHeaders = None\<rparr> \<and>
   parsed_uri \<lparr>Scheme = ''sip'', User = ''a'', Password = [], Host = ''h'', Port = 0, UParams = None, UHeaders = None\<rparr>"
proof -
  have p: "ParseUri ''sip:a@h'' = Inr \<lparr>Scheme = ''sip'', User = ''a'', Password = [], Host = ''h'', Port = 0,
      UParams = None, UHeaders = None\<rparr>" by code_simp
  then show ?thesis using parsed_uri_wellformed [OF p] by simp
qed

end
