(* ===== verification/Headers.thy ===== *)
theory Headers
  imports Uri
begin

text \<open>
  \<^verbatim>\<open>headers.go\<close> and the header types of \<^verbatim>\<open>dialog.go\<close> (\<open>AddrHeader\<close>) and \<^verbatim>\<open>parser.go\<close>
  (\<open>TypedAuthHeader\<close>): header names, Via, name-addresses, CSeq, Content-Length, Max-Forwards,
  address lists, token lists and Digest credentials, each with its parser and printer. The Go
  interface \<^verbatim>\<open>Header\<close> is the datatype \<open>Header\<close> with one constructor per implementing type.
\<close>

section \<open>Header names\<close>

definition shortToLong :: "(string \<times> string) list" where
  "shortToLong =
    [(''i'', ''Call-ID''), (''f'', ''From''), (''t'', ''To''), (''v'', ''Via''),
     (''m'', ''Contact''), (''c'', ''Content-Type''), (''l'', ''Content-Length''),
     (''k'', ''Supported''), (''s'', ''Subject''), (''r'', ''Refer-To''),
     (''u'', ''Allow-Events''), (''e'', ''Content-Encoding''), (''j'', ''Reject-Contact''),
     (''d'', ''Request-Disposition''), (''a'', ''Accept-Contact''), (''x'', ''Session-Expires''),
     (''y'', ''Identity''), (''n'', ''Identity-Info''), (''o'', ''Event''),
     (''b'', ''Referred-By''), (''q'', ''Target-Dialog''), (''cseq'', ''CSeq''),
     (''call-id'', ''Call-ID''), (''www-authenticate'', ''WWW-Authenticate''),
     (''proxy-authenticate'', ''Proxy-Authenticate''),
     (''proxy-authorization'', ''Proxy-Authorization''),
     (''p-asserted-identity'', ''P-Asserted-Identity''), (''refer-to'', ''Refer-To''),
     (''referred-by'', ''Referred-By''), (''accept-contact'', ''Accept-Contact''),
     (''session-expires'', ''Session-Expires''), (''min-se'', ''Min-SE''),
     (''allow-events'', ''Allow-Events''), (''content-length'', ''Content-Length''),
     (''content-type'', ''Content-Type''), (''max-forwards'', ''Max-Forwards''),
     (''record-route'', ''Record-Route''), (''accept-encoding'', ''Accept-Encoding''),
     (''accept-language'', ''Accept-Language''), (''retry-after'', ''Retry-After''),
     (''in-reply-to'', ''In-Reply-To''), (''user-agent'', ''User-Agent''),
     (''reject-contact'', ''Reject-Contact''), (''request-disposition'', ''Request-Disposition''),
     (''identity-info'', ''Identity-Info''), (''target-dialog'', ''Target-Dialog'')]"

definition canonical_part :: "string \<Rightarrow> string" where
  "canonical_part p = (if p \<noteq> [] then ToUpper (take 1 p) @ ToLower (drop 1 p) else p)"

definition CanonicalName :: "string \<Rightarrow> string" where
  "CanonicalName name0 =
     (let name = TrimSpace name0 in
      case map_of shortToLong (ToLower name) of
        Some long \<Rightarrow> long
      | None \<Rightarrow> Join (map canonical_part (Split name CHR ''-'')) ''-'')"

section \<open>Via\<close>

type_synonym Method = string

record Via =
  VProto :: string
  VTransport :: string
  VHost :: string
  VPort :: int
  VParams :: "Params option"

definition via_transport :: "string \<Rightarrow> string" where
  "via_transport proto = (case LastIndexByte proto CHR ''/'' of
     Some i \<Rightarrow> drop (i + 1) proto
   | None \<Rightarrow> proto)"

definition Via_parseHostPort :: "Via \<Rightarrow> string \<Rightarrow> Via result" where
  "Via_parseHostPort v s = bind_result
     (if HasPrefix s ''['' then
        (case IndexByte s CHR '']'' of
           None \<Rightarrow> Inl ErrParse
         | Some e \<Rightarrow>
             (let w = v\<lparr>VHost := take (e + 1) s\<rparr> in
              if e + 1 < length s \<and> s ! (e + 1) = CHR '':'' then
                (case Atoi (drop (e + 2) s) of
                   None \<Rightarrow> Inl ErrParse
                 | Some p \<Rightarrow> Inr (w\<lparr>VPort := p\<rparr>))
              else Inr w))
      else (case LastIndexByte s CHR '':'' of
              Some i \<Rightarrow> (case Atoi (drop (i + 1) s) of
                           None \<Rightarrow> Inl ErrParse
                         | Some p \<Rightarrow> Inr (v\<lparr>VHost := take i s, VPort := p\<rparr>))
            | None \<Rightarrow> Inr (v\<lparr>VHost := s\<rparr>)))
     (\<lambda>w. Inr (w\<lparr>VTransport := via_transport (VProto w)\<rparr>))"

definition empty_via :: "string \<Rightarrow> Params option \<Rightarrow> Via" where
  "empty_via proto params =
     \<lparr>VProto = proto, VTransport = [], VHost = [], VPort = 0, VParams = params\<rparr>"

definition ParseVia :: "string \<Rightarrow> Via result" where
  "ParseVia s0 =
     (let s = TrimSpace s0 in
      if list_ex is_control s then Inl ErrParse
      else (case SplitN s SP 2 of
        [p0, p1] \<Rightarrow>
          (let proto = TrimSpace p0; rest = TrimSpace p1 in
           case IndexByte rest CHR '';'' of
             Some i \<Rightarrow>
               bind_result (ParseParams (drop i rest)) (\<lambda>params.
                 Via_parseHostPort (empty_via proto (Some params)) (TrimSpace (take i rest)))
           | None \<Rightarrow> Via_parseHostPort (empty_via proto None) rest)
      | _ \<Rightarrow> Inl ErrParse))"

definition Via_Branch :: "Via \<Rightarrow> string" where
  "Via_Branch v = (case VParams v of
     None \<Rightarrow> []
   | Some p \<Rightarrow> fst (Params_Get (Some p) ''branch''))"

definition Via_SetBranch :: "string \<Rightarrow> Via \<Rightarrow> Via" where
  "Via_SetBranch branch v =
     (let p = (case VParams v of None \<Rightarrow> NewParams | Some q \<Rightarrow> q) in
      v\<lparr>VParams := Some (Params_Set ''branch'' branch p)\<rparr>)"

definition Via_Value :: "Via \<Rightarrow> string" where
  "Via_Value v = VProto v @ '' '' @ VHost v @
     (if 0 < VPort v then '':'' @ Itoa (VPort v) else []) @ Params_String (VParams v)"

definition Via_Clone :: "Via \<Rightarrow> Via" where
  "Via_Clone v = v\<lparr>VParams := Params_Clone (VParams v)\<rparr>"

section \<open>Addresses\<close>

record Address =
  DisplayName :: string
  Quoted :: bool
  AUri :: "Uri option"
  AParams :: "Params option"

definition ParseAddress :: "string \<Rightarrow> Address result" where
  "ParseAddress s0 =
     (let s = TrimSpace s0 in
      case IndexByte s CHR ''<'' of
        Some uriStart \<Rightarrow>
          (let raw = TrimSpace (take uriStart s); name = unquote raw in
           case LastIndexByte s CHR ''>'' of
             None \<Rightarrow> Inl ErrBadAddress
           | Some e \<Rightarrow>
               if e \<le> uriStart then Inl ErrBadAddress
               else bind_result (ParseUri (take (e - (uriStart + 1)) (drop (uriStart + 1) s))) (\<lambda>u.
                 (let rest = TrimSpace (drop (e + 1) s) in
                  bind_result
                    (if rest \<noteq> [] then bind_result (ParseParams rest) (\<lambda>p. Inr (Some p)) else Inr None)
                    (\<lambda>ps. Inr \<lparr>DisplayName = name, Quoted = (raw \<noteq> name), AUri = Some u, AParams = ps\<rparr>))))
      | None \<Rightarrow>
          (case ParseUri s of
             Inl _ \<Rightarrow> Inl ErrBadAddress
           | Inr u \<Rightarrow> Inr \<lparr>DisplayName = [], Quoted = False, AUri = Some u, AParams = None\<rparr>))"

definition Address_Tag :: "Address option \<Rightarrow> string" where
  "Address_Tag a = (case a of
     None \<Rightarrow> []
   | Some b \<Rightarrow> (case AParams b of None \<Rightarrow> [] | Some p \<Rightarrow> fst (Params_Get (Some p) ''tag'')))"

definition Address_SetTag :: "string \<Rightarrow> Address \<Rightarrow> Address" where
  "Address_SetTag tag a =
     (let p = (case AParams a of None \<Rightarrow> NewParams | Some q \<Rightarrow> q) in
      a\<lparr>AParams := Some (Params_Set ''tag'' tag p)\<rparr>)"

definition Address_Clone :: "Address option \<Rightarrow> Address option" where
  "Address_Clone a = (case a of
     None \<Rightarrow> None
   | Some b \<Rightarrow> Some (b\<lparr>AUri := Uri_Clone (AUri b), AParams := Params_Clone (AParams b)\<rparr>))"

definition Address_String :: "Address \<Rightarrow> string" where
  "Address_String a =
     (if DisplayName a \<noteq> [] then
        (if Quoted a \<or> ContainsAny (DisplayName a) [CHR '','', CHR '';'', DQ, SP]
         then DQ # escape_quotes (DisplayName a) @ [DQ]
         else DisplayName a) @ '' ''
      else []) @
     ''<'' @ Uri_String (AUri a) @ ''>'' @ Params_String (AParams a)"

section \<open>CSeq, Content-Length, Max-Forwards\<close>

record CSeq =
  Seq :: "32 word"
  CMethod :: Method

definition ParseCSeq :: "string \<Rightarrow> CSeq result" where
  "ParseCSeq s = (case Fields s of
     [f0, f1] \<Rightarrow>
       (case ParseUint f0 10 32 of
          None \<Rightarrow> Inl ErrParse
        | Some n \<Rightarrow> Inr \<lparr>Seq = word_of_nat n, CMethod = ToUpper f1\<rparr>)
   | _ \<Rightarrow> Inl ErrParse)"

definition CSeq_Value :: "CSeq \<Rightarrow> string" where
  "CSeq_Value c = format_nat 10 (unat (Seq c)) @ '' '' @ CMethod c"

definition ParseContentLength :: "string \<Rightarrow> 32 word result" where
  "ParseContentLength s = (case ParseUint (TrimSpace s) 10 32 of
     None \<Rightarrow> Inl ErrParse
   | Some n \<Rightarrow> Inr (word_of_nat n))"

definition ContentLength_Value :: "32 word \<Rightarrow> string" where
  "ContentLength_Value c = format_nat 10 (unat c)"

section \<open>Address and token lists\<close>

record NameAddrList =
  NHName :: string
  Addresses :: "Address list"
  All :: bool

fun splitAddrList_loop :: "int \<Rightarrow> bool \<Rightarrow> bool \<Rightarrow> string \<Rightarrow> string \<Rightarrow> string list" where
  "splitAddrList_loop depth inQuote escaped cur [] = [TrimSpace cur]"
| "splitAddrList_loop depth inQuote escaped cur (c # s) =
     (if escaped then splitAddrList_loop depth inQuote False (cur @ [c]) s
      else if c = BS \<and> inQuote then splitAddrList_loop depth inQuote True (cur @ [c]) s
      else if c = DQ then splitAddrList_loop depth (\<not> inQuote) escaped (cur @ [c]) s
      else if \<not> inQuote \<and> c = CHR ''<'' then splitAddrList_loop (depth + 1) inQuote escaped (cur @ [c]) s
      else if \<not> inQuote \<and> c = CHR ''>'' then splitAddrList_loop (depth - 1) inQuote escaped (cur @ [c]) s
      else if \<not> inQuote \<and> depth = 0 \<and> c = CHR '','' then
        TrimSpace cur # splitAddrList_loop depth inQuote escaped [] s
      else splitAddrList_loop depth inQuote escaped (cur @ [c]) s)"

definition splitAddrList :: "string \<Rightarrow> string list" where
  "splitAddrList s = splitAddrList_loop 0 False False [] s"

definition ParseNameAddrList :: "string \<Rightarrow> NameAddrList result" where
  "ParseNameAddrList s0 =
     (let s = TrimSpace s0 in
      if s = ''*'' then Inr \<lparr>NHName = [], Addresses = [], All = True\<rparr>
      else bind_result (map_result ParseAddress (splitAddrList s)) (\<lambda>as.
        if length as = 0 then Inl ErrBadAddress
        else Inr \<lparr>NHName = [], Addresses = as, All = False\<rparr>))"

definition NameAddrList_Value :: "NameAddrList \<Rightarrow> string" where
  "NameAddrList_Value l = Join (map Address_String (Addresses l)) '', ''"

definition NameAddrList_First :: "NameAddrList option \<Rightarrow> Address option" where
  "NameAddrList_First l = (case l of
     None \<Rightarrow> None
   | Some m \<Rightarrow> (case Addresses m of [] \<Rightarrow> None | a # _ \<Rightarrow> Some a))"

record TokenList =
  THName :: string
  Tokens :: "string list"

definition ParseTokenList :: "string \<Rightarrow> string \<Rightarrow> TokenList" where
  "ParseTokenList name s =
     \<lparr>THName = name,
      Tokens = filter (\<lambda>t. t \<noteq> []) (map TrimSpace (Split s CHR '',''))\<rparr>"

definition TokenList_Value :: "TokenList \<Rightarrow> string" where
  "TokenList_Value t = Join (Tokens t) '', ''"

definition TokenList_Has :: "TokenList \<Rightarrow> string \<Rightarrow> bool" where
  "TokenList_Has t tok \<longleftrightarrow> list_ex (\<lambda>x. EqualFold x tok) (Tokens t)"

section \<open>Digest credentials\<close>

record Auth =
  AuScheme :: string
  Username :: string
  Realm :: string
  Nonce :: string
  AuURI :: string
  AuResponse :: string
  Cnonce :: string
  Nc :: string
  Qop :: string
  Algorithm :: string
  Opaque :: string
  Other :: "Params option"

definition empty_auth :: Auth where
  "empty_auth = \<lparr>AuScheme = [], Username = [], Realm = [], Nonce = [], AuURI = [], AuResponse = [],
     Cnonce = [], Nc = [], Qop = [], Algorithm = [], Opaque = [], Other = None\<rparr>"

definition auth_field :: "string \<Rightarrow> string \<Rightarrow> Auth \<Rightarrow> Auth" where
  "auth_field k v a =
     (if k = ''username'' then a\<lparr>Username := v\<rparr>
      else if k = ''realm'' then a\<lparr>Realm := v\<rparr>
      else if k = ''nonce'' then a\<lparr>Nonce := v\<rparr>
      else if k = ''uri'' then a\<lparr>AuURI := v\<rparr>
      else if k = ''response'' then a\<lparr>AuResponse := v\<rparr>
      else if k = ''cnonce'' then a\<lparr>Cnonce := v\<rparr>
      else if k = ''nc'' then a\<lparr>Nc := v\<rparr>
      else if k = ''qop'' then a\<lparr>Qop := v\<rparr>
      else if k = ''algorithm'' then a\<lparr>Algorithm := v\<rparr>
      else if k = ''opaque'' then a\<lparr>Opaque := v\<rparr>
      else a\<lparr>Other := map_option (Params_Set k v) (Other a)\<rparr>)"

fun ParseAuth_loop :: "string list \<Rightarrow> Auth \<Rightarrow> Auth" where
  "ParseAuth_loop [] a = a"
| "ParseAuth_loop (part # parts) a =
     (case Cut part CHR ''='' of (k, v, found) \<Rightarrow>
        if \<not> found then ParseAuth_loop parts a
        else ParseAuth_loop parts (auth_field (ToLower (TrimSpace k)) (unquote (TrimSpace v)) a))"

fun splitAuthParams_loop :: "bool \<Rightarrow> bool \<Rightarrow> string \<Rightarrow> string \<Rightarrow> string list" where
  "splitAuthParams_loop inQuote escaped cur [] = [TrimSpace cur]"
| "splitAuthParams_loop inQuote escaped cur (c # s) =
     (if escaped then splitAuthParams_loop inQuote False (cur @ [c]) s
      else if c = BS \<and> inQuote then splitAuthParams_loop inQuote True (cur @ [c]) s
      else if c = DQ then splitAuthParams_loop (\<not> inQuote) escaped (cur @ [c]) s
      else if (c = CHR '','' \<or> c = SP \<or> c = TAB) \<and> \<not> inQuote then
        (if cur \<noteq> [] then TrimSpace cur # splitAuthParams_loop inQuote escaped [] s
         else splitAuthParams_loop inQuote escaped [] s)
      else splitAuthParams_loop inQuote escaped (cur @ [c]) s)"

definition splitAuthParams :: "string \<Rightarrow> string list" where
  "splitAuthParams s = splitAuthParams_loop False False [] s"

definition ParseAuth :: "string \<Rightarrow> Auth" where
  "ParseAuth s0 =
     (let s = TrimSpace s0 in
      case IndexAny s [SP, TAB, CHR '',''] of
        None \<Rightarrow> empty_auth\<lparr>AuScheme := s\<rparr>
      | Some i \<Rightarrow> ParseAuth_loop (splitAuthParams (drop (i + 1) s))
                    (empty_auth\<lparr>AuScheme := take i s, Other := Some NewParams\<rparr>))"

definition writeAuth :: "string \<Rightarrow> string \<Rightarrow> string" where
  "writeAuth k v = (if v = [] then [] else '', '' @ k @ [CHR ''='', DQ] @ v @ [DQ])"

definition writeAuthPlain :: "string \<Rightarrow> string \<Rightarrow> string" where
  "writeAuthPlain k v = (if v \<noteq> [] then '', '' @ k @ ''='' @ v else [])"

definition Auth_Value :: "Auth \<Rightarrow> string" where
  "Auth_Value a = AuScheme a @
     writeAuth ''username'' (Username a) @ writeAuth ''realm'' (Realm a) @ writeAuth ''nonce'' (Nonce a) @
     writeAuthPlain ''uri'' (AuURI a) @
     writeAuth ''response'' (AuResponse a) @ writeAuth ''cnonce'' (Cnonce a) @
     writeAuthPlain ''nc'' (Nc a) @ writeAuthPlain ''qop'' (Qop a) @ writeAuthPlain ''algorithm'' (Algorithm a) @
     writeAuth ''opaque'' (Opaque a)"

definition Auth_Clone :: "Auth \<Rightarrow> Auth" where
  "Auth_Clone a = a\<lparr>Other := Params_Clone (Other a)\<rparr>"

section \<open>The Header interface\<close>

datatype Header =
    GenericHeader string string
  | ViaHeader Via
  | CSeqHeader CSeq
  | ContentLength "32 word"
  | MaxForwards int
  | NameAddrListHeader NameAddrList
  | AddrHeader Address string
  | TokenListHeader TokenList
  | TypedAuthHeader Auth string

definition NewHeader :: "string \<Rightarrow> string \<Rightarrow> Header" where
  "NewHeader name value = GenericHeader name value"

fun Header_Name :: "Header \<Rightarrow> string" where
  "Header_Name (GenericHeader k v) = k"
| "Header_Name (ViaHeader v) = ''Via''"
| "Header_Name (CSeqHeader c) = ''CSeq''"
| "Header_Name (ContentLength n) = ''Content-Length''"
| "Header_Name (MaxForwards n) = ''Max-Forwards''"
| "Header_Name (NameAddrListHeader l) = NHName l"
| "Header_Name (AddrHeader a k) = k"
| "Header_Name (TokenListHeader t) = THName t"
| "Header_Name (TypedAuthHeader a k) = k"

fun Header_Value :: "Header \<Rightarrow> string" where
  "Header_Value (GenericHeader k v) = v"
| "Header_Value (ViaHeader v) = Via_Value v"
| "Header_Value (CSeqHeader c) = CSeq_Value c"
| "Header_Value (ContentLength n) = ContentLength_Value n"
| "Header_Value (MaxForwards n) = Itoa n"
| "Header_Value (NameAddrListHeader l) = NameAddrList_Value l"
| "Header_Value (AddrHeader a k) = Address_String a"
| "Header_Value (TokenListHeader t) = TokenList_Value t"
| "Header_Value (TypedAuthHeader a k) = Auth_Value a"

fun Header_Clone :: "Header \<Rightarrow> Header" where
  "Header_Clone (GenericHeader k v) = GenericHeader k v"
| "Header_Clone (ViaHeader v) = ViaHeader (Via_Clone v)"
| "Header_Clone (CSeqHeader c) = CSeqHeader c"
| "Header_Clone (ContentLength n) = ContentLength n"
| "Header_Clone (MaxForwards n) = MaxForwards n"
| "Header_Clone (NameAddrListHeader l) =
     NameAddrListHeader (l\<lparr>Addresses := map (\<lambda>a. the (Address_Clone (Some a))) (Addresses l)\<rparr>)"
| "Header_Clone (AddrHeader a k) = AddrHeader (the (Address_Clone (Some a))) k"
| "Header_Clone (TokenListHeader t) = TokenListHeader t"
| "Header_Clone (TypedAuthHeader a k) = TypedAuthHeader (Auth_Clone a) k"

lemma Address_Clone_id [simp]: "Address_Clone a = a"
  by (simp add: Address_Clone_def split: option.split)

lemma Via_Clone_id [simp]: "Via_Clone v = v"
  by (simp add: Via_Clone_def)

lemma Header_Clone_id [simp]: "Header_Clone h = h"
  by (cases h) (simp_all add: Auth_Clone_def)

end
