(* ===== verification/HeadersCorrect.thy ===== *)
theory HeadersCorrect
  imports Headers
begin

text \<open>
  Correctness of \<^verbatim>\<open>headers.go\<close>: header names are compared up to case and compact form, and
  each typed header is read back from what its printer writes.
\<close>

section \<open>Header names\<close>

text \<open>Case mapping moves ASCII letters among themselves, so it commutes with trimming.\<close>

definition case_map :: "(char \<Rightarrow> char) \<Rightarrow> bool" where
  "case_map f \<longleftrightarrow> (\<forall>c. f c = c \<or> (visible c \<and> visible (f c) \<and> c \<notin> {CHR ''-''} \<and> f c \<noteq> CHR ''-''))"

lemma case_map_lower: "case_map lower_char"
  unfolding case_map_def
proof
  fix c
  show "lower_char c = c \<or> (visible c \<and> visible (lower_char c) \<and> c \<notin> {CHR ''-''} \<and> lower_char c \<noteq> CHR ''-'')"
    by (auto simp: visible_def of_char_lower char_eq_iff)
qed

lemma case_map_upper: "case_map upper_char"
  unfolding case_map_def
proof
  fix c
  show "upper_char c = c \<or> (visible c \<and> visible (upper_char c) \<and> c \<notin> {CHR ''-''} \<and> upper_char c \<noteq> CHR ''-'')"
    by (auto simp: visible_def of_char_upper char_eq_iff)
qed

lemma case_map_space:
  assumes "case_map f"
  shows "ascii_space (f c) = ascii_space c"
    "wide_space2 (f a) (f b) = wide_space2 a b"
    "wide_space3 (f a) (f b) (f c) = wide_space3 a b c"
proof -
  have f: "f x = x \<or> (visible x \<and> visible (f x))" for x using assms by (auto simp: case_map_def)
  show "ascii_space (f c) = ascii_space c" using f [of c] by (auto dest: visible_not_space)
  show "wide_space2 (f a) (f b) = wide_space2 a b"
    using f [of a] f [of b] by (metis visible_not_wide(1,2))
  have mid: "visible y \<Longrightarrow> \<not> wide_space3 x y z" for x y z
    by (auto simp: visible_def wide_space3_def)
  show "wide_space3 (f a) (f b) (f c) = wide_space3 a b c"
    using f [of a] f [of b] f [of c] mid visible_not_wide(3,4) by metis
qed

lemma ws_width_map: "case_map f \<Longrightarrow> ws_width (map f s) = ws_width s"
  by (simp add: ws_width_def case_map_space split: list.split)

lemma ws_width_rev_map: "case_map f \<Longrightarrow> ws_width_rev (map f s) = ws_width_rev s"
  by (simp add: ws_width_rev_def case_map_space split: list.split)

lemma trim_left_map: "case_map f \<Longrightarrow> trim_left (map f s) = map f (trim_left s)"
proof (induction s rule: trim_left.induct)
  case (1 s)
  show ?case
  proof (cases "ws_width s = 0")
    case False
    then show ?thesis
      using 1 by (simp add: trim_left.simps [of s] trim_left.simps [of "map f s"] ws_width_map drop_map)
  qed (simp add: trim_left_id ws_width_map 1)
qed

lemma trim_rev_map: "case_map f \<Longrightarrow> trim_rev (map f s) = map f (trim_rev s)"
proof (induction s rule: trim_rev.induct)
  case (1 s)
  show ?case
  proof (cases "ws_width_rev s = 0")
    case False
    then show ?thesis
      using 1 by (simp add: trim_rev.simps [of s] trim_rev.simps [of "map f s"] ws_width_rev_map drop_map)
  qed (simp add: trim_rev_id ws_width_rev_map 1)
qed

lemma TrimSpace_ToLower: "TrimSpace (ToLower s) = ToLower (TrimSpace s)"
  by (simp add: TrimSpace_def ToLower_def trim_left_map trim_rev_map case_map_lower rev_map)

lemma Split_map:
  "(\<And>x. f x = c \<longleftrightarrow> x = c) \<Longrightarrow> Split (map f s) c = map (map f) (Split s c)"
  by (induction s) (auto split: list.splits)

lemma lower_dash: "lower_char x = CHR ''-'' \<longleftrightarrow> x = CHR ''-''"
  by (auto simp: char_eq_iff of_char_lower)

lemma Split_ToLower: "Split (ToLower s) CHR ''-'' = map ToLower (Split s CHR ''-'')"
  unfolding ToLower_def by (rule Split_map) (rule lower_dash)

lemma upper_lower_char [simp]: "upper_char (lower_char c) = upper_char c"
  by (auto simp add: char_eq_iff of_char_lower of_char_upper)

lemma canonical_part_ToLower [simp]: "canonical_part (ToLower p) = canonical_part p"
  by (cases p) (simp_all add: canonical_part_def ToLower_def ToUpper_def)

lemma ToLower_canonical_part [simp]: "ToLower (canonical_part p) = ToLower p"
  by (cases p) (simp_all add: canonical_part_def ToLower_def ToUpper_def)

lemma CanonicalName_ToLower: "CanonicalName (ToLower n) = CanonicalName n"
  by (simp add: CanonicalName_def TrimSpace_ToLower Split_ToLower comp_def Let_def split: option.split)

lemma CanonicalName_EqualFold: "EqualFold m n \<Longrightarrow> CanonicalName m = CanonicalName n"
  by (metis CanonicalName_ToLower EqualFold_def)

lemma ToLower_Join: "ToLower (Join ps ''-'') = Join (map ToLower ps) ''-''"
  by (induction ps "''-''" rule: Join.induct) (simp_all add: ToLower_def lower_char_def)

lemma ToLower_canonical:
  "ToLower (Join (map canonical_part (Split n CHR ''-'')) ''-'') = ToLower n"
proof -
  have "Join (Split (ToLower n) CHR ''-'') ''-'' = ToLower n" by (rule Join_Split)
  then show ?thesis by (simp add: ToLower_Join Split_ToLower comp_def)
qed

lemma CanonicalName_table:
  "map_of shortToLong k = Some n \<Longrightarrow> CanonicalName n = n"
proof -
  have "list_all (\<lambda>(k, n). CanonicalName n = n) shortToLong" by code_simp
  then show "map_of shortToLong k = Some n \<Longrightarrow> CanonicalName n = n"
    by (auto simp: list_all_iff dest: map_of_SomeD)
qed

lemma CanonicalName_idem [simp]: "CanonicalName (CanonicalName n) = CanonicalName n"
proof (cases "map_of shortToLong (ToLower (TrimSpace n))")
  case (Some long)
  then show ?thesis by (simp add: CanonicalName_def [of n] CanonicalName_table)
next
  case None
  then have "CanonicalName n = Join (map canonical_part (Split (TrimSpace n) CHR ''-'')) ''-''"
    by (simp add: CanonicalName_def)
  then have "EqualFold (CanonicalName n) (TrimSpace n)"
    by (simp add: EqualFold_def ToLower_canonical)
  then have "CanonicalName (CanonicalName n) = CanonicalName (TrimSpace n)"
    by (rule CanonicalName_EqualFold)
  then show ?thesis by (simp add: CanonicalName_def)
qed

section \<open>CSeq and Content-Length\<close>

definition wf_method :: "string \<Rightarrow> bool" where
  "wf_method m \<longleftrightarrow> m \<noteq> [] \<and> list_all visible m \<and> ToUpper m = m"

lemma ParseCSeq_Value: "wf_method (CMethod c) \<Longrightarrow> ParseCSeq (CSeq_Value c) = Inr c"
proof -
  assume m: "wf_method (CMethod c)"
  have "Fields (CSeq_Value c) = [format_nat 10 (unat (Seq c)), CMethod c]"
    using m by (simp add: CSeq_Value_def Fields_word Fields_last format_nat_visible wf_method_def)
  moreover have "ParseUint (format_nat 10 (unat (Seq c))) 10 32 = Some (unat (Seq c))"
    using unsigned_less [of "Seq c"] by (intro ParseUint_format) simp_all
  ultimately show ?thesis using m by (simp add: ParseCSeq_def wf_method_def)
qed

interpretation cseq_codec: codec CSeq_Value ParseCSeq "\<lambda>c. wf_method (CMethod c)"
  by unfold_locales (rule ParseCSeq_Value)

lemma ParseContentLength_Value: "ParseContentLength (ContentLength_Value n) = Inr n"
proof -
  have "TrimSpace (ContentLength_Value n) = ContentLength_Value n"
    by (simp add: ContentLength_Value_def TrimSpace_vis vis_ends_all format_nat_visible)
  moreover have "ParseUint (ContentLength_Value n) 10 32 = Some (unat n)"
    unfolding ContentLength_Value_def using unsigned_less [of n] by (intro ParseUint_format) simp_all
  ultimately show ?thesis by (simp add: ParseContentLength_def)
qed

interpretation content_length_codec: normalising_codec ContentLength_Value ParseContentLength "\<lambda>_. True"
  by unfold_locales (simp_all add: ParseContentLength_Value)

section \<open>Parameter strings at the end of a header\<close>

definition printable :: "char \<Rightarrow> bool" where
  "printable c \<longleftrightarrow> visible c \<or> c = SP"

definition wf_tail :: "Params option \<Rightarrow> bool" where
  "wf_tail ps \<longleftrightarrow> (case ps of None \<Rightarrow> True
     | Some p \<Rightarrow> p \<noteq> [] \<and> wf_params p \<and> list_all printable (Params_String (Some p)) \<and>
                set (Params_String (Some p)) \<inter> set ''<>'' = {})"

lemma trimmed_printable_last:
  "trimmed v \<Longrightarrow> list_all printable v \<Longrightarrow> v \<noteq> [] \<Longrightarrow> visible (last v)"
proof (cases v rule: rev_cases)
  case (snoc w c)
  moreover assume "trimmed v" "list_all printable v"
  ultimately show ?thesis
    by (auto simp: trimmed_def printable_def ws_width_rev_def ascii_space_def split: list.splits)
qed simp

lemma Param_String_last:
  assumes "wf_param it" "list_all printable (Param_String it)"
  shows "visible (last (Param_String it))"
proof (cases "HasValue it \<and> escapeParam (Val it) \<noteq> []")
  case True
  have v: "wf_value (Val it)" using assms True by (simp add: wf_param_def)
  have "visible (last (escapeParam (Val it)))"
  proof (cases "ContainsAny (Val it) [DQ, CHR '';'', CHR ''?'', CHR '','']")
    case False
    then have "escapeParam (Val it) = Val it" "trimmed (Val it)"
      using v by (auto simp: escapeParam_def wf_value_def sanitizeField_id)
    then show ?thesis
      using trimmed_printable_last [of "Val it"] assms True by (simp add: Param_String_def)
  qed (simp add: escapeParam_def visible_def)
  then show ?thesis using True by (simp add: Param_String_def)
next
  case False
  then show ?thesis
    using assms by (auto simp: Param_String_def wf_param_def escapeParam_key wf_key_def list_all_iff visible_def)
qed

lemma Params_String_last:
  "list_all wf_param p \<Longrightarrow> list_all printable (Params_String (Some p)) \<Longrightarrow> p \<noteq> [] \<Longrightarrow>
   visible (last (Params_String (Some p)))"
proof (cases p rule: rev_cases)
  case (snoc q it)
  moreover assume "list_all wf_param p" "list_all printable (Params_String (Some p))"
  ultimately show ?thesis
    using Param_String_last [of it] by (simp add: Params_String_def Param_String_not_Nil)
qed simp

lemma printable_no_control: "list_all printable s \<Longrightarrow> \<not> list_ex is_control s"
  by (auto simp: list_all_iff list_ex_iff printable_def visible_def is_control_def)

lemma wf_tail_Some:
  assumes "wf_tail (Some p)"
  shows "vis_ends (Params_String (Some p))" "\<not> list_ex is_control (Params_String (Some p))"
    "Params_String (Some p) \<noteq> []" "hd (Params_String (Some p)) = CHR '';''"
    "ParseParams (Params_String (Some p)) = Inr p"
    "set (Params_String (Some p)) \<inter> set ''<>'' = {}"
proof -
  have p: "p \<noteq> []" "wf_params p" "list_all wf_param p" "list_all printable (Params_String (Some p))"
    using assms by (auto simp: wf_tail_def wf_params_def)
  show ne: "Params_String (Some p) \<noteq> []" and hd: "hd (Params_String (Some p)) = CHR '';''"
    using Params_String_shape [OF p(1)] by auto
  show "vis_ends (Params_String (Some p))"
    using hd Params_String_last [OF p(3,4,1)] by (simp add: vis_ends_def visible_def)
  show "\<not> list_ex is_control (Params_String (Some p))" by (rule printable_no_control [OF p(4)])
  show "ParseParams (Params_String (Some p)) = Inr p" by (rule ParseParams_String [OF p(2)])
  show "set (Params_String (Some p)) \<inter> set ''<>'' = {}" using assms by (simp add: wf_tail_def)
qed

lemma Params_String_None [simp]: "Params_String None = []"
  by (simp add: Params_String_def)

lemma wf_tail_props:
  assumes "wf_tail ps"
  shows "vis_ends (Params_String ps)" "\<not> list_ex is_control (Params_String ps)"
    "set (Params_String ps) \<inter> set ''<>'' = {}"
proof -
  have "vis_ends (Params_String ps) \<and> \<not> list_ex is_control (Params_String ps) \<and>
      set (Params_String ps) \<inter> set ''<>'' = {}"
  proof (cases ps)
    case (Some p)
    then show ?thesis using wf_tail_Some(1,2,6) [of p] assms by simp
  qed (simp add: vis_ends_def)
  then show "vis_ends (Params_String ps)" "\<not> list_ex is_control (Params_String ps)"
    "set (Params_String ps) \<inter> set ''<>'' = {}" by blast+
qed

section \<open>Via\<close>

definition wf_via :: "Via \<Rightarrow> bool" where
  "wf_via v \<longleftrightarrow>
     VProto v \<noteq> [] \<and> list_all visible (VProto v) \<and>
     VTransport v = via_transport (VProto v) \<and>
     wf_host (VHost v) \<and> 0 \<le> VPort v \<and> int_in_range (VPort v) \<and> wf_tail (VParams v)"

lemma bracket_index:
  assumes "wf_host h" "HasPrefix h ''[''"
  shows "IndexByte (h @ t) CHR '']'' = Some (length h - 1)" "HasPrefix (h @ t) ''[''" "h \<noteq> []"
proof -
  have "index_where (\<lambda>x. x = CHR '']'') h = Some (length h - 1)" and ne: "h \<noteq> []"
    using assms by (auto simp: wf_host_def IndexByte_def)
  then obtain a where "h = a @ [CHR '']'']" "CHR '']'' \<notin> set a"
    using index_where_Some [of "\<lambda>x. x = CHR '']''" h "length h - 1"]
    by (metis append_butlast_last_id butlast_conv_take last_conv_nth)
  then show "IndexByte (h @ t) CHR '']'' = Some (length h - 1)"
    using index_where_eq [of "CHR '']''" a t] by (simp add: IndexByte_def)
  show "HasPrefix (h @ t) ''[''" "h \<noteq> []" using assms ne by (cases h; simp add: HasPrefix_def)+
qed

lemma plain_host:
  assumes "wf_host h" "\<not> HasPrefix h ''[''"
  shows "\<not> HasPrefix (h @ t) ''[''" "CHR '':'' \<notin> set h" "h \<noteq> []"
  using assms by (cases h; simp add: HasPrefix_def wf_host_def)+

lemma via_rebuild:
  assumes "VTransport v = via_transport (VProto v)"
  shows "(empty_via (VProto v) ps)\<lparr>VHost := VHost v, VPort := VPort v, VTransport := via_transport (VProto v)\<rparr> = v\<lparr>VParams := ps\<rparr>"
    "VPort v = 0 \<Longrightarrow> (empty_via (VProto v) ps)\<lparr>VHost := VHost v, VTransport := via_transport (VProto v)\<rparr> = v\<lparr>VParams := ps\<rparr>"
  using assms by (cases v; simp add: empty_via_def)+

lemma empty_via_VProto [simp]: "VProto (empty_via pr ps) = pr"
  by (simp add: empty_via_def)

lemma Via_parseHostPort_bracket:
  assumes "wf_via v" "HasPrefix (VHost v) ''[''"
  shows "Via_parseHostPort (empty_via (VProto v) ps)
           (VHost v @ (if 0 < VPort v then '':'' @ Itoa (VPort v) else [])) = Inr (v\<lparr>VParams := ps\<rparr>)"
proof -
  have host: "wf_host (VHost v)" and tr: "VTransport v = via_transport (VProto v)"
    and port: "0 \<le> VPort v" "int_in_range (VPort v)"
    using assms(1) by (simp_all add: wf_via_def)
  have len: "length (VHost v) - 1 + 1 = length (VHost v)" using host by (simp add: wf_host_def)
  note idx = bracket_index [OF host assms(2)]
  show ?thesis
  proof (cases "0 < VPort v")
    case True
    then show ?thesis
      using via_rebuild(1) [OF tr, of ps] idx len port(2)
      by (simp add: Via_parseHostPort_def nth_append Atoi_Itoa)
  next
    case False
    then have "VPort v = 0" using port by simp
    then show ?thesis
      using via_rebuild(2) [OF tr, of ps] idx(1,2) [of "[]"] len
      by (simp add: Via_parseHostPort_def)
  qed
qed

lemma Via_parseHostPort_plain:
  assumes "wf_via v" "\<not> HasPrefix (VHost v) ''[''"
  shows "Via_parseHostPort (empty_via (VProto v) ps)
           (VHost v @ (if 0 < VPort v then '':'' @ Itoa (VPort v) else [])) = Inr (v\<lparr>VParams := ps\<rparr>)"
proof -
  have host: "wf_host (VHost v)" and tr: "VTransport v = via_transport (VProto v)"
    and port: "0 \<le> VPort v" "int_in_range (VPort v)"
    using assms(1) by (simp_all add: wf_via_def)
  note pl = plain_host [OF host assms(2)]
  show ?thesis
  proof (cases "0 < VPort v")
    case True
    have "CHR '':'' \<notin> set (Itoa (VPort v))" using port by (simp add: Itoa_absent is_digit_def)
    with True show ?thesis
      using via_rebuild(1) [OF tr, of ps] pl(1) port(2)
      by (simp add: Via_parseHostPort_def LastIndexByte_append Atoi_Itoa)
  next
    case False
    then have "VPort v = 0" using port by simp
    then show ?thesis
      using via_rebuild(2) [OF tr, of ps] assms(2) pl(2)
      by (simp add: Via_parseHostPort_def LastIndexByte_absent)
  qed
qed

lemmas Via_parseHostPort_wf = Via_parseHostPort_bracket Via_parseHostPort_plain

lemma ParseVia_Value:
  assumes "wf_via v"
  shows "ParseVia (Via_Value v) = Inr v"
proof -
  let ?hp = "VHost v @ (if 0 < VPort v then '':'' @ Itoa (VPort v) else [])"
  let ?ps = "Params_String (VParams v)"
  have tail: "wf_tail (VParams v)" and pr: "list_all visible (VProto v)" "VProto v \<noteq> []"
    using assms by (simp_all add: wf_via_def)
  note t = wf_tail_props [OF tail]
  have hp: "list_all visible ?hp" "?hp \<noteq> []" "CHR '';'' \<notin> set ?hp"
    using assms by (auto simp: wf_via_def wf_host_def Itoa_visible Itoa_absent is_digit_def visible_def)
  have val: "Via_Value v = VProto v @ SP # ?hp @ ?ps" by (simp add: Via_Value_def)
  have ve: "vis_ends (?hp @ ?ps)" by (rule vis_ends_append [OF vis_ends_all [OF hp(1)] t(1)])
  have "visible (last (Via_Value v))" "visible (hd (Via_Value v))"
    using ve hp(2) pr val by (auto simp: vis_ends_def list_all_iff split: if_splits)
  then have trims: "TrimSpace (Via_Value v) = Via_Value v" "TrimSpace (VProto v) = VProto v"
      "TrimSpace (?hp @ ?ps) = ?hp @ ?ps" "TrimSpace ?hp = ?hp"
    using TrimSpace_vis [OF ve] TrimSpace_vis [OF vis_ends_all [OF hp(1)]] TrimSpace_vis [OF vis_ends_all [OF pr(1)]]
    by (simp_all add: TrimSpace_vis vis_ends_def)
  have ctl: "\<not> list_ex is_control (Via_Value v)"
    using t(2) visible_no_control [OF hp(1)] visible_no_control [OF pr(1)] val by (simp add: is_control_def)
  have "SP \<notin> set (VProto v)" using pr by (auto simp: list_all_iff visible_def)
  then have sp: "SplitN (Via_Value v) SP 2 = [VProto v, ?hp @ ?ps]"
    using val by (simp add: numeral_2_eq_2 Cut_append)
  have hpp: "Via_parseHostPort (empty_via (VProto v) ps) ?hp = Inr (v\<lparr>VParams := ps\<rparr>)" for ps
    by (cases "HasPrefix (VHost v) ''[''") (rule Via_parseHostPort_wf [OF assms], assumption)+
  show ?thesis
  proof (cases "VParams v")
    case None
    then have "IndexByte (?hp @ ?ps) CHR '';'' = None" using hp(3) by (simp add: IndexByte_absent)
    then show ?thesis
      using trims ctl sp None hpp [of None] by (simp add: ParseVia_def)
  next
    case (Some p)
    note ts = wf_tail_Some [OF tail [unfolded Some]]
    obtain ps' where ps': "?ps = CHR '';'' # ps'" using ts(3,4) Some by (cases ?ps) auto
    have "IndexByte (?hp @ ?ps) CHR '';'' = Some (length ?hp)"
      unfolding ps' using hp(3) by (rule IndexByte_append)
    then show ?thesis
      using trims ctl sp Some ts(5) hpp [of "Some p"] by (simp add: ParseVia_def)
  qed
qed

interpretation via_codec: codec Via_Value ParseVia wf_via
  by unfold_locales (rule ParseVia_Value)

section \<open>Properties\<close>

text \<open>Canonical header names: two spellings that differ only in case have the same
  canonical name, and a canonical name is its own.\<close>

theorem canonical_names: "EqualFold m n \<Longrightarrow> CanonicalName m = CanonicalName n \<and> CanonicalName (CanonicalName m) = CanonicalName n"
  by (metis CanonicalName_EqualFold CanonicalName_idem)

theorem canonical_names_witness: "CanonicalName ''CALL-id'' = CanonicalName ''call-ID''"
proof -
  have "EqualFold ''CALL-id'' ''call-ID''" by code_simp
  then show ?thesis using canonical_names [of "''CALL-id''" "''call-ID''"] by simp
qed

text \<open>A well-formed Via (IPv6 host, port and parameters included) is read back from its
  printed value.\<close>

theorem via_roundtrip: "wf_via v \<Longrightarrow> ParseVia (Via_Value v) = Inr v"
  by (rule via_codec.dec_enc)

theorem via_roundtrip_witness:
  "ParseVia (Via_Value \<lparr>VProto = ''SIP/2.0/UDP'', VTransport = ''UDP'', VHost = ''h'', VPort = 7,
      VParams = Some [\<lparr>Key = ''branch'', Val = ''z9'', HasValue = True\<rparr>]\<rparr>) =
    Inr \<lparr>VProto = ''SIP/2.0/UDP'', VTransport = ''UDP'', VHost = ''h'', VPort = 7,
      VParams = Some [\<lparr>Key = ''branch'', Val = ''z9'', HasValue = True\<rparr>]\<rparr>"
  by (rule via_roundtrip) code_simp

end
