(* ===== verification/HeadersLists.thy ===== *)
theory HeadersLists
  imports HeadersCorrect
begin

text \<open>
  Correctness of the name-address headers of \<^verbatim>\<open>headers.go\<close> (\<open>ParseAddress\<close>,
  \<open>ParseNameAddrList\<close>) and of the Digest credentials (\<open>ParseAuth\<close>) against their printers.
\<close>

section \<open>Addresses\<close>

definition wf_display :: "string \<Rightarrow> bool \<Rightarrow> bool" where
  "wf_display name quoted \<longleftrightarrow>
     set name \<inter> set ''<>'' = {} \<and>
     (if name = [] then \<not> quoted
      else if quoted then BS \<notin> set name
      else vis_ends name \<and> \<not> ContainsAny name [CHR '','', CHR '';'', DQ, SP])"

definition wf_address :: "Address \<Rightarrow> bool" where
  "wf_address a \<longleftrightarrow> wf_display (DisplayName a) (Quoted a) \<and> wf_tail (AParams a) \<and>
     (case AUri a of None \<Rightarrow> False
      | Some u \<Rightarrow> wf_uri u \<and> set (Uri_String (Some u)) \<inter> {DQ, CHR ''<'', CHR ''>''} = {})"

definition display_shown :: "Address \<Rightarrow> string" where
  "display_shown a = (if DisplayName a = [] then []
     else if Quoted a then DQ # escape_quotes (DisplayName a) @ [DQ] else DisplayName a)"

definition display_part :: "Address \<Rightarrow> string" where
  "display_part a = (if DisplayName a = [] then [] else display_shown a @ [SP])"

lemma Address_String_wf:
  "wf_display (DisplayName a) (Quoted a) \<Longrightarrow>
   Address_String a = display_part a @ CHR ''<'' # Uri_String (AUri a) @ CHR ''>'' # Params_String (AParams a)"
  by (auto simp: Address_String_def display_part_def display_shown_def wf_display_def)

lemma unquote_id: "DQ \<notin> set s \<Longrightarrow> unquote s = s"
  by (cases s) (auto simp: unquote_def)

lemma unquote_quoted: "BS \<notin> set s \<Longrightarrow> unquote (DQ # escape_quotes s @ [DQ]) = s"
  by (simp add: unquote_def unescape_escape butlast_append)

lemma TrimSpace_trailing: "vis_ends x \<Longrightarrow> x \<noteq> [] \<Longrightarrow> TrimSpace (x @ [SP]) = x"
proof -
  assume x: "vis_ends x" "x \<noteq> []"
  obtain c y where cy: "x = c # y" "visible c" using x by (cases x) (auto simp: vis_ends_def)
  obtain d z where dz: "x = z @ [d]" "visible d"
    using x by (cases x rule: rev_cases) (auto simp: vis_ends_def)
  have "trim_left (x @ [SP]) = x @ [SP]" using cy by (simp only: append_Cons trim_left_id ws_width_visible)
  moreover have "ws_width_rev (SP # rev x) = 1" by (simp add: ws_width_rev_def ascii_space_def)
  then have "trim_rev (SP # rev x) = trim_rev (rev x)" by (subst trim_rev.simps) simp
  moreover have "trim_rev (rev x) = rev x" using dz by (simp add: trim_rev_id ws_width_rev_visible)
  ultimately show ?thesis by (simp add: TrimSpace_def)
qed

lemma display_shown_wf:
  assumes "wf_display (DisplayName a) (Quoted a)"
  shows "vis_ends (display_shown a)" "CHR ''<'' \<notin> set (display_part a)"
    "TrimSpace (display_part a) = display_shown a"
    "unquote (display_shown a) = DisplayName a" "(display_shown a \<noteq> DisplayName a) = Quoted a"
proof -
  have esc: "CHR ''<'' \<notin> set (escape_quotes (DisplayName a))"
    using set_escape_quotes [of "DisplayName a"] assms by (auto simp: wf_display_def)
  show ve: "vis_ends (display_shown a)"
    using assms by (auto simp: wf_display_def display_shown_def vis_ends_def visible_def)
  show "CHR ''<'' \<notin> set (display_part a)"
    using assms esc by (auto simp: wf_display_def display_shown_def display_part_def)
  show "TrimSpace (display_part a) = display_shown a"
    using TrimSpace_trailing [OF ve] by (auto simp: display_part_def display_shown_def)
  show "unquote (display_shown a) = DisplayName a"
    using assms unquote_id [of "DisplayName a"] unquote_quoted [of "DisplayName a"]
    by (auto simp: display_shown_def wf_display_def ContainsAny_iff unquote_id)
  show "(display_shown a \<noteq> DisplayName a) = Quoted a"
  proof -
    have "length (escape_quotes s) \<ge> length s" for s by (induction s) auto
    then have "DQ # escape_quotes s @ [DQ] \<noteq> s" for s
      by (metis append.left_neutral append_Cons append_eq_append_conv2 length_Cons length_append_singleton
          less_Suc_eq_le not_less_eq_eq less_or_eq_imp_le Suc_n_not_le_n le_trans)
    then show ?thesis using assms by (auto simp: display_shown_def wf_display_def split: if_splits)
  qed
qed

lemma ParseAddress_String:
  assumes "wf_address a"
  shows "ParseAddress (Address_String a) = Inr a"
proof -
  obtain u where u: "AUri a = Some u" "wf_uri u" "set (Uri_String (Some u)) \<inter> {DQ, CHR ''<'', CHR ''>''} = {}"
    and d: "wf_display (DisplayName a) (Quoted a)" and tail: "wf_tail (AParams a)"
    using assms by (auto simp: wf_address_def split: option.splits)
  let ?d = "display_part a" and ?u = "Uri_String (Some u)" and ?p = "Params_String (AParams a)"
  note dw = display_shown_wf [OF d] and tp = wf_tail_props [OF tail]
  have s: "Address_String a = ?d @ CHR ''<'' # ?u @ CHR ''>'' # ?p"
    using Address_String_wf [OF d] u by simp
  have "visible (hd (Address_String a))" "visible (last (Address_String a))"
    using dw(1) tp(1) s by (auto simp: display_part_def display_shown_def vis_ends_def visible_def)
  then have trim: "TrimSpace (Address_String a) = Address_String a"
    by (simp add: TrimSpace_vis vis_ends_def)
  have i1: "IndexByte (Address_String a) CHR ''<'' = Some (length ?d)"
    unfolding s using dw(2) by (rule IndexByte_append)
  have "CHR ''>'' \<notin> set ?p" using tp(3) by auto
  then have i2: "LastIndexByte (Address_String a) CHR ''>'' = Some (length ?d + 1 + length ?u)"
    using LastIndexByte_append [of "CHR ''>''" ?p "?d @ CHR ''<'' # ?u"] s by simp
  have sl: "take (length ?d) (Address_String a) = ?d"
    "take (length ?u) (drop (length ?d + 1) (Address_String a)) = ?u"
    "drop (length ?d + 1 + length ?u + 1) (Address_String a) = ?p"
    unfolding s by simp_all
  have ps: "(if TrimSpace ?p \<noteq> [] then bind_result (ParseParams (TrimSpace ?p)) (\<lambda>p. Inr (Some p)) else Inr None) = Inr (AParams a)"
  proof (cases "AParams a")
    case (Some p)
    then show ?thesis
      using wf_tail_Some [of p] tail TrimSpace_vis [OF tp(1)] by simp
  qed simp
  have "a = \<lparr>DisplayName = DisplayName a, Quoted = Quoted a, AUri = Some u, AParams = AParams a\<rparr>"
    using u by (cases a) simp
  then show ?thesis
    using trim i1 i2 sl dw(3,4,5) ps uri_codec.dec_enc [OF u(2)]
    by (simp add: ParseAddress_def)
qed

interpretation address_codec: codec Address_String ParseAddress wf_address
  by unfold_locales (rule ParseAddress_String)

section \<open>Address lists\<close>

lemma splitAddr_plain:
  "set w \<inter> {DQ, CHR ''<'', CHR ''>''} = {} \<Longrightarrow> d \<noteq> 0 \<or> CHR '','' \<notin> set w \<Longrightarrow>
   splitAddrList_loop d False False cur (w @ s) = splitAddrList_loop d False False (cur @ w) s"
  by (induction w arbitrary: cur) auto

lemma splitAddr_quoted:
  "BS \<notin> set v \<Longrightarrow>
   splitAddrList_loop d True False cur (escape_quotes v @ DQ # s) =
   splitAddrList_loop d False False (cur @ escape_quotes v @ [DQ]) s"
  by (induction v arbitrary: cur) auto

lemma escapeParam_wf:
  "wf_value v \<Longrightarrow> escapeParam v =
     (if ContainsAny v [DQ, CHR '';'', CHR ''?'', CHR '',''] then DQ # escape_quotes v @ [DQ] else v)"
  using set_escape_quotes [of v]
  by (auto simp: escapeParam_def wf_value_def intro!: sanitizeField_id)

lemma splitAddr_value:
  assumes "wf_value v" "set (escapeParam v) \<inter> set ''<>'' = {}"
  shows "splitAddrList_loop 0 False False cur (escapeParam v @ s) =
         splitAddrList_loop 0 False False (cur @ escapeParam v) s"
proof (cases "ContainsAny v [DQ, CHR '';'', CHR ''?'', CHR '','']")
  case True
  then show ?thesis
    using assms by (simp add: escapeParam_wf splitAddr_quoted wf_value_def)
next
  case False
  then have "set v \<inter> {DQ, CHR ''<'', CHR ''>''} = {}" "CHR '','' \<notin> set v"
    using assms by (auto simp: escapeParam_wf ContainsAny_iff)
  then show ?thesis using False assms by (simp add: escapeParam_wf splitAddr_plain)
qed

lemma splitAddr_param:
  assumes "wf_param it" "set (Param_String it) \<inter> set ''<>'' = {}"
  shows "splitAddrList_loop 0 False False cur (CHR '';'' # Param_String it @ s) =
         splitAddrList_loop 0 False False (cur @ CHR '';'' # Param_String it) s"
proof -
  have k: "set (CHR '';'' # Key it @ ''='') \<inter> {DQ, CHR ''<'', CHR ''>''} = {}" "CHR '','' \<notin> set (CHR '';'' # Key it @ ''='')"
    and e: "escapeParam (Key it) = Key it"
    using assms by (auto simp: wf_param_def wf_key_def ContainsAny_iff key_forbidden_def escapeParam_key)
  show ?thesis
  proof (cases "HasValue it")
    case True
    then have "set (escapeParam (Val it)) \<inter> set ''<>'' = {}" "wf_value (Val it)"
      using assms by (auto simp: Param_String_def wf_param_def)
    then show ?thesis
      using True e splitAddr_plain [OF k(1), of 0 cur "escapeParam (Val it) @ s"] k(2)
        splitAddr_value [of "Val it" "cur @ CHR '';'' # Key it @ ''=''" s]
      by (simp add: Param_String_def)
  next
    case False
    then show ?thesis
      using e splitAddr_plain [of "CHR '';'' # Key it" 0 cur s] k by (simp add: Param_String_def)
  qed
qed

lemma splitAddr_params:
  "list_all wf_param p \<Longrightarrow> set (Params_String (Some p)) \<inter> set ''<>'' = {} \<Longrightarrow>
   splitAddrList_loop 0 False False cur (Params_String (Some p) @ s) =
   splitAddrList_loop 0 False False (cur @ Params_String (Some p)) s"
proof (induction p arbitrary: cur)
  case (Cons it p)
  then have "set (Param_String it) \<inter> set ''<>'' = {}" "set (Params_String (Some p)) \<inter> set ''<>'' = {}"
    by (auto simp: Params_String_def)
  then show ?case
    using Cons splitAddr_param [of it cur "Params_String (Some p) @ s"]
    by (simp add: Params_String_def)
qed (simp add: Params_String_def)

lemma splitAddr_display:
  assumes "wf_display (DisplayName a) (Quoted a)"
  shows "splitAddrList_loop 0 False False cur (display_part a @ s) =
         splitAddrList_loop 0 False False (cur @ display_part a) s"
proof (cases "DisplayName a = [] \<or> Quoted a")
  case True
  then show ?thesis
    using assms splitAddr_quoted [of "DisplayName a" 0 "cur @ [DQ]" "SP # s"]
    by (auto simp: wf_display_def display_part_def display_shown_def)
next
  case False
  then show ?thesis
    using assms splitAddr_plain [of "DisplayName a @ [SP]" 0 cur s]
    by (auto simp: wf_display_def display_part_def display_shown_def ContainsAny_iff)
qed

lemma splitAddr_address:
  assumes "wf_address a"
  shows "splitAddrList_loop 0 False False cur (Address_String a @ s) =
         splitAddrList_loop 0 False False (cur @ Address_String a) s"
proof -
  obtain u where u: "AUri a = Some u" "set (Uri_String (Some u)) \<inter> {DQ, CHR ''<'', CHR ''>''} = {}"
    and d: "wf_display (DisplayName a) (Quoted a)" and tail: "wf_tail (AParams a)"
    using assms by (auto simp: wf_address_def split: option.splits)
  have tl: "splitAddrList_loop 0 False False c (Params_String (AParams a) @ s) =
      splitAddrList_loop 0 False False (c @ Params_String (AParams a)) s" for c
    using tail by (cases "AParams a") (simp_all add: wf_tail_def wf_params_def splitAddr_params)
  show ?thesis
    using u tl splitAddr_plain [of "Uri_String (Some u)" 1] Address_String_wf [OF d]
      splitAddr_display [OF d]
    by simp
qed

lemma splitAddr_list:
  "as \<noteq> [] \<Longrightarrow> (\<And>a. a \<in> set as \<Longrightarrow> wf_address a) \<Longrightarrow>
   splitAddrList_loop 0 False False cur (Join (map Address_String as) '', '') =
   TrimSpace (cur @ Address_String (hd as)) # map (\<lambda>a. TrimSpace (Address_String a)) (tl as)"
proof (induction as arbitrary: cur)
  case (Cons a as)
  show ?case
  proof (cases as)
    case Nil
    then show ?thesis using Cons.prems splitAddr_address [of a cur "[]"] by simp
  next
    case (Cons b bs)
    then have "splitAddrList_loop 0 False False [SP] (Join (map Address_String as) '', '') =
        TrimSpace ([SP] @ Address_String b) # map (\<lambda>a. TrimSpace (Address_String a)) bs"
      using Cons.IH [of "[SP]"] Cons.prems by simp
    then show ?thesis
      using Cons Cons.prems splitAddr_address [of a cur] by (simp add: TrimSpace_space)
  qed
qed simp

lemma Address_String_trim:
  assumes "wf_address a"
  shows "TrimSpace (Address_String a) = Address_String a" "vis_ends (Address_String a)"
proof -
  have d: "wf_display (DisplayName a) (Quoted a)" and tail: "wf_tail (AParams a)"
    using assms by (auto simp: wf_address_def)
  show ve: "vis_ends (Address_String a)"
    using display_shown_wf(1) [OF d] wf_tail_props(1) [OF tail] Address_String_wf [OF d]
    by (auto simp: display_part_def display_shown_def vis_ends_def visible_def)
  show "TrimSpace (Address_String a) = Address_String a" by (rule TrimSpace_vis [OF ve])
qed

definition wf_addrlist :: "NameAddrList \<Rightarrow> bool" where
  "wf_addrlist l \<longleftrightarrow> NHName l = [] \<and> Addresses l \<noteq> [] \<and> \<not> All l \<and> list_all wf_address (Addresses l)"

lemma vis_ends_Join:
  "(\<And>p. p \<in> set ps \<Longrightarrow> vis_ends p \<and> p \<noteq> []) \<Longrightarrow> vis_ends (Join ps '', '')"
proof (induction ps "'', ''" rule: Join.induct)
  case (3 p q ps)
  then have "vis_ends p" "p \<noteq> []" "vis_ends (Join (q # ps) '', '')" "q \<noteq> []" by auto
  moreover have "Join (q # ps) '', '' \<noteq> []" using \<open>q \<noteq> []\<close> by (cases ps) simp_all
  ultimately show ?case by (simp add: vis_ends_def)
qed (auto simp: vis_ends_def)

lemma Address_String_not_Nil [simp]: "Address_String a \<noteq> []"
  by (simp add: Address_String_def)

lemma ParseNameAddrList_Value:
  assumes "wf_addrlist l"
  shows "ParseNameAddrList (NameAddrList_Value l) = Inr l"
proof -
  have as: "Addresses l \<noteq> []" "\<And>a. a \<in> set (Addresses l) \<Longrightarrow> wf_address a"
    using assms by (auto simp: wf_addrlist_def list_all_iff)
  let ?s = "NameAddrList_Value l"
  have "vis_ends ?s"
    unfolding NameAddrList_Value_def using as Address_String_trim by (intro vis_ends_Join) auto
  then have trim: "TrimSpace ?s = ?s" by (rule TrimSpace_vis)
  obtain a as' where al: "Addresses l = a # as'" using as by (cases "Addresses l") auto
  have "splitAddrList ?s = map Address_String (Addresses l)"
    using splitAddr_list [OF as, of "[]"] as al Address_String_trim
    by (simp add: splitAddrList_def NameAddrList_Value_def)
  then have parse: "map_result ParseAddress (splitAddrList ?s) = Inr (Addresses l)"
    using as by (simp add: map_result_all address_codec.dec_enc)
  have "CHR ''<'' \<in> set ?s"
    using al by (cases as') (auto simp: NameAddrList_Value_def Address_String_def)
  then have "?s \<noteq> ''*''" by auto
  then show ?thesis
    using trim parse as assms by (cases l) (simp add: ParseNameAddrList_def wf_addrlist_def)
qed

interpretation addrlist_codec: codec NameAddrList_Value ParseNameAddrList wf_addrlist
  by unfold_locales (rule ParseNameAddrList_Value)

section \<open>Digest credentials\<close>

definition wf_quoted_field :: "string \<Rightarrow> bool" where
  "wf_quoted_field v \<longleftrightarrow> set v \<inter> {DQ, BS} = {}"

definition wf_plain_field :: "string \<Rightarrow> bool" where
  "wf_plain_field v \<longleftrightarrow> list_all visible v \<and> set v \<inter> {DQ, CHR '',''} = {}"

definition wf_auth :: "Auth \<Rightarrow> bool" where
  "wf_auth a \<longleftrightarrow>
     AuScheme a \<noteq> [] \<and> wf_plain_field (AuScheme a) \<and>
     list_all wf_quoted_field [Username a, Realm a, Nonce a, AuResponse a, Cnonce a, Opaque a] \<and>
     list_all wf_plain_field [AuURI a, Nc a, Qop a, Algorithm a] \<and>
     Nonce a \<noteq> [] \<and> Other a = Some []"

text \<open>The non-empty fields in the order \<open>Auth_Value\<close> writes them: quoted or not, name, value.\<close>

definition auth_items :: "Auth \<Rightarrow> (bool \<times> string \<times> string) list" where
  "auth_items a =
     [(True, ''username'', Username a), (True, ''realm'', Realm a), (True, ''nonce'', Nonce a),
      (False, ''uri'', AuURI a), (True, ''response'', AuResponse a), (True, ''cnonce'', Cnonce a),
      (False, ''nc'', Nc a), (False, ''qop'', Qop a), (False, ''algorithm'', Algorithm a),
      (True, ''opaque'', Opaque a)]"

definition present :: "bool \<times> string \<times> string \<Rightarrow> bool" where
  "present i \<longleftrightarrow> snd (snd i) \<noteq> []"

definition auth_part :: "bool \<times> string \<times> string \<Rightarrow> string" where
  "auth_part i = (case i of (q, k, v) \<Rightarrow> k @ CHR ''='' # (if q then DQ # v @ [DQ] else v))"

definition auth_text :: "(bool \<times> string \<times> string) list \<Rightarrow> string" where
  "auth_text is = concat (map (\<lambda>i. '', '' @ auth_part i) is)"

definition wf_field_name :: "string \<Rightarrow> bool" where
  "wf_field_name k \<longleftrightarrow> k \<noteq> [] \<and> list_all visible k \<and> set k \<inter> {DQ, CHR '','', CHR ''=''} = {} \<and> ToLower k = k"

definition wf_item :: "bool \<times> string \<times> string \<Rightarrow> bool" where
  "wf_item i \<longleftrightarrow> (case i of (q, k, v) \<Rightarrow>
     wf_field_name k \<and> v \<noteq> [] \<and> (if q then wf_quoted_field v else wf_plain_field v))"

lemma auth_text_step:
  "auth_text (filter present ((q, k, v) # is)) =
     (if q then writeAuth k v else writeAuthPlain k v) @ auth_text (filter present is)"
  by (simp add: auth_text_def auth_part_def writeAuth_def writeAuthPlain_def present_def)

lemma Auth_Value_items: "Auth_Value a = AuScheme a @ auth_text (filter present (auth_items a))"
  by (simp add: Auth_Value_def auth_items_def auth_text_step del: filter.simps)
     (simp add: auth_text_def)

lemma splitAuth_plain:
  "set w \<inter> {DQ, CHR '','', SP, TAB} = {} \<Longrightarrow>
   splitAuthParams_loop False False cur (w @ s) = splitAuthParams_loop False False (cur @ w) s"
  by (induction w arbitrary: cur) auto

lemma splitAuth_quoted:
  "set v \<inter> {DQ, BS} = {} \<Longrightarrow>
   splitAuthParams_loop True False cur (v @ DQ # s) = splitAuthParams_loop False False (cur @ v @ [DQ]) s"
  by (induction v arbitrary: cur) auto

lemma visible_no_sep: "list_all visible w \<Longrightarrow> SP \<notin> set w \<and> TAB \<notin> set w"
  by (auto simp: list_all_iff visible_def)

lemma splitAuth_part:
  assumes "wf_item i"
  shows "splitAuthParams_loop False False [] (auth_part i @ s) = splitAuthParams_loop False False (auth_part i) s"
proof -
  obtain q k v where i: "i = (q, k, v)" by (cases i) auto
  have k: "set (k @ ''='') \<inter> {DQ, CHR '','', SP, TAB} = {}"
    using assms i visible_no_sep [of k] by (auto simp: wf_item_def wf_field_name_def)
  show ?thesis
  proof (cases q)
    case True
    then show ?thesis
      using assms i splitAuth_plain [OF k, of "[]" "DQ # v @ DQ # s"] splitAuth_quoted [of v "k @ [CHR ''='', DQ]" s]
      by (simp add: wf_item_def auth_part_def wf_quoted_field_def)
  next
    case False
    then have "set (k @ ''='' @ v) \<inter> {DQ, CHR '','', SP, TAB} = {}"
      using assms i k visible_no_sep [of v] by (auto simp: wf_item_def wf_plain_field_def)
    then show ?thesis
      using splitAuth_plain [of "k @ ''='' @ v" "[]" s] i False by (simp add: auth_part_def)
  qed
qed

lemma auth_part_trim:
  assumes "wf_item i"
  shows "TrimSpace (auth_part i) = auth_part i" "auth_part i \<noteq> []" "vis_ends (auth_part i)"
proof -
  show ve: "vis_ends (auth_part i)"
    using assms by (auto simp: wf_item_def auth_part_def wf_field_name_def wf_plain_field_def vis_ends_def
        list_all_iff visible_def split: prod.splits if_splits)
  show "TrimSpace (auth_part i) = auth_part i" by (rule TrimSpace_vis [OF ve])
  show "auth_part i \<noteq> []" by (simp add: auth_part_def split: prod.split)
qed

lemma splitAuth_items:
  "wf_item i \<Longrightarrow> list_all wf_item is \<Longrightarrow>
   splitAuthParams_loop False False (auth_part i) (auth_text is) = map auth_part (i # is)"
proof (induction "is" arbitrary: i)
  case Nil
  then show ?case by (simp add: auth_text_def auth_part_trim)
next
  case (Cons j js)
  then show ?case
    using splitAuth_part [of j "auth_text js"] auth_part_trim [of i]
    by (simp add: auth_text_def)
qed

lemma auth_text_vis: "list_all wf_item is \<Longrightarrow> vis_ends (auth_text is)"
proof (induction "is")
  case (Cons i "is")
  then have "vis_ends ('', '' @ auth_part i)"
    using auth_part_trim [of i] by (simp add: vis_ends_def visible_def)
  then show ?case
    using Cons vis_ends_append [of "'', '' @ auth_part i" "auth_text is"] by (simp add: auth_text_def)
qed (simp add: auth_text_def vis_ends_def)

lemma ParseAuth_loop_item:
  assumes "wf_item (q, k, v)"
  shows "ParseAuth_loop (auth_part (q, k, v) # parts) a = ParseAuth_loop parts (auth_field k v a)"
proof -
  have k: "CHR ''='' \<notin> set k" "TrimSpace k = k" "ToLower k = k"
    using assms by (auto simp: wf_item_def wf_field_name_def TrimSpace_vis vis_ends_all)
  let ?b = "if q then DQ # v @ [DQ] else v"
  have b: "TrimSpace ?b = ?b" "unquote ?b = v"
    using assms unquote_id [of v] escape_quotes_id [of v] unquote_quoted [of v]
    by (auto simp: wf_item_def wf_quoted_field_def wf_plain_field_def TrimSpace_vis vis_ends_def visible_def list_all_iff)
  show ?thesis
    using k b by (simp add: auth_part_def Cut_append)
qed

lemma ParseAuth_loop_items:
  "list_all (\<lambda>i. present i \<longrightarrow> wf_item i) ((q, k, v) # is) \<Longrightarrow> auth_field k [] a = a \<Longrightarrow>
   ParseAuth_loop (map auth_part (filter present ((q, k, v) # is))) a =
   ParseAuth_loop (map auth_part (filter present is)) (auth_field k v a)"
  by (cases "v = []") (simp_all add: present_def ParseAuth_loop_item del: ParseAuth_loop.simps)

lemma auth_items_wf: "wf_auth a \<Longrightarrow> list_all (\<lambda>i. present i \<longrightarrow> wf_item i) (auth_items a)"
  by (simp add: auth_items_def wf_auth_def wf_item_def present_def wf_field_name_def visible_def
      ToLower_def lower_char_def)

lemma ParseAuth_Value:
  assumes "wf_auth a"
  shows "ParseAuth (Auth_Value a) = a"
proof -
  let ?is = "filter present (auth_items a)"
  let ?a0 = "empty_auth\<lparr>AuScheme := AuScheme a, Other := Some NewParams\<rparr>"
  have wf: "list_all wf_item ?is" using auth_items_wf [OF assms] by (auto simp: list_all_iff)
  have "?is \<noteq> []" using assms by (simp add: auth_items_def present_def wf_auth_def)
  then obtain i "is" where isd: "?is = i # is" by (cases ?is) auto
  have val: "Auth_Value a = AuScheme a @ CHR '','' # SP # auth_part i @ auth_text is"
    using Auth_Value_items [of a] isd by (simp add: auth_text_def)
  have sch: "AuScheme a \<noteq> []" "list_all visible (AuScheme a)" "set (AuScheme a) \<inter> {SP, TAB, CHR '',''} = {}"
    using assms visible_no_sep [of "AuScheme a"] by (auto simp: wf_auth_def wf_plain_field_def)
  have ve: "vis_ends (AuScheme a @ auth_text ?is)"
    by (rule vis_ends_append [OF vis_ends_all [OF sch(2)] auth_text_vis [OF wf]])
  have trim: "TrimSpace (Auth_Value a) = Auth_Value a"
    using ve Auth_Value_items [of a] by (simp add: TrimSpace_vis)
  have idx: "IndexAny (Auth_Value a) [SP, TAB, CHR '',''] = Some (length (AuScheme a))"
    unfolding val using sch by (intro IndexAny_append) auto
  have "splitAuthParams (drop (length (AuScheme a) + 1) (Auth_Value a)) = map auth_part ?is"
    using wf isd splitAuth_part [of i "auth_text is"] splitAuth_items [of i "is"]
    by (simp add: val splitAuthParams_def)
  then have "ParseAuth (Auth_Value a) = ParseAuth_loop (map auth_part ?is) ?a0"
    using trim idx by (simp add: ParseAuth_def val)
  also have "\<dots> = a"
    using auth_items_wf [OF assms] assms
    by (simp add: auth_items_def ParseAuth_loop_items auth_field_def empty_auth_def del: filter.simps)
       (cases a, simp add: wf_auth_def NewParams_def)
  finally show ?thesis .
qed

interpretation auth_codec: codec Auth_Value "\<lambda>s. Inr (ParseAuth s)" wf_auth
  by unfold_locales (simp add: ParseAuth_Value)

section \<open>Properties\<close>

text \<open>A list of well-formed name-addresses (quoted display names, URIs, parameters) is
  read back from its printed value, commas inside quotes and angle brackets included.\<close>

theorem addrlist_roundtrip: "wf_addrlist l \<Longrightarrow> ParseNameAddrList (NameAddrList_Value l) = Inr l"
  by (rule addrlist_codec.dec_enc)

theorem addrlist_roundtrip_witness:
  "let l = \<lparr>NHName = [], Addresses = [\<lparr>DisplayName = ''a,b'', Quoted = True,
      AUri = Some \<lparr>Scheme = ''sip'', User = ''u'', Password = [], Host = ''h'', Port = 0, UParams = None, UHeaders = None\<rparr>,
      AParams = Some [\<lparr>Key = ''tag'', Val = ''1'', HasValue = True\<rparr>]\<rparr>], All = False\<rparr>
   in ParseNameAddrList (NameAddrList_Value l) = Inr l"
  unfolding Let_def by (rule addrlist_roundtrip) code_simp

text \<open>Well-formed Digest credentials are read back from their printed value.\<close>

theorem auth_roundtrip: "wf_auth a \<Longrightarrow> ParseAuth (Auth_Value a) = a"
  by (rule ParseAuth_Value)

theorem auth_roundtrip_witness:
  "let a = empty_auth\<lparr>AuScheme := ''Digest'', Realm := ''r'', Nonce := ''n'', Algorithm := ''MD5'', Other := Some []\<rparr>
   in ParseAuth (Auth_Value a) = a"
  unfolding Let_def by (rule auth_roundtrip) code_simp

end
