(* ===== verification/HeadersMap.thy ===== *)
theory HeadersMap
  imports HeadersLists
begin

text \<open>
  \<^verbatim>\<open>headers_map.go\<close>: the ordered header list of a message. Names are compared by their canonical
  form, so a lookup is insensitive to case and to compact names; the list is a keyed store.
\<close>

section \<open>Operations\<close>

type_synonym Headers = "Header list"

definition named :: "string \<Rightarrow> Header \<Rightarrow> bool" where
  "named name h \<longleftrightarrow> CanonicalName (Header_Name h) = CanonicalName name"

definition Headers_Add :: "Header \<Rightarrow> Headers \<Rightarrow> Headers" where
  "Headers_Add hdr hs = hs @ [hdr]"

definition Headers_Prepend :: "Header \<Rightarrow> Headers \<Rightarrow> Headers" where
  "Headers_Prepend hdr hs = hdr # hs"

fun Headers_Set :: "Header \<Rightarrow> Headers \<Rightarrow> Headers" where
  "Headers_Set hdr [] = [hdr]"
| "Headers_Set hdr (h # hs) =
     (if named (Header_Name hdr) h
      then hdr # filter (\<lambda>g. \<not> named (Header_Name hdr) g) hs
      else h # Headers_Set hdr hs)"

definition Headers_Get :: "Headers \<Rightarrow> string \<Rightarrow> Header option" where
  "Headers_Get hs name = find (named name) hs"

definition Headers_All :: "string \<Rightarrow> Headers \<Rightarrow> Header list" where
  "Headers_All name hs = filter (named name) hs"

definition Headers_Del :: "string \<Rightarrow> Headers \<Rightarrow> Headers" where
  "Headers_Del name hs = filter (\<lambda>h. \<not> named name h) hs"

definition Headers_Len :: "Headers \<Rightarrow> nat" where
  "Headers_Len hs = length hs"

definition Headers_Clone :: "Headers \<Rightarrow> Headers" where
  "Headers_Clone hs = map Header_Clone hs"

definition header_line :: "Header \<Rightarrow> string" where
  "header_line h = Header_Name h @ '': '' @ Header_Value h @ CRLF"

definition Headers_String :: "Headers \<Rightarrow> string" where
  "Headers_String hs = concat (map header_line hs)"

definition Headers_Values :: "string \<Rightarrow> Headers \<Rightarrow> string list" where
  "Headers_Values name hs = map Header_Value (Headers_All name hs)"

section \<open>A header list is a keyed store\<close>

definition same_name :: "string \<Rightarrow> string \<Rightarrow> bool" where
  "same_name m n \<longleftrightarrow> CanonicalName m = CanonicalName n"

lemma Headers_Clone_id [simp]: "Headers_Clone hs = hs"
  by (induction hs) (simp_all add: Headers_Clone_def)

lemma Get_Set_hit: "same_name (Header_Name h) n \<Longrightarrow> Headers_Get (Headers_Set h hs) n = Some h"
  by (induction hs) (auto simp: Headers_Get_def named_def same_name_def)

lemma find_filter_miss:
  "(\<And>x. P x \<Longrightarrow> Q x) \<Longrightarrow> find P (filter Q xs) = find P xs"
  by (induction xs) auto

lemma Get_Set_miss: "\<not> same_name (Header_Name h) n \<Longrightarrow> Headers_Get (Headers_Set h hs) n = Headers_Get hs n"
  by (induction hs) (auto simp: Headers_Get_def named_def same_name_def intro!: find_filter_miss)

lemma Get_Del_hit: "same_name m n \<Longrightarrow> Headers_Get (Headers_Del m hs) n = None"
  by (auto simp: Headers_Get_def Headers_Del_def find_None_iff named_def same_name_def)

lemma Get_Del_miss: "\<not> same_name m n \<Longrightarrow> Headers_Get (Headers_Del m hs) n = Headers_Get hs n"
  by (auto simp: Headers_Get_def Headers_Del_def named_def same_name_def intro!: find_filter_miss)

interpretation header_store: keyed_store Headers_Set Headers_Get Headers_Del Header_Name same_name "\<lambda>_. True"
  by unfold_locales (auto simp: same_name_def Get_Set_hit Get_Set_miss Get_Del_hit Get_Del_miss)

lemma Get_cong: "CanonicalName m = CanonicalName n \<Longrightarrow> Headers_Get hs m = Headers_Get hs n"
  by (simp add: Headers_Get_def named_def [abs_def])

lemma All_Set: "same_name (Header_Name h) n \<Longrightarrow> Headers_All n (Headers_Set h hs) = [h]"
proof (induction hs)
  case (Cons g hs)
  then show ?case
    by (auto simp: Headers_All_def named_def same_name_def filter_empty_conv)
qed (simp add: Headers_All_def named_def same_name_def)

lemma All_Set_other:
  "\<not> same_name (Header_Name h) n \<Longrightarrow> Headers_All n (Headers_Set h hs) = Headers_All n hs"
proof (induction hs)
  case (Cons g hs)
  have "filter (\<lambda>x. CanonicalName (Header_Name x) = CanonicalName n \<and>
      CanonicalName (Header_Name x) \<noteq> CanonicalName (Header_Name h)) hs =
    filter (\<lambda>x. CanonicalName (Header_Name x) = CanonicalName n) hs"
    using Cons.prems by (intro filter_cong) (auto simp: same_name_def)
  then show ?case
    using Cons by (auto simp: Headers_All_def named_def [abs_def] same_name_def conj_commute)
qed (simp add: Headers_All_def named_def same_name_def)

lemma Get_hd_All: "Headers_Get hs n = (case Headers_All n hs of [] \<Rightarrow> None | h # _ \<Rightarrow> Some h)"
  by (induction hs) (auto simp: Headers_Get_def Headers_All_def split: list.splits)

lemma Get_Add: "Headers_Get (Headers_Add h hs) n =
    (case Headers_Get hs n of Some g \<Rightarrow> Some g | None \<Rightarrow> if named n h then Some h else None)"
  by (simp add: Headers_Get_def Headers_Add_def find_append split: option.split)

lemma Get_Prepend: "Headers_Get (Headers_Prepend h hs) n = (if named n h then Some h else Headers_Get hs n)"
  by (simp add: Headers_Get_def Headers_Prepend_def)

lemma Get_named: "Headers_Get hs n = Some h \<Longrightarrow> named n h \<and> h \<in> set hs"
  by (auto simp: Headers_Get_def find_Some_iff)

lemmas header_get = Get_Set_hit Get_Set_miss Get_Add Get_Prepend Get_Del_hit Get_Del_miss

section \<open>Properties\<close>

text \<open>The header list is a map from canonical names: after setting a header, a lookup
  under any spelling of its name finds it and nothing else of that name is left, and lookups under every
  other name are unchanged.\<close>

theorem headers_set_get:
  "Headers_Get (Headers_Set h hs) n = (if same_name (Header_Name h) n then Some h else Headers_Get hs n) \<and>
   Headers_All n (Headers_Set h hs) = (if same_name (Header_Name h) n then [h] else Headers_All n hs)"
  by (simp add: header_store.get_put All_Set All_Set_other)

end
