(* ===== verification/Message.thy ===== *)
theory Message
  imports HeadersMap
begin

text \<open>
  \<^verbatim>\<open>message.go\<close>: requests and responses, the accessors that read typed headers out of them, the
  printer \<open>render\<close> and the validation of required headers. \<^verbatim>\<open>Request\<close> and \<^verbatim>\<open>Response\<close> are records;
  the interface \<^verbatim>\<open>Message\<close> is the datatype \<open>Message\<close>. A stored body is a \<open>string\<close> (nothing in the
  program tells a nil body from an empty one); the argument of \<open>SetBody\<close> is an option because there
  nil deletes the content headers.
\<close>

section \<open>Data\<close>

definition SipVersion :: string where "SipVersion = ''SIP/2.0''"

record Request =
  RMethod :: Method
  RUri :: "Uri option"
  RProto :: string
  RHeaders :: Headers
  RBody :: string

record Response =
  StatusCode :: int
  Reason :: string
  SProto :: string
  SHeaders :: Headers
  SBody :: string

datatype Message = Req Request | Resp Response

definition NewRequest :: "Method \<Rightarrow> Uri option \<Rightarrow> Request" where
  "NewRequest method uri =
     \<lparr>RMethod = method, RUri = uri, RProto = SipVersion, RHeaders = [], RBody = []\<rparr>"

definition reason_table :: "(int \<times> string) list" where
  "reason_table =
    [(100, ''Trying''), (180, ''Ringing''), (183, ''Session Progress''), (200, ''OK''),
     (202, ''Accepted''), (301, ''Moved Permanently''), (302, ''Moved Temporarily''),
     (400, ''Bad Request''), (401, ''Unauthorized''), (403, ''Forbidden''), (404, ''Not Found''),
     (407, ''Proxy Authentication Required''), (408, ''Request Timeout''),
     (415, ''Unsupported Media Type''), (420, ''Bad Extension''), (421, ''Extension Required''),
     (423, ''Interval Too Brief''), (480, ''Temporarily Unavailable''),
     (481, ''Call/Transaction Does Not Exist''), (483, ''Too Many Hops''), (486, ''Busy Here''),
     (487, ''Request Terminated''), (488, ''Not Acceptable Here''), (500, ''Server Internal Error''),
     (501, ''Not Implemented''), (502, ''Bad Gateway''), (503, ''Service Unavailable''),
     (504, ''Server Time-out''), (600, ''Busy Everywhere''), (603, ''Decline''),
     (604, ''Does Not Exist Anywhere'')]"

definition DefaultReason :: "int \<Rightarrow> string" where
  "DefaultReason code = (case map_of reason_table code of
     Some r \<Rightarrow> r
   | None \<Rightarrow>
       if code < 200 then ''Provisional''
       else if code < 300 then ''Success''
       else if code < 400 then ''Redirection''
       else if code < 500 then ''Client Error''
       else if code < 600 then ''Server Error''
       else ''Global Failure'')"

definition NewResponse :: "int \<Rightarrow> string \<Rightarrow> Response" where
  "NewResponse status reason =
     \<lparr>StatusCode = status, Reason = (if reason = [] then DefaultReason status else reason),
      SProto = SipVersion, SHeaders = [], SBody = []\<rparr>"

section \<open>Rendering\<close>

fun IsRequest :: "Message \<Rightarrow> bool" where
  "IsRequest (Req r) = True"
| "IsRequest (Resp r) = False"

fun StartLine :: "Message \<Rightarrow> string" where
  "StartLine (Req r) = RMethod r @ '' '' @ Uri_String (RUri r) @ '' '' @ RProto r"
| "StartLine (Resp r) = SProto r @ '' '' @ Itoa (StatusCode r) @ '' '' @ Reason r"

fun Message_Headers :: "Message \<Rightarrow> Headers" where
  "Message_Headers (Req r) = RHeaders r"
| "Message_Headers (Resp r) = SHeaders r"

fun Message_Body :: "Message \<Rightarrow> string" where
  "Message_Body (Req r) = RBody r"
| "Message_Body (Resp r) = SBody r"

definition body_headers :: "string \<Rightarrow> string option \<Rightarrow> Headers \<Rightarrow> Headers" where
  "body_headers contentType body hs = (case body of
     None \<Rightarrow> Headers_Del ''Content-Type'' (Headers_Del ''Content-Length'' hs)
   | Some b \<Rightarrow>
       (let h1 = Headers_Set (ContentLength (word_of_nat (length b))) hs in
        if contentType \<noteq> [] then Headers_Set (NewHeader ''Content-Type'' contentType) h1 else h1))"

definition Request_SetBody :: "string \<Rightarrow> string option \<Rightarrow> Request \<Rightarrow> Request" where
  "Request_SetBody contentType body r =
     r\<lparr>RBody := (case body of None \<Rightarrow> [] | Some b \<Rightarrow> b),
       RHeaders := body_headers contentType body (RHeaders r)\<rparr>"

definition Response_SetBody :: "string \<Rightarrow> string option \<Rightarrow> Response \<Rightarrow> Response" where
  "Response_SetBody contentType body r =
     r\<lparr>SBody := (case body of None \<Rightarrow> [] | Some b \<Rightarrow> b),
       SHeaders := body_headers contentType body (SHeaders r)\<rparr>"

definition Request_Clone :: "Request \<Rightarrow> Request" where
  "Request_Clone r = r\<lparr>RUri := Uri_Clone (RUri r), RHeaders := Headers_Clone (RHeaders r)\<rparr>"

definition Response_Clone :: "Response \<Rightarrow> Response" where
  "Response_Clone r = r\<lparr>SHeaders := Headers_Clone (SHeaders r)\<rparr>"

definition render :: "Message \<Rightarrow> string" where
  "render m =
     StartLine m @ CRLF @ Headers_String (Message_Headers m) @
     (if 0 < length (Message_Body m) then
        (if Headers_Get (Message_Headers m) ''Content-Length'' = None
         then ''Content-Length: '' @ Itoa (int (length (Message_Body m))) @ CRLF else []) @
        CRLF @ Message_Body m
      else CRLF)"

section \<open>Reading typed headers\<close>

definition via_of :: "Headers \<Rightarrow> Via option" where
  "via_of hs = (case Headers_Get hs ''Via'' of
     None \<Rightarrow> None
   | Some (ViaHeader v) \<Rightarrow> Some v
   | Some h \<Rightarrow> (case ParseVia (Header_Value h) of Inl _ \<Rightarrow> None | Inr v \<Rightarrow> Some v))"

fun addressOf :: "Header option \<Rightarrow> Address option" where
  "addressOf (Some (AddrHeader a k)) = Some a"
| "addressOf (Some (NameAddrListHeader l)) = NameAddrList_First (Some l)"
| "addressOf (Some (GenericHeader k v)) = (case ParseAddress v of Inl _ \<Rightarrow> None | Inr a \<Rightarrow> Some a)"
| "addressOf _ = None"

fun nameAddrListOf :: "Header option \<Rightarrow> NameAddrList option" where
  "nameAddrListOf (Some (NameAddrListHeader l)) = Some l"
| "nameAddrListOf (Some (AddrHeader a k)) = Some \<lparr>NHName = [], Addresses = [a], All = False\<rparr>"
| "nameAddrListOf (Some (GenericHeader k v)) = (case ParseNameAddrList v of Inl _ \<Rightarrow> None | Inr l \<Rightarrow> Some l)"
| "nameAddrListOf _ = None"

definition headerValue :: "Header option \<Rightarrow> string" where
  "headerValue h = (case h of None \<Rightarrow> [] | Some g \<Rightarrow> Header_Value g)"

fun cseqOf :: "Header option \<Rightarrow> CSeq option" where
  "cseqOf (Some (CSeqHeader c)) = Some c"
| "cseqOf (Some (GenericHeader k v)) = (case ParseCSeq v of Inl _ \<Rightarrow> None | Inr c \<Rightarrow> Some c)"
| "cseqOf _ = None"

definition Request_Via :: "Request \<Rightarrow> Via option" where "Request_Via r = via_of (RHeaders r)"
definition Request_From :: "Request \<Rightarrow> Address option" where "Request_From r = addressOf (Headers_Get (RHeaders r) ''From'')"
definition Request_To :: "Request \<Rightarrow> Address option" where "Request_To r = addressOf (Headers_Get (RHeaders r) ''To'')"
definition Request_Contact :: "Request \<Rightarrow> NameAddrList option" where "Request_Contact r = nameAddrListOf (Headers_Get (RHeaders r) ''Contact'')"
definition Request_CallID :: "Request \<Rightarrow> string" where "Request_CallID r = headerValue (Headers_Get (RHeaders r) ''Call-ID'')"
definition Request_CSeq :: "Request \<Rightarrow> CSeq option" where "Request_CSeq r = cseqOf (Headers_Get (RHeaders r) ''CSeq'')"
definition Response_Via :: "Response \<Rightarrow> Via option" where "Response_Via r = via_of (SHeaders r)"
definition Response_From :: "Response \<Rightarrow> Address option" where "Response_From r = addressOf (Headers_Get (SHeaders r) ''From'')"
definition Response_To :: "Response \<Rightarrow> Address option" where "Response_To r = addressOf (Headers_Get (SHeaders r) ''To'')"
definition Response_Contact :: "Response \<Rightarrow> NameAddrList option" where "Response_Contact r = nameAddrListOf (Headers_Get (SHeaders r) ''Contact'')"
definition Response_CallID :: "Response \<Rightarrow> string" where "Response_CallID r = headerValue (Headers_Get (SHeaders r) ''Call-ID'')"
definition Response_CSeq :: "Response \<Rightarrow> CSeq option" where "Response_CSeq r = cseqOf (Headers_Get (SHeaders r) ''CSeq'')"

section \<open>Validation\<close>

definition required_headers :: "(string \<times> error) list" where
  "required_headers = [(''Via'', ErrNoVia), (''From'', ErrNoFrom), (''To'', ErrNoTo),
     (''Call-ID'', ErrNoCallID), (''CSeq'', ErrNoCSeq)]"

fun missing_header :: "(string \<times> error) list \<Rightarrow> Headers \<Rightarrow> unit result" where
  "missing_header [] hs = Inr ()"
| "missing_header ((n, e) # rest) hs =
     (if Headers_Get hs n = None then Inl e else missing_header rest hs)"

definition Request_Validate :: "Request \<Rightarrow> unit result" where
  "Request_Validate r =
     (if RMethod r = [] then Inl ErrParse
      else (case RUri r of
        None \<Rightarrow> Inl ErrParse
      | Some u \<Rightarrow> if Host u = [] then Inl ErrParse else missing_header required_headers (RHeaders r)))"

definition Response_Validate :: "Response \<Rightarrow> unit result" where
  "Response_Validate r =
     (if StatusCode r < 100 \<or> StatusCode r > 699 then Inl ErrParse
      else missing_header required_headers (SHeaders r))"

lemma Request_Clone_id [simp]: "Request_Clone r = r"
  by (simp add: Request_Clone_def)

lemma Response_Clone_id [simp]: "Response_Clone r = r"
  by (simp add: Response_Clone_def)

lemma missing_header_ok:
  "missing_header req hs = Inr () \<longleftrightarrow> (\<forall>(n, e) \<in> set req. Headers_Get hs n \<noteq> None)"
  by (induction req hs rule: missing_header.induct) auto

end
