(* ===== verification/Parser.thy ===== *)
theory Parser
  imports Message
begin

text \<open>
  \<^verbatim>\<open>parser.go\<close>: the message parser. The \<^verbatim>\<open>bufio.Reader\<close> is the list of unread bytes. In the
  header loop \<^verbatim>\<open>prev\<close> is the header added last, so it is the last element of the list collected so
  far, and nil when that list is empty.
\<close>

section \<open>Limits\<close>

definition MaxMessageSize :: int where "MaxMessageSize = 2 ^ 20"
definition maxHeaderLines :: nat where "maxHeaderLines = 128"
definition maxHeaderLineLen :: int where "maxHeaderLineLen = 8192"
definition MaxBodySize :: int where "MaxBodySize = 65536"

section \<open>Typed headers\<close>

definition addr_header_names :: "string list" where
  "addr_header_names = [''From'', ''To'', ''Contact'', ''Route'', ''Record-Route'', ''Refer-To'',
     ''Accept-Contact'', ''Referred-By'', ''Reply-To'', ''Alert-Info'', ''Call-Info'', ''Error-Info'',
     ''P-Asserted-Identity'', ''Path'', ''Service-Route'']"

definition auth_header_names :: "string list" where
  "auth_header_names = [''Authorization'', ''WWW-Authenticate'', ''Proxy-Authorization'', ''Proxy-Authenticate'']"

definition newTypedHeader :: "string \<Rightarrow> string \<Rightarrow> Header" where
  "newTypedHeader name value =
     (let generic = GenericHeader name value in
      if name = ''Via'' then
        (case ParseVia value of Inr v \<Rightarrow> ViaHeader v | Inl _ \<Rightarrow> generic)
      else if name \<in> set addr_header_names then
        (case ParseNameAddrList value of Inr l \<Rightarrow> NameAddrListHeader (l\<lparr>NHName := name\<rparr>) | Inl _ \<Rightarrow> generic)
      else if name = ''CSeq'' then
        (case ParseCSeq value of Inr c \<Rightarrow> CSeqHeader c | Inl _ \<Rightarrow> generic)
      else if name = ''Content-Length'' then
        (case ParseContentLength value of Inr n \<Rightarrow> ContentLength n | Inl _ \<Rightarrow> generic)
      else if name = ''Max-Forwards'' then
        (case Atoi value of Some n \<Rightarrow> MaxForwards n | None \<Rightarrow> generic)
      else if name \<in> set auth_header_names then TypedAuthHeader (ParseAuth value) name
      else generic)"

fun setHeaderValue :: "Header \<Rightarrow> string \<Rightarrow> Header" where
  "setHeaderValue (GenericHeader k v) extra = GenericHeader k (v @ '' '' @ extra)"
| "setHeaderValue h extra = h"

section \<open>The header block\<close>

definition content_length_of :: "Header \<Rightarrow> int \<Rightarrow> int" where
  "content_length_of h cl = (case h of ContentLength n \<Rightarrow> int (unat n) | _ \<Rightarrow> cl)"

lemma ReadString_shorter:
  "(line, rest, delim) = ReadString s \<Longrightarrow> delim \<or> line \<noteq> [] \<Longrightarrow> length rest < length s"
proof -
  assume *: "(line, rest, delim) = ReadString s" "delim \<or> line \<noteq> []"
  have "line @ rest = s" "s \<noteq> [] \<longrightarrow> line \<noteq> []"
    using ReadString_length [of s line rest delim] * by auto
  moreover have "s \<noteq> []"
    using * by (cases s) (auto simp: ReadString_def)
  ultimately show ?thesis by auto
qed

text \<open>The part of the loop body that handles one non-empty line.\<close>

definition parseHeaderLine :: "string \<Rightarrow> Headers \<Rightarrow> int \<Rightarrow> (Headers \<times> int) result" where
  "parseHeaderLine line hs cl =
     (if hd line = SP \<or> hd line = TAB then
        (if hs = [] then Inl ErrBadHeader
         else Inr (butlast hs @ [setHeaderValue (last hs) (TrimSpace line)], cl))
      else
        (case Cut line CHR '':'' of (name, value, found) \<Rightarrow>
           if \<not> found then Inl ErrBadHeader
           else
             (let hdr = newTypedHeader (CanonicalName (TrimSpace name)) (TrimSpace value) in
              Inr (Headers_Add hdr hs, content_length_of hdr cl))))"

text \<open>The checks on the line just read; \<open>None\<close> is the empty line that ends the block.\<close>

definition parseHeaderStep ::
    "string \<Rightarrow> bool \<Rightarrow> Headers \<Rightarrow> int \<Rightarrow> nat \<Rightarrow> (Headers \<times> int) option result" where
  "parseHeaderStep line0 delim hs cl headerCount =
     (if \<not> delim \<and> line0 = [] then Inl ErrParse
      else
        (let line = TrimRightSet line0 [CR, LF] in
         if CR \<in> set line then Inl ErrBadHeader
         else if maxHeaderLineLen < int (length line) then Inl ErrBadHeader
         else if line = [] then Inr None
         else if maxHeaderLines < headerCount + 1 then Inl ErrBadHeader
         else bind_result (parseHeaderLine line hs cl) (\<lambda>s. Inr (Some s))))"

lemma parseHeaderStep_read:
  "parseHeaderStep line delim hs cl n = Inr r \<Longrightarrow> delim \<or> line \<noteq> []"
  by (auto simp: parseHeaderStep_def split: if_splits)

function parseHeaders_loop :: "string \<Rightarrow> Headers \<Rightarrow> int \<Rightarrow> nat \<Rightarrow> (Headers \<times> int \<times> string) result" where
  "parseHeaders_loop input hs cl headerCount =
     (case ReadString input of (line, rest, delim) \<Rightarrow>
        (case parseHeaderStep line delim hs cl headerCount of
           Inl e \<Rightarrow> Inl e
         | Inr None \<Rightarrow> Inr (hs, cl, rest)
         | Inr (Some (hs', cl')) \<Rightarrow> parseHeaders_loop rest hs' cl' (headerCount + 1)))"
  by pat_completeness auto
termination
  by (relation "measure (\<lambda>(input, _, _, _). length input)")
     (auto dest: ReadString_shorter parseHeaderStep_read)

declare parseHeaders_loop.simps [simp del]

definition parseHeaderBlock :: "string \<Rightarrow> (Headers \<times> string) result" where
  "parseHeaderBlock input =
     bind_result (parseHeaders_loop input [] (-1) 0) (\<lambda>(hs, cl0, rest).
       (let cl = (if cl0 < 0 then 0 else cl0) in
        if MaxBodySize < cl then Inl ErrParse
        else if 0 < cl then
          (if length rest < nat cl then Inl ErrParse else Inr (hs, take (nat cl) rest))
        else Inr (hs, [])))"

section \<open>Messages\<close>

definition parseRequest :: "string \<Rightarrow> string \<Rightarrow> Message result" where
  "parseRequest startLine input = (case Fields startLine of
     [f0, f1, f2] \<Rightarrow>
       (case ParseUri f1 of
          Inl _ \<Rightarrow> Inl ErrBadStartLine
        | Inr uri \<Rightarrow>
            bind_result (parseHeaderBlock input) (\<lambda>(hs, body).
              (let r = (NewRequest (ToUpper f0) (Some uri))\<lparr>RProto := f2, RHeaders := hs, RBody := body\<rparr> in
               bind_result (Request_Validate r) (\<lambda>_. Inr (Req r)))))
   | _ \<Rightarrow> Inl ErrBadStartLine)"

definition parseResponse :: "string \<Rightarrow> string \<Rightarrow> Message result" where
  "parseResponse startLine input =
     (let fields = SplitN startLine SP 3 in
      if length fields < 2 then Inl ErrBadStartLine
      else (case Atoi (fields ! 1) of
        None \<Rightarrow> Inl ErrBadStartLine
      | Some code \<Rightarrow>
          (let reason = (if length fields = 3 then fields ! 2 else []) in
           bind_result (parseHeaderBlock input) (\<lambda>(hs, body).
             (let r = (NewResponse code reason)\<lparr>SProto := fields ! 0, SHeaders := hs, SBody := body\<rparr> in
              bind_result (Response_Validate r) (\<lambda>_. Inr (Resp r)))))))"

definition ParseMessage :: "string \<Rightarrow> Message result" where
  "ParseMessage input =
     (if length input < 8 then Inl ErrShortMessage
      else if MaxMessageSize < int (length input) then Inl ErrParse
      else (case ReadString input of (line0, rest, delim) \<Rightarrow>
        if \<not> delim \<and> line0 = [] then Inl ErrBadStartLine
        else
          (let line = TrimRightSet line0 [CR, LF] in
           if line = [] then Inl ErrBadStartLine
           else if HasPrefix line ''SIP/'' then parseResponse line rest
           else parseRequest line rest)))"

end
