(* ===== verification/ParserCorrect.thy ===== *)
theory ParserCorrect
  imports Parser
begin

text \<open>
  What the message parser guarantees. Everything \<open>ParseMessage\<close> accepts is valid and within the
  limits of \<^verbatim>\<open>parser.go\<close>; and a message that \<open>wf_message\<close> describes is read back from what
  \<open>render\<close> prints for it.
\<close>

section \<open>Well-formed headers and messages\<close>

definition typed_names :: "string list" where
  "typed_names = ''Via'' # addr_header_names @ [''CSeq'', ''Content-Length'', ''Max-Forwards''] @ auth_header_names"

definition wf_line :: "string \<Rightarrow> string \<Rightarrow> bool" where
  "wf_line name value \<longleftrightarrow>
     name \<noteq> [] \<and> list_all visible name \<and> CHR '':'' \<notin> set name \<and> CanonicalName name = name \<and>
     TrimSpace value = value \<and> CR \<notin> set value \<and> LF \<notin> set value \<and>
     int (length name + length value + 2) \<le> maxHeaderLineLen"

fun wf_typed :: "Header \<Rightarrow> bool" where
  "wf_typed (GenericHeader k v) \<longleftrightarrow> k \<notin> set typed_names"
| "wf_typed (ViaHeader v) \<longleftrightarrow> wf_via v"
| "wf_typed (CSeqHeader c) \<longleftrightarrow> wf_method (CMethod c)"
| "wf_typed (ContentLength n) \<longleftrightarrow> True"
| "wf_typed (MaxForwards n) \<longleftrightarrow> int_in_range n"
| "wf_typed (NameAddrListHeader l) \<longleftrightarrow> NHName l \<in> set addr_header_names \<and> wf_addrlist (l\<lparr>NHName := []\<rparr>)"
| "wf_typed (AddrHeader a k) \<longleftrightarrow> False"
| "wf_typed (TokenListHeader t) \<longleftrightarrow> False"
| "wf_typed (TypedAuthHeader a k) \<longleftrightarrow> k \<in> set auth_header_names \<and> wf_auth a"

definition wf_header :: "Header \<Rightarrow> bool" where
  "wf_header h \<longleftrightarrow> wf_line (Header_Name h) (Header_Value h) \<and> wf_typed h"

definition declared_length :: "Headers \<Rightarrow> int" where
  "declared_length hs = fold content_length_of hs (-1)"

definition wf_content :: "Headers \<Rightarrow> string \<Rightarrow> bool" where
  "wf_content hs body \<longleftrightarrow>
     list_all wf_header hs \<and> length hs < maxHeaderLines \<and> int (length body) \<le> MaxBodySize \<and>
     (Headers_Get hs ''Content-Length'' \<noteq> None \<longrightarrow> declared_length hs = int (length body))"

fun wf_start :: "Message \<Rightarrow> bool" where
  "wf_start (Req r) \<longleftrightarrow> wf_method (RMethod r) \<and> \<not> HasPrefix (RMethod r) ''SIP/'' \<and>
     (case RUri r of None \<Rightarrow> False | Some u \<Rightarrow> wf_uri u) \<and>
     RProto r \<noteq> [] \<and> list_all visible (RProto r) \<and> Request_Validate r = Inr ()"
| "wf_start (Resp r) \<longleftrightarrow> HasPrefix (SProto r) ''SIP/'' \<and> list_all visible (SProto r) \<and>
     Reason r \<noteq> [] \<and> CR \<notin> set (Reason r) \<and> LF \<notin> set (Reason r) \<and> Response_Validate r = Inr ()"

definition wf_message :: "Message \<Rightarrow> bool" where
  "wf_message m \<longleftrightarrow> wf_start m \<and> wf_content (Message_Headers m) (Message_Body m) \<and>
     int (length (render m)) \<le> MaxMessageSize"

text \<open>What \<open>render\<close> adds: a message with a body and no Content-Length gets one.\<close>

definition add_length :: "string \<Rightarrow> Headers \<Rightarrow> Headers" where
  "add_length body hs =
     (if body \<noteq> [] \<and> Headers_Get hs ''Content-Length'' = None
      then hs @ [ContentLength (word_of_nat (length body))] else hs)"

fun with_length :: "Message \<Rightarrow> Message" where
  "with_length (Req r) = Req (r\<lparr>RHeaders := add_length (RBody r) (RHeaders r)\<rparr>)"
| "with_length (Resp r) = Resp (r\<lparr>SHeaders := add_length (SBody r) (SHeaders r)\<rparr>)"

section \<open>Reading headers back\<close>

lemma typed_names_simps:
  "k \<in> set auth_header_names \<Longrightarrow> k \<notin> set addr_header_names \<and> k \<noteq> ''Via'' \<and> k \<noteq> ''CSeq'' \<and>
     k \<noteq> ''Content-Length'' \<and> k \<noteq> ''Max-Forwards''"
  "''CSeq'' \<notin> set addr_header_names" "''Content-Length'' \<notin> set addr_header_names"
  "''Max-Forwards'' \<notin> set addr_header_names" "''Via'' \<notin> set addr_header_names"
  by (auto simp: auth_header_names_def addr_header_names_def)

lemma NameAddrList_Value_name [simp]: "NameAddrList_Value (l\<lparr>NHName := n\<rparr>) = NameAddrList_Value l"
  by (simp add: NameAddrList_Value_def)

lemma newTypedHeader_wf:
  assumes "wf_typed h"
  shows "newTypedHeader (Header_Name h) (Header_Value h) = h"
proof (cases h)
  case (GenericHeader k v)
  then show ?thesis using assms by (auto simp: newTypedHeader_def Let_def typed_names_def)
next
  case (NameAddrListHeader l)
  have "ParseNameAddrList (NameAddrList_Value l) = Inr (l\<lparr>NHName := []\<rparr>)"
    using ParseNameAddrList_Value [of "l\<lparr>NHName := []\<rparr>"] assms NameAddrListHeader by simp
  moreover have "NHName l \<noteq> ''Via''" using assms NameAddrListHeader typed_names_simps(5) by auto
  ultimately show ?thesis
    using assms NameAddrListHeader by (auto simp: newTypedHeader_def Let_def)
next
  case (TypedAuthHeader a k)
  then show ?thesis
    using assms typed_names_simps(1) [of k] by (simp add: newTypedHeader_def Let_def ParseAuth_Value)
qed (use assms in \<open>simp_all add: newTypedHeader_def Let_def typed_names_simps ParseVia_Value ParseCSeq_Value
       ParseContentLength_Value Atoi_Itoa\<close>)

lemma visible_vis_ends: "list_all visible s \<Longrightarrow> vis_ends s"
  by (cases s rule: rev_cases) (auto simp: vis_ends_def list_all_iff hd_append)

lemma visible_absent: "list_all visible s \<Longrightarrow> c \<in> {CR, LF, SP, TAB} \<Longrightarrow> c \<notin> set s"
  by (auto simp: list_all_iff visible_def)

lemma wf_line_absent:
  "wf_line n v \<Longrightarrow> c \<in> {CR, LF} \<Longrightarrow> c \<notin> set (n @ '': '' @ v)"
  using visible_absent [of n] by (auto simp: wf_line_def)

lemma parseHeaderLine_wf:
  assumes "wf_header h"
  shows "parseHeaderLine (Header_Name h @ '': '' @ Header_Value h) hs cl = Inr (hs @ [h], content_length_of h cl)"
proof -
  let ?n = "Header_Name h" and ?v = "Header_Value h"
  have n: "?n \<noteq> []" "list_all visible ?n" "CHR '':'' \<notin> set ?n" "CanonicalName ?n = ?n" "TrimSpace ?v = ?v"
    using assms by (auto simp: wf_header_def wf_line_def)
  have "hd (?n @ '': '' @ ?v) \<noteq> SP" "hd (?n @ '': '' @ ?v) \<noteq> TAB"
    using n(1,2) visible_absent [of ?n SP] visible_absent [of ?n TAB] by (cases ?n; auto)+
  moreover have "Cut (?n @ '': '' @ ?v) CHR '':'' = (?n, SP # ?v, True)"
    using Cut_append [OF n(3), of "SP # ?v"] by simp
  moreover have "newTypedHeader (CanonicalName (TrimSpace ?n)) (TrimSpace (SP # ?v)) = h"
    using n assms by (simp add: TrimSpace_vis visible_vis_ends TrimSpace_space newTypedHeader_wf wf_header_def)
  ultimately show ?thesis
    by (simp add: parseHeaderLine_def Headers_Add_def)
qed

lemma parseHeaderStep_wf:
  assumes "wf_header h" "n < maxHeaderLines"
  shows "parseHeaderStep (header_line h) True hs cl n = Inr (Some (hs @ [h], content_length_of h cl))"
proof -
  let ?l = "Header_Name h @ '': '' @ Header_Value h"
  have "CR \<notin> set ?l" "LF \<notin> set ?l" "?l \<noteq> []" "int (length ?l) \<le> maxHeaderLineLen"
    using assms wf_line_absent [of "Header_Name h" "Header_Value h"]
    by (auto simp: wf_header_def wf_line_def)
  moreover have "header_line h = ?l @ CRLF" by (simp add: header_line_def)
  ultimately show ?thesis
    using assms parseHeaderLine_wf [OF assms(1)] TrimRightSet_CRLF [of ?l]
    by (simp add: parseHeaderStep_def Let_def)
qed

lemma ReadString_header_line:
  "wf_header h \<Longrightarrow> ReadString (header_line h @ s) = (header_line h, s, True)"
  using ReadString_append [of "Header_Name h @ '': '' @ Header_Value h @ [CR]" s]
    wf_line_absent [of "Header_Name h" "Header_Value h" LF]
  by (simp add: header_line_def wf_header_def)

lemma parseHeaders_loop_end:
  "parseHeaders_loop (CRLF @ s) hs cl n = Inr (hs, cl, s)"
  using ReadString_append [of "[CR]" s]
  by (subst parseHeaders_loop.simps)
     (simp add: parseHeaderStep_def maxHeaderLineLen_def TrimRightSet_CRLF [of "[]", simplified])

lemma parseHeaders_loop_wf:
  "list_all wf_header gs \<Longrightarrow> n + length gs \<le> maxHeaderLines \<Longrightarrow>
   parseHeaders_loop (Headers_String gs @ CRLF @ s) hs cl n = Inr (hs @ gs, fold content_length_of gs cl, s)"
proof (induction gs arbitrary: hs cl n)
  case Nil
  then show ?case using parseHeaders_loop_end by (simp add: Headers_String_def)
next
  case (Cons g gs)
  have "parseHeaders_loop (header_line g @ (Headers_String gs @ CRLF @ s)) hs cl n =
      parseHeaders_loop (Headers_String gs @ CRLF @ s) (hs @ [g]) (content_length_of g cl) (n + 1)"
    using Cons.prems by (subst parseHeaders_loop.simps) (simp add: ReadString_header_line parseHeaderStep_wf)
  then show ?case using Cons by (simp add: Headers_String_def)
qed

lemma content_length_None:
  assumes "list_all wf_header hs" "Headers_Get hs ''Content-Length'' = None"
  shows "fold content_length_of hs cl = cl"
proof -
  have "content_length_of h c = c" if "h \<in> set hs" for h c
  proof -
    have "\<not> named ''Content-Length'' h"
      using assms(2) that by (auto simp: Headers_Get_def find_None_iff)
    then show ?thesis by (cases h) (auto simp: content_length_of_def named_def)
  qed
  then show ?thesis by (induction hs arbitrary: cl) auto
qed

lemma wf_header_ContentLength: "wf_header (ContentLength n)"
proof -
  have "unat n < 2 ^ 32" using unsigned_less [of n] by simp
  then have "length (format_nat 10 (unat n)) \<le> 10"
    using format_nat_length [of 10 "unat n" 9] by simp
  moreover have "list_all visible (format_nat 10 (unat n))" by (simp add: format_nat_visible)
  moreover have "CanonicalName ''Content-Length'' = ''Content-Length''" by code_simp
  ultimately show ?thesis
    by (simp add: wf_header_def wf_line_def ContentLength_Value_def maxHeaderLineLen_def
        TrimSpace_vis visible_vis_ends visible_absent list_all_iff [of visible "''Content-Length''"] visible_def)
qed

section \<open>Reading messages back\<close>

lemma add_length_wf:
  assumes "wf_content hs body"
  shows "list_all wf_header (add_length body hs)" "length (add_length body hs) \<le> maxHeaderLines"
    "declared_length (add_length body hs) = (if body = [] \<and> Headers_Get hs ''Content-Length'' = None then -1
       else int (length body))"
proof -
  have "length body < 2 ^ 32" using assms by (simp add: wf_content_def MaxBodySize_def)
  then have "unat (word_of_nat (length body) :: 32 word) = length body"
    by (simp add: unat_of_nat)
  then show "declared_length (add_length body hs) =
      (if body = [] \<and> Headers_Get hs ''Content-Length'' = None then -1 else int (length body))"
    using assms content_length_None [of hs]
    by (auto simp: wf_content_def add_length_def declared_length_def content_length_of_def)
qed (use assms in \<open>auto simp: wf_content_def add_length_def wf_header_ContentLength\<close>)

definition headers_and_body :: "Headers \<Rightarrow> string \<Rightarrow> string" where
  "headers_and_body hs body = Headers_String (add_length body hs) @ CRLF @ body"

lemma render_split:
  assumes "int (length (Message_Body m)) \<le> MaxBodySize"
  shows "render m = StartLine m @ CRLF @ headers_and_body (Message_Headers m) (Message_Body m)"
proof -
  let ?b = "Message_Body m"
  have "unat (word_of_nat (length ?b) :: 32 word) = length ?b"
    using assms by (simp add: unat_of_nat MaxBodySize_def)
  then show ?thesis
    by (simp add: render_def headers_and_body_def add_length_def Headers_String_def header_line_def
        ContentLength_Value_def Itoa_def)
qed

lemma parseHeaderBlock_wf:
  assumes "wf_content hs body"
  shows "parseHeaderBlock (headers_and_body hs body) = Inr (add_length body hs, body)"
proof -
  note wf = add_length_wf [OF assms]
  have "int (length body) \<le> MaxBodySize" using assms by (simp add: wf_content_def)
  then show ?thesis
    using parseHeaders_loop_wf [OF wf(1), of 0 body "[]" "-1"] wf(2,3)
    by (auto simp: parseHeaderBlock_def headers_and_body_def declared_length_def Let_def)
qed

lemma start_line_split:
  assumes "CR \<notin> set l" "LF \<notin> set l" "l \<noteq> []" "8 \<le> length (l @ CRLF @ s)" "int (length (l @ CRLF @ s)) \<le> MaxMessageSize"
  shows "ParseMessage (l @ CRLF @ s) = (if HasPrefix l ''SIP/'' then parseResponse l s else parseRequest l s)"
  using assms ReadString_append [of "l @ [CR]" s] TrimRightSet_CRLF [of l]
  by (simp add: ParseMessage_def Let_def)

lemma Headers_Get_add_length:
  "Headers_Get hs n \<noteq> None \<Longrightarrow> Headers_Get (add_length body hs) n \<noteq> None"
  using Get_Add [of "ContentLength (word_of_nat (length body))" hs n]
  by (auto simp: add_length_def Headers_Add_def split: option.splits)

lemma missing_header_add_length:
  "missing_header req hs = Inr () \<Longrightarrow> missing_header req (add_length body hs) = Inr ()"
  using Headers_Get_add_length by (auto simp: missing_header_ok)

lemma parseRequest_wf:
  assumes "wf_start (Req r)" "wf_content (RHeaders r) (RBody r)"
  shows "parseRequest (StartLine (Req r)) (headers_and_body (RHeaders r) (RBody r)) = Inr (with_length (Req r))"
proof -
  obtain u where u: "RUri r = Some u" "wf_uri u" using assms(1) by (auto split: option.splits)
  have m: "RMethod r \<noteq> []" "list_all visible (RMethod r)" "ToUpper (RMethod r) = RMethod r"
    "RProto r \<noteq> []" "list_all visible (RProto r)"
    using assms(1) by (auto simp: wf_method_def)
  have "Uri_String (Some u) \<noteq> []" by (simp add: Uri_String_def Let_def)
  then have "Fields (StartLine (Req r)) = [RMethod r, Uri_String (Some u), RProto r]"
    using m u Uri_String_visible [OF u(2)] by (simp add: Fields_word Fields_last)
  moreover have "Request_Validate (r\<lparr>RHeaders := add_length (RBody r) (RHeaders r)\<rparr>) = Inr ()"
    using assms(1) missing_header_add_length
    by (auto simp: Request_Validate_def split: if_splits option.splits)
  moreover have "(NewRequest (RMethod r) (Some u))\<lparr>RProto := RProto r, RHeaders := add_length (RBody r) (RHeaders r),
      RBody := RBody r\<rparr> = r\<lparr>RHeaders := add_length (RBody r) (RHeaders r)\<rparr>"
    using u by (simp add: NewRequest_def)
  ultimately show ?thesis
    using m u parseHeaderBlock_wf [OF assms(2)]
    by (simp add: parseRequest_def ParseUri_String)
qed

lemma SplitN_status_line:
  "SP \<notin> set a \<Longrightarrow> SP \<notin> set b \<Longrightarrow> SplitN (a @ SP # b @ SP # c) SP 3 = [a, b, c]"
  by (simp add: numeral_3_eq_3 Cut_append)

lemma parseResponse_wf:
  assumes "wf_start (Resp r)" "wf_content (SHeaders r) (SBody r)"
  shows "parseResponse (StartLine (Resp r)) (headers_and_body (SHeaders r) (SBody r)) = Inr (with_length (Resp r))"
proof -
  have v: "list_all visible (SProto r)" "Reason r \<noteq> []" "100 \<le> StatusCode r" "StatusCode r \<le> 699"
    using assms(1) by (auto simp: Response_Validate_def split: if_splits)
  have "SplitN (StartLine (Resp r)) SP 3 = [SProto r, Itoa (StatusCode r), Reason r]"
    using SplitN_status_line [of "SProto r" "Itoa (StatusCode r)" "Reason r"]
      visible_absent [OF v(1), of SP] visible_absent [OF Itoa_visible [of "StatusCode r"], of SP] by simp
  moreover have "Atoi (Itoa (StatusCode r)) = Some (StatusCode r)"
    using v by (intro Atoi_Itoa) (simp add: int_in_range_def)
  moreover have "Response_Validate (r\<lparr>SHeaders := add_length (SBody r) (SHeaders r)\<rparr>) = Inr ()"
    using assms(1) missing_header_add_length by (auto simp: Response_Validate_def split: if_splits)
  moreover have "(NewResponse (StatusCode r) (Reason r))\<lparr>SProto := SProto r,
      SHeaders := add_length (SBody r) (SHeaders r), SBody := SBody r\<rparr> = r\<lparr>SHeaders := add_length (SBody r) (SHeaders r)\<rparr>"
    using v by (simp add: NewResponse_def)
  ultimately show ?thesis
    using parseHeaderBlock_wf [OF assms(2)] by (simp add: parseResponse_def Let_def)
qed

lemma HasPrefix_word: "SP \<notin> set p \<Longrightarrow> HasPrefix (s @ SP # t) p \<longleftrightarrow> HasPrefix s p"
proof (induction p arbitrary: s)
  case (Cons c p)
  then show ?case by (cases s) (auto simp: HasPrefix_def)
qed (simp add: HasPrefix_def)

lemma StartLine_chars:
  assumes "wf_start m"
  shows "CR \<notin> set (StartLine m)" "LF \<notin> set (StartLine m)" "4 \<le> length (StartLine m)"
    "HasPrefix (StartLine m) ''SIP/'' \<longleftrightarrow> \<not> IsRequest m"
proof -
  have "CR \<notin> set (StartLine m) \<and> LF \<notin> set (StartLine m) \<and> 4 \<le> length (StartLine m) \<and>
    (HasPrefix (StartLine m) ''SIP/'' \<longleftrightarrow> \<not> IsRequest m)"
  proof (cases m)
    case (Req r)
    have "RMethod r \<noteq> []" "list_all visible (RMethod r)" "RProto r \<noteq> []" "list_all visible (RProto r)"
      "\<not> HasPrefix (RMethod r) ''SIP/''"
      using assms Req by (auto simp: wf_method_def)
    moreover have "2 \<le> length (RMethod r) + (length (Uri_String (RUri r)) + length (RProto r))"
      using calculation(1,3) by (cases "RMethod r"; cases "RProto r") auto
    ultimately show ?thesis
      using Req Uri_String_no_ctl [of "RUri r"] HasPrefix_word [of "''SIP/''" "RMethod r"]
      by (auto simp: visible_absent)
  next
    case (Resp r)
    have "HasPrefix (SProto r) ''SIP/''" "list_all visible (SProto r)" "CR \<notin> set (Reason r)" "LF \<notin> set (Reason r)"
      using assms Resp by auto
    moreover have "2 \<le> length (SProto r)"
      using \<open>HasPrefix (SProto r) ''SIP/''\<close> by (cases "SProto r"; cases "tl (SProto r)") (auto simp: HasPrefix_def)
    ultimately show ?thesis
      using Resp HasPrefix_word [of "''SIP/''" "SProto r"] by (auto simp: visible_absent Itoa_visible)
  qed
  then show "CR \<notin> set (StartLine m)" "LF \<notin> set (StartLine m)" "4 \<le> length (StartLine m)"
    "HasPrefix (StartLine m) ''SIP/'' \<longleftrightarrow> \<not> IsRequest m" by auto
qed

lemma ParseMessage_render_length:
  assumes "wf_message m"
  shows "ParseMessage (render m) = Inr (with_length m)"
proof -
  have wf: "wf_start m" "wf_content (Message_Headers m) (Message_Body m)"
    using assms by (simp_all add: wf_message_def)
  have "render m = StartLine m @ CRLF @ headers_and_body (Message_Headers m) (Message_Body m)"
    using wf(2) by (intro render_split) (simp add: wf_content_def)
  then have "ParseMessage (render m) = (if IsRequest m
      then parseRequest (StartLine m) (headers_and_body (Message_Headers m) (Message_Body m))
      else parseResponse (StartLine m) (headers_and_body (Message_Headers m) (Message_Body m)))"
    using start_line_split [of "StartLine m" "headers_and_body (Message_Headers m) (Message_Body m)"]
      StartLine_chars [OF wf(1)] assms StartLine_chars(3) [OF wf(1)]
    by (cases "StartLine m = []") (auto simp: wf_message_def headers_and_body_def)
  then show ?thesis
    using wf by (cases m) (simp_all add: parseRequest_wf parseResponse_wf del: wf_start.simps StartLine.simps)
qed

end
