(* ===== verification/Samples.thy ===== *)
theory Samples
  imports ParserCorrect
begin

text \<open>
  Concrete values at which the properties are instantiated: a URI, an address, a request with a body and
  a response, with the facts about them that the witnesses use, evaluated once.
\<close>

definition sample_uri :: Uri where
  "sample_uri = \<lparr>Scheme = ''sip'', User = ''a'', Password = [], Host = ''h'', Port = 0, UParams = None, UHeaders = None\<rparr>"

definition sample_addr :: "string \<Rightarrow> Header" where
  "sample_addr name = NameAddrListHeader \<lparr>NHName = name,
     Addresses = [\<lparr>DisplayName = [], Quoted = False, AUri = Some sample_uri, AParams = None\<rparr>], All = False\<rparr>"

definition sample_via :: Via where
  "sample_via = \<lparr>VProto = ''SIP/2.0/UDP'', VTransport = ''UDP'', VHost = ''h'', VPort = 0,
     VParams = Some [\<lparr>Key = ''branch'', Val = ''z9hG4bK1'', HasValue = True\<rparr>]\<rparr>"

definition sample_headers :: "Method \<Rightarrow> Headers" where
  "sample_headers method = [ViaHeader sample_via, sample_addr ''From'', sample_addr ''To'',
     GenericHeader ''Call-ID'' ''c1'', CSeqHeader \<lparr>Seq = 1, CMethod = method\<rparr>]"

definition sample_request :: Request where
  "sample_request = \<lparr>RMethod = ''INFO'', RUri = Some sample_uri, RProto = ''SIP/2.0'',
     RHeaders = sample_headers ''INFO'' @ [ContentLength 2], RBody = ''ok''\<rparr>"

definition sample_response :: Response where
  "sample_response = \<lparr>StatusCode = 200, Reason = ''OK'', SProto = ''SIP/2.0'',
     SHeaders = sample_headers ''INFO'', SBody = []\<rparr>"

lemma wf_sample_uri: "wf_uri sample_uri"
  by code_simp

lemma wf_sample_via: "wf_via sample_via"
  by code_simp

lemma sample_names:
  "CanonicalName ''From'' = ''From''" "CanonicalName ''To'' = ''To''" "CanonicalName ''Via'' = ''Via''"
  "CanonicalName ''Call-ID'' = ''Call-ID''" "CanonicalName ''CSeq'' = ''CSeq''"
  "CanonicalName ''Content-Length'' = ''Content-Length''"
  by code_simp+

lemmas sample_defs = sample_request_def sample_response_def sample_headers_def sample_addr_def

lemma sample_Get:
  "Headers_Get (sample_headers m @ hs) ''Via'' = Some (ViaHeader sample_via)"
  "Headers_Get (sample_headers m @ hs) ''From'' = Some (sample_addr ''From'')"
  "Headers_Get (sample_headers m @ hs) ''To'' = Some (sample_addr ''To'')"
  "Headers_Get (sample_headers m @ hs) ''Call-ID'' = Some (GenericHeader ''Call-ID'' ''c1'')"
  "Headers_Get (sample_headers m @ hs) ''CSeq'' = Some (CSeqHeader \<lparr>Seq = 1, CMethod = m\<rparr>)"
  "Headers_Get (sample_headers m @ hs) ''Content-Length'' = Headers_Get hs ''Content-Length''"
  by (simp_all add: Headers_Get_def named_def sample_headers_def sample_addr_def sample_names)

lemmas sample_Get_plain = sample_Get [of _ "[]", simplified append_Nil2]

lemma sample_valid: "missing_header required_headers (sample_headers m @ hs) = Inr ()"
  by (simp add: required_headers_def sample_Get)

lemma wf_sample_line:
  "wf_header (ViaHeader sample_via)" "wf_header (sample_addr ''From'')" "wf_header (sample_addr ''To'')"
  "wf_header (GenericHeader ''Call-ID'' ''c1'')" "wf_header (CSeqHeader \<lparr>Seq = 1, CMethod = ''INFO''\<rparr>)"
  by code_simp+

lemma sample_length: "length (render (Req sample_request)) < 200" "length (render (Resp sample_response)) < 200"
  by code_simp+

lemma wf_sample_request: "wf_message (Req sample_request)"
proof -
  have "Headers_Get [ContentLength 2] ''Content-Length'' = Some (ContentLength 2)"
    by (simp add: Headers_Get_def named_def)
  moreover have "declared_length (RHeaders sample_request) = 2"
    by (simp add: declared_length_def content_length_of_def sample_defs)
  moreover have "wf_method ''INFO''" "\<not> HasPrefix ''INFO'' ''SIP/''" "list_all visible ''SIP/2.0''" by code_simp+
  ultimately show ?thesis
    using sample_length(1) wf_sample_line wf_header_ContentLength wf_sample_uri sample_valid [of "''INFO''"]
    by (simp add: wf_message_def wf_content_def sample_request_def Request_Validate_def sample_uri_def
        sample_headers_def MaxMessageSize_def MaxBodySize_def maxHeaderLines_def)
qed

lemma sample_request_length: "with_length (Req sample_request) = Req sample_request"
proof -
  have "Headers_Get [ContentLength 2] ''Content-Length'' = Some (ContentLength 2)"
    by (simp add: Headers_Get_def named_def)
  then show ?thesis by (simp add: add_length_def sample_request_def sample_Get)
qed

lemma wf_sample_response: "wf_message (Resp sample_response)"
proof -
  have no_length: "Headers_Get [] ''Content-Length'' = None" by (simp add: Headers_Get_def)
  have "HasPrefix ''SIP/2.0'' ''SIP/''" "list_all visible ''SIP/2.0''" by code_simp+
  then show ?thesis
    using sample_length(2) wf_sample_line sample_valid [of "''INFO''" "[]"] sample_Get_plain(6) no_length
    by (simp add: wf_message_def wf_content_def sample_response_def Response_Validate_def
        sample_headers_def MaxMessageSize_def MaxBodySize_def maxHeaderLines_def)
qed

end
