(* ===== verification/ParserSafe.thy ===== *)
theory ParserSafe
  imports Samples
begin

text \<open>
  What the parser guarantees of hostile input: whatever bytes arrive, an accepted message is valid, is
  within the limits, and every one of its headers prints as one line, so forwarding a message cannot
  add a header to it.
\<close>

section \<open>Strings without line ends\<close>

definition nl_free :: "string \<Rightarrow> bool" where
  "nl_free s \<longleftrightarrow> CR \<notin> set s \<and> LF \<notin> set s"

lemma nl_free_append [simp]: "nl_free (s @ t) \<longleftrightarrow> nl_free s \<and> nl_free t"
  by (auto simp: nl_free_def)

lemma nl_free_Cons [simp]: "nl_free (c # s) \<longleftrightarrow> c \<noteq> CR \<and> c \<noteq> LF \<and> nl_free s"
  by (auto simp: nl_free_def)

lemma nl_free_Nil [simp]: "nl_free []"
  by (simp add: nl_free_def)

lemma nl_free_subset: "nl_free s \<Longrightarrow> set t \<subseteq> set s \<Longrightarrow> nl_free t"
  by (auto simp: nl_free_def)

lemma nl_free_TrimSpace: "nl_free s \<Longrightarrow> nl_free (TrimSpace s)"
  by (rule nl_free_subset [OF _ set_TrimSpace])

lemma nl_free_take: "nl_free s \<Longrightarrow> nl_free (take i s)"
  by (rule nl_free_subset [OF _ set_take_subset])

lemma nl_free_drop: "nl_free s \<Longrightarrow> nl_free (drop i s)"
  by (rule nl_free_subset [OF _ set_drop_subset])

lemma set_unescape_quotes: "set (unescape_quotes s) \<subseteq> insert DQ (set s)"
  by (induction s rule: unescape_quotes.induct) auto

lemma nl_free_unquote: "nl_free s \<Longrightarrow> nl_free (unquote s)"
  using set_unescape_quotes [of "butlast (tl s)"] in_set_butlastD [of _ "tl s"] list.set_sel(2) [of s]
  by (cases s) (auto simp: unquote_def nl_free_def)

lemma nl_free_Cut: "nl_free s \<Longrightarrow> Cut s c = (a, b, f) \<Longrightarrow> nl_free a \<and> nl_free b"
  using Cut_chars [of s c a b f] by (auto intro: nl_free_subset)

lemma upper_char_nl: "upper_char c = CR \<longleftrightarrow> c = CR" "upper_char c = LF \<longleftrightarrow> c = LF"
  by (auto simp: char_eq_iff of_char_upper split: if_splits)

lemma lower_char_nl: "lower_char c = CR \<longleftrightarrow> c = CR" "lower_char c = LF \<longleftrightarrow> c = LF"
  by (auto simp: char_eq_iff of_char_lower split: if_splits)

lemma nl_free_ToUpper: "nl_free (ToUpper s) \<longleftrightarrow> nl_free s"
  by (induction s) (auto simp: ToUpper_def upper_char_nl)

lemma nl_free_ToLower: "nl_free (ToLower s) \<longleftrightarrow> nl_free s"
  by (induction s) (auto simp: ToLower_def lower_char_nl)

lemma nl_free_Join: "nl_free sep \<Longrightarrow> list_all nl_free ps \<Longrightarrow> nl_free (Join ps sep)"
  by (induction ps sep rule: Join.induct) auto

lemma nl_free_Itoa: "nl_free (Itoa n)"
  using Itoa_no_ctl [of n] by (auto simp: nl_free_def)

lemma nl_free_format_nat: "nl_free (format_nat 10 n)"
  using visible_absent [OF format_nat_visible] by (simp add: nl_free_def)

lemma nl_free_Params: "nl_free (Params_String p)"
  using set_Params_String [of p] by (auto simp: nl_free_def)

lemma nl_free_Uri: "nl_free (Uri_String u)"
  using Uri_String_no_ctl [of u] by (auto simp: nl_free_def)

lemma nl_free_escape_quotes: "nl_free s \<Longrightarrow> nl_free (escape_quotes s)"
  using set_escape_quotes [of s] by (auto simp: nl_free_def)

lemma nl_free_Split: "nl_free s \<Longrightarrow> list_all nl_free (Split s c)"
  by (induction s) (auto split: list.splits)

lemma nl_free_splitAddr:
  "nl_free cur \<Longrightarrow> nl_free s \<Longrightarrow> list_all nl_free (splitAddrList_loop d q e cur s)"
  by (induction d q e cur s rule: splitAddrList_loop.induct) (auto simp: nl_free_TrimSpace)

lemma nl_free_splitAuth:
  "nl_free cur \<Longrightarrow> nl_free s \<Longrightarrow> list_all nl_free (splitAuthParams_loop q e cur s)"
  by (induction q e cur s rule: splitAuthParams_loop.induct) (auto simp: nl_free_TrimSpace)

lemmas nl_free_intros = nl_free_TrimSpace nl_free_take nl_free_drop nl_free_unquote nl_free_Itoa
  nl_free_Params nl_free_Uri nl_free_format_nat nl_free_escape_quotes

section \<open>Every accepted header prints as one line\<close>

definition one_line :: "Header \<Rightarrow> bool" where
  "one_line h \<longleftrightarrow> nl_free (Header_Name h) \<and> nl_free (Header_Value h)"

lemma nl_free_HostPort:
  "nl_free (VProto w) \<Longrightarrow> nl_free x \<Longrightarrow> Via_parseHostPort w x = Inr v \<Longrightarrow> nl_free (VProto v) \<and> nl_free (VHost v)"
  by (auto simp: Via_parseHostPort_def bind_result_eq_Inr Let_def nl_free_take split: if_splits option.splits)

lemma SplitN_2: "SplitN s c 2 = (case Cut s c of (a, b, found) \<Rightarrow> if found then [a, b] else [s])"
  unfolding numeral_2_eq_2 by (simp split: prod.split)

lemma nl_free_SplitN2: "nl_free t \<Longrightarrow> SplitN t SP 2 = [a, b] \<Longrightarrow> nl_free a \<and> nl_free b"
  unfolding SplitN_2 by (cases "Cut t SP") (auto dest: nl_free_Cut split: if_splits)

lemma ParseVia_cases:
  assumes "ParseVia s = Inr v"
  obtains p0 p1 ps x where "SplitN (TrimSpace s) SP 2 = [p0, p1]" "set x \<subseteq> set (TrimSpace p1)"
    "Via_parseHostPort (empty_via (TrimSpace p0) ps) x = Inr v"
proof -
  obtain p0 p1 where sp: "SplitN (TrimSpace s) SP 2 = [p0, p1]"
    using assms unfolding ParseVia_def Let_def
    by (cases "SplitN (TrimSpace s) SP 2"; cases "tl (SplitN (TrimSpace s) SP 2)";
        cases "tl (tl (SplitN (TrimSpace s) SP 2))") (simp_all split: if_split_asm)
  show ?thesis
  proof (cases "IndexByte (TrimSpace p1) CHR '';''")
    case None
    then have "Via_parseHostPort (empty_via (TrimSpace p0) None) (TrimSpace p1) = Inr v"
      using assms sp by (simp add: ParseVia_def Let_def split: if_splits)
    with sp show ?thesis by (intro that [of p0 p1 "TrimSpace p1" None]) auto
  next
    case (Some i)
    then obtain ps where "Via_parseHostPort (empty_via (TrimSpace p0) (Some ps)) (TrimSpace (take i (TrimSpace p1))) = Inr v"
      using assms sp by (auto simp: ParseVia_def Let_def bind_result_eq_Inr split: if_splits)
    moreover have "set (TrimSpace (take i (TrimSpace p1))) \<subseteq> set (TrimSpace p1)"
      by (rule order_trans [OF set_TrimSpace set_take_subset])
    ultimately show ?thesis by (rule that [OF sp, rotated])
  qed
qed

lemma nl_free_Via:
  assumes "nl_free s" "ParseVia s = Inr v"
  shows "nl_free (Via_Value v)"
proof -
  obtain p0 p1 ps x where v: "SplitN (TrimSpace s) SP 2 = [p0, p1]" "set x \<subseteq> set (TrimSpace p1)"
    "Via_parseHostPort (empty_via (TrimSpace p0) ps) x = Inr v"
    using ParseVia_cases [OF assms(2)] by metis
  have "nl_free p0" "nl_free p1"
    using nl_free_SplitN2 [OF nl_free_TrimSpace [OF assms(1)] v(1)] by auto
  then have "nl_free (TrimSpace p0)" "nl_free x"
    using nl_free_subset [OF _ v(2)] by (simp_all add: nl_free_TrimSpace)
  then show ?thesis
    using nl_free_HostPort [OF _ _ v(3)] by (simp add: Via_Value_def nl_free_intros)
qed

lemma nl_free_Address:
  assumes "nl_free s" "ParseAddress s = Inr a"
  shows "nl_free (Address_String a)"
proof -
  have "nl_free (DisplayName a)"
    using assms by (auto simp: ParseAddress_def Let_def bind_result_eq_Inr nl_free_intros
        split: option.splits if_splits sum.splits)
  then show ?thesis by (simp add: Address_String_def nl_free_intros)
qed

lemma map_result_elem: "map_result f xs = Inr ys \<Longrightarrow> y \<in> set ys \<Longrightarrow> \<exists>x \<in> set xs. f x = Inr y"
  by (induction xs arbitrary: ys) (auto simp: bind_result_eq_Inr)

lemma nl_free_NameAddrList:
  assumes "nl_free s" "ParseNameAddrList s = Inr l"
  shows "nl_free (NameAddrList_Value l)"
proof -
  have parts: "list_all nl_free (splitAddrList (TrimSpace s))"
    using assms(1) by (simp add: splitAddrList_def nl_free_splitAddr nl_free_TrimSpace)
  have "nl_free (Address_String a)" if "a \<in> set (Addresses l)" for a
    using assms(2) that parts
    by (auto simp: ParseNameAddrList_def Let_def bind_result_eq_Inr list_all_iff
        split: if_splits dest!: map_result_elem intro: nl_free_Address)
  then show ?thesis
    by (auto simp: NameAddrList_Value_def list_all_iff intro!: nl_free_Join)
qed

lemma set_take_field: "set (take_field s) \<subseteq> set s"
  by (induction s) auto

lemma set_trim_left: "set (trim_left s) \<subseteq> set s"
  using trim_left_suffix [of s] by (metis set_append Un_upper2)

lemma nl_free_Fields: "nl_free s \<Longrightarrow> list_all nl_free (Fields s)"
proof (induction s rule: Fields.induct)
  case (1 s)
  have t: "nl_free (trim_left s)" by (rule nl_free_subset [OF 1(2) set_trim_left])
  show ?case
  proof (cases "trim_left s = []")
    case False
    then show ?thesis
      using 1(1) [OF refl False] t nl_free_subset [OF t set_take_field]
      by (simp add: Fields.simps [of s] Let_def nl_free_drop)
  qed (simp add: Fields.simps [of s])
qed

lemma nl_free_CSeq: "nl_free s \<Longrightarrow> ParseCSeq s = Inr c \<Longrightarrow> nl_free (CSeq_Value c)"
  using nl_free_Fields [of s]
  by (auto simp: ParseCSeq_def CSeq_Value_def nl_free_ToUpper nl_free_intros split: list.splits option.splits)

definition auth_nl_free :: "Auth \<Rightarrow> bool" where
  "auth_nl_free a \<longleftrightarrow> nl_free (AuScheme a) \<and> list_all nl_free [Username a, Realm a, Nonce a, AuURI a,
     AuResponse a, Cnonce a, Nc a, Qop a, Algorithm a, Opaque a]"

lemma auth_field_nl_free: "auth_nl_free a \<Longrightarrow> nl_free v \<Longrightarrow> auth_nl_free (auth_field k v a)"
  by (simp add: auth_nl_free_def auth_field_def)

lemma ParseAuth_loop_nl_free:
  "list_all nl_free parts \<Longrightarrow> auth_nl_free a \<Longrightarrow> auth_nl_free (ParseAuth_loop parts a)"
proof (induction parts a rule: ParseAuth_loop.induct)
  case (2 part parts a)
  obtain k v f where cut: "Cut part CHR ''='' = (k, v, f)" by (cases "Cut part CHR ''=''") auto
  moreover have "nl_free (unquote (TrimSpace v))"
    using 2(3) nl_free_Cut [OF _ cut] by (simp add: nl_free_intros)
  ultimately show ?case using 2 by (cases f) (auto intro!: auth_field_nl_free)
qed simp

lemma nl_free_Auth: "nl_free s \<Longrightarrow> nl_free (Auth_Value (ParseAuth s))"
proof -
  assume s: "nl_free s"
  have start: "auth_nl_free (empty_auth\<lparr>AuScheme := x, Other := p\<rparr>)" if "nl_free x" for x p
    using that by (simp add: auth_nl_free_def empty_auth_def)
  have "auth_nl_free (ParseAuth s)"
  proof (cases "IndexAny (TrimSpace s) [SP, TAB, CHR '','']")
    case None
    then show ?thesis
      using nl_free_TrimSpace [OF s] by (simp add: ParseAuth_def Let_def auth_nl_free_def empty_auth_def)
  next
    case (Some i)
    then show ?thesis
      using nl_free_TrimSpace [OF s]
      by (auto simp: ParseAuth_def Let_def splitAuthParams_def nl_free_take nl_free_drop
          intro!: ParseAuth_loop_nl_free nl_free_splitAuth start)
  qed
  then show ?thesis
    by (simp add: Auth_Value_def auth_nl_free_def writeAuth_def writeAuthPlain_def)
qed

lemma nl_free_canonical_part: "nl_free p \<Longrightarrow> nl_free (canonical_part p)"
  by (simp add: canonical_part_def nl_free_ToUpper nl_free_ToLower nl_free_take nl_free_drop)

lemma shortToLong_nl_free: "list_all (\<lambda>(k, v). nl_free v) shortToLong"
  by (simp add: shortToLong_def)

lemma nl_free_CanonicalName: "nl_free n \<Longrightarrow> nl_free (CanonicalName n)"
proof -
  assume n: "nl_free n"
  show ?thesis
  proof (cases "map_of shortToLong (ToLower (TrimSpace n))")
    case None
    have "list_all nl_free (map canonical_part (Split (TrimSpace n) CHR ''-''))"
      using nl_free_Split [OF nl_free_TrimSpace [OF n], of "CHR ''-''"]
      by (auto simp: list_all_iff nl_free_canonical_part)
    then show ?thesis using None by (simp add: CanonicalName_def Let_def nl_free_Join)
  next
    case (Some l)
    then show ?thesis
      using shortToLong_nl_free map_of_SomeD [OF Some] by (auto simp: CanonicalName_def Let_def list_all_iff)
  qed
qed

lemma newTypedHeader_one_line:
  assumes "nl_free n" "nl_free v"
  shows "one_line (newTypedHeader n v)"
  using assms
  by (simp add: newTypedHeader_def Let_def one_line_def nl_free_Via nl_free_NameAddrList nl_free_CSeq
      nl_free_Auth ContentLength_Value_def nl_free_intros split: sum.split option.split)

section \<open>The header block\<close>

definition accepted_headers :: "Headers \<Rightarrow> int \<Rightarrow> bool" where
  "accepted_headers hs cl \<longleftrightarrow> list_all one_line hs \<and> declared_length hs = cl"

lemma setHeaderValue_content: "content_length_of (setHeaderValue h e) = content_length_of h"
  by (cases h) (simp_all add: content_length_of_def fun_eq_iff)

lemma setHeaderValue_one_line: "one_line h \<Longrightarrow> nl_free e \<Longrightarrow> one_line (setHeaderValue h e)"
  by (cases h) (simp_all add: one_line_def)

lemma parseHeaderLine_accepted:
  assumes "parseHeaderLine line hs cl = Inr (hs', cl')" "nl_free line" "accepted_headers hs cl"
  shows "accepted_headers hs' cl' \<and> length hs' \<le> Suc (length hs)"
proof (cases "hd line = SP \<or> hd line = TAB")
  case True
  then have hs: "hs \<noteq> []" "hs' = butlast hs @ [setHeaderValue (last hs) (TrimSpace line)]" "cl' = cl"
    using assms(1) by (auto simp: parseHeaderLine_def split: if_splits)
  obtain gs g where "hs = gs @ [g]" using hs(1) by (cases hs rule: rev_cases) auto
  then show ?thesis
    using hs assms by (simp add: accepted_headers_def declared_length_def setHeaderValue_content
        setHeaderValue_one_line nl_free_TrimSpace)
next
  case False
  obtain n v f where cut: "Cut line CHR '':'' = (n, v, f)" by (cases "Cut line CHR '':''") auto
  let ?h = "newTypedHeader (CanonicalName (TrimSpace n)) (TrimSpace v)"
  have "hs' = hs @ [?h]" "cl' = content_length_of ?h cl"
    using assms(1) False cut by (auto simp: parseHeaderLine_def Headers_Add_def Let_def split: if_splits)
  moreover have "one_line ?h"
    using nl_free_Cut [OF assms(2) cut] by (intro newTypedHeader_one_line nl_free_CanonicalName nl_free_TrimSpace) auto
  ultimately show ?thesis
    using assms(3) by (simp add: accepted_headers_def declared_length_def)
qed

lemma set_TrimRightSet: "set (TrimRightSet s cs) \<subseteq> set s"
  by (auto simp: TrimRightSet_def dest: set_dropWhileD)

lemma ReadString_line:
  assumes "ReadString s = (line, rest, d)"
  obtains (delim) a where "line = a @ [LF]" "LF \<notin> set a" | (eof) "LF \<notin> set line"
proof (cases "index_where (\<lambda>x. x = LF) s")
  case None
  have "line = s" using assms None by (simp add: ReadString_def)
  moreover have "LF \<notin> set s" using iffD1 [OF index_where_None None] by blast
  ultimately show ?thesis by (intro eof) simp
next
  case (Some i)
  note i = index_where_Some [OF Some]
  have "line = take (Suc i) s" using assms Some by (simp add: ReadString_def)
  then have "line = take i s @ [LF]" using i by (simp add: take_Suc_conv_app_nth)
  moreover have "LF \<notin> set (take i s)" using i by blast
  ultimately show ?thesis by (rule delim)
qed

lemma ReadString_nl_free:
  assumes "ReadString s = (line, rest, d)" "CR \<notin> set (TrimRightSet line [CR, LF])"
  shows "nl_free (TrimRightSet line [CR, LF])"
  using assms(1)
proof (cases rule: ReadString_line)
  case (delim a)
  then have "TrimRightSet line [CR, LF] = TrimRightSet a [CR, LF]" by (simp add: TrimRightSet_def)
  then show ?thesis using assms(2) delim(2) set_TrimRightSet [of a "[CR, LF]"] by (auto simp: nl_free_def)
next
  case eof
  then show ?thesis using assms(2) set_TrimRightSet [of line "[CR, LF]"] by (auto simp: nl_free_def)
qed

lemma parseHeaderStep_accepted:
  assumes "parseHeaderStep line d hs cl n = Inr (Some (hs', cl'))" "ReadString s = (line, rest, d)"
    "accepted_headers hs cl"
  shows "accepted_headers hs' cl' \<and> length hs' \<le> Suc (length hs) \<and> n < maxHeaderLines"
  using assms parseHeaderLine_accepted [of "TrimRightSet line [CR, LF]" hs cl hs' cl'] ReadString_nl_free [OF assms(2)]
  by (simp add: parseHeaderStep_def Let_def bind_result_eq_Inr split: if_splits)

lemma parseHeaders_loop_accepted:
  "parseHeaders_loop s hs cl n = Inr (hs', cl', rest') \<Longrightarrow> accepted_headers hs cl \<Longrightarrow> length hs \<le> n \<Longrightarrow>
   n \<le> maxHeaderLines \<Longrightarrow> accepted_headers hs' cl' \<and> length hs' \<le> maxHeaderLines"
proof (induction s hs cl n rule: parseHeaders_loop.induct)
  case (1 s hs cl n)
  obtain line rest d where rd: "ReadString s = (line, rest, d)" by (cases "ReadString s") auto
  show ?case
  proof (cases "parseHeaderStep line d hs cl n")
    case (Inl e)
    then show ?thesis using 1(2) rd by (simp add: parseHeaders_loop.simps [of s])
  next
    case (Inr r)
    show ?thesis
    proof (cases r)
      case None
      then show ?thesis using 1 rd Inr by (simp add: parseHeaders_loop.simps [of s])
    next
      case (Some q)
      obtain hs1 cl1 where q: "q = (hs1, cl1)" by (cases q) auto
      have st: "accepted_headers hs1 cl1 \<and> length hs1 \<le> Suc (length hs) \<and> n < maxHeaderLines"
        using parseHeaderStep_accepted [OF _ rd 1(3)] Inr Some q by simp
      have "parseHeaders_loop rest hs1 cl1 (n + 1) = Inr (hs', cl', rest')"
        using 1(2) rd Inr Some q by (simp add: parseHeaders_loop.simps [of s])
      then show ?thesis
        using 1(1) [OF rd [symmetric] refl Inr Some q [symmetric]] st 1(4) by simp
    qed
  qed
qed

section \<open>Accepted messages\<close>

fun Message_Validate :: "Message \<Rightarrow> unit result" where
  "Message_Validate (Req r) = Request_Validate r"
| "Message_Validate (Resp r) = Response_Validate r"

definition accepted :: "Message \<Rightarrow> bool" where
  "accepted m \<longleftrightarrow> Message_Validate m = Inr () \<and>
     list_all one_line (Message_Headers m) \<and> length (Message_Headers m) \<le> maxHeaderLines \<and>
     int (length (Message_Body m)) \<le> MaxBodySize \<and>
     int (length (Message_Body m)) = max 0 (declared_length (Message_Headers m))"

lemma parseHeaderBlock_accepted:
  assumes "parseHeaderBlock s = Inr (hs, body)"
  shows "list_all one_line hs" "length hs \<le> maxHeaderLines" "int (length body) \<le> MaxBodySize"
    "int (length body) = max 0 (declared_length hs)"
proof -
  obtain hs1 cl rest where l: "parseHeaders_loop s [] (-1) 0 = Inr (hs1, cl, rest)"
    "(let cl = (if cl < 0 then 0 else cl) in
        if MaxBodySize < cl then Inl ErrParse
        else if 0 < cl then
          (if length rest < nat cl then Inl ErrParse else Inr (hs1, take (nat cl) rest))
        else Inr (hs1, [])) = Inr (hs, body)"
    using assms by (auto simp: parseHeaderBlock_def bind_result_eq_Inr)
  have "accepted_headers hs1 cl \<and> length hs1 \<le> maxHeaderLines"
    using parseHeaders_loop_accepted [OF l(1)] by (simp add: accepted_headers_def declared_length_def)
  then show "list_all one_line hs" "length hs \<le> maxHeaderLines" "int (length body) \<le> MaxBodySize"
    "int (length body) = max 0 (declared_length hs)"
    using l(2) by (auto simp: accepted_headers_def MaxBodySize_def Let_def split: if_splits)
qed

lemma ParseMessage_accepted:
  assumes "ParseMessage s = Inr m"
  shows "accepted m"
proof -
  obtain line rest where "parseResponse line rest = Inr m \<or> parseRequest line rest = Inr m"
    using assms by (auto simp: ParseMessage_def Let_def split: if_splits prod.splits)
  then show ?thesis
  proof
    assume "parseResponse line rest = Inr m"
    then show ?thesis
      by (auto simp: parseResponse_def Let_def accepted_def bind_result_eq_Inr
          split: if_splits option.splits dest: parseHeaderBlock_accepted)
  next
    assume "parseRequest line rest = Inr m"
    then show ?thesis
      by (auto simp: parseRequest_def Let_def accepted_def bind_result_eq_Inr
          split: list.splits sum.splits dest: parseHeaderBlock_accepted)
  qed
qed

interpretation message_codec: codec render ParseMessage "\<lambda>m. wf_message m \<and> with_length m = m"
  by unfold_locales (simp add: ParseMessage_render_length)

section \<open>Properties\<close>

text \<open>C13 (round trip): a well-formed request or response is read back from what \<open>render\<close> prints, up to
  the Content-Length that \<open>render\<close> adds to a body without one.\<close>

theorem message_roundtrip: "wf_message m \<Longrightarrow> ParseMessage (render m) = Inr (with_length m)"
  by (rule ParseMessage_render_length)

theorem message_roundtrip_witness: "ParseMessage (render (Req sample_request)) = Inr (Req sample_request)"
  using message_roundtrip [OF wf_sample_request] by (simp only: sample_request_length)

text \<open>C8 (safety): whatever bytes arrive, a message \<open>ParseMessage\<close> accepts has all required headers, at
  most 128 headers, a body of the declared length and at most 64 KiB, and headers that each print as one
  line, so that forwarding it cannot add a header.\<close>

theorem parsed_message_safe: "ParseMessage s = Inr m \<Longrightarrow> accepted m"
  by (rule ParseMessage_accepted)

theorem parsed_message_safe_witness:
  "ParseMessage (render (Req sample_request)) = Inr (Req sample_request) \<and> accepted (Req sample_request)"
proof -
  have p: "ParseMessage (render (Req sample_request)) = Inr (Req sample_request)"
    using ParseMessage_render_length [OF wf_sample_request] by (simp only: sample_request_length)
  then show ?thesis using parsed_message_safe [OF p] by simp
qed

end
