(* ===== verification/Splitter.thy ===== *)
theory Splitter
  imports ParserSafe
begin

text \<open>
  \<^verbatim>\<open>StreamSplitter\<close> of \<^verbatim>\<open>parser.go\<close>: cutting a TCP byte stream into messages. \<open>splitOne\<close> looks for the
  first blank line and a Content-Length before it; \<open>Feed\<close> appends the bytes just read and splits
  until no complete message is left. The loop of \<open>Feed\<close> is a partial function: \<open>None\<close> is a loop that
  never returns. The sum \<^verbatim>\<open>i + 4 + cl\<close> is an \<^typ>\<open>int\<close>: it is only used when \<^verbatim>\<open>cl\<close> is at most
  \<^verbatim>\<open>MaxBodySize\<close>, where 64 bits do not overflow.
\<close>

section \<open>Definitions\<close>

fun index_blank_line :: "string \<Rightarrow> nat option" where
  "index_blank_line [] = None"
| "index_blank_line (c # s) =
     (if HasPrefix (c # s) (CRLF @ CRLF) then Some 0 else map_option Suc (index_blank_line s))"

fun split_content_length :: "string list \<Rightarrow> int \<Rightarrow> int result" where
  "split_content_length [] cl = Inr cl"
| "split_content_length (line # lines) cl =
     (case Cut line CHR '':'' of (name, value, found) \<Rightarrow>
        if \<not> found then split_content_length lines cl
        else if CanonicalName name = ''Content-Length'' then
          (case Atoi (TrimSpace value) of
             None \<Rightarrow> Inl ErrParse
           | Some n \<Rightarrow> split_content_length lines n)
        else split_content_length lines cl)"

definition splitOne :: "string \<Rightarrow> (string \<times> string) option result" where
  "splitOne data = (case index_blank_line data of
     None \<Rightarrow> Inr None
   | Some i \<Rightarrow>
       bind_result (split_content_length (SplitCRLF (take (i + 4) data)) 0) (\<lambda>cl.
         (let total = int i + 4 + cl in
          if MaxBodySize < cl then Inl ErrParse
          else if int (length data) < total then Inr None
          else if total < 0 then Inl GoPanic
          else Inr (Some (take (nat total) data, drop (nat total) data)))))"

record StreamSplitter =
  buf :: string

partial_function (option) Feed_loop :: "string \<Rightarrow> string list \<Rightarrow> (string \<times> string list \<times> error option) option" where
  "Feed_loop b out = (case splitOne b of
     Inl e \<Rightarrow> Some (b, out, Some e)
   | Inr r \<Rightarrow> (case r of
       None \<Rightarrow> Some (b, out, None)
     | Some q \<Rightarrow> Feed_loop (snd q) (out @ [fst q])))"

definition Feed :: "string \<Rightarrow> StreamSplitter \<Rightarrow> (StreamSplitter \<times> string list \<times> error option) option" where
  "Feed data s =
     (if MaxMessageSize < int (length (buf s) + length data) then Some (s\<lparr>buf := []\<rparr>, [], Some ErrParse)
      else map_option (\<lambda>(b, out, err). (s\<lparr>buf := b\<rparr>, out, err)) (Feed_loop (buf s @ data) []))"

declare Feed_loop.simps [code]

section \<open>Framing as an interface\<close>

text \<open>A splitter cuts one frame off the front of the bytes received; more bytes after it change nothing.\<close>

locale framing =
  fixes split :: "'a list \<Rightarrow> 'e + ('a list \<times> 'a list) option"
  assumes split_conserves: "split d = Inr (Some (m, r)) \<Longrightarrow> d = m @ r"
    and split_more: "split d = Inr (Some (m, r)) \<Longrightarrow> split (d @ x) = Inr (Some (m, r @ x))"
    and split_error_more: "split d = Inl e \<Longrightarrow> split (d @ x) = Inl e"
begin

inductive frames :: "'a list \<Rightarrow> 'a list list \<Rightarrow> 'a list \<Rightarrow> bool" where
  frames_done: "split d = Inr None \<Longrightarrow> frames d [] d"
| frames_one: "split d = Inr (Some (m, r)) \<Longrightarrow> frames r ms r' \<Longrightarrow> frames d (m # ms) r'"

lemma frames_conserve: "frames d ms r \<Longrightarrow> concat ms @ r = d"
  by (induction rule: frames.induct) (auto dest: split_conserves)

lemma frames_rest: "frames d ms r \<Longrightarrow> split r = Inr None"
  by (induction rule: frames.induct) auto

lemma frames_unique: "frames d ms r \<Longrightarrow> frames d ms' r' \<Longrightarrow> ms = ms' \<and> r = r'"
proof (induction arbitrary: ms' r' rule: frames.induct)
  case (frames_done d)
  from frames_done.prems frames_done.hyps show ?case by (cases rule: frames.cases) simp_all
next
  case (frames_one d m r ms r2)
  note hyps = frames_one.hyps and IH = frames_one.IH
  from frames_one.prems show ?case
  proof (cases rule: frames.cases)
    case frames_done
    then show ?thesis using hyps by simp
  next
    case (frames_one m2 r3 ms2)
    then have "m2 = m" "r3 = r" using hyps(1) by simp_all
    then show ?thesis using IH [of ms2 r'] frames_one by simp
  qed
qed

lemma frames_chunks: "frames d ms r \<Longrightarrow> frames (r @ x) ms' r' \<Longrightarrow> frames (d @ x) (ms @ ms') r'"
proof (induction rule: frames.induct)
  case (frames_one d m r ms r2)
  then show ?case by (auto intro: frames.frames_one split_more)
qed simp

lemma frames_prefix:
  assumes "frames (d @ x) ms r"
  obtains ms1 r1 ms2 where "frames d ms1 r1" "frames (r1 @ x) ms2 r" "ms = ms1 @ ms2"
proof -
  have "\<exists>ms1 r1 ms2. frames d ms1 r1 \<and> frames (r1 @ x) ms2 r \<and> ms = ms1 @ ms2"
    using assms
  proof (induction "d @ x" ms r arbitrary: d rule: frames.induct)
    case frames_done
    then have "split d = Inr None"
      using split_more [of d _ _ x] split_error_more [of d _ x]
      by (cases "split d"; cases "projr (split d)") auto
    then show ?case using frames.frames_done [of d] frames.frames_done [OF frames_done] by force
  next
    case (frames_one m r ms r')
    show ?case
    proof (cases "split d = Inr None")
      case True
      then show ?thesis
        using frames.frames_done [of d] frames.frames_one [OF frames_one(1,2)] by force
    next
      case False
      then obtain m1 r1 where d: "split d = Inr (Some (m1, r1))"
        using split_error_more [of d _ x] frames_one(1) by (cases "split d"; cases "projr (split d)") auto
      then have "m = m1" "r = r1 @ x" using split_more [OF d, of x] frames_one(1) by simp_all
      then obtain ms1 r2 ms2 where "frames r1 ms1 r2" "frames (r2 @ x) ms2 r'" "ms = ms1 @ ms2"
        using frames_one(3) [of r1] by blast
      then show ?thesis using frames.frames_one [OF d] \<open>m = m1\<close> by (metis append_Cons)
    qed
  qed
  then show ?thesis using that by blast
qed

end

section \<open>The splitter is a framing\<close>

lemma HasPrefix_iff: "HasPrefix s p \<longleftrightarrow> (\<exists>t. s = p @ t)"
  unfolding HasPrefix_def by (metis append_eq_conv_conj append_take_drop_id)

lemma index_blank_line_Some: "index_blank_line s = Some i \<Longrightarrow> i + 4 \<le> length s"
  by (induction s arbitrary: i) (auto simp: HasPrefix_iff split: if_splits)

lemma index_blank_line_more: "index_blank_line s = Some i \<Longrightarrow> index_blank_line (s @ x) = Some i"
proof (induction s arbitrary: i)
  case (Cons c s)
  show ?case
  proof (cases "HasPrefix (c # s) (CRLF @ CRLF)")
    case True
    then have "HasPrefix ((c # s) @ x) (CRLF @ CRLF)" by (auto simp: HasPrefix_iff)
    then show ?thesis using Cons.prems True by simp
  next
    case False
    then obtain j where j: "index_blank_line s = Some j" "i = Suc j" using Cons.prems by (auto split: if_splits)
    then have "4 \<le> length s" using index_blank_line_Some [OF j(1)] by simp
    then have "\<not> HasPrefix ((c # s) @ x) (CRLF @ CRLF)" using False by (simp add: HasPrefix_def)
    then show ?thesis using j Cons.IH by simp
  qed
qed simp

lemma splitOne_conserves: "splitOne d = Inr (Some (m, r)) \<Longrightarrow> d = m @ r"
  by (auto simp: splitOne_def bind_result_eq_Inr Let_def split: option.splits if_splits)

lemma splitOne_head:
  assumes "index_blank_line d = Some i"
  shows "splitOne (d @ x) = bind_result (split_content_length (SplitCRLF (take (i + 4) d)) 0) (\<lambda>cl.
         (let total = int i + 4 + cl in
          if MaxBodySize < cl then Inl ErrParse
          else if int (length (d @ x)) < total then Inr None
          else if total < 0 then Inl GoPanic
          else Inr (Some (take (nat total) (d @ x), drop (nat total) (d @ x)))))"
  using index_blank_line_more [OF assms] index_blank_line_Some [OF assms] by (simp add: splitOne_def)

lemma splitOne_more:
  assumes "splitOne d = Inr (Some (m, r))"
  shows "splitOne (d @ x) = Inr (Some (m, r @ x))"
proof -
  obtain i where i: "index_blank_line d = Some i"
    using assms by (auto simp: splitOne_def split: option.splits)
  show ?thesis
    using assms splitOne_head [OF i, of "[]"] splitOne_head [OF i, of x]
    by (cases "split_content_length (SplitCRLF (take (i + 4) d)) 0") (auto simp: Let_def split: if_splits)
qed

lemma splitOne_error_more:
  assumes "splitOne d = Inl e"
  shows "splitOne (d @ x) = Inl e"
proof -
  obtain i where i: "index_blank_line d = Some i"
    using assms by (auto simp: splitOne_def split: option.splits)
  show ?thesis
    using assms splitOne_head [OF i, of "[]"] splitOne_head [OF i, of x]
    by (cases "split_content_length (SplitCRLF (take (i + 4) d)) 0") (auto simp: Let_def split: if_splits)
qed

interpretation sip_framing: framing splitOne
  by unfold_locales (rule splitOne_conserves splitOne_more splitOne_error_more; assumption)+

lemma Feed_loop_frames:
  "sip_framing.frames d ms r \<Longrightarrow> Feed_loop d out = Some (r, out @ ms, None)"
proof (induction arbitrary: out rule: sip_framing.frames.induct)
  case (frames_done d)
  then show ?case by (simp add: Feed_loop.simps [of d])
next
  case (frames_one d m r ms r2)
  then show ?case by (simp add: Feed_loop.simps [of d])
qed

lemmas Feed_loop_induct = Feed_loop.raw_induct [rotated, consumes 1, case_names step]

lemma Feed_loop_sound:
  "Feed_loop d out = Some (r, out', err) \<Longrightarrow>
     \<exists>ms. out' = out @ ms \<and> concat ms @ r = d \<and> (err = None \<longrightarrow> sip_framing.frames d ms r) \<and>
       (\<forall>e. err = Some e \<longrightarrow> splitOne r = Inl e)"
proof (induction d out "(r, out', err)" arbitrary: r out' err rule: Feed_loop_induct)
  case (step f d out)
  show ?case
  proof (cases "splitOne d")
    case (Inl e)
    then show ?thesis using step(2) by auto
  next
    case (Inr q)
    show ?thesis
    proof (cases q)
      case None
      then show ?thesis using step(2) Inr by (auto intro: sip_framing.frames_done)
    next
      case (Some mr)
      obtain m r1 where mr: "mr = (m, r1)" by (cases mr) auto
      have sp: "splitOne d = Inr (Some (m, r1))" using Inr Some mr by simp
      have "f r1 (out @ [m]) = Some (r, out', err)" using step(2) sp by simp
      from step(1) [OF this] obtain ms where ms: "out' = (out @ [m]) @ ms" "concat ms @ r = r1"
        "err = None \<longrightarrow> sip_framing.frames r1 ms r" "\<forall>e. err = Some e \<longrightarrow> splitOne r = Inl e" by blast
      have "d = m @ r1" by (rule splitOne_conserves [OF sp])
      then show ?thesis
        using ms sip_framing.frames_one [OF sp] by (intro exI [of _ "m # ms"]) auto
    qed
  qed
qed

section \<open>When \<open>Feed\<close> returns\<close>

definition negative_length :: "string \<Rightarrow> bool" where
  "negative_length d = (case index_blank_line d of
     None \<Rightarrow> False
   | Some i \<Rightarrow> (case split_content_length (SplitCRLF (take (i + 4) d)) 0 of
       Inl _ \<Rightarrow> False
     | Inr cl \<Rightarrow> cl < 0))"

lemma split_content_length_error: "split_content_length ls cl = Inl e \<Longrightarrow> e = ErrParse"
  by (induction ls cl rule: split_content_length.induct) (auto split: prod.splits if_splits option.splits)

lemma splitOne_progress:
  assumes "splitOne d = Inr (Some (m, r))" "\<not> negative_length d"
  shows "length r < length d"
proof -
  obtain i cl where i: "index_blank_line d = Some i"
    "split_content_length (SplitCRLF (take (i + 4) d)) 0 = Inr cl" "r = drop (nat (int i + 4 + cl)) d"
    using assms(1) by (auto simp: splitOne_def bind_result_eq_Inr Let_def split: option.splits if_splits)
  then have "0 \<le> cl" using assms(2) by (simp add: negative_length_def)
  then show ?thesis using i index_blank_line_Some [OF i(1)] by simp
qed

lemma splitOne_no_panic: "splitOne d = Inl GoPanic \<Longrightarrow> negative_length d"
proof (rule ccontr)
  assume a: "splitOne d = Inl GoPanic" "\<not> negative_length d"
  then obtain i where i: "index_blank_line d = Some i" by (auto simp: splitOne_def split: option.splits)
  show False
    using a i split_content_length_error [of "SplitCRLF (take (i + 4) d)" 0]
    by (cases "split_content_length (SplitCRLF (take (i + 4) d)) 0")
       (auto simp: splitOne_def negative_length_def Let_def split: if_splits)
qed

lemma Feed_loop_stuck: "splitOne d = Inr (Some ([], d)) \<Longrightarrow> Feed_loop d out = None"
proof (rule ccontr)
  assume d: "splitOne d = Inr (Some ([], d))" and "Feed_loop d out \<noteq> None"
  then obtain y where "Feed_loop d out = Some y" by blast
  then have "splitOne d \<noteq> Inr (Some ([], d))"
  proof (induction rule: Feed_loop_induct)
    case (step f d out y)
    then show ?case by fastforce
  qed
  with d show False by simp
qed

lemma Feed_loop_returns:
  assumes "\<forall>k. \<not> negative_length (drop k d)"
  shows "\<exists>r ms err. Feed_loop d out = Some (r, ms, err) \<and> err \<noteq> Some GoPanic"
  using assms
proof (induction "length d" arbitrary: d out rule: less_induct)
  case less
  have nn: "\<not> negative_length d" using less.prems by (metis drop0)
  show ?case
  proof (cases "splitOne d")
    case (Inl e)
    then show ?thesis using nn splitOne_no_panic by (auto simp: Feed_loop.simps [of d])
  next
    case (Inr q)
    show ?thesis
    proof (cases q)
      case None
      then show ?thesis using Inr by (simp add: Feed_loop.simps [of d])
    next
      case (Some mr)
      obtain m r where mr: "mr = (m, r)" by (cases mr) auto
      have sp: "splitOne d = Inr (Some (m, r))" using Inr Some mr by simp
      have "r = drop (length m) d" using splitOne_conserves [OF sp] by simp
      then have "\<forall>k. \<not> negative_length (drop k r)" using less.prems by simp
      then show ?thesis
        using less.hyps [OF splitOne_progress [OF sp nn]] sp by (simp add: Feed_loop.simps [of d])
    qed
  qed
qed

section \<open>Streams of rendered messages\<close>

definition text_lines :: "string list \<Rightarrow> string" where
  "text_lines ls = concat (map (\<lambda>l. l @ CRLF) ls)"

lemma text_lines_simps [simp]: "text_lines [] = []" "text_lines (l # ls) = l @ CRLF @ text_lines ls"
  by (simp_all add: text_lines_def)

lemma index_blank_line_skip:
  "nl_free l \<Longrightarrow> l \<noteq> [] \<Longrightarrow> index_blank_line (l @ s) = map_option ((+) (length l)) (index_blank_line s)"
proof (induction l)
  case (Cons c l)
  have "\<not> HasPrefix (c # l @ s) (CRLF @ CRLF)" using Cons.prems by (auto simp: HasPrefix_iff)
  then show ?case using Cons
    by (cases "l = []") (auto simp: option.map_comp comp_def)
qed simp

lemma index_blank_line_CRLF:
  "nl_free l \<Longrightarrow> l \<noteq> [] \<Longrightarrow> index_blank_line (CRLF @ l @ s) = map_option ((+) 2) (index_blank_line (l @ s))"
  by (cases l) (auto simp: HasPrefix_iff option.map_comp comp_def)

lemma index_blank_line_lines:
  assumes "list_all (\<lambda>l. nl_free l \<and> l \<noteq> []) ls" "ls \<noteq> []"
  shows "index_blank_line (text_lines ls @ CRLF @ x) = Some (length (text_lines ls) - 2)"
  using assms
proof (induction ls)
  case (Cons l ls)
  show ?case
  proof (cases ls)
    case Nil
    have "index_blank_line (CRLF @ CRLF @ x) = Some 0" by (simp add: HasPrefix_def)
    then show ?thesis using Cons Nil index_blank_line_skip [of l "CRLF @ CRLF @ x"] by simp
  next
    case (Cons l2 ls2)
    then have "index_blank_line (text_lines ls @ CRLF @ x) = Some (length (text_lines ls) - 2)"
      using Cons.IH Cons.prems by simp
    moreover have "index_blank_line (CRLF @ text_lines ls @ CRLF @ x) =
        map_option ((+) 2) (index_blank_line (text_lines ls @ CRLF @ x))"
      using Cons Cons.prems index_blank_line_CRLF [of l2 "CRLF @ text_lines ls2 @ CRLF @ x"] by simp
    moreover have "2 \<le> length (text_lines ls)" using Cons by simp
    ultimately show ?thesis
      using Cons.prems index_blank_line_skip [of l "CRLF @ text_lines ls @ CRLF @ x"] by simp
  qed
qed simp

lemma SplitCRLF_line: "nl_free l \<Longrightarrow> SplitCRLF (l @ CRLF @ s) = l # SplitCRLF s"
proof (induction l)
  case (Cons c l)
  then show ?case by (cases l) (auto split: list.splits)
qed simp

lemma SplitCRLF_lines: "list_all nl_free ls \<Longrightarrow> SplitCRLF (text_lines ls @ CRLF) = ls @ [[], []]"
proof (induction ls)
  case (Cons l ls)
  then show ?case using SplitCRLF_line [of l "text_lines ls @ CRLF"] by simp
qed simp

fun stream_start :: "Message \<Rightarrow> bool" where
  "stream_start (Req r) \<longleftrightarrow> CHR '':'' \<notin> set (RMethod r)"
| "stream_start (Resp r) \<longleftrightarrow> True"

definition wf_stream :: "Message list \<Rightarrow> bool" where
  "wf_stream ms \<longleftrightarrow> list_all (\<lambda>m. wf_message m \<and> with_length m = m \<and> stream_start m) ms \<and>
     int (length (concat (map render ms))) \<le> MaxMessageSize"

lemma length_keys: "map_of shortToLong k = Some ''Content-Length'' \<Longrightarrow> k \<in> {''l'', ''content-length''}"
  by (drule map_of_SomeD) (simp add: shortToLong_def)

lemma CanonicalName_length:
  assumes "CanonicalName n = ''Content-Length''"
  shows "ToLower (TrimSpace n) \<in> {''l'', ''content-length''}"
proof (cases "map_of shortToLong (ToLower (TrimSpace n))")
  case None
  then have "ToLower ''Content-Length'' = ToLower (TrimSpace n)"
    using assms ToLower_canonical [of "TrimSpace n"] by (simp add: CanonicalName_def Let_def)
  moreover have "ToLower ''Content-Length'' = ''content-length''" by code_simp
  ultimately show ?thesis by simp
next
  case (Some l)
  then show ?thesis using assms length_keys by (simp add: CanonicalName_def Let_def)
qed

definition header_text :: "Header \<Rightarrow> string" where
  "header_text h = Header_Name h @ '': '' @ Header_Value h"

lemma Headers_String_lines: "Headers_String hs = text_lines (map header_text hs)"
  by (induction hs) (simp_all add: Headers_String_def header_line_def header_text_def)

lemma header_text_wf: "wf_header h \<Longrightarrow> nl_free (header_text h) \<and> header_text h \<noteq> []"
  using wf_line_absent [of "Header_Name h" "Header_Value h"]
  by (auto simp: wf_header_def header_text_def nl_free_def)

lemma split_content_length_header:
  assumes "wf_header h"
  shows "split_content_length (header_text h # ls) cl = split_content_length ls (content_length_of h cl)"
proof -
  have n: "CHR '':'' \<notin> set (Header_Name h)" "CanonicalName (Header_Name h) = Header_Name h" "wf_typed h"
    using assms by (simp_all add: wf_header_def wf_line_def)
  have cut: "Cut (header_text h) CHR '':'' = (Header_Name h, SP # Header_Value h, True)"
    using Cut_append [OF n(1), of "SP # Header_Value h"] by (simp add: header_text_def)
  show ?thesis
  proof (cases "Header_Name h = ''Content-Length''")
    case True
    then obtain k where h: "h = ContentLength k"
      using n(3) by (cases h) (auto simp: typed_names_def addr_header_names_def auth_header_names_def)
    have "uint k < 2 ^ 32" using uint_lt2p [of k] by simp
    then have "int (unat k) < 2 ^ 63" by simp
    then have "Atoi (TrimSpace (SP # ContentLength_Value k)) = Some (int (unat k))"
      by (simp add: ContentLength_Value_def TrimSpace_space TrimSpace_vis visible_vis_ends format_nat_visible Atoi_format)
    then show ?thesis using cut n h by (simp add: content_length_of_def)
  next
    case False
    then have "content_length_of h cl = cl" by (cases h) (simp_all add: content_length_of_def)
    then show ?thesis using cut n False by simp
  qed
qed

lemma split_content_length_headers:
  "list_all wf_header hs \<Longrightarrow>
   split_content_length (map header_text hs @ [[], []]) cl = Inr (fold content_length_of hs cl)"
proof (induction hs arbitrary: cl)
  case Nil
  then show ?case by (simp add: Cut_def)
next
  case (Cons h hs)
  then show ?case using split_content_length_header [of h "map header_text hs @ [[], []]"] by simp
qed

lemma not_length_name:
  "CanonicalName n = ''Content-Length'' \<Longrightarrow> SP \<notin> set (TrimSpace n) \<and> TrimSpace n \<noteq> [] \<and> hd (TrimSpace n) \<noteq> CHR ''S''"
proof -
  assume "CanonicalName n = ''Content-Length''"
  then have k: "ToLower (TrimSpace n) \<in> {''l'', ''content-length''}" by (rule CanonicalName_length)
  have lower_S: "lower_char CHR ''S'' = CHR ''s''" by code_simp
  have "SP \<notin> set (ToLower (TrimSpace n))" using k by auto
  moreover have "lower_char SP = SP" by (simp add: lower_char_def Let_def)
  ultimately have "SP \<notin> set (TrimSpace n)" by (metis ToLower_def image_eqI list.set_map)
  moreover have "TrimSpace n \<noteq> [] \<and> hd (TrimSpace n) \<noteq> CHR ''S''"
    using k lower_S by (cases "TrimSpace n") (auto simp: ToLower_def)
  ultimately show ?thesis by simp
qed

lemma TrimSpace_hd:
  assumes "n \<noteq> []" "visible (hd n)" "TrimSpace n \<noteq> []"
  shows "hd (TrimSpace n) = hd n"
proof -
  have "trim_left n = n" using assms(1,2) by (cases n) (simp_all add: trim_left_id ws_width_visible)
  then obtain q where "rev n = q @ trim_rev (rev n)" "TrimSpace n = rev (trim_rev (rev n))"
    using trim_rev_suffix [of "rev n"] by (auto simp: TrimSpace_def)
  then have "n = TrimSpace n @ rev q" by (metis rev_append rev_rev_ident)
  then show ?thesis using assms(3) by (metis hd_append2)
qed

lemma split_content_length_start:
  assumes "wf_start m" "stream_start m"
  shows "split_content_length (StartLine m # ls) cl = split_content_length ls cl"
proof -
  obtain n v f where cut: "Cut (StartLine m) CHR '':'' = (n, v, f)" by (cases "Cut (StartLine m) CHR '':''") auto
  have "CanonicalName n \<noteq> ''Content-Length''" if f
  proof (cases m)
    case (Req r)
    then obtain u where u: "RUri r = Some u" "wf_uri u" using assms(1) by (auto split: option.splits)
    have "StartLine m = (RMethod r @ SP # Scheme u) @ CHR '':'' # (uri_authority u @ uri_params_part u @
        (if UHeaders u = None then [] else CHR ''?'' # uri_headers_part u) @ '' '' @ RProto r)"
      using Req u Uri_String_wf [OF u(2)] by simp
    then have n: "n = RMethod r @ SP # Scheme u"
      using cut Cut_append [of "CHR '':''" "RMethod r @ SP # Scheme u"] assms(2) Req wf_scheme [OF u(2)] by simp
    have "vis_ends n"
      using n assms(1) Req wf_scheme [OF u(2)]
      by (auto simp: vis_ends_def wf_method_def hd_append list_all_iff SchemeSIP_def SchemeSIPS_def SchemeTel_def visible_def)
    then show ?thesis using n not_length_name [of n] by (auto simp: TrimSpace_vis)
  next
    case (Resp r)
    have "hd (StartLine m) = CHR ''S''" using assms(1) Resp by (auto simp: HasPrefix_iff)
    moreover have "StartLine m = n @ CHR '':'' # v" using cut that Cut_cases [of "StartLine m" "CHR '':''"] by force
    ultimately have "n \<noteq> [] \<longrightarrow> hd n = CHR ''S''" by auto
    moreover have "n \<noteq> []" using \<open>hd (StartLine m) = CHR ''S''\<close> \<open>StartLine m = n @ CHR '':'' # v\<close> by auto
    ultimately have "TrimSpace n = [] \<or> hd (TrimSpace n) = CHR ''S''"
      using TrimSpace_hd [of n] by (auto simp: visible_def)
    then show ?thesis
      using not_length_name [of n] by auto
  qed
  then show ?thesis using cut by simp
qed

lemma declared_length_0:
  assumes "0 \<le> declared_length hs \<or> declared_length hs = -1"
  shows "fold content_length_of hs 0 = max 0 (declared_length hs)"
proof -
  have "fold content_length_of hs 0 = (if fold content_length_of hs (-1) = -1 then 0 else fold content_length_of hs (-1))"
  proof (induction hs rule: rev_induct)
    case (snoc h hs)
    have "(\<forall>c. content_length_of h c = c) \<or> (\<exists>n. \<forall>c. content_length_of h c = int n)"
      unfolding content_length_of_def by (cases h) (auto simp del: unsigned_of_nat of_nat_unat)
    then show ?case using snoc by auto
  qed simp
  then show ?thesis using assms by (auto simp: declared_length_def)
qed

lemma splitOne_render:
  assumes "wf_message m" "with_length m = m" "stream_start m"
  shows "splitOne (render m @ x) = Inr (Some (render m, x))"
proof -
  let ?hs = "Message_Headers m" and ?b = "Message_Body m"
  let ?ls = "StartLine m # map header_text ?hs"
  have wf: "wf_start m" "wf_content ?hs ?b" using assms(1) by (simp_all add: wf_message_def)
  have "Message_Headers (with_length m) = add_length ?b ?hs" by (cases m) simp_all
  then have hs: "add_length ?b ?hs = ?hs" using assms(2) by simp
  have small: "int (length ?b) \<le> MaxBodySize" "list_all wf_header ?hs" using wf(2) by (simp_all add: wf_content_def)
  have r: "render m = text_lines ?ls @ CRLF @ ?b"
    using render_split [OF small(1)] hs by (simp add: headers_and_body_def Headers_String_lines)
  have sl: "nl_free (StartLine m)" "StartLine m \<noteq> []"
    using StartLine_chars [OF wf(1)] by (auto simp: nl_free_def)
  have ls: "list_all (\<lambda>l. nl_free l \<and> l \<noteq> []) ?ls"
    using sl small(2) by (auto simp: list_all_iff header_text_wf)
  have i: "index_blank_line (render m @ x) = Some (length (text_lines ?ls) - 2)"
    using index_blank_line_lines [OF ls, of "?b @ x"] r by simp
  have len: "2 \<le> length (text_lines ?ls)" by simp
  have "take (length (text_lines ?ls) - 2 + 4) (render m @ x) = text_lines ?ls @ CRLF"
    using r len by (simp del: text_lines_simps)
  moreover have "SplitCRLF (text_lines ?ls @ CRLF) = ?ls @ [[], []]"
    using ls by (intro SplitCRLF_lines) (simp add: list_all_iff)
  moreover have "split_content_length (?ls @ [[], []]) 0 = Inr (fold content_length_of ?hs 0)"
    using split_content_length_start [OF wf(1) assms(3), of "map header_text ?hs @ [[], []]" 0]
      split_content_length_headers [OF small(2)] by simp
  moreover have "fold content_length_of ?hs 0 = int (length ?b)"
    using add_length_wf(3) [OF wf(2)] hs declared_length_0 [of ?hs] by (auto split: if_splits)
  ultimately have "split_content_length (SplitCRLF (take (length (text_lines ?ls) - 2 + 4) (render m @ x))) 0
      = Inr (int (length ?b))" by simp
  moreover have "int (length (text_lines ?ls) - 2) + 4 + int (length ?b) = int (length (render m))"
    using r len by (simp del: text_lines_simps)
  ultimately show ?thesis
    using i small(1) by (simp add: splitOne_def del: text_lines_simps)
qed

lemma frames_render:
  assumes "list_all (\<lambda>m. wf_message m \<and> with_length m = m \<and> stream_start m) ms"
  shows "sip_framing.frames (concat (map render ms)) (map render ms) []"
  using assms
proof (induction ms)
  case Nil
  have "splitOne [] = Inr None" by (simp add: splitOne_def)
  then show ?case by (simp add: sip_framing.frames_done)
next
  case (Cons m ms)
  then show ?case using splitOne_render [of m "concat (map render ms)"] by (simp add: sip_framing.frames_one)
qed

section \<open>Feeding a stream in chunks\<close>

text \<open>The read loop of a connection: one \<open>Feed\<close> per read, stopping at the first error.\<close>

fun Feed_all :: "string list \<Rightarrow> StreamSplitter \<Rightarrow> (StreamSplitter \<times> string list \<times> error option) option" where
  "Feed_all [] s = Some (s, [], None)"
| "Feed_all (c # cs) s = (case Feed c s of
     None \<Rightarrow> None
   | Some (s', out, Some e) \<Rightarrow> Some (s', out, Some e)
   | Some (s', out, None) \<Rightarrow> map_option (\<lambda>(s'', out', e). (s'', out @ out', e)) (Feed_all cs s'))"

lemma Feed_frames:
  assumes "int (length (buf s) + length data) \<le> MaxMessageSize" "sip_framing.frames (buf s @ data) ms r"
  shows "Feed data s = Some (s\<lparr>buf := r\<rparr>, ms, None)"
  using assms Feed_loop_frames [OF assms(2), of "[]"] by (simp add: Feed_def)

lemma Feed_all_frames:
  assumes "sip_framing.frames (buf s @ concat cs) ms r" "int (length (buf s @ concat cs)) \<le> MaxMessageSize"
  shows "cs \<noteq> [] \<Longrightarrow> Feed_all cs s = Some (s\<lparr>buf := r\<rparr>, ms, None)"
  using assms
proof (induction cs arbitrary: s ms)
  case (Cons c cs)
  obtain ms1 r1 ms2 where f: "sip_framing.frames (buf s @ c) ms1 r1" "sip_framing.frames (r1 @ concat cs) ms2 r"
    "ms = ms1 @ ms2"
    using sip_framing.frames_prefix [of "buf s @ c" "concat cs" ms r] Cons.prems(2) by auto
  have fd: "Feed c s = Some (s\<lparr>buf := r1\<rparr>, ms1, None)"
    using Feed_frames [OF _ f(1)] Cons.prems(3) by simp
  show ?case
  proof (cases "cs = []")
    case True
    have "splitOne r1 = Inr None" by (rule sip_framing.frames_rest [OF f(1)])
    then have "ms2 = [] \<and> r = r1"
      using sip_framing.frames_unique [OF sip_framing.frames_done, of r1 ms2 r] f(2) True by simp
    then show ?thesis using fd f(3) True by simp
  next
    case False
    have "length (concat ms1 @ r1) = length (buf s @ c)" using sip_framing.frames_conserve [OF f(1)] by simp
    then have "int (length (r1 @ concat cs)) \<le> MaxMessageSize" using Cons.prems(3) by simp
    then show ?thesis using Cons.IH [OF False, of "s\<lparr>buf := r1\<rparr>" ms2] f(2,3) fd by simp
  qed
qed simp

section \<open>Properties\<close>

text \<open>
  C1 (round trip): a sequence of well-formed messages written to a TCP stream is recovered exactly,
  however the stream is cut into reads: the splitter hands out the rendered messages in order, keeps no
  byte back, and each of them parses to the message that was sent.
\<close>

theorem stream_roundtrip:
  assumes "wf_stream ms" "concat cs = concat (map render ms)" "cs \<noteq> []"
  shows "Feed_all cs \<lparr>buf = []\<rparr> = Some (\<lparr>buf = []\<rparr>, map render ms, None) \<and>
    map ParseMessage (map render ms) = map Inr ms"
proof
  have ms: "list_all (\<lambda>m. wf_message m \<and> with_length m = m \<and> stream_start m) ms"
    "int (length (concat (map render ms))) \<le> MaxMessageSize"
    using assms(1) by (simp_all add: wf_stream_def)
  show "Feed_all cs \<lparr>buf = []\<rparr> = Some (\<lparr>buf = []\<rparr>, map render ms, None)"
    using Feed_all_frames [of "\<lparr>buf = []\<rparr>" cs "map render ms" "[]"] frames_render [OF ms(1)] ms(2) assms(2,3)
    by simp
  show "map ParseMessage (map render ms) = map Inr ms"
    using ms(1) by (induction ms) (auto simp: message_codec.dec_enc)
qed

theorem stream_roundtrip_witness:
  "Feed_all [take 30 (render (Req sample_request)), drop 30 (render (Req sample_request)), render (Resp sample_response)]
     \<lparr>buf = []\<rparr> = Some (\<lparr>buf = []\<rparr>, [render (Req sample_request), render (Resp sample_response)], None)"
proof -
  have "wf_stream [Req sample_request, Resp sample_response]"
    using wf_sample_request wf_sample_response sample_request_length sample_length
    by (simp add: wf_stream_def add_length_def MaxMessageSize_def) (simp add: sample_request_def sample_response_def)
  then show ?thesis
    using stream_roundtrip [of "[Req sample_request, Resp sample_response]" "[take 30 (render (Req sample_request)),
      drop 30 (render (Req sample_request)), render (Resp sample_response)]"]
    by (simp del: Feed_all.simps flip: append_assoc)
qed

text \<open>\<open>Feed\<close> neither loses, duplicates nor reorders bytes: what it hands out followed by what it
  keeps is what it had followed by what it was given, also when it stops with an error.
\<close>

theorem Feed_conserves:
  assumes "Feed data s = Some (s', out, err)" "int (length (buf s) + length data) \<le> MaxMessageSize"
  shows "concat out @ buf s' = buf s @ data"
  using assms Feed_loop_sound [of "buf s @ data" "[]"] by (auto simp: Feed_def)

theorem Feed_conserves_witness:
  "Feed ''OPT'' \<lparr>buf = ''S''\<rparr> = Some (\<lparr>buf = ''SOPT''\<rparr>, [], None) \<and> concat [] @ ''SOPT'' = ''S'' @ ''OPT''"
proof -
  have "splitOne ''SOPT'' = Inr None" by code_simp
  then have f: "Feed ''OPT'' \<lparr>buf = ''S''\<rparr> = Some (\<lparr>buf = ''SOPT''\<rparr>, [], None)"
    by (simp add: Feed_def Feed_loop.simps MaxMessageSize_def)
  then show ?thesis using Feed_conserves [OF f] by (simp add: MaxMessageSize_def)
qed

text \<open>
  C37 (termination): \<open>Feed\<close> returns, without a panic, unless some suffix of the buffered bytes declares a
  negative Content-Length.
\<close>

theorem Feed_returns:
  assumes "\<forall>k. \<not> negative_length (drop k (buf s @ data))"
  shows "\<exists>s' out err. Feed data s = Some (s', out, err) \<and> err \<noteq> Some GoPanic"
  using Feed_loop_returns [OF assms, of "[]"] by (auto simp: Feed_def)

theorem Feed_returns_witness: "\<exists>s' out err. Feed ''OPT'' \<lparr>buf = []\<rparr> = Some (s', out, err) \<and> err \<noteq> Some GoPanic"
proof (rule Feed_returns, rule allI)
  fix k
  have "index_blank_line (drop k ''OPT'') = None"
    using index_blank_line_Some [of "drop k ''OPT''"] by (cases "index_blank_line (drop k ''OPT'')") fastforce+
  then show "\<not> negative_length (drop k (buf \<lparr>buf = []\<rparr> @ ''OPT''))"
    by (simp add: negative_length_def)
qed

text \<open>
  C39 (error): a negative Content-Length that cancels the length of the header block makes \<open>Feed\<close> loop
  forever: 23 bytes from a peer keep the connection's reader busy for good.
\<close>

theorem Feed_diverges: "Feed (''Content-Length: -23'' @ CRLF @ CRLF) \<lparr>buf = []\<rparr> = None"
proof -
  let ?d = "''Content-Length: -23'' @ CRLF @ CRLF"
  have "splitOne ?d = Inr (Some ([], ?d))" by code_simp
  then have "Feed_loop ?d [] = None" by (rule Feed_loop_stuck)
  then show ?thesis by (simp add: Feed_def MaxMessageSize_def)
qed

end
