(* ===== verification/GoNet.thy ===== *)
theory GoNet
  imports Prelude GoStrconv
begin

text \<open>
  The part of Go's \<^verbatim>\<open>net\<close> package the transport and the address checks use: \<open>ParseIP\<close> (dotted
  decimal IPv4 and IPv6 with \<^verbatim>\<open>::\<close> and an embedded IPv4 tail, no zone), \<open>To4\<close>, \<open>IP.Equal\<close> and
  \<open>JoinHostPort\<close>. An address is its 16 bytes; an IPv4 address is the mapped \<^verbatim>\<open>::ffff:a.b.c.d\<close>, as
  \<^verbatim>\<open>net.ParseIP\<close> returns it.
\<close>

type_synonym IP = "nat list"

definition v4_prefix :: "nat list" where
  "v4_prefix = replicate 10 0 @ [255, 255]"

definition parse_octet :: "string \<Rightarrow> nat option" where
  "parse_octet s =
     (if s = [] \<or> 3 < length s \<or> \<not> list_all is_digit s \<or> (1 < length s \<and> hd s = CHR ''0'') then None
      else (case parse_digits 10 0 s of Some n \<Rightarrow> if n \<le> 255 then Some n else None | None \<Rightarrow> None))"

definition parse_ipv4_fields :: "string \<Rightarrow> nat list option" where
  "parse_ipv4_fields s = (case map parse_octet (Split s CHR ''.'') of
     [Some a, Some b, Some c, Some d] \<Rightarrow> Some [a, b, c, d]
   | _ \<Rightarrow> None)"

text \<open>One group of an IPv6 address: its value and the rest; more than four digits or none is an error.\<close>

definition parse_group :: "string \<Rightarrow> (nat \<times> string) option" where
  "parse_group s =
     (let ds = takeWhile (\<lambda>c. digit_val 16 c \<noteq> None) s in
      if ds = [] \<or> 4 < length ds then None
      else (case parse_digits 16 0 ds of Some n \<Rightarrow> Some (n, drop (length ds) s) | None \<Rightarrow> None))"

fun parse_ipv6_loop :: "nat \<Rightarrow> string \<Rightarrow> nat list \<Rightarrow> nat option \<Rightarrow> (nat list \<times> nat option) option" where
  "parse_ipv6_loop 0 s bytes ell = (if s = [] then Some (bytes, ell) else None)"
| "parse_ipv6_loop (Suc k) s bytes ell = (case parse_group s of
     None \<Rightarrow> None
   | Some (acc, rest) \<Rightarrow>
       if rest \<noteq> [] \<and> hd rest = CHR ''.'' then
         (if (ell = None \<and> length bytes \<noteq> 12) \<or> 16 < length bytes + 4 then None
          else map_option (\<lambda>b. (bytes @ b, ell)) (parse_ipv4_fields s))
       else
         (let bytes' = bytes @ [acc div 256, acc mod 256] in
          case rest of
            [] \<Rightarrow> Some (bytes', ell)
          | c # r \<Rightarrow>
              if c \<noteq> CHR '':'' \<or> r = [] then None
              else if hd r = CHR '':'' then
                (if ell \<noteq> None then None
                 else if tl r = [] then Some (bytes', Some (length bytes'))
                 else parse_ipv6_loop k (tl r) bytes' (Some (length bytes')))
              else parse_ipv6_loop k r bytes' ell))"

definition expand_ipv6 :: "nat list \<times> nat option \<Rightarrow> IP option" where
  "expand_ipv6 p = (case p of (bytes, ell) \<Rightarrow>
     if length bytes < 16 then
       (case ell of
          None \<Rightarrow> None
        | Some i \<Rightarrow> Some (take i bytes @ replicate (16 - length bytes) 0 @ drop i bytes))
     else if ell \<noteq> None then None
     else Some bytes)"

definition parse_ipv6 :: "string \<Rightarrow> IP option" where
  "parse_ipv6 s =
     (if HasPrefix s ''::'' then
        (if drop 2 s = [] then Some (replicate 16 0)
         else Option.bind (parse_ipv6_loop 8 (drop 2 s) [] (Some 0)) expand_ipv6)
      else Option.bind (parse_ipv6_loop 8 s [] None) expand_ipv6)"

definition ParseIP :: "string \<Rightarrow> IP option" where
  "ParseIP s = (case find (\<lambda>c. c \<in> {CHR ''.'', CHR '':'', CHR ''%''}) s of
     Some c \<Rightarrow>
       if c = CHR ''.'' then map_option (\<lambda>b. v4_prefix @ b) (parse_ipv4_fields s)
       else if c = CHR '':'' \<and> CHR ''%'' \<notin> set s then parse_ipv6 s
       else None
   | None \<Rightarrow> None)"

definition To4 :: "IP \<Rightarrow> nat list option" where
  "To4 ip = (if length ip = 4 then Some ip
     else if length ip = 16 \<and> take 12 ip = v4_prefix then Some (drop 12 ip) else None)"

definition IP_Equal :: "IP \<Rightarrow> IP \<Rightarrow> bool" where
  "IP_Equal a b \<longleftrightarrow> (case (To4 a, To4 b) of (Some x, Some y) \<Rightarrow> x = y | (None, None) \<Rightarrow> a = b | _ \<Rightarrow> False)"

definition IsUnspecified :: "IP \<Rightarrow> bool" where
  "IsUnspecified ip \<longleftrightarrow> IP_Equal ip (v4_prefix @ [0, 0, 0, 0]) \<or> ip = replicate 16 0"

definition JoinHostPort :: "string \<Rightarrow> string \<Rightarrow> string" where
  "JoinHostPort host port =
     (if CHR '':'' \<in> set host then ''['' @ host @ '']:'' @ port else host @ '':'' @ port)"

lemma IP_Equal_sym: "IP_Equal a b \<Longrightarrow> IP_Equal b a"
  by (auto simp: IP_Equal_def split: option.splits)

lemma IP_Equal_refl [simp]: "IP_Equal a a"
  by (auto simp: IP_Equal_def split: option.splits)

lemma IP_Equal_trans: "IP_Equal a b \<Longrightarrow> IP_Equal b c \<Longrightarrow> IP_Equal a c"
  by (auto simp: IP_Equal_def split: option.splits)

end
