(* ===== verification/Transport.thy ===== *)
theory Transport
  imports Splitter GoNet
begin

text \<open>
  \<^verbatim>\<open>transport.go\<close> and the counters of \<^verbatim>\<open>logging.go\<close>. The operating system is the record \<open>OS\<close>: what a
  name lookup, a dial or a write answers is a parameter of every call that reaches the network, so it may
  differ from call to call. A socket that is \<^verbatim>\<open>nil\<close> is \<open>None\<close> or \<open>False\<close>; \<open>tp_wire\<close> records the
  messages handed to the sockets. Times are nanoseconds. Every operation runs under the transport's
  mutex or is sequential, so each is one function on the state; overlapping dials (\<^verbatim>\<open>inflight\<close>) are in
  \<open>Dialing\<close>, the opening of the sockets and the reading loops in \<open>TransportOpen\<close>.
\<close>

section \<open>Counters (logging.go)\<close>

text \<open>The calls of the optional callback are recorded in \<open>mt_events\<close>.\<close>

record Metrics =
  counters :: "string \<rightharpoonup> 64 word"
  mt_OnEvent :: bool
  mt_events :: "(string \<times> 64 word) list"

definition NewMetrics :: Metrics where
  "NewMetrics = \<lparr>counters = Map.empty, mt_OnEvent = False, mt_events = []\<rparr>"

definition Metrics_Get :: "string \<Rightarrow> Metrics \<Rightarrow> 64 word" where
  "Metrics_Get name m = (case counters m name of Some v \<Rightarrow> v | None \<Rightarrow> 0)"

definition Metrics_Inc :: "string \<Rightarrow> Metrics \<Rightarrow> Metrics" where
  "Metrics_Inc name m = (let v = Metrics_Get name m + 1 in
     m\<lparr>counters := (counters m)(name \<mapsto> v), mt_events := (if mt_OnEvent m then mt_events m @ [(name, v)] else mt_events m)\<rparr>)"

definition Metrics_Snapshot :: "Metrics \<Rightarrow> (string \<rightharpoonup> 64 word)" where
  "Metrics_Snapshot m = counters m"

text \<open>A counter is the number of its events, modulo the width of the counter; a snapshot has exactly the counters that
  were ever increased.\<close>

lemma Metrics_count: "Metrics_Get n (fold Metrics_Inc ns m) = Metrics_Get n m + of_nat (count_list ns n)"
  by (induction ns arbitrary: m) (simp_all add: Metrics_Inc_def Metrics_Get_def Let_def)

lemma Metrics_Snapshot_dom: "dom (Metrics_Snapshot (fold Metrics_Inc ns NewMetrics)) = set ns"
proof -
  have "dom (counters (fold Metrics_Inc ns m)) = dom (counters m) \<union> set ns" for m
    by (induction ns arbitrary: m) (auto simp: Metrics_Inc_def Let_def split: if_splits)
  then show ?thesis by (simp add: Metrics_Snapshot_def NewMetrics_def)
qed

section \<open>Addresses, connections, the transport\<close>

record Addr =
  Network :: string
  AHost :: string
  APort :: int

definition Addr_String :: "Addr \<Rightarrow> string" where
  "Addr_String a = Network a @ '':'' @ JoinHostPort (AHost a) (Itoa (APort a))"

record Packet =
  Msg :: Message
  Src :: Addr

text \<open>A stream connection: whether it is TLS, and the host and port of its remote end.\<close>

record Conn =
  c_tls :: bool
  c_host :: string
  c_port :: int

record OS =
  os_LookupIP :: "string \<Rightarrow> IP list option"
  os_udp_write :: "IP \<Rightarrow> int \<Rightarrow> string \<Rightarrow> error option"
  os_dial :: "string \<Rightarrow> Addr \<Rightarrow> Conn result"
  os_write :: "Conn \<Rightarrow> string \<Rightarrow> error option"

record Transport =
  tp_udp :: "IP option"
  tp_tcpListener :: bool
  tp_tlsListener :: bool
  tp_tlsCfg :: bool
  tp_DropHook :: "(Message \<Rightarrow> Addr \<Rightarrow> bool) option"
  tp_TCPIdleTimeout :: int
  tp_MaxTCPConns :: int
  tp_conns :: "(string \<times> Conn) list"
  tp_lastUse :: "(string \<times> int) list"
  tp_packets :: "Packet list"
  tp_done :: bool
  tp_wire :: "(string \<times> Addr \<times> Message) list"

definition defaultIdleTimeout :: int where "defaultIdleTimeout = 5 * 60 * 1000000000"
definition defaultMaxTCPConns :: int where "defaultMaxTCPConns = 1024"
definition packetsCap :: nat where "packetsCap = 256"

definition new_transport :: "IP option \<Rightarrow> bool \<Rightarrow> bool \<Rightarrow> Transport" where
  "new_transport udp tcp tls =
     \<lparr>tp_udp = udp, tp_tcpListener = tcp, tp_tlsListener = tls, tp_tlsCfg = tls, tp_DropHook = None,
      tp_TCPIdleTimeout = 0, tp_MaxTCPConns = 0, tp_conns = [], tp_lastUse = [], tp_packets = [],
      tp_done = False, tp_wire = []\<rparr>"

definition idleTimeout :: "Transport \<Rightarrow> int" where
  "idleTimeout t = (if 0 < tp_TCPIdleTimeout t then tp_TCPIdleTimeout t else defaultIdleTimeout)"

definition maxTCPConns :: "Transport \<Rightarrow> int" where
  "maxTCPConns t = (if 0 < tp_MaxTCPConns t then tp_MaxTCPConns t else defaultMaxTCPConns)"

definition connKey :: "Conn \<Rightarrow> string" where
  "connKey c = Addr_String \<lparr>Network = (if c_tls c then ''tls'' else ''tcp''), AHost = c_host c, APort = c_port c\<rparr>"

text \<open>A Go map as an association list with distinct keys.\<close>

definition map_put :: "string \<Rightarrow> 'v \<Rightarrow> (string \<times> 'v) list \<Rightarrow> (string \<times> 'v) list" where
  "map_put k v m = (k, v) # filter (\<lambda>p. fst p \<noteq> k) m"

definition map_delete :: "string \<Rightarrow> (string \<times> 'v) list \<Rightarrow> (string \<times> 'v) list" where
  "map_delete k m = filter (\<lambda>p. fst p \<noteq> k) m"

section \<open>The connection table\<close>

definition touchConn :: "int \<Rightarrow> string \<Rightarrow> Transport \<Rightarrow> Transport" where
  "touchConn now key t = t\<lparr>tp_lastUse := map_put key now (tp_lastUse t)\<rparr>"

definition dropConn :: "string \<Rightarrow> Transport \<Rightarrow> Transport" where
  "dropConn key t = (case map_of (tp_conns t) key of
     None \<Rightarrow> t
   | Some c \<Rightarrow> t\<lparr>tp_conns := map_delete key (tp_conns t), tp_lastUse := map_delete key (tp_lastUse t)\<rparr>)"

text \<open>One tick of the janitor: every connection idle for longer than the timeout is closed and forgotten.\<close>

definition idle_keys :: "int \<Rightarrow> Transport \<Rightarrow> string list" where
  "idle_keys now t = map fst (filter (\<lambda>(k, last). idleTimeout t < now - last) (tp_lastUse t))"

definition janitor_tick :: "int \<Rightarrow> Transport \<Rightarrow> Transport" where
  "janitor_tick now t =
     t\<lparr>tp_conns := filter (\<lambda>(k, c). k \<notin> set (idle_keys now t)) (tp_conns t),
       tp_lastUse := filter (\<lambda>(k, l). k \<notin> set (idle_keys now t)) (tp_lastUse t)\<rparr>"

text \<open>The start of \<^verbatim>\<open>readTCP\<close>: the connection is registered under its remote address.\<close>

definition registerConn :: "int \<Rightarrow> Conn \<Rightarrow> Transport \<Rightarrow> Transport" where
  "registerConn now c t =
     t\<lparr>tp_conns := map_put (connKey c) c (tp_conns t), tp_lastUse := map_put (connKey c) now (tp_lastUse t)\<rparr>"

text \<open>The body of \<^verbatim>\<open>acceptStream\<close> for an accepted connection: \<open>False\<close> if it was refused.\<close>

definition acceptConn :: "int \<Rightarrow> Conn \<Rightarrow> Transport \<Rightarrow> Transport \<times> bool" where
  "acceptConn now c t =
     (if maxTCPConns t < int (length (tp_conns t)) then (t, False) else (registerConn now c t, True))"

definition dial :: "OS \<Rightarrow> string \<Rightarrow> Addr \<Rightarrow> Transport \<Rightarrow> Conn result" where
  "dial os network dst t =
     (if network = ''tls'' \<and> \<not> tp_tlsCfg t then Inl GoPanic else os_dial os network dst)"

definition getStreamConn :: "OS \<Rightarrow> int \<Rightarrow> string \<Rightarrow> Addr \<Rightarrow> Transport \<Rightarrow> Transport \<times> Conn result" where
  "getStreamConn os now network dst t =
     (let key = Addr_String dst in
      case map_of (tp_conns t) key of
        Some c \<Rightarrow> (t, Inr c)
      | None \<Rightarrow>
          if maxTCPConns t \<le> int (length (tp_conns t)) then (t, Inl ErrTransportClosed)
          else (case dial os network dst t of
            Inl e \<Rightarrow> (t, Inl e)
          | Inr c \<Rightarrow>
              (registerConn now c
                 (t\<lparr>tp_conns := map_put key c (tp_conns t), tp_lastUse := map_put key now (tp_lastUse t)\<rparr>), Inr c)))"

section \<open>Sending\<close>

definition pickAddrFamily :: "IP option \<Rightarrow> IP option \<Rightarrow> IP option" where
  "pickAddrFamily local ip0 = (case (local, ip0) of
     (Some l, Some ip) \<Rightarrow>
       (let wants4 = (To4 l \<noteq> None) in
        if (wants4 \<and> To4 ip \<noteq> None) \<or> (\<not> wants4 \<and> To4 ip = None) then Some ip
        else if \<not> wants4 \<and> To4 ip \<noteq> None \<and> IsUnspecified l then To4 ip
        else None)
   | _ \<Rightarrow> ip0)"

text \<open>The address a datagram is written to; \<open>None\<close> for the destination is a nil IP, which the kernel
  takes as the local host (the unspecified address).\<close>

definition udp_target :: "OS \<Rightarrow> IP \<Rightarrow> string \<Rightarrow> IP option result" where
  "udp_target os local host = (case pickAddrFamily (Some local) (ParseIP host) of
     Some ip \<Rightarrow> Inr (Some ip)
   | None \<Rightarrow> (case os_LookupIP os host of
       Some (ip # _) \<Rightarrow> Inr (pickAddrFamily (Some local) (Some ip))
     | _ \<Rightarrow> Inl ErrOther))"

definition record_wire :: "string \<Rightarrow> Addr \<Rightarrow> Message \<Rightarrow> Transport \<Rightarrow> Transport" where
  "record_wire network dst msg t = t\<lparr>tp_wire := tp_wire t @ [(network, dst, msg)]\<rparr>"

definition err_result :: "error option \<Rightarrow> unit result" where
  "err_result e = (case e of None \<Rightarrow> Inr () | Some x \<Rightarrow> Inl x)"

definition Transport_Send :: "OS \<Rightarrow> int \<Rightarrow> string \<Rightarrow> Addr \<Rightarrow> Message \<Rightarrow> Transport \<Rightarrow> Transport \<times> unit result" where
  "Transport_Send os now network dst msg t =
     (let data = render msg; net = ToLower network in
      if net = ''udp'' then
        (case tp_udp t of
           None \<Rightarrow> (t, Inl ErrTransportClosed)
         | Some local \<Rightarrow>
             if (case tp_DropHook t of None \<Rightarrow> False | Some hook \<Rightarrow> hook msg dst) then (t, Inr ())
             else (case udp_target os local (AHost dst) of
               Inl e \<Rightarrow> (t, Inl e)
             | Inr ip \<Rightarrow>
                 (record_wire net dst msg t,
                  err_result (os_udp_write os (case ip of Some i \<Rightarrow> i | None \<Rightarrow> []) (APort dst) data))))
      else if net = ''tcp'' \<or> net = ''tls'' then
        (case getStreamConn os now network dst t of
           (t', Inl e) \<Rightarrow> (t', Inl e)
         | (t', Inr c) \<Rightarrow>
             (record_wire net dst msg (touchConn now (connKey c) t'), err_result (os_write os c data)))
      else (t, Inl ErrOther))"

definition TransportFor :: "Uri \<Rightarrow> string \<times> string \<times> int" where
  "TransportFor uri =
     (let network0 = (if Uri_IsEncrypted (Some uri) then ''tls'' else ''udp'');
          tp = Params_Get (UParams uri) ''transport'';
          network = (if snd tp \<and> ToLower (fst tp) \<in> {''tcp'', ''tls'', ''udp''} then ToLower (fst tp) else network0)
      in (network, Host uri, Uri_EffectivePort (Some uri)))"

section \<open>Receiving\<close>

text \<open>\<^verbatim>\<open>dispatch\<close>: an unparsable message is dropped; a parsed one is queued, unless the transport is
  closed (the call blocks while the queue is full).\<close>

definition dispatch :: "string \<Rightarrow> Addr \<Rightarrow> Transport \<Rightarrow> Transport \<times> bool" where
  "dispatch raw src t = (case ParseMessage raw of
     Inl _ \<Rightarrow> (t, True)
   | Inr m \<Rightarrow> if tp_done t then (t, False) else (t\<lparr>tp_packets := tp_packets t @ [\<lparr>Msg = m, Src = src\<rparr>]\<rparr>, True))"

fun dispatch_all :: "string list \<Rightarrow> Addr \<Rightarrow> Transport \<Rightarrow> Transport \<times> bool" where
  "dispatch_all [] src t = (t, True)"
| "dispatch_all (raw # raws) src t = (case dispatch raw src t of
     (t', True) \<Rightarrow> dispatch_all raws src t'
   | (t', False) \<Rightarrow> (t', False))"

text \<open>One read of \<^verbatim>\<open>readTCP\<close>: \<open>False\<close> if the connection is given up; \<open>None\<close> if the splitter never
  returns.\<close>

definition readTCP_step :: "string \<Rightarrow> Addr \<Rightarrow> StreamSplitter \<Rightarrow> Transport \<Rightarrow> (StreamSplitter \<times> Transport \<times> bool) option" where
  "readTCP_step data src sp t = (case Feed data sp of
     None \<Rightarrow> None
   | Some (sp', msgs, Some e) \<Rightarrow> Some (sp', t, False)
   | Some (sp', msgs, None) \<Rightarrow> (case dispatch_all msgs src t of (t', ok) \<Rightarrow> Some (sp', t', ok)))"

definition Transport_Close :: "Transport \<Rightarrow> Transport" where
  "Transport_Close t = (if tp_done t then t else t\<lparr>tp_done := True, tp_conns := []\<rparr>)"

end
