(* ===== verification/TransportCorrect.thy ===== *)
theory TransportCorrect
  imports Transport
begin

text \<open>
  The transport as a state machine: the connection table stays within its bound and every connection in it
  is watched by the janitor; the janitor closes exactly the idle connections; a TCP stream delivers its
  messages in order. Two defects: a connection dialled by host name is closed while in use, and sending
  over TLS without a TLS configuration panics.
\<close>

section \<open>Association lists as maps\<close>

lemma map_of_filter_key: "map_of (filter (\<lambda>p. fst p \<noteq> k) m) l = (if l = k then None else map_of m l)"
  by (induction m) auto

lemma map_of_put [simp]: "map_of (map_put k v m) l = (if l = k then Some v else map_of m l)"
  by (simp add: map_put_def map_of_filter_key)

lemma map_of_delete [simp]: "map_of (map_delete k m) l = (if l = k then None else map_of m l)"
  by (simp add: map_delete_def map_of_filter_key)

lemma length_put: "length (map_put k v m) \<le> Suc (length m)"
  by (simp add: map_put_def)

lemma length_delete: "length (map_delete k m) \<le> length m"
  by (simp add: map_delete_def)

lemma keys_put [simp]: "fst ` set (map_put k v m) = insert k (fst ` set m)"
  by (auto simp: map_put_def image_iff)

lemma keys_delete [simp]: "fst ` set (map_delete k m) = fst ` set m - {k}"
  by (auto simp: map_delete_def image_iff)

lemma distinct_put: "distinct (map fst m) \<Longrightarrow> distinct (map fst (map_put k v m))"
  by (auto simp: map_put_def distinct_map_filter)

lemma distinct_delete: "distinct (map fst m) \<Longrightarrow> distinct (map fst (map_delete k m))"
  by (simp add: map_delete_def distinct_map_filter)

section \<open>The invariant\<close>

definition tp_inv :: "Transport \<Rightarrow> bool" where
  "tp_inv t \<longleftrightarrow> distinct (map fst (tp_conns t)) \<and> distinct (map fst (tp_lastUse t)) \<and>
     fst ` set (tp_conns t) \<subseteq> fst ` set (tp_lastUse t) \<and> int (length (tp_conns t)) \<le> maxTCPConns t + 1"

inductive tp_step :: "Transport \<Rightarrow> Transport \<Rightarrow> bool" where
  send: "Transport_Send os now network dst msg t = (t', r) \<Longrightarrow> tp_step t t'"
| accept: "acceptConn now c t = (t', ok) \<Longrightarrow> tp_step t t'"
| drop: "tp_step t (dropConn key t)"
| janitor: "tp_step t (janitor_tick now t)"
| read: "readTCP_step data src sp t = Some (sp', t', ok) \<Longrightarrow> tp_step t t'"
| datagram: "dispatch raw src t = (t', ok) \<Longrightarrow> tp_step t t'"
| take_packet: "tp_packets t = p # ps \<Longrightarrow> tp_step t (t\<lparr>tp_packets := ps\<rparr>)"
| close: "tp_step t (Transport_Close t)"

definition tp_init :: "Transport \<Rightarrow> bool" where
  "tp_init t \<longleftrightarrow> (\<exists>udp tcp tls. t = new_transport udp tcp tls)"

lemma maxTCPConns_frame [simp]:
  "maxTCPConns (t\<lparr>tp_conns := x\<rparr>) = maxTCPConns t" "maxTCPConns (t\<lparr>tp_lastUse := y\<rparr>) = maxTCPConns t"
  "maxTCPConns (t\<lparr>tp_wire := w\<rparr>) = maxTCPConns t" "maxTCPConns (t\<lparr>tp_packets := p\<rparr>) = maxTCPConns t"
  "maxTCPConns (t\<lparr>tp_done := d\<rparr>) = maxTCPConns t"
  by (simp_all add: maxTCPConns_def)

lemma maxTCPConns_cong: "tp_MaxTCPConns t' = tp_MaxTCPConns t \<Longrightarrow> maxTCPConns t' = maxTCPConns t"
  by (simp add: maxTCPConns_def)

lemma tp_inv_frame:
  "tp_inv t \<Longrightarrow> tp_conns t' = tp_conns t \<Longrightarrow> tp_lastUse t' = tp_lastUse t \<Longrightarrow> tp_MaxTCPConns t' = tp_MaxTCPConns t \<Longrightarrow> tp_inv t'"
  using maxTCPConns_cong [of t' t] by (simp add: tp_inv_def)

lemma register_inv:
  assumes "distinct (map fst (tp_conns t))" "distinct (map fst (tp_lastUse t))"
    "fst ` set (tp_conns t) \<subseteq> fst ` set (tp_lastUse t)" "int (length (tp_conns t)) \<le> maxTCPConns t"
  shows "tp_inv (registerConn now c t)"
proof -
  have "maxTCPConns (registerConn now c t) = maxTCPConns t" by (simp add: registerConn_def)
  moreover have "int (length (map_put (connKey c) c (tp_conns t))) \<le> maxTCPConns t + 1"
    using length_put [of "connKey c" c "tp_conns t"] assms(4) by simp
  ultimately show ?thesis
    using assms by (auto simp: tp_inv_def distinct_put registerConn_def)
qed

lemma getStreamConn_inv:
  assumes "tp_inv t" "getStreamConn os now network dst t = (t', r)"
  shows "tp_inv t' \<and> tp_MaxTCPConns t' = tp_MaxTCPConns t"
proof (cases "map_of (tp_conns t) (Addr_String dst) \<noteq> None \<or> maxTCPConns t \<le> int (length (tp_conns t)) \<or>
    (\<exists>e. dial os network dst t = Inl e)")
  case True
  then have "t' = t" using assms(2) by (auto simp: getStreamConn_def Let_def split: option.splits if_splits)
  then show ?thesis using assms(1) by simp
next
  case False
  then obtain c where c: "dial os network dst t = Inr c" by (cases "dial os network dst t") auto
  let ?k = "Addr_String dst"
  let ?t = "t\<lparr>tp_conns := map_put ?k c (tp_conns t), tp_lastUse := map_put ?k now (tp_lastUse t)\<rparr>"
  have t': "t' = registerConn now c ?t" using False c assms(2) by (simp add: getStreamConn_def Let_def)
  have "int (length (map_put ?k c (tp_conns t))) \<le> maxTCPConns t"
    using False length_put [of ?k c "tp_conns t"] by simp
  then have "tp_inv (registerConn now c ?t)"
    using assms(1) by (intro register_inv) (auto simp: tp_inv_def distinct_put)
  then show ?thesis using t' by (simp add: registerConn_def)
qed

lemma touch_inv: "tp_inv t \<Longrightarrow> tp_inv (touchConn now k t)"
  by (auto simp: tp_inv_def touchConn_def distinct_put)

lemma wire_inv: "tp_inv t \<Longrightarrow> tp_inv (record_wire n d m t)"
  by (simp add: tp_inv_def record_wire_def)

lemma send_inv:
  assumes "tp_inv t" "Transport_Send os now network dst msg t = (t', r)"
  shows "tp_inv t'"
proof -
  obtain t1 c where g: "getStreamConn os now network dst t = (t1, c)" by fastforce
  have "tp_inv t1" using getStreamConn_inv [OF assms(1) g] by simp
  then show ?thesis
    using assms g by (auto simp: Transport_Send_def Let_def split: if_splits option.splits sum.splits intro: wire_inv touch_inv)
qed

lemma distinct_map_fst_filter: "distinct (map fst xs) \<Longrightarrow> distinct (map fst (filter P xs))"
  by (rule distinct_map_filter)

lemma filter_keys_subset:
  "fst ` set xs \<subseteq> fst ` set ys \<Longrightarrow> fst ` set (filter (\<lambda>(k, v). k \<notin> D) xs) \<subseteq> fst ` set (filter (\<lambda>(k, v). k \<notin> D) ys)"
  by (force simp: image_iff)

lemma janitor_inv:
  assumes "tp_inv t"
  shows "tp_inv (janitor_tick now t)"
proof -
  have "length (filter P (tp_conns t)) \<le> length (tp_conns t)" for P by (rule length_filter_le)
  then have "int (length (filter P (tp_conns t))) \<le> maxTCPConns t + 1" for P
    using assms by (meson of_nat_mono order_trans tp_inv_def)
  then show ?thesis
    using assms filter_keys_subset [of "tp_conns t" "tp_lastUse t" "set (idle_keys now t)"]
    by (simp add: tp_inv_def janitor_tick_def distinct_map_fst_filter)
qed

lemma drop_inv: "tp_inv t \<Longrightarrow> tp_inv (dropConn k t)"
  using length_delete [of k "tp_conns t"]
  by (auto simp: tp_inv_def dropConn_def distinct_delete split: option.split)

lemma accept_inv: "tp_inv t \<Longrightarrow> acceptConn now c t = (t', ok) \<Longrightarrow> tp_inv t'"
  using register_inv [of t now c] by (auto simp: acceptConn_def tp_inv_def split: if_splits)

lemma dispatch_frame:
  "dispatch raw src t = (t', ok) \<Longrightarrow> tp_conns t' = tp_conns t \<and> tp_lastUse t' = tp_lastUse t \<and> tp_MaxTCPConns t' = tp_MaxTCPConns t"
  by (auto simp: dispatch_def split: sum.splits if_splits)

lemma dispatch_all_frame:
  "dispatch_all raws src t = (t', ok) \<Longrightarrow> tp_conns t' = tp_conns t \<and> tp_lastUse t' = tp_lastUse t \<and> tp_MaxTCPConns t' = tp_MaxTCPConns t"
proof (induction raws src t rule: dispatch_all.induct)
  case (2 raw raws src t)
  obtain t1 ok1 where "dispatch raw src t = (t1, ok1)" by fastforce
  then show ?case using 2 dispatch_frame [of raw src t t1 ok1] by (cases ok1) auto
qed simp

lemma close_inv: "tp_inv t \<Longrightarrow> tp_inv (Transport_Close t)"
  by (auto simp: tp_inv_def Transport_Close_def)

interpretation tp_system: step_system tp_init tp_step tp_inv
proof
  show "tp_inv t" if "tp_init t" for t
    using that by (auto simp: tp_init_def tp_inv_def new_transport_def maxTCPConns_def defaultMaxTCPConns_def)
  show "tp_inv t'" if "tp_inv t" "tp_step t t'" for t t'
    using that(2,1)
  proof (induction rule: tp_step.induct)
    case (read data src sp t sp' t' ok)
    then show ?case
      using dispatch_all_frame by (auto simp: readTCP_step_def split: option.splits prod.splits intro: tp_inv_frame)
  next
    case (datagram raw src t t' ok)
    then show ?case using dispatch_frame tp_inv_frame by blast
  next
    case (take_packet t p ps)
    then show ?case by (simp add: tp_inv_def)
  qed (auto intro: send_inv accept_inv drop_inv janitor_inv close_inv)
qed

section \<open>The janitor\<close>

lemma map_of_filter_keys: "map_of (filter (\<lambda>(k, v). k \<notin> D) xs) k = (if k \<in> D then None else map_of xs k)"
  by (induction xs) auto

lemma idle_keys_iff:
  assumes "distinct (map fst (tp_lastUse t))" "map_of (tp_lastUse t) k = Some l"
  shows "k \<in> set (idle_keys now t) \<longleftrightarrow> idleTimeout t < now - l"
proof -
  have "(k, l') \<in> set (tp_lastUse t) \<longleftrightarrow> l' = l" for l'
    using assms by (metis map_of_SomeD map_of_is_SomeI option.inject)
  then show ?thesis by (force simp: idle_keys_def image_iff)
qed

lemma janitor_conns:
  "map_of (tp_conns (janitor_tick now t)) k = (if k \<in> set (idle_keys now t) then None else map_of (tp_conns t) k)"
  by (simp add: janitor_tick_def map_of_filter_keys)

section \<open>Reading a stream\<close>

text \<open>The loop of \<^verbatim>\<open>readTCP\<close> over the reads of one connection.\<close>

fun readTCP_all :: "string list \<Rightarrow> Addr \<Rightarrow> StreamSplitter \<Rightarrow> Transport \<Rightarrow> (StreamSplitter \<times> Transport \<times> bool) option" where
  "readTCP_all [] src sp t = Some (sp, t, True)"
| "readTCP_all (data # rest) src sp t = (case readTCP_step data src sp t of
     None \<Rightarrow> None
   | Some (sp', t', False) \<Rightarrow> Some (sp', t', False)
   | Some (sp', t', True) \<Rightarrow> readTCP_all rest src sp' t')"

lemma dispatch_all_parsed:
  assumes "\<not> tp_done t" "map ParseMessage raws = map Inr ms"
  shows "dispatch_all raws src t =
    (t\<lparr>tp_packets := tp_packets t @ map (\<lambda>m. \<lparr>Msg = m, Src = src\<rparr>) ms\<rparr>, True)"
  using assms
proof (induction raws arbitrary: t ms)
  case (Cons raw raws)
  then obtain m ms' where "ms = m # ms'" "ParseMessage raw = Inr m" "map ParseMessage raws = map Inr ms'"
    by (cases ms) auto
  then show ?case
    using Cons.IH [of "t\<lparr>tp_packets := tp_packets t @ [\<lparr>Msg = m, Src = src\<rparr>]\<rparr>" ms'] Cons.prems(1)
    by (simp add: dispatch_def)
qed simp

lemma readTCP_all_Feed:
  assumes "Feed_all cs sp = Some (sp', raws, None)" "map ParseMessage raws = map Inr ms" "\<not> tp_done t"
  shows "readTCP_all cs src sp t =
    Some (sp', t\<lparr>tp_packets := tp_packets t @ map (\<lambda>m. \<lparr>Msg = m, Src = src\<rparr>) ms\<rparr>, True)"
  using assms
proof (induction cs arbitrary: sp raws ms t)
  case (Cons c cs)
  obtain sp1 out1 where f: "Feed c sp = Some (sp1, out1, None)"
    using Cons.prems(1) by (auto split: option.splits)
  then obtain out2 where f2: "Feed_all cs sp1 = Some (sp', out2, None)" "raws = out1 @ out2"
    using Cons.prems(1) by auto
  define ms1 where "ms1 = take (length out1) ms"
  define ms2 where "ms2 = drop (length out1) ms"
  have "length ms = length out1 + length out2" using Cons.prems(2) f2(2) by (metis length_append length_map)
  then have ms: "ms = ms1 @ ms2" "map ParseMessage out1 = map Inr ms1" "map ParseMessage out2 = map Inr ms2"
    using Cons.prems(2) f2(2) by (auto simp: ms1_def ms2_def append_eq_conv_conj take_map drop_map)
  have "readTCP_step c src sp t = Some (sp1, t\<lparr>tp_packets := tp_packets t @ map (\<lambda>m. \<lparr>Msg = m, Src = src\<rparr>) ms1\<rparr>, True)"
    using f dispatch_all_parsed [OF Cons.prems(3) ms(2)] by (simp add: readTCP_step_def)
  then show ?case using Cons.IH [OF f2(1) ms(3)] Cons.prems(3) ms(1) by simp
qed simp

lemma stream_delivered:
  assumes "wf_stream ms" "concat cs = concat (map render ms)" "cs \<noteq> []" "\<not> tp_done t"
  shows "readTCP_all cs src \<lparr>buf = []\<rparr> t =
    Some (\<lparr>buf = []\<rparr>, t\<lparr>tp_packets := tp_packets t @ map (\<lambda>m. \<lparr>Msg = m, Src = src\<rparr>) ms\<rparr>, True)"
proof -
  have ms: "list_all (\<lambda>m. wf_message m \<and> with_length m = m \<and> stream_start m) ms"
    "int (length (concat (map render ms))) \<le> MaxMessageSize"
    using assms(1) by (simp_all add: wf_stream_def)
  have "Feed_all cs \<lparr>buf = []\<rparr> = Some (\<lparr>buf = []\<rparr>, map render ms, None)"
    using Feed_all_frames [of "\<lparr>buf = []\<rparr>" cs "map render ms" "[]"] frames_render [OF ms(1)] ms(2) assms(2,3) by simp
  moreover have "map ParseMessage (map render ms) = map Inr ms"
    using ms(1) by (induction ms) (auto simp: message_codec.dec_enc)
  ultimately show ?thesis using readTCP_all_Feed assms(4) by blast
qed

section \<open>Properties\<close>



text \<open>A tick of the janitor closes exactly the connections whose last recorded use is longer
  ago than the idle timeout, and leaves every other connection as it is.\<close>

theorem janitor_exact:
  assumes "tp_inv t" "map_of (tp_lastUse t) k = Some l"
  shows "map_of (tp_conns (janitor_tick now t)) k = (if idleTimeout t < now - l then None else map_of (tp_conns t) k)"
  using idle_keys_iff [OF _ assms(2)] assms(1) by (simp add: janitor_conns tp_inv_def)

theorem janitor_exact_witness:
  "let t = registerConn 0 \<lparr>c_tls = False, c_host = ''h'', c_port = 1\<rparr> (new_transport None True False);
       k = connKey \<lparr>c_tls = False, c_host = ''h'', c_port = 1\<rparr>
   in map_of (tp_conns (janitor_tick 400000000000 t)) k = None \<and> map_of (tp_conns (janitor_tick 5 t)) k \<noteq> None"
proof -
  let ?c = "\<lparr>c_tls = False, c_host = ''h'', c_port = 1\<rparr>"
  let ?t = "registerConn 0 ?c (new_transport None True False)"
  have "tp_inv ?t" by (rule register_inv) (simp_all add: new_transport_def maxTCPConns_def defaultMaxTCPConns_def)
  moreover have "map_of (tp_lastUse ?t) (connKey ?c) = Some 0" by (simp add: registerConn_def)
  moreover have "idleTimeout ?t = 300000000000" by (simp add: registerConn_def new_transport_def idleTimeout_def defaultIdleTimeout_def)
  moreover have "map_of (tp_conns ?t) (connKey ?c) = Some ?c" by (simp add: registerConn_def)
  ultimately show ?thesis
    using janitor_exact [of ?t "connKey ?c" 0 400000000000] janitor_exact [of ?t "connKey ?c" 0 5] by (simp add: Let_def)
qed

text \<open>The messages of a TCP stream reach the packet queue, each once and in the order they were
  sent, however the stream was cut into reads.\<close>

theorem tcp_stream_delivered:
  assumes "wf_stream ms" "concat cs = concat (map render ms)" "cs \<noteq> []" "\<not> tp_done t"
  shows "\<exists>t'. readTCP_all cs src \<lparr>buf = []\<rparr> t = Some (\<lparr>buf = []\<rparr>, t', True) \<and>
    tp_packets t' = tp_packets t @ map (\<lambda>m. \<lparr>Msg = m, Src = src\<rparr>) ms"
  using stream_delivered [OF assms] by simp

theorem tcp_stream_delivered_witness:
  "\<exists>t'. readTCP_all [take 20 (render (Req sample_request)), drop 20 (render (Req sample_request))]
      \<lparr>Network = ''tcp'', AHost = ''h'', APort = 1\<rparr> \<lparr>buf = []\<rparr> (new_transport None True False) =
    Some (\<lparr>buf = []\<rparr>, t', True) \<and>
    tp_packets t' = [\<lparr>Msg = Req sample_request, Src = \<lparr>Network = ''tcp'', AHost = ''h'', APort = 1\<rparr>\<rparr>]"
proof -
  have "wf_stream [Req sample_request]"
    using wf_sample_request sample_request_length sample_length
    by (simp add: wf_stream_def MaxMessageSize_def) (simp add: sample_request_def)
  then show ?thesis
    using tcp_stream_delivered [of "[Req sample_request]" "[take 20 (render (Req sample_request)), drop 20 (render (Req sample_request))]"
      "new_transport None True False" "\<lparr>Network = ''tcp'', AHost = ''h'', APort = 1\<rparr>"]
    by (simp add: new_transport_def del: readTCP_all.simps)
qed

text \<open>A connection dialled under a name that is not its remote address is stored under that
  name, but each use is recorded under the remote address only: once the idle timeout has passed since the
  dial, the janitor closes it even if it was used an instant ago.\<close>

theorem janitor_closes_used_connection:
  assumes "tp_inv t" "map_of (tp_conns t) (Addr_String dst) = Some c" "connKey c \<noteq> Addr_String dst"
    "map_of (tp_lastUse t) (Addr_String dst) = Some l" "idleTimeout t < now - l" "ToLower network = ''tcp''"
  shows "map_of (tp_conns (janitor_tick now (fst (Transport_Send os now network dst msg t)))) (Addr_String dst) = None"
proof -
  let ?t = "fst (Transport_Send os now network dst msg t)"
  have "?t = record_wire ''tcp'' dst msg (touchConn now (connKey c) t)"
    using assms(2,6) by (simp add: Transport_Send_def Let_def getStreamConn_def)
  then have "map_of (tp_lastUse ?t) (Addr_String dst) = Some l" "idleTimeout ?t = idleTimeout t"
    using assms(3,4) by (simp_all add: record_wire_def touchConn_def idleTimeout_def)
  moreover have "tp_inv ?t" using send_inv [OF assms(1)] by (metis prod.collapse)
  ultimately show ?thesis using idle_keys_iff [of ?t "Addr_String dst" l now] assms(5) by (simp add: janitor_conns tp_inv_def)
qed

theorem janitor_closes_used_connection_witness:
  "let c = \<lparr>c_tls = False, c_host = ''i'', c_port = 1\<rparr>; dst = \<lparr>Network = ''tcp'', AHost = ''h'', APort = 1\<rparr>;
       os = \<lparr>os_LookupIP = (\<lambda>_. None), os_udp_write = (\<lambda>_ _ _. None), os_dial = (\<lambda>_ _. Inr c), os_write = (\<lambda>_ _. None)\<rparr>;
       t = fst (getStreamConn os 0 ''tcp'' dst (new_transport None True False))
   in map_of (tp_conns (janitor_tick 400000000000
        (fst (Transport_Send os 400000000000 ''tcp'' dst (Req sample_request) t)))) (Addr_String dst) = None"
proof -
  let ?c = "\<lparr>c_tls = False, c_host = ''i'', c_port = 1\<rparr>" and ?dst = "\<lparr>Network = ''tcp'', AHost = ''h'', APort = 1\<rparr>"
  let ?os = "\<lparr>os_LookupIP = (\<lambda>_. None), os_udp_write = (\<lambda>_ _ _. None), os_dial = (\<lambda>_ _. Inr ?c), os_write = (\<lambda>_ _. None)\<rparr>"
  let ?n = "new_transport None True False"
  let ?t = "fst (getStreamConn ?os 0 ''tcp'' ?dst ?n)"
  have n: "tp_inv ?n" by (simp add: tp_inv_def new_transport_def maxTCPConns_def defaultMaxTCPConns_def)
  have keys: "connKey ?c \<noteq> Addr_String ?dst" by code_simp
  have "getStreamConn ?os 0 ''tcp'' ?dst ?n = (registerConn 0 ?c (?n\<lparr>tp_conns := map_put (Addr_String ?dst) ?c [],
      tp_lastUse := map_put (Addr_String ?dst) 0 []\<rparr>), Inr ?c)"
    by (simp add: getStreamConn_def Let_def dial_def new_transport_def maxTCPConns_def defaultMaxTCPConns_def)
  then have t: "map_of (tp_conns ?t) (Addr_String ?dst) = Some ?c" "map_of (tp_lastUse ?t) (Addr_String ?dst) = Some 0"
      "idleTimeout ?t = 300000000000"
    using keys by (auto simp: registerConn_def new_transport_def idleTimeout_def defaultIdleTimeout_def)
  have "tp_inv ?t" using getStreamConn_inv [OF n prod.collapse [symmetric]] by simp
  moreover have "ToLower ''tcp'' = ''tcp''" by code_simp
  ultimately show ?thesis
    using janitor_closes_used_connection [OF _ t(1) keys t(2)] t(3) by (simp add: Let_def)
qed

text \<open>Sending over TLS from a transport that has no TLS configuration and no connection to the
  destination yet panics.\<close>

theorem send_tls_panics:
  assumes "\<not> tp_tlsCfg t" "map_of (tp_conns t) (Addr_String dst) = None" "int (length (tp_conns t)) < maxTCPConns t"
  shows "snd (Transport_Send os now ''tls'' dst msg t) = Inl GoPanic"
proof -
  have "ToLower ''tls'' = ''tls''" by code_simp
  then show ?thesis using assms by (simp add: Transport_Send_def Let_def getStreamConn_def dial_def)
qed

theorem send_tls_panics_witness:
  "\<forall>os. snd (Transport_Send os 0 ''tls'' \<lparr>Network = ''tls'', AHost = ''h'', APort = 1\<rparr> (Req sample_request) (new_transport None True False))
     = Inl GoPanic"
  by (intro allI send_tls_panics) (simp_all add: new_transport_def maxTCPConns_def defaultMaxTCPConns_def)

end
