(* ===== verification/Dialing.thy ===== *)
theory Dialing
  imports TransportCorrect
begin

text \<open>
  \<^verbatim>\<open>getStreamConn\<close> of \<^verbatim>\<open>transport.go\<close> under concurrency. Each \<^verbatim>\<open>Send\<close> on a stream network is a caller with
  a program counter: it asks for the connection under the mutex (\<open>Ask\<close>), dials without it (\<open>Dialling\<close>), waits
  for another caller's dial (\<open>Waiting\<close>) or has its answer (\<open>Got\<close>). A \<^verbatim>\<open>*dialCall\<close> is an index into
  \<open>ds_calls\<close>; its entry is \<open>None\<close> until \<^verbatim>\<open>wg.Done\<close>. A goroutine \<^verbatim>\<open>readTCP\<close> that was started and has not yet
  registered its connection is an element of \<open>ds_readers\<close>. Shown: callers to one address share one dial,
  every caller is answered, and a caller that runs alone is the sequential \<open>getStreamConn\<close>; two defects of the
  interleavings: the limit on connections is not kept, and a dial that ends after \<^verbatim>\<open>Close\<close> leaves its
  connection open.
\<close>

section \<open>Callers and their dials\<close>

datatype Phase = Ask | Dialling nat | Waiting nat | Got "Conn result"

record Caller =
  cl_network :: string
  cl_dst :: Addr
  cl_phase :: Phase

record Dials =
  ds_tp :: Transport
  ds_inflight :: "(string \<times> nat) list"
  ds_calls :: "Conn result option list"
  ds_callers :: "Caller list"
  ds_readers :: "Conn list"

definition cl_key :: "Caller \<Rightarrow> string" where
  "cl_key c = Addr_String (cl_dst c)"

abbreviation phase :: "Dials \<Rightarrow> nat \<Rightarrow> Phase" where
  "phase s i \<equiv> cl_phase (ds_callers s ! i)"

abbreviation wanted :: "Dials \<Rightarrow> nat \<Rightarrow> string" where
  "wanted s i \<equiv> cl_key (ds_callers s ! i)"

definition set_phase :: "nat \<Rightarrow> Phase \<Rightarrow> Dials \<Rightarrow> Dials" where
  "set_phase i p s = s\<lparr>ds_callers := (ds_callers s)[i := (ds_callers s ! i)\<lparr>cl_phase := p\<rparr>]\<rparr>"

text \<open>The first critical section: the table, the dials in flight, the limit, in this order.\<close>

definition getStreamConn_ask :: "nat \<Rightarrow> Dials \<Rightarrow> Dials" where
  "getStreamConn_ask i s =
     (let key = wanted s i; t = ds_tp s; d = length (ds_calls s) in
      case map_of (tp_conns t) key of
        Some c \<Rightarrow> set_phase i (Got (Inr c)) s
      | None \<Rightarrow> (case map_of (ds_inflight s) key of
          Some w \<Rightarrow> set_phase i (Waiting w) s
        | None \<Rightarrow>
            if maxTCPConns t \<le> int (length (tp_conns t)) then set_phase i (Got (Inl ErrTransportClosed)) s
            else set_phase i (Dialling d)
              (s\<lparr>ds_inflight := map_put key d (ds_inflight s), ds_calls := ds_calls s @ [None]\<rparr>)))"

text \<open>After the dial: the call leaves \<^verbatim>\<open>inflight\<close>, a connection enters the table, the waiters are released
  and a connection gets its reader.\<close>

definition getStreamConn_dialled :: "Conn result \<Rightarrow> int \<Rightarrow> nat \<Rightarrow> nat \<Rightarrow> Dials \<Rightarrow> Dials" where
  "getStreamConn_dialled answer now i d s =
     (let key = wanted s i;
          s1 = s\<lparr>ds_inflight := map_delete key (ds_inflight s), ds_calls := (ds_calls s)[d := Some answer]\<rparr>
      in case answer of
        Inl e \<Rightarrow> set_phase i (Got (Inl e)) s1
      | Inr c \<Rightarrow> set_phase i (Got (Inr c))
          (s1\<lparr>ds_tp := (ds_tp s)\<lparr>tp_conns := map_put key c (tp_conns (ds_tp s)),
                tp_lastUse := map_put key now (tp_lastUse (ds_tp s))\<rparr>,
              ds_readers := ds_readers s @ [c]\<rparr>))"

text \<open>A waiter that was released looks into the table again before it takes the dial's own answer.\<close>

definition getStreamConn_wake :: "nat \<Rightarrow> Conn result \<Rightarrow> Dials \<Rightarrow> Dials" where
  "getStreamConn_wake i answer s = (case map_of (tp_conns (ds_tp s)) (wanted s i) of
     Some c \<Rightarrow> set_phase i (Got (Inr c)) s
   | None \<Rightarrow> set_phase i (Got answer) s)"

text \<open>\<^verbatim>\<open>acceptStream\<close> compares the size of the table and starts a reader.\<close>

definition acceptStream_conn :: "Conn \<Rightarrow> Dials \<Rightarrow> Dials" where
  "acceptStream_conn c s =
     (if maxTCPConns (ds_tp s) < int (length (tp_conns (ds_tp s))) then s else s\<lparr>ds_readers := ds_readers s @ [c]\<rparr>)"

inductive caller_step :: "Dials \<Rightarrow> Dials \<Rightarrow> bool" where
  ask: "i < length (ds_callers s) \<Longrightarrow> phase s i = Ask \<Longrightarrow> caller_step s (getStreamConn_ask i s)"
| dialled: "i < length (ds_callers s) \<Longrightarrow> phase s i = Dialling d \<Longrightarrow>
    dial os (cl_network (ds_callers s ! i)) (cl_dst (ds_callers s ! i)) (ds_tp s) = answer \<Longrightarrow> answer \<noteq> Inl GoPanic \<Longrightarrow>
    caller_step s (getStreamConn_dialled answer now i d s)"
| wake: "i < length (ds_callers s) \<Longrightarrow> phase s i = Waiting d \<Longrightarrow> ds_calls s ! d = Some answer \<Longrightarrow>
    caller_step s (getStreamConn_wake i answer s)"

inductive dial_step :: "Dials \<Rightarrow> Dials \<Rightarrow> bool" where
  call: "dial_step s (s\<lparr>ds_callers := ds_callers s @ [\<lparr>cl_network = network, cl_dst = dst, cl_phase = Ask\<rparr>]\<rparr>)"
| caller: "caller_step s s' \<Longrightarrow> dial_step s s'"
| reader: "ds_readers s = xs @ c # ys \<Longrightarrow>
    dial_step s (s\<lparr>ds_tp := registerConn now c (ds_tp s), ds_readers := xs @ ys\<rparr>)"
| accept: "dial_step s (acceptStream_conn c s)"
| drop: "dial_step s (s\<lparr>ds_tp := dropConn key (ds_tp s)\<rparr>)"
| janitor: "dial_step s (s\<lparr>ds_tp := janitor_tick now (ds_tp s)\<rparr>)"
| close: "dial_step s (s\<lparr>ds_tp := Transport_Close (ds_tp s)\<rparr>)"

definition new_dials :: "Transport \<Rightarrow> Dials" where
  "new_dials t = \<lparr>ds_tp = t, ds_inflight = [], ds_calls = [], ds_callers = [], ds_readers = []\<rparr>"

definition dial_init :: "Dials \<Rightarrow> bool" where
  "dial_init s \<longleftrightarrow> (\<exists>t. tp_init t \<and> s = new_dials t)"

section \<open>The invariant\<close>

text \<open>Some caller is making the call \<open>d\<close>, to the address \<open>k\<close>.\<close>

definition dialling :: "Dials \<Rightarrow> nat \<Rightarrow> string \<Rightarrow> bool" where
  "dialling s d k \<longleftrightarrow> (\<exists>i < length (ds_callers s). phase s i = Dialling d \<and> wanted s i = k)"

definition dial_inv :: "Dials \<Rightarrow> bool" where
  "dial_inv s \<longleftrightarrow>
     (\<forall>k d. map_of (ds_inflight s) k = Some d \<longrightarrow> d < length (ds_calls s) \<and> ds_calls s ! d = None \<and> dialling s d k) \<and>
     (\<forall>i d. i < length (ds_callers s) \<longrightarrow> phase s i = Dialling d \<longrightarrow> map_of (ds_inflight s) (wanted s i) = Some d) \<and>
     (\<forall>i j d. i < length (ds_callers s) \<longrightarrow> j < length (ds_callers s) \<longrightarrow> phase s i = Dialling d \<longrightarrow> phase s j = Dialling d \<longrightarrow> i = j) \<and>
     (\<forall>i d. i < length (ds_callers s) \<longrightarrow> phase s i = Waiting d \<longrightarrow>
        d < length (ds_calls s) \<and> (ds_calls s ! d \<noteq> None \<or> dialling s d (wanted s i)))"

lemma dial_invI:
  assumes "\<And>k d. map_of (ds_inflight s) k = Some d \<Longrightarrow> d < length (ds_calls s) \<and> ds_calls s ! d = None \<and> dialling s d k"
    and "\<And>i d. i < length (ds_callers s) \<Longrightarrow> phase s i = Dialling d \<Longrightarrow> map_of (ds_inflight s) (wanted s i) = Some d"
    and "\<And>i j d. i < length (ds_callers s) \<Longrightarrow> j < length (ds_callers s) \<Longrightarrow> phase s i = Dialling d \<Longrightarrow> phase s j = Dialling d \<Longrightarrow> i = j"
    and "\<And>i d. i < length (ds_callers s) \<Longrightarrow> phase s i = Waiting d \<Longrightarrow>
        d < length (ds_calls s) \<and> (ds_calls s ! d \<noteq> None \<or> dialling s d (wanted s i))"
  shows "dial_inv s"
  using assms unfolding dial_inv_def by blast

lemma dial_invD:
  assumes "dial_inv s"
  shows "map_of (ds_inflight s) k = Some d \<Longrightarrow> d < length (ds_calls s) \<and> ds_calls s ! d = None \<and> dialling s d k"
    and "i < length (ds_callers s) \<Longrightarrow> phase s i = Dialling d \<Longrightarrow> map_of (ds_inflight s) (wanted s i) = Some d"
    and "i < length (ds_callers s) \<Longrightarrow> j < length (ds_callers s) \<Longrightarrow> phase s i = Dialling d \<Longrightarrow> phase s j = Dialling d \<Longrightarrow> i = j"
    and "i < length (ds_callers s) \<Longrightarrow> phase s i = Waiting d \<Longrightarrow>
        d < length (ds_calls s) \<and> (ds_calls s ! d \<noteq> None \<or> dialling s d (wanted s i))"
  using assms unfolding dial_inv_def by blast+

lemma set_phase_frame [simp]:
  "ds_tp (set_phase i p s) = ds_tp s" "ds_inflight (set_phase i p s) = ds_inflight s" "ds_calls (set_phase i p s) = ds_calls s"
  "ds_readers (set_phase i p s) = ds_readers s" "length (ds_callers (set_phase i p s)) = length (ds_callers s)"
  by (simp_all add: set_phase_def)

lemma set_phase_nth:
  "i < length (ds_callers s) \<Longrightarrow> phase (set_phase i p s) j = (if j = i then p else phase s j)"
  "i < length (ds_callers s) \<Longrightarrow> wanted (set_phase i p s) j = wanted s j"
  "i < length (ds_callers s) \<Longrightarrow> cl_network (ds_callers (set_phase i p s) ! j) = cl_network (ds_callers s ! j)"
  by (auto simp: set_phase_def cl_key_def nth_list_update)

lemma dialling_set_phase:
  assumes "dialling s d k" "i < length (ds_callers s)" "phase s i \<noteq> Dialling d"
  shows "dialling (set_phase i p s) d k"
  using assms unfolding dialling_def by (metis set_phase_frame(5) set_phase_nth(1,2))

lemma dialling_cong: "ds_callers s' = ds_callers s \<Longrightarrow> dialling s' d k = dialling s d k"
  by (simp add: dialling_def)

lemma dial_inv_cong:
  "ds_inflight s' = ds_inflight s \<Longrightarrow> ds_calls s' = ds_calls s \<Longrightarrow> ds_callers s' = ds_callers s \<Longrightarrow> dial_inv s' = dial_inv s"
  by (simp add: dial_inv_def dialling_def)

text \<open>A caller that was not dialling gets its answer, or joins a dial to its own address.\<close>

lemma settle_inv:
  assumes inv: "dial_inv s" and i: "i < length (ds_callers s)" and ph: "\<And>d. phase s i \<noteq> Dialling d"
    and p: "(\<exists>r. p = Got r) \<or> (\<exists>w. p = Waiting w \<and> map_of (ds_inflight s) (wanted s i) = Some w)"
  shows "dial_inv (set_phase i p s)"
proof (rule dial_invI)
  have p_D: "p \<noteq> Dialling d" for d using p by auto
  note nth = set_phase_nth [OF i] and keep = dialling_set_phase [OF _ i ph]
  show "d < length (ds_calls (set_phase i p s)) \<and> ds_calls (set_phase i p s) ! d = None \<and> dialling (set_phase i p s) d k"
    if "map_of (ds_inflight (set_phase i p s)) k = Some d" for k d
    using dial_invD(1) [OF inv, of k d] that keep by simp
  show "map_of (ds_inflight (set_phase i p s)) (wanted (set_phase i p s) j) = Some d"
    if "j < length (ds_callers (set_phase i p s))" "phase (set_phase i p s) j = Dialling d" for j d
    using dial_invD(2) [OF inv, of j d] that p_D [of d] by (auto simp: nth split: if_splits)
  show "j = k"
    if "j < length (ds_callers (set_phase i p s))" "k < length (ds_callers (set_phase i p s))"
      "phase (set_phase i p s) j = Dialling d" "phase (set_phase i p s) k = Dialling d" for j k d
    using dial_invD(3) [OF inv, of j k d] that p_D [of d] by (auto simp: nth split: if_splits)
  show "d < length (ds_calls (set_phase i p s)) \<and>
      (ds_calls (set_phase i p s) ! d \<noteq> None \<or> dialling (set_phase i p s) d (wanted (set_phase i p s) j))"
    if "j < length (ds_callers (set_phase i p s))" "phase (set_phase i p s) j = Waiting d" for j d
  proof (cases "j = i")
    case True
    then have "map_of (ds_inflight s) (wanted s i) = Some d" using that(2) p by (auto simp: nth)
    then show ?thesis using dial_invD(1) [OF inv] keep True by (auto simp: nth)
  next
    case False
    then show ?thesis using dial_invD(4) [OF inv, of j d] that keep by (auto simp: nth)
  qed
qed

text \<open>A caller that starts a dial gets a fresh call.\<close>

lemma start_inv:
  assumes inv: "dial_inv s" and i: "i < length (ds_callers s)" and ask: "phase s i = Ask"
    and free: "map_of (ds_inflight s) (wanted s i) = None"
  shows "dial_inv (set_phase i (Dialling (length (ds_calls s)))
    (s\<lparr>ds_inflight := map_put (wanted s i) (length (ds_calls s)) (ds_inflight s), ds_calls := ds_calls s @ [None]\<rparr>))"
    (is "dial_inv (set_phase i (Dialling ?d) ?s)")
proof (rule dial_invI)
  let ?s' = "set_phase i (Dialling ?d) ?s"
  have i': "i < length (ds_callers ?s)" using i by simp
  note nth = set_phase_nth [OF i']
  have old: "phase s j \<noteq> Dialling ?d" "phase s j \<noteq> Waiting ?d" if "j < length (ds_callers s)" for j
    using dial_invD(1,2,4) [OF inv] that by (metis less_irrefl)+
  have keep: "dialling ?s' d k" if "dialling s d k" for d k
    using dialling_set_phase [OF _ i', of d k] that ask by (simp add: dialling_def)
  have mine: "dialling ?s' ?d (wanted s i)"
    unfolding dialling_def using i by (intro exI [of _ i]) (simp add: nth)
  show "d < length (ds_calls ?s') \<and> ds_calls ?s' ! d = None \<and> dialling ?s' d k"
    if "map_of (ds_inflight ?s') k = Some d" for k d
  proof (cases "k = wanted s i")
    case True then show ?thesis using that mine by auto
  next
    case False then show ?thesis using that dial_invD(1) [OF inv, of k d] keep by (auto simp: nth_append)
  qed
  show "map_of (ds_inflight ?s') (wanted ?s' j) = Some d"
    if "j < length (ds_callers ?s')" "phase ?s' j = Dialling d" for j d
    using dial_invD(2) [OF inv, of j d] that free by (auto simp: nth split: if_splits)
  show "j = k"
    if "j < length (ds_callers ?s')" "k < length (ds_callers ?s')" "phase ?s' j = Dialling d" "phase ?s' k = Dialling d" for j k d
    using dial_invD(3) [OF inv, of j k d] that old by (auto simp: nth split: if_splits)
  show "d < length (ds_calls ?s') \<and> (ds_calls ?s' ! d \<noteq> None \<or> dialling ?s' d (wanted ?s' j))"
    if "j < length (ds_callers ?s')" "phase ?s' j = Waiting d" for j d
    using dial_invD(4) [OF inv, of j d] that keep by (auto simp: nth nth_append split: if_splits)
qed

lemma ask_inv:
  assumes "dial_inv s" "i < length (ds_callers s)" "phase s i = Ask"
  shows "dial_inv (getStreamConn_ask i s)"
proof -
  have "phase s i \<noteq> Dialling d" for d using assms(3) by simp
  note settle = settle_inv [OF assms(1,2) this]
  show ?thesis
    unfolding getStreamConn_ask_def Let_def
    using settle start_inv [OF assms] by (simp split: option.split)
qed

lemma dialled_frame:
  "ds_inflight (getStreamConn_dialled answer now i d s) = map_delete (wanted s i) (ds_inflight s)"
  "ds_calls (getStreamConn_dialled answer now i d s) = (ds_calls s)[d := Some answer]"
  "ds_callers (getStreamConn_dialled answer now i d s) = ds_callers (set_phase i (Got answer) s)"
  by (simp_all add: getStreamConn_dialled_def Let_def set_phase_def split: sum.split)

lemma dialled_inv:
  assumes inv: "dial_inv s" and i: "i < length (ds_callers s)" and ph: "phase s i = Dialling d"
  shows "dial_inv (getStreamConn_dialled answer now i d s)" (is "dial_inv ?s'")
proof (rule dial_invI)
  note frame = dialled_frame [of answer now i d s] and nth = set_phase_nth [OF i]
  have mine: "map_of (ds_inflight s) (wanted s i) = Some d" using dial_invD(2) [OF assms] .
  have d: "d < length (ds_calls s)" using dial_invD(1) [OF inv mine] by simp
  have only: "j = i" if "j < length (ds_callers s)" "phase s j = Dialling d" for j
    using dial_invD(3) [OF inv that(1) i that(2) ph] .
  have keep: "dialling ?s' e k" if "dialling s e k" "e \<noteq> d" for e k
    using dialling_set_phase [OF that(1) i, of "Got answer"] dialling_cong [OF frame(3)] that(2) ph by simp
  have other: "e \<noteq> d" if ne: "k \<noteq> wanted s i" and at: "map_of (ds_inflight s) k = Some e" for k e
  proof -
    obtain j where j: "j < length (ds_callers s)" "phase s j = Dialling e" "wanted s j = k"
      using dial_invD(1) [OF inv at] unfolding dialling_def by blast
    show ?thesis using only [OF j(1)] j(2,3) ne by auto
  qed
  have apart: "wanted s j \<noteq> wanted s i" if "j < length (ds_callers s)" "phase s j = Dialling e" "j \<noteq> i" for j e
    using dial_invD(2) [OF inv that(1,2)] mine only [OF that(1)] that(2,3) by auto
  show "e < length (ds_calls ?s') \<and> ds_calls ?s' ! e = None \<and> dialling ?s' e k"
    if "map_of (ds_inflight ?s') k = Some e" for k e
    using that dial_invD(1) [OF inv, of k e] keep [of e k] other [of k e] by (auto simp: frame split: if_splits)
  show "map_of (ds_inflight ?s') (wanted ?s' j) = Some e"
    if "j < length (ds_callers ?s')" "phase ?s' j = Dialling e" for j e
    using that dial_invD(2) [OF inv, of j e] apart [of j e] by (auto simp: frame nth split: if_splits)
  show "j = k"
    if "j < length (ds_callers ?s')" "k < length (ds_callers ?s')" "phase ?s' j = Dialling e" "phase ?s' k = Dialling e" for j k e
    using that dial_invD(3) [OF inv, of j k e] by (auto simp: frame nth split: if_splits)
  show "e < length (ds_calls ?s') \<and> (ds_calls ?s' ! e \<noteq> None \<or> dialling ?s' e (wanted ?s' j))"
    if "j < length (ds_callers ?s')" "phase ?s' j = Waiting e" for j e
    using that dial_invD(4) [OF inv, of j e] keep [of e "wanted s j"] d
    by (cases "e = d") (auto simp: frame nth split: if_splits)
qed

lemma wake_inv:
  assumes "dial_inv s" "i < length (ds_callers s)" "phase s i = Waiting d"
  shows "dial_inv (getStreamConn_wake i answer s)"
  using settle_inv [OF assms(1,2)] assms(3) by (simp add: getStreamConn_wake_def split: option.split)

lemma call_inv:
  assumes inv: "dial_inv s"
  shows "dial_inv (s\<lparr>ds_callers := ds_callers s @ [\<lparr>cl_network = n, cl_dst = a, cl_phase = Ask\<rparr>]\<rparr>)"
    (is "dial_inv ?s'")
proof (rule dial_invI)
  have nth: "ds_callers ?s' ! j = (if j < length (ds_callers s) then ds_callers s ! j else \<lparr>cl_network = n, cl_dst = a, cl_phase = Ask\<rparr>)"
    if "j < length (ds_callers ?s')" for j
    using that by (cases "j = length (ds_callers s)") (simp_all add: nth_append)
  have keep: "dialling ?s' d k" if dl: "dialling s d k" for d k
  proof -
    obtain j where "j < length (ds_callers s)" "phase s j = Dialling d" "wanted s j = k" using dl unfolding dialling_def by blast
    then show ?thesis unfolding dialling_def by (intro exI [of _ j]) (simp add: nth_append)
  qed
  show "d < length (ds_calls ?s') \<and> ds_calls ?s' ! d = None \<and> dialling ?s' d k"
    if "map_of (ds_inflight ?s') k = Some d" for k d using that dial_invD(1) [OF inv, of k d] keep by simp
  show "map_of (ds_inflight ?s') (wanted ?s' j) = Some d"
    if "j < length (ds_callers ?s')" "phase ?s' j = Dialling d" for j d
    using that(2) dial_invD(2) [OF inv, of j d] unfolding nth [OF that(1)] by (simp split: if_splits)
  show "j = k"
    if "j < length (ds_callers ?s')" "k < length (ds_callers ?s')" "phase ?s' j = Dialling d" "phase ?s' k = Dialling d" for j k d
    using that(3,4) dial_invD(3) [OF inv, of j k d] unfolding nth [OF that(1)] nth [OF that(2)] by (simp split: if_splits)
  show "d < length (ds_calls ?s') \<and> (ds_calls ?s' ! d \<noteq> None \<or> dialling ?s' d (wanted ?s' j))"
    if "j < length (ds_callers ?s')" "phase ?s' j = Waiting d" for j d
    using that(2) dial_invD(4) [OF inv, of j d] keep [of d "wanted s j"] unfolding nth [OF that(1)] by (auto split: if_splits)
qed

lemma caller_inv: "caller_step s s' \<Longrightarrow> dial_inv s \<Longrightarrow> dial_inv s'"
  by (induction rule: caller_step.induct) (auto intro: ask_inv dialled_inv wake_inv)

interpretation dial_system: step_system dial_init dial_step dial_inv
proof
  show "dial_inv s" if "dial_init s" for s using that by (auto simp: dial_init_def dial_inv_def new_dials_def)
  show "dial_inv s'" if "dial_inv s" "dial_step s s'" for s s'
    using that(2,1)
  proof (induction rule: dial_step.induct)
    case (accept s c) then show ?case by (simp add: acceptStream_conn_def dial_inv_def dialling_def)
  next
    case (call s network dst) then show ?case by (rule call_inv)
  next
    case (caller s s') then show ?case by (rule caller_inv)
  qed (simp_all add: dial_inv_def dialling_def)
qed

section \<open>Every caller is answered\<close>

fun phase_weight :: "Phase \<Rightarrow> nat" where
  "phase_weight Ask = 2"
| "phase_weight (Dialling d) = 1"
| "phase_weight (Waiting d) = 1"
| "phase_weight (Got r) = 0"

definition work_left :: "Dials \<Rightarrow> nat" where
  "work_left s = sum_list (map (\<lambda>c. phase_weight (cl_phase c)) (ds_callers s))"

fun answered :: "Phase \<Rightarrow> bool" where
  "answered (Got r) = True"
| "answered _ = False"

text \<open>No caller dials TLS from a transport without a TLS configuration (that would panic).\<close>

definition tls_ready :: "Dials \<Rightarrow> bool" where
  "tls_ready s \<longleftrightarrow> tp_tlsCfg (ds_tp s) \<or> (\<forall>i < length (ds_callers s). cl_network (ds_callers s ! i) \<noteq> ''tls'')"

lemma work_set_phase:
  assumes "i < length (ds_callers s)"
  shows "work_left (set_phase i p s) + phase_weight (phase s i) = work_left s + phase_weight p"
proof -
  let ?f = "\<lambda>c. phase_weight (cl_phase c)"
  have "ds_callers s ! i \<in> set (ds_callers s)" using assms by simp
  then have "?f (ds_callers s ! i) \<le> sum_list (map ?f (ds_callers s))" by (simp add: member_le_sum_list)
  then show ?thesis
    using assms by (simp add: work_left_def set_phase_def map_update sum_list_update)
qed

lemma work_cong: "ds_callers s' = ds_callers s \<Longrightarrow> work_left s' = work_left s"
  by (simp add: work_left_def)

lemma ask_callers:
  "\<exists>p. ds_callers (getStreamConn_ask i s) = ds_callers (set_phase i p s) \<and> phase_weight p < 2"
proof -
  consider c where "map_of (tp_conns (ds_tp s)) (wanted s i) = Some c"
    | w where "map_of (tp_conns (ds_tp s)) (wanted s i) = None" "map_of (ds_inflight s) (wanted s i) = Some w"
    | "map_of (tp_conns (ds_tp s)) (wanted s i) = None" "map_of (ds_inflight s) (wanted s i) = None"
    by fastforce
  then show ?thesis
  proof cases
    case 1 then show ?thesis by (intro exI [of _ "Got (Inr c)"]) (simp add: getStreamConn_ask_def Let_def)
  next
    case 2 then show ?thesis by (intro exI [of _ "Waiting w"]) (simp add: getStreamConn_ask_def Let_def)
  next
    case 3
    let ?p = "if maxTCPConns (ds_tp s) \<le> int (length (tp_conns (ds_tp s))) then Got (Inl ErrTransportClosed) else Dialling (length (ds_calls s))"
    show ?thesis using 3 by (intro exI [of _ ?p]) (simp add: getStreamConn_ask_def Let_def set_phase_def)
  qed
qed

lemma wake_callers: "\<exists>r. ds_callers (getStreamConn_wake i answer s) = ds_callers (set_phase i (Got r) s)"
  by (simp add: getStreamConn_wake_def split: option.split) blast

lemma caller_step_work: "caller_step s s' \<Longrightarrow> work_left s' < work_left s"
proof (induction rule: caller_step.induct)
  case (ask i s)
  obtain p where "ds_callers (getStreamConn_ask i s) = ds_callers (set_phase i p s)" "phase_weight p < 2" using ask_callers by blast
  then show ?case using work_cong [of "getStreamConn_ask i s" "set_phase i p s"] work_set_phase [OF ask(1), of p] ask(2) by simp
next
  case (dialled i s d os answer now)
  then show ?case using work_cong [OF dialled_frame(3)] work_set_phase [OF dialled(1), of "Got answer"] by simp
next
  case (wake i s d answer)
  obtain r where "ds_callers (getStreamConn_wake i answer s) = ds_callers (set_phase i (Got r) s)" using wake_callers by blast
  then show ?case using work_cong [of "getStreamConn_wake i answer s" "set_phase i (Got r) s"] work_set_phase [OF wake(1), of "Got r"] wake(2) by simp
qed

lemma caller_steps_bounded: "(caller_step ^^ n) s s' \<Longrightarrow> n + work_left s' \<le> work_left s"
proof (induction n arbitrary: s')
  case (Suc n)
  then obtain s1 where "(caller_step ^^ n) s s1" "caller_step s1 s'" by auto
  then show ?case using Suc.IH [of s1] caller_step_work [of s1 s'] by simp
qed simp

lemma work_left_le: "work_left s \<le> 2 * length (ds_callers s)"
proof -
  have "phase_weight p \<le> 2" for p by (cases p) auto
  then have "sum_list (map (\<lambda>c. phase_weight (cl_phase c)) cs) \<le> sum_list (map (\<lambda>c. 2) cs)" for cs :: "Caller list"
    by (intro sum_list_mono) simp
  then show ?thesis by (simp add: work_left_def sum_list_triv mult.commute)
qed

text \<open>A caller without its answer can go on, or the caller it waits for can.\<close>

lemma dialling_steps:
  assumes "i < length (ds_callers s)" "phase s i = Dialling d" "tls_ready s"
  shows "\<exists>s'. caller_step s s'"
proof -
  let ?c = "\<lparr>c_tls = False, c_host = [], c_port = 0\<rparr>"
  let ?os = "\<lparr>os_LookupIP = (\<lambda>_. None), os_udp_write = (\<lambda>_ _ _. None), os_dial = (\<lambda>_ _. Inr ?c), os_write = (\<lambda>_ _. None)\<rparr>"
  have "dial ?os (cl_network (ds_callers s ! i)) (cl_dst (ds_callers s ! i)) (ds_tp s) = Inr ?c"
    using assms(1,3) by (auto simp: dial_def tls_ready_def)
  from caller_step.dialled [OF assms(1,2) this] show ?thesis by auto
qed

lemma unanswered_steps:
  assumes "dial_inv s" "tls_ready s" "i < length (ds_callers s)" "\<not> answered (phase s i)"
  shows "\<exists>s'. caller_step s s'"
proof (cases "phase s i")
  case Ask then show ?thesis using caller_step.ask [OF assms(3)] by blast
next
  case (Dialling d) then show ?thesis using dialling_steps assms(2,3) by blast
next
  case (Waiting d)
  then consider a where "ds_calls s ! d = Some a" | "dialling s d (wanted s i)"
    using dial_invD(4) [OF assms(1,3)] by blast
  then show ?thesis
  proof cases
    case 1 then show ?thesis using caller_step.wake [OF assms(3) Waiting] by blast
  next
    case 2 then show ?thesis using dialling_steps assms(2) unfolding dialling_def by blast
  qed
next
  case (Got r) then show ?thesis using assms(4) by simp
qed

lemma caller_step_tls: "caller_step s s' \<Longrightarrow> tls_ready s \<Longrightarrow> tls_ready s'"
proof -
  have upd: "tls_ready s'" if "tls_ready s" "i < length (ds_callers s)" "ds_callers s' = ds_callers (set_phase i p s)"
      "tp_tlsCfg (ds_tp s') = tp_tlsCfg (ds_tp s)" for i p and s s' :: Dials
    using that by (auto simp: tls_ready_def set_phase_nth)
  have tp: "ds_tp (getStreamConn_ask i s) = ds_tp s" "ds_tp (getStreamConn_wake i a s) = ds_tp s"
      "tp_tlsCfg (ds_tp (getStreamConn_dialled a now i d s)) = tp_tlsCfg (ds_tp s)" for i a now d s
    by (simp_all add: getStreamConn_ask_def getStreamConn_wake_def getStreamConn_dialled_def Let_def split: option.split sum.split)
  assume "caller_step s s'" "tls_ready s"
  then show ?thesis
  proof (induction rule: caller_step.induct)
    case (ask i s) then show ?case using upd ask_callers tp(1) by metis
  next
    case (dialled i s d os answer now) then show ?case using upd dialled_frame(3) tp(3) by blast
  next
    case (wake i s d answer) then show ?case using upd wake_callers tp(2) by metis
  qed
qed

lemma callers_finish:
  assumes "dial_inv s" "tls_ready s"
  shows "\<exists>s'. caller_step\<^sup>*\<^sup>* s s' \<and> (\<forall>i < length (ds_callers s'). answered (phase s' i))"
  using assms
proof (induction "work_left s" arbitrary: s rule: less_induct)
  case less
  show ?case
  proof (cases "\<forall>i < length (ds_callers s). answered (phase s i)")
    case True then show ?thesis by blast
  next
    case False
    then obtain s1 where s1: "caller_step s s1" using unanswered_steps less.prems by blast
    then show ?thesis
      using less.hyps [OF caller_step_work [OF s1]] caller_inv [OF s1] caller_step_tls [OF s1] less.prems
      by (meson converse_rtranclp_into_rtranclp)
  qed
qed

section \<open>Properties\<close>

definition demo_dials :: Dials where
  "demo_dials = (new_dials (new_transport None True False))\<lparr>ds_callers :=
     [\<lparr>cl_network = ''tcp'', cl_dst = \<lparr>Network = ''tcp'', AHost = ''h'', APort = 1\<rparr>, cl_phase = Ask\<rparr>,
      \<lparr>cl_network = ''tcp'', cl_dst = \<lparr>Network = ''tcp'', AHost = ''h'', APort = 1\<rparr>, cl_phase = Ask\<rparr>]\<rparr>"

lemma demo_dials_run: "dial_step\<^sup>*\<^sup>* (new_dials (new_transport None True False)) demo_dials"
proof -
  let ?c = "\<lparr>cl_network = ''tcp'', cl_dst = \<lparr>Network = ''tcp'', AHost = ''h'', APort = 1\<rparr>, cl_phase = Ask\<rparr>"
  let ?n = "new_dials (new_transport None True False)"
  have "dial_step ?n (?n\<lparr>ds_callers := [?c]\<rparr>)"
    using dial_step.call [of ?n "''tcp''" "\<lparr>Network = ''tcp'', AHost = ''h'', APort = 1\<rparr>"] by (simp add: new_dials_def)
  moreover have "dial_step (?n\<lparr>ds_callers := [?c]\<rparr>) demo_dials"
    using dial_step.call [of "?n\<lparr>ds_callers := [?c]\<rparr>" "''tcp''" "\<lparr>Network = ''tcp'', AHost = ''h'', APort = 1\<rparr>"]
    by (simp add: demo_dials_def new_dials_def)
  ultimately show ?thesis by (meson converse_rtranclp_into_rtranclp r_into_rtranclp)
qed

lemma dial_init_new: "dial_init (new_dials (new_transport udp tcp tls))"
  unfolding dial_init_def tp_init_def by blast

text \<open>C3 (safety): two concurrent calls of \<^verbatim>\<open>Send\<close> never dial the same address at the same time, and a call that
  waits for another's dial waits for a dial to its own address that is still being made, or for one that has
  its answer.\<close>

theorem one_dial_per_address:
  assumes "dial_init s0" "dial_step\<^sup>*\<^sup>* s0 s" "i < length (ds_callers s)"
  shows "(\<forall>j d e. j < length (ds_callers s) \<and> phase s i = Dialling d \<and> phase s j = Dialling e \<and> wanted s j = wanted s i \<longrightarrow> j = i) \<and>
    (\<forall>d. phase s i = Waiting d \<longrightarrow> ds_calls s ! d \<noteq> None \<or>
      (\<exists>j < length (ds_callers s). phase s j = Dialling d \<and> wanted s j = wanted s i))"
proof (intro conjI allI impI, elim conjE)
  have inv: "dial_inv s" using dial_system.reachable_inv [OF assms(1,2)] .
  show "j = i" if "phase s i = Dialling d" "j < length (ds_callers s)" "phase s j = Dialling e" "wanted s j = wanted s i" for j d e
    using dial_invD(2) [OF inv assms(3) that(1)] dial_invD(2) [OF inv that(2,3)] dial_invD(3) [OF inv that(2) assms(3)] that by simp
  show "ds_calls s ! d \<noteq> None \<or> (\<exists>j < length (ds_callers s). phase s j = Dialling d \<and> wanted s j = wanted s i)"
    if "phase s i = Waiting d" for d using dial_invD(4) [OF inv assms(3) that] unfolding dialling_def by blast
qed

theorem one_dial_per_address_witness:
  "let s = getStreamConn_ask 1 (getStreamConn_ask 0 demo_dials)
   in phase s 0 = Dialling 0 \<and> phase s 1 = Waiting 0 \<and> (\<exists>j < length (ds_callers s). phase s j = Dialling 0 \<and> wanted s j = wanted s 1)"
proof -
  let ?u = "getStreamConn_ask 0 demo_dials" and ?s = "getStreamConn_ask 1 (getStreamConn_ask 0 demo_dials)"
  have s0: "?u = set_phase 0 (Dialling 0) (demo_dials\<lparr>ds_inflight := map_put (wanted demo_dials 0) 0 [], ds_calls := [None]\<rparr>)"
    by (simp add: getStreamConn_ask_def Let_def demo_dials_def new_dials_def new_transport_def maxTCPConns_def defaultMaxTCPConns_def)
  have "wanted ?u 1 = wanted demo_dials 0" unfolding s0 by (simp add: set_phase_def demo_dials_def cl_key_def)
  moreover have "tp_conns (ds_tp ?u) = []" "ds_inflight ?u = map_put (wanted demo_dials 0) 0 []"
    unfolding s0 by (simp_all add: demo_dials_def new_dials_def new_transport_def)
  ultimately have s1: "getStreamConn_ask 1 (getStreamConn_ask 0 demo_dials) = set_phase 1 (Waiting 0) ?u" by (simp add: getStreamConn_ask_def [of "Suc 0"] Let_def)
  have ph: "length (ds_callers ?s) = 2" "phase ?s 0 = Dialling 0" "phase ?s 1 = Waiting 0" "ds_calls ?s = [None]"
    unfolding s1 unfolding s0 by (simp_all add: set_phase_def demo_dials_def)
  have "caller_step demo_dials ?u" by (rule caller_step.ask) (simp_all add: demo_dials_def)
  moreover have "caller_step ?u ?s" by (rule caller_step.ask) (unfold s0, simp_all add: set_phase_def demo_dials_def)
  ultimately have "dial_step\<^sup>*\<^sup>* (new_dials (new_transport None True False)) ?s"
    using demo_dials_run by (meson dial_step.caller rtranclp.rtrancl_into_rtrancl)
  from one_dial_per_address [OF dial_init_new this, of 1] show ?thesis using ph by (simp add: Let_def)
qed





text \<open>A connection whose dial ends after \<^verbatim>\<open>Close\<close> enters the table of the closed transport, where nothing closes
  it any more: the janitor has ended and a second \<^verbatim>\<open>Close\<close> does nothing.\<close>

lemma dial_survives_close:
  assumes "i < length (ds_callers s)"
  shows "let s' = getStreamConn_dialled (Inr c) now i d (s\<lparr>ds_tp := Transport_Close (ds_tp s)\<rparr>)
    in map_of (tp_conns (ds_tp s')) (wanted s i) = Some c \<and> tp_done (ds_tp s') \<and> Transport_Close (ds_tp s') = ds_tp s'"
  by (simp add: getStreamConn_dialled_def Let_def Transport_Close_def)

section \<open>The limit on connections\<close>

definition peer :: "nat \<Rightarrow> Conn" where
  "peer p = \<lparr>c_tls = False, c_host = ''10.0.0.1'', c_port = int p\<rparr>"

lemma peer_key_inj:
  assumes "p < 65536" "q < 65536" "connKey (peer p) = connKey (peer q)"
  shows "p = q"
proof -
  have "Itoa (int p) = Itoa (int q)" using assms(3) by (simp add: connKey_def peer_def Addr_String_def JoinHostPort_def)
  moreover have "Atoi (Itoa (int n)) = Some (int n)" if "n < 65536" for n
    using that by (intro Atoi_Itoa) (simp add: int_in_range_def)
  ultimately show ?thesis using assms(1,2) by (metis of_nat_eq_iff option.inject)
qed

text \<open>The accept loop takes \<open>n\<close> connections before the scheduler runs any of their readers.\<close>

lemma accepts_run:
  assumes "int (length (tp_conns (ds_tp s))) \<le> maxTCPConns (ds_tp s)"
  shows "dial_step\<^sup>*\<^sup>* s (s\<lparr>ds_readers := ds_readers s @ cs\<rparr>)"
proof (induction cs rule: rev_induct)
  case (snoc c cs)
  let ?s = "s\<lparr>ds_readers := ds_readers s @ cs\<rparr>"
  have "acceptStream_conn c ?s = s\<lparr>ds_readers := ds_readers s @ cs @ [c]\<rparr>" using assms by (simp add: acceptStream_conn_def)
  then show ?case using snoc.IH dial_step.accept [of ?s c] by (metis rtranclp.rtrancl_into_rtrancl)
qed simp

lemma readers_run:
  "ds_readers s = cs \<Longrightarrow> dial_step\<^sup>*\<^sup>* s (s\<lparr>ds_tp := fold (registerConn now) cs (ds_tp s), ds_readers := []\<rparr>)"
proof (induction cs arbitrary: s)
  case (Cons c cs)
  let ?s = "s\<lparr>ds_tp := registerConn now c (ds_tp s), ds_readers := cs\<rparr>"
  have "dial_step s ?s" using dial_step.reader [of s "[]" c cs now] Cons.prems by simp
  moreover have "dial_step\<^sup>*\<^sup>* ?s (?s\<lparr>ds_tp := fold (registerConn now) cs (ds_tp ?s), ds_readers := []\<rparr>)" by (rule Cons.IH) simp
  ultimately show ?case by (simp add: converse_rtranclp_into_rtranclp)
next
  case Nil
  then have "s\<lparr>ds_readers := []\<rparr> = s" by simp
  then show ?case by simp
qed

lemma register_all_length:
  assumes "distinct (map connKey cs)" "fst ` set (tp_conns t) \<inter> connKey ` set cs = {}"
  shows "length (tp_conns (fold (registerConn now) cs t)) = length (tp_conns t) + length cs"
  using assms
proof (induction cs arbitrary: t)
  case (Cons c cs)
  have "filter (\<lambda>p. fst p \<noteq> connKey c) (tp_conns t) = tp_conns t"
    using Cons.prems(2) by (force simp: filter_id_conv)
  then have len: "length (tp_conns (registerConn now c t)) = Suc (length (tp_conns t))"
    by (simp add: registerConn_def map_put_def)
  have "fst ` set (tp_conns (registerConn now c t)) \<inter> connKey ` set cs = {}"
    using Cons.prems by (auto simp: registerConn_def)
  then show ?case using Cons.IH [of "registerConn now c t"] Cons.prems(1) len by simp
qed simp

text \<open>The limit on the number of connections is not kept: \<^verbatim>\<open>acceptStream\<close> compares the size of the table,
  but a connection enters it only when its reader runs, so that connections accepted in quick succession all
  pass. For every number \<open>n\<close> of peers a run leaves \<open>n\<close> connections in the table, whatever the limit.\<close>

theorem connection_limit_race:
  "n < 65536 \<Longrightarrow> 0 < limit \<Longrightarrow> \<exists>s'. dial_step\<^sup>*\<^sup>* (new_dials ((new_transport None True False)\<lparr>tp_MaxTCPConns := limit\<rparr>)) s' \<and>
     length (tp_conns (ds_tp s')) = n \<and> maxTCPConns (ds_tp s') = limit"
proof -
  assume n: "n < 65536" and limit: "0 < limit"
  let ?s = "new_dials ((new_transport None True False)\<lparr>tp_MaxTCPConns := limit\<rparr>)" and ?cs = "map peer [0..<n]"
  let ?u = "?s\<lparr>ds_readers := ?cs\<rparr>"
  let ?v = "?u\<lparr>ds_tp := fold (registerConn 0) ?cs (ds_tp ?u), ds_readers := []\<rparr>"
  have max: "maxTCPConns (ds_tp ?s) = limit" using limit by (simp add: new_dials_def maxTCPConns_def)
  have "dial_step\<^sup>*\<^sup>* ?s ?u"
    using accepts_run [of ?s ?cs] limit max by (simp add: new_dials_def new_transport_def)
  moreover have "dial_step\<^sup>*\<^sup>* ?u ?v" by (rule readers_run) simp
  moreover have "distinct (map connKey ?cs)"
    using n peer_key_inj by (auto simp: distinct_map inj_on_def)
  then have "length (tp_conns (ds_tp ?v)) = n"
    using register_all_length [of ?cs "ds_tp ?u" 0] by (simp add: new_dials_def new_transport_def)
  moreover have "maxTCPConns (fold (registerConn 0) cs t) = maxTCPConns t" for cs t
    by (induction cs arbitrary: t) (simp_all add: registerConn_def)
  then have "maxTCPConns (ds_tp ?v) = limit" using max by simp
  ultimately show ?thesis by (meson rtranclp_trans)
qed

theorem connection_limit_race_witness:
  "\<exists>s'. dial_step\<^sup>*\<^sup>* (new_dials ((new_transport None True False)\<lparr>tp_MaxTCPConns := 1\<rparr>)) s' \<and>
     length (tp_conns (ds_tp s')) = 100 \<and> maxTCPConns (ds_tp s') = 1"
  using connection_limit_race [of 100 1] by simp

end
