(* ===== verification/TransportOpen.thy ===== *)
theory TransportOpen
  imports TransportCorrect
begin

text \<open>
  How a transport of \<^verbatim>\<open>transport.go\<close> is opened (\<^verbatim>\<open>NewTransport\<close>, \<^verbatim>\<open>NewTLSTransport\<close>) and what its goroutines do
  with what the sockets deliver (\<^verbatim>\<open>readUDP\<close>, \<^verbatim>\<open>acceptStream\<close>, \<^verbatim>\<open>readTCP\<close>). What listening on an address answers is
  the parameter \<open>Listen\<close>. An \<open>Opening\<close> is the transport with the goroutines started on it and the ports of its
  sockets; it exists also when the constructor returns an error, so that what a failed call leaves behind can
  be said: until the transport is closed its goroutines run and its sockets are open.
\<close>

section \<open>Opening\<close>

record Listen =
  li_udp :: "IP option \<Rightarrow> int \<Rightarrow> (IP \<times> int) result"
  li_tcp :: "IP option \<Rightarrow> int \<Rightarrow> int result"

datatype Goroutine = Janitor | ReadUDP | AcceptTCP | AcceptTLS

record Opening =
  op_tp :: Transport
  op_gos :: "Goroutine list"
  op_udpPort :: int
  op_tcpPort :: int
  op_tlsPort :: int

definition opening0 :: Opening where
  "opening0 = \<lparr>op_tp = new_transport None False False, op_gos = [Janitor], op_udpPort = 0, op_tcpPort = 0, op_tlsPort = 0\<rparr>"

text \<open>A host that is no IP address is listened on as the unspecified address, \<open>None\<close>.\<close>

definition open_udp :: "Listen \<Rightarrow> string \<Rightarrow> int \<Rightarrow> Opening \<Rightarrow> Opening \<times> error option" where
  "open_udp li host port p =
     (if port < 0 then (p, None)
      else (case li_udp li (ParseIP host) port of
        Inl e \<Rightarrow> (p, Some e)
      | Inr (ip, bound) \<Rightarrow>
          (p\<lparr>op_tp := (op_tp p)\<lparr>tp_udp := Some ip\<rparr>, op_udpPort := bound, op_gos := op_gos p @ [ReadUDP]\<rparr>, None)))"

definition open_tcp :: "Listen \<Rightarrow> string \<Rightarrow> int \<Rightarrow> Opening \<Rightarrow> Opening \<times> error option" where
  "open_tcp li host port p =
     (if port < 0 then (p, None)
      else (case li_tcp li (ParseIP host) port of
        Inl e \<Rightarrow> (p\<lparr>op_tp := Transport_Close (op_tp p)\<rparr>, Some e)
      | Inr bound \<Rightarrow>
          (p\<lparr>op_tp := (op_tp p)\<lparr>tp_tcpListener := True\<rparr>, op_tcpPort := bound, op_gos := op_gos p @ [AcceptTCP]\<rparr>, None)))"

definition NewTransport :: "Listen \<Rightarrow> string \<Rightarrow> int \<Rightarrow> int \<Rightarrow> Opening \<times> error option" where
  "NewTransport li host udpPort tcpPort = (case open_udp li host udpPort opening0 of
     (p, Some e) \<Rightarrow> (p, Some e)
   | (p, None) \<Rightarrow> open_tcp li host tcpPort p)"

definition NewTLSTransport :: "Listen \<Rightarrow> string \<Rightarrow> int \<Rightarrow> int \<Rightarrow> int \<Rightarrow> bool \<Rightarrow> Opening \<times> error option" where
  "NewTLSTransport li host udpPort tcpPort tlsPort cfg = (case NewTransport li host udpPort tcpPort of
     (p, Some e) \<Rightarrow> (p, Some e)
   | (p, None) \<Rightarrow>
       if \<not> cfg then (p, Some ErrOther)
       else
         (let p1 = p\<lparr>op_tp := (op_tp p)\<lparr>tp_tlsCfg := True\<rparr>\<rparr> in
          if tlsPort < 0 then (p1\<lparr>op_gos := op_gos p1 @ [Janitor]\<rparr>, None)
          else (case li_tcp li (ParseIP host) tlsPort of
            Inl e \<Rightarrow> (p1\<lparr>op_tp := Transport_Close (op_tp p1)\<rparr>, Some e)
          | Inr bound \<Rightarrow>
              (p1\<lparr>op_tp := (op_tp p1)\<lparr>tp_tlsListener := True\<rparr>, op_tlsPort := bound,
                  op_gos := op_gos p1 @ [AcceptTLS, Janitor]\<rparr>, None))))"

definition UDPPort :: "Opening \<Rightarrow> int" where
  "UDPPort p = (if tp_udp (op_tp p) = None then 0 else op_udpPort p)"

definition TCPPort :: "Opening \<Rightarrow> int" where
  "TCPPort p = (if tp_tcpListener (op_tp p) then op_tcpPort p else 0)"

definition TLSPort :: "Opening \<Rightarrow> int" where
  "TLSPort p = (if tp_tlsListener (op_tp p) then op_tlsPort p else 0)"

definition SetDropHook :: "(Message \<Rightarrow> Addr \<Rightarrow> bool) option \<Rightarrow> Transport \<Rightarrow> Transport" where
  "SetDropHook f t = t\<lparr>tp_DropHook := f\<rparr>"

text \<open>What an opening holds: every goroutine ends, and every socket is closed, once \<^verbatim>\<open>Close\<close> has run.\<close>

definition running :: "Opening \<Rightarrow> Goroutine list" where
  "running p = (if tp_done (op_tp p) then [] else op_gos p)"

definition open_sockets :: "Opening \<Rightarrow> nat" where
  "open_sockets p = (if tp_done (op_tp p) then 0
     else of_bool (tp_udp (op_tp p) \<noteq> None) + of_bool (tp_tcpListener (op_tp p)) + of_bool (tp_tlsListener (op_tp p)))"

section \<open>Source addresses\<close>

text \<open>\<^verbatim>\<open>IP.String\<close>: dotted decimal for IPv4; groups of lower-case hexadecimal digits for IPv6, where \<^verbatim>\<open>::\<close> stands
  for the first of the longest runs of two or more zero groups.\<close>

fun groups :: "nat list \<Rightarrow> nat list" where
  "groups (a # b # rest) = (a * 256 + b) # groups rest"
| "groups _ = []"

definition zeros_at :: "nat list \<Rightarrow> nat \<Rightarrow> nat" where
  "zeros_at gs i = length (takeWhile (\<lambda>g. g = 0) (drop i gs))"

definition longest_zeros :: "nat list \<Rightarrow> (nat \<times> nat) option" where
  "longest_zeros gs = fold (\<lambda>i best.
     let l = zeros_at gs i in
     if 2 \<le> l \<and> (case best of None \<Rightarrow> True | Some (s, n) \<Rightarrow> n < l) then Some (i, l) else best) [0..<length gs] None"

definition join_hex :: "nat list \<Rightarrow> string" where
  "join_hex gs = Join (map (format_nat 16) gs) '':''"

definition IP_String :: "IP \<Rightarrow> string" where
  "IP_String ip = (case To4 ip of
     Some b \<Rightarrow> Join (map (format_nat 10) b) ''.''
   | None \<Rightarrow>
       if ip = [] then ''<nil>''
       else if length ip \<noteq> 16 then ''?'' @ concat (map (\<lambda>b. [digit_char (b div 16), digit_char (b mod 16)]) ip)
       else (let gs = groups ip in
         case longest_zeros gs of
           None \<Rightarrow> join_hex gs
         | Some (i, n) \<Rightarrow> join_hex (take i gs) @ ''::'' @ join_hex (drop (i + n) gs)))"

definition AddrFromUDP :: "IP \<Rightarrow> int \<Rightarrow> Addr" where
  "AddrFromUDP ip port = \<lparr>Network = ''udp'', AHost = IP_String ip, APort = port\<rparr>"

definition AddrFromTCP :: "IP \<Rightarrow> int \<Rightarrow> Addr" where
  "AddrFromTCP ip port = \<lparr>Network = ''tcp'', AHost = IP_String ip, APort = port\<rparr>"

section \<open>The goroutines\<close>

text \<open>One turn of \<^verbatim>\<open>readUDP\<close>: \<open>False\<close> when it returns. A datagram is cut to the buffer; what \<^verbatim>\<open>dispatch\<close> answers is
  ignored.\<close>

definition read_buffer :: nat where "read_buffer = 65535"

definition readUDP_step :: "(string \<times> IP \<times> int) result \<Rightarrow> Transport \<Rightarrow> Transport \<times> bool" where
  "readUDP_step ev t = (case ev of
     Inl e \<Rightarrow> (t, \<not> tp_done t)
   | Inr (data, ip, port) \<Rightarrow> (fst (dispatch (take read_buffer data) (AddrFromUDP ip port) t), True))"

text \<open>One turn of \<^verbatim>\<open>acceptStream\<close>, when the reader it starts runs at once.\<close>

definition acceptStream_step :: "int \<Rightarrow> Conn result \<Rightarrow> Transport \<Rightarrow> Transport \<times> bool" where
  "acceptStream_step now ev t = (case ev of
     Inl e \<Rightarrow> (t, \<not> tp_done t)
   | Inr c \<Rightarrow> (fst (acceptConn now c t), True))"

text \<open>\<^verbatim>\<open>readTCP\<close> from its start to its end: a read gives its bytes and whether it failed. The connection leaves
  the table when the loop ends; \<open>True\<close> means that it still waits for the next read.\<close>

definition conn_src :: "Conn \<Rightarrow> Addr" where
  "conn_src c = \<lparr>Network = (if c_tls c then ''tls'' else ''tcp''), AHost = c_host c, APort = c_port c\<rparr>"

fun readTCP_loop :: "(string \<times> bool) list \<Rightarrow> Conn \<Rightarrow> StreamSplitter \<Rightarrow> Transport \<Rightarrow> (StreamSplitter \<times> Transport \<times> bool) option" where
  "readTCP_loop [] c sp t = Some (sp, t, True)"
| "readTCP_loop ((data, failed) # rest) c sp t =
     (case (if data = [] then Some (sp, t, True) else readTCP_step data (conn_src c) sp t) of
        None \<Rightarrow> None
      | Some (sp', t', ok) \<Rightarrow>
          if ok \<and> \<not> failed then readTCP_loop rest c sp' t'
          else Some (sp', dropConn (connKey c) t', False))"

definition readTCP :: "int \<Rightarrow> Conn \<Rightarrow> (string \<times> bool) list \<Rightarrow> Transport \<Rightarrow> (StreamSplitter \<times> Transport \<times> bool) option" where
  "readTCP now c reads t = readTCP_loop reads c \<lparr>buf = []\<rparr> (registerConn now c t)"

section \<open>What opening yields\<close>

lemma open_udp_cases:
  obtains (off) "port < 0" "open_udp li host port p = (p, None)"
  | (failed) e where "0 \<le> port" "li_udp li (ParseIP host) port = Inl e" "open_udp li host port p = (p, Some e)"
  | (bound) ip b where "0 \<le> port" "li_udp li (ParseIP host) port = Inr (ip, b)"
      "open_udp li host port p = (p\<lparr>op_tp := (op_tp p)\<lparr>tp_udp := Some ip\<rparr>, op_udpPort := b, op_gos := op_gos p @ [ReadUDP]\<rparr>, None)"
  by (cases "li_udp li (ParseIP host) port"; cases "port < 0") (auto simp: open_udp_def)

lemma open_tcp_cases:
  obtains (off) "port < 0" "open_tcp li host port p = (p, None)"
  | (failed) e where "0 \<le> port" "li_tcp li (ParseIP host) port = Inl e"
      "open_tcp li host port p = (p\<lparr>op_tp := Transport_Close (op_tp p)\<rparr>, Some e)"
  | (bound) b where "0 \<le> port" "li_tcp li (ParseIP host) port = Inr b"
      "open_tcp li host port p = (p\<lparr>op_tp := (op_tp p)\<lparr>tp_tcpListener := True\<rparr>, op_tcpPort := b, op_gos := op_gos p @ [AcceptTCP]\<rparr>, None)"
  by (cases "li_tcp li (ParseIP host) port"; cases "port < 0") (auto simp: open_tcp_def)

definition expected_gos :: "int \<Rightarrow> int \<Rightarrow> Goroutine list" where
  "expected_gos udpPort tcpPort = [Janitor] @ (if 0 \<le> udpPort then [ReadUDP] else []) @ (if 0 \<le> tcpPort then [AcceptTCP] else [])"

lemma NewTransport_opened:
  assumes "NewTransport li host udpPort tcpPort = (p, None)"
  shows "op_gos p = expected_gos udpPort tcpPort \<and>
    (\<exists>udp. op_tp p = new_transport udp (0 \<le> tcpPort) False \<and> (udp \<noteq> None \<longleftrightarrow> 0 \<le> udpPort)) \<and>
    (0 \<le> udpPort \<longrightarrow> (\<exists>ip. li_udp li (ParseIP host) udpPort = Inr (ip, UDPPort p))) \<and>
    (0 \<le> tcpPort \<longrightarrow> li_tcp li (ParseIP host) tcpPort = Inr (TCPPort p))"
proof -
  have tr: "(new_transport None False False)\<lparr>tp_udp := u, tp_tcpListener := l\<rparr> = new_transport u l False"
    "(new_transport None False False)\<lparr>tp_udp := u\<rparr> = new_transport u False False"
    "(new_transport None False False)\<lparr>tp_tcpListener := l\<rparr> = new_transport None l False" for u l
    by (simp_all add: new_transport_def)
  note defs = NewTransport_def opening0_def expected_gos_def UDPPort_def TCPPort_def tr
  show ?thesis
    by (cases rule: open_udp_cases [where li = li and host = host and port = udpPort and p = opening0];
        cases rule: open_tcp_cases [where li = li and host = host and port = tcpPort and
          p = "fst (open_udp li host udpPort opening0)"])
      (use assms in \<open>auto simp: defs, auto simp: new_transport_def\<close>)
qed

lemma NewTransport_failed:
  assumes "NewTransport li host udpPort tcpPort = (p, Some e)"
  shows "open_sockets p = 0 \<and> (if 0 \<le> udpPort \<and> li_udp li (ParseIP host) udpPort = Inl e then running p = [Janitor] else running p = [])"
proof -
  note defs = NewTransport_def opening0_def running_def open_sockets_def Transport_Close_def new_transport_def
  show ?thesis
    by (cases rule: open_udp_cases [where li = li and host = host and port = udpPort and p = opening0];
        cases rule: open_tcp_cases [where li = li and host = host and port = tcpPort and
          p = "fst (open_udp li host udpPort opening0)"])
      (use assms in \<open>auto simp: defs\<close>)
qed

lemma NewTLSTransport_failed:
  assumes "NewTLSTransport li host udpPort tcpPort tlsPort True = (p, Some e)"
    "NewTransport li host udpPort tcpPort = (q, None)"
  shows "running p = [] \<and> open_sockets p = 0"
  using assms by (auto simp: NewTLSTransport_def Let_def running_def open_sockets_def Transport_Close_def split: if_splits sum.splits)

lemma NewTLSTransport_opened:
  assumes "NewTLSTransport li host udpPort tcpPort tlsPort cfg = (p, None)"
  shows "cfg \<and> op_gos p = expected_gos udpPort tcpPort @ (if 0 \<le> tlsPort then [AcceptTLS] else []) @ [Janitor] \<and>
    tp_tlsCfg (op_tp p) \<and> (0 \<le> tlsPort \<longrightarrow> li_tcp li (ParseIP host) tlsPort = Inr (TLSPort p)) \<and>
    \<not> tp_done (op_tp p) \<and> tp_inv (op_tp p)"
proof -
  obtain q where q: "NewTransport li host udpPort tcpPort = (q, None)"
    using assms by (cases "NewTransport li host udpPort tcpPort"; cases "snd (NewTransport li host udpPort tcpPort)")
      (auto simp: NewTLSTransport_def)
  obtain udp where tp: "op_gos q = expected_gos udpPort tcpPort" "op_tp q = new_transport udp (0 \<le> tcpPort) False"
    using NewTransport_opened [OF q] by blast
  have inv: "tp_inv (op_tp q)" using tp_system.init_inv tp(2) unfolding tp_init_def by blast
  have inv1: "tp_inv ((op_tp q)\<lparr>tp_tlsCfg := True\<rparr>)" "tp_inv ((op_tp q)\<lparr>tp_tlsCfg := True, tp_tlsListener := l\<rparr>)" for l
    by (rule tp_inv_frame [OF inv]; simp)+
  have "\<not> tp_done (op_tp q)" using tp(2) by (simp add: new_transport_def)
  then show ?thesis
    using assms q tp(1) inv1 by (auto simp: NewTLSTransport_def Let_def TLSPort_def split: if_splits sum.splits)
qed

section \<open>The goroutines as steps of the transport\<close>

lemma readUDP_tp_step: "tp_step\<^sup>*\<^sup>* t (fst (readUDP_step ev t))"
proof (cases ev)
  case (Inr d)
  obtain data ip port where "d = (data, ip, port)" by (cases d) auto
  then show ?thesis
    using tp_step.datagram [OF prod.collapse [symmetric], where t = t and raw = "take read_buffer data" and src = "AddrFromUDP ip port"] Inr
    by (simp add: readUDP_step_def)
qed (simp add: readUDP_step_def)

lemma acceptStream_tp_step: "tp_step\<^sup>*\<^sup>* t (fst (acceptStream_step now ev t))"
proof (cases ev)
  case (Inr c)
  then show ?thesis
    using tp_step.accept [OF prod.collapse [symmetric], where now = now and c = c and t = t] by (simp add: acceptStream_step_def)
qed (simp add: acceptStream_step_def)

lemma readTCP_loop_tp_step: "readTCP_loop reads c sp t = Some (sp', t', ok) \<Longrightarrow> tp_step\<^sup>*\<^sup>* t t'"
proof (induction reads c sp t rule: readTCP_loop.induct)
  case (2 data failed rest c sp t)
  obtain sp1 t1 ok1 where r: "(if data = [] then Some (sp, t, True) else readTCP_step data (conn_src c) sp t) = Some (sp1, t1, ok1)"
    using "2.prems" by (auto split: option.splits)
  have t1: "tp_step\<^sup>*\<^sup>* t t1"
    using r tp_step.read [of data "conn_src c" sp t sp1 t1 ok1] by (auto split: if_splits)
  show ?case
  proof (cases "ok1 \<and> \<not> failed")
    case True
    then show ?thesis using "2.IH" [OF r refl refl] "2.prems" r t1 by simp
  next
    case False
    then have "t' = dropConn (connKey c) t1" using "2.prems" r by auto
    then show ?thesis using t1 tp_step.drop [of t1 "connKey c"] by (metis rtranclp.rtrancl_into_rtrancl)
  qed
qed simp

text \<open>Reads that deliver bytes and do not fail are the loop of \<open>readTCP_all\<close>.\<close>

lemma readTCP_loop_all:
  assumes "readTCP_all cs (conn_src c) sp t = Some (sp', t', True)" "list_all (\<lambda>x. x \<noteq> []) cs"
  shows "readTCP_loop (map (\<lambda>x. (x, False)) cs @ rest) c sp t = readTCP_loop rest c sp' t'"
  using assms
proof (induction cs arbitrary: sp t)
  case (Cons x cs)
  then obtain sp1 t1 where "readTCP_step x (conn_src c) sp t = Some (sp1, t1, True)" "readTCP_all cs (conn_src c) sp1 t1 = Some (sp', t', True)"
    by (auto split: option.splits bool.splits)
  then show ?case using Cons by simp
qed simp

section \<open>Properties\<close>

definition demo_listen :: Listen where
  "demo_listen = \<lparr>li_udp = (\<lambda>ip port. Inr ((case ip of Some a \<Rightarrow> a | None \<Rightarrow> replicate 16 0), if port = 0 then 49152 else port)),
     li_tcp = (\<lambda>ip port. if port = 5060 then Inl ErrOther else Inr (if port = 0 then 49153 else port))\<rparr>"

text \<open>A transport that opens without error has a socket and a reader for exactly the networks asked
  for, reports the ports its sockets are bound to, runs one janitor, and starts with an empty connection table
  and an empty packet queue.\<close>

theorem transport_opened:
  assumes "NewTransport li host udpPort tcpPort = (p, None)"
  shows "running p = [Janitor] @ (if 0 \<le> udpPort then [ReadUDP] else []) @ (if 0 \<le> tcpPort then [AcceptTCP] else []) \<and>
    (if 0 \<le> udpPort then \<exists>ip. li_udp li (ParseIP host) udpPort = Inr (ip, UDPPort p) \<and> tp_udp (op_tp p) \<noteq> None
     else UDPPort p = 0 \<and> tp_udp (op_tp p) = None) \<and>
    (if 0 \<le> tcpPort then li_tcp li (ParseIP host) tcpPort = Inr (TCPPort p) else TCPPort p = 0) \<and>
    tp_conns (op_tp p) = [] \<and> tp_packets (op_tp p) = [] \<and> tp_init (op_tp p)"
proof -
  obtain udp where tp: "op_gos p = expected_gos udpPort tcpPort" "op_tp p = new_transport udp (0 \<le> tcpPort) False"
      "udp \<noteq> None \<longleftrightarrow> 0 \<le> udpPort"
      and ports: "0 \<le> udpPort \<longrightarrow> (\<exists>ip. li_udp li (ParseIP host) udpPort = Inr (ip, UDPPort p))"
      "0 \<le> tcpPort \<longrightarrow> li_tcp li (ParseIP host) tcpPort = Inr (TCPPort p)"
    using NewTransport_opened [OF assms] by blast
  have "tp_init (op_tp p)" using tp(2) unfolding tp_init_def by blast
  then show ?thesis
    using tp ports by (auto simp: running_def expected_gos_def UDPPort_def TCPPort_def new_transport_def)
qed

theorem transport_opened_witness:
  "let p = fst (NewTransport demo_listen ''127.0.0.1'' 0 0)
   in running p = [Janitor, ReadUDP, AcceptTCP] \<and> UDPPort p = 49152 \<and> TCPPort p = 49153"
proof -
  let ?p = "fst (NewTransport demo_listen ''127.0.0.1'' 0 0)"
  have "NewTransport demo_listen ''127.0.0.1'' 0 0 = (?p, None)"
    by (simp add: NewTransport_def open_udp_def open_tcp_def demo_listen_def)
  from transport_opened [OF this] show ?thesis by (auto simp: Let_def demo_listen_def)
qed

text \<open>What a failed call leaves behind. When listening on TCP or TLS fails everything is released. When
  listening on UDP fails the janitor runs on for ever, and a TLS transport asked for without a TLS configuration
  leaves every socket open and every goroutine running, although the caller gets no transport to close.\<close>

theorem failed_opening_leaks:
  assumes "NewTLSTransport li host udpPort tcpPort tlsPort cfg = (p, Some e)"
  shows "(if 0 \<le> udpPort \<and> li_udp li (ParseIP host) udpPort = Inl e then running p = [Janitor] \<and> open_sockets p = 0
    else if \<not> cfg \<and> snd (NewTransport li host udpPort tcpPort) = None then
      running p = expected_gos udpPort tcpPort \<and> open_sockets p = of_bool (0 \<le> udpPort) + of_bool (0 \<le> tcpPort)
    else running p = [] \<and> open_sockets p = 0)"
proof (cases "snd (NewTransport li host udpPort tcpPort)")
  case (Some e')
  then have "NewTransport li host udpPort tcpPort = (p, Some e)" 
    using assms by (cases "NewTransport li host udpPort tcpPort") (auto simp: NewTLSTransport_def)
  then show ?thesis using NewTransport_failed Some by simp
next
  case None
  then obtain q where q: "NewTransport li host udpPort tcpPort = (q, None)" by (cases "NewTransport li host udpPort tcpPort") auto
  obtain udp where tp: "op_gos q = expected_gos udpPort tcpPort" "op_tp q = new_transport udp (0 \<le> tcpPort) False"
      "udp \<noteq> None \<longleftrightarrow> 0 \<le> udpPort" and port: "0 \<le> udpPort \<longrightarrow> (\<exists>ip. li_udp li (ParseIP host) udpPort = Inr (ip, UDPPort q))"
    using NewTransport_opened [OF q] by blast
  show ?thesis
  proof (cases cfg)
    case True
    then show ?thesis using NewTLSTransport_failed [of li host udpPort tcpPort tlsPort p e q] assms q port by auto
  next
    case False
    then have "p = q" using assms q by (simp add: NewTLSTransport_def)
    then show ?thesis using False tp port None by (auto simp: running_def open_sockets_def new_transport_def)
  qed
qed

theorem failed_opening_leaks_witness:
  "let p = fst (NewTLSTransport demo_listen ''127.0.0.1'' 5060 5061 5062 False)
   in running p = [Janitor, ReadUDP, AcceptTCP] \<and> open_sockets p = 2"
proof -
  let ?p = "fst (NewTLSTransport demo_listen ''127.0.0.1'' 5060 5061 5062 False)"
  have "NewTLSTransport demo_listen ''127.0.0.1'' 5060 5061 5062 False = (?p, Some ErrOther)"
    "snd (NewTransport demo_listen ''127.0.0.1'' 5060 5061) = None"
    by (simp_all add: NewTLSTransport_def NewTransport_def open_udp_def open_tcp_def demo_listen_def)
  from failed_opening_leaks [OF this(1)] this(2) show ?thesis
    by (simp add: Let_def demo_listen_def expected_gos_def)
qed

end
