(* ===== verification/Transaction.thy ===== *)
theory Transaction
  imports Transport
begin

text \<open>
  \<^verbatim>\<open>transaction.go\<close>: client and server transactions and the manager that owns them. Transaction objects
  are shared by pointer (the table, timers and goroutines all hold them), so they live in a heap
  \<open>m_heap\<close> under a number, and the table \<open>m_txs\<close> maps keys to numbers. A goroutine that retransmits is the
  pair of its local variables; a scheduled call of \<^verbatim>\<open>finish\<close> is an element of \<open>m_timers\<close>. The event
  channel of a client transaction is a list of at most 64 elements. \<open>c_starting\<close> is a ghost field: \<^verbatim>\<open>Request\<close>
  has sent the request and has not yet set the first state. The callbacks of the manager
  (\<^verbatim>\<open>OnRequest\<close>, \<^verbatim>\<open>OnResponse\<close>, \<^verbatim>\<open>OnError\<close>) belong to the layers above: an operation that calls one
  returns it as an \<open>Upcall\<close>. Random bytes are arguments.
\<close>

section \<open>Data\<close>

definition INVITE :: Method where "INVITE = ''INVITE''"
definition ACK :: Method where "ACK = ''ACK''"
definition CANCEL :: Method where "CANCEL = ''CANCEL''"

record TxConfig =
  T1 :: int
  T2 :: int
  TimerD :: int
  TimerF :: int
  TimerJ :: int

definition DefaultTxConfig :: TxConfig where
  "DefaultTxConfig = \<lparr>T1 = 500 * 1000000, T2 = 4 * 1000000000, TimerD = 32 * 1000000000,
     TimerF = 32 * 1000000000, TimerJ = 32 * 1000000000\<rparr>"

datatype TxState = TxStateIdle | TxStateCalling | TxStateTrying | TxStateProceeding | TxStateCompleted
  | TxStateConfirmed | TxStateTerminated

datatype TxEvent = EvResponse Response | EvErr error

record ClientTx =
  c_req :: Request
  c_key :: string
  c_dst :: Addr
  c_state :: TxState
  c_events :: "TxEvent list"
  c_terminated :: bool
  c_stop :: bool
  c_retransmit :: "(int \<times> int \<times> int) option"
  c_starting :: bool

record ServerTx =
  s_req :: Request
  s_key :: string
  s_src :: Addr
  s_state :: TxState
  s_final :: "Response option"
  s_terminated :: bool
  s_stop :: bool
  s_retransmit :: "int option"

datatype Tx = CTx ClientTx | STx ServerTx

datatype Upcall =
    OnRequest Request Addr "nat option"
  | OnResponse Response Addr nat
  | OnError error Addr

record TxManager =
  m_tp :: "Transport option"
  m_cfg :: TxConfig
  m_viaHost :: string
  m_viaPort :: int
  m_txs :: "string \<rightharpoonup> nat"
  m_heap :: "nat \<rightharpoonup> Tx"
  m_next :: nat
  m_timers :: "nat list"
  m_metrics :: "Metrics option"

definition NewTxManager :: "Transport option \<Rightarrow> string \<Rightarrow> int \<Rightarrow> TxManager" where
  "NewTxManager tp viaHost viaPort =
     \<lparr>m_tp = tp, m_cfg = DefaultTxConfig, m_viaHost = viaHost, m_viaPort = viaPort,
      m_txs = Map.empty, m_heap = Map.empty, m_next = 0, m_timers = [], m_metrics = None\<rparr>"

definition SetConfig :: "TxConfig \<Rightarrow> TxManager \<Rightarrow> TxManager" where
  "SetConfig cfg m = m\<lparr>m_cfg := cfg\<rparr>"

definition event_capacity :: nat where "event_capacity = 64"

section \<open>Keys\<close>

definition hex_byte :: "nat \<Rightarrow> string" where
  "hex_byte b = [digit_char (b div 16), digit_char (b mod 16)]"

text \<open>What the random generator answered: the bytes, or nothing; then the fallback mixes the time, the
  process number and a counter.\<close>

datatype Entropy = RandomBytes "nat list" | NoRandom (nanos: nat) (pid: nat) (counter: nat)

definition hex_padded :: "nat \<Rightarrow> nat \<Rightarrow> string" where
  "hex_padded w n = (let h = format_nat 16 n in replicate (w - length h) CHR ''0'' @ h)"

fun NewBranch :: "Entropy \<Rightarrow> string" where
  "NewBranch (RandomBytes b) = ''z9hG4bK'' @ concat (map hex_byte b)"
| "NewBranch (NoRandom t p n) = ''z9hG4bK'' @ hex_padded 16 t @ hex_padded 8 p @ hex_padded 4 (n mod 65536)"

fun NewCallID :: "Entropy \<Rightarrow> string" where
  "NewCallID (RandomBytes b) = concat (map hex_byte b) @ ''@localhost''"
| "NewCallID (NoRandom t p n) = format_nat 10 t @ ''@localhost''"

definition viaBranch :: "Request \<Rightarrow> string" where
  "viaBranch req = (case Request_Via req of None \<Rightarrow> [] | Some via \<Rightarrow> Via_Branch via)"

definition cseq_method :: "CSeq option \<Rightarrow> Method" where
  "cseq_method c = (case c of None \<Rightarrow> [] | Some q \<Rightarrow> CMethod q)"

definition serverTxKey :: "Request \<Rightarrow> string" where
  "serverTxKey req = ''S|'' @ viaBranch req @ ''|'' @ cseq_method (Request_CSeq req)"

definition clientTxKey :: "Request \<Rightarrow> string" where
  "clientTxKey req = ''C|'' @ viaBranch req @ ''|'' @ cseq_method (Request_CSeq req)"

definition clientTxKeyOf :: "Response \<Rightarrow> string" where
  "clientTxKeyOf resp = (case Response_Via resp of
     None \<Rightarrow> []
   | Some via \<Rightarrow> ''C|'' @ Via_Branch via @ ''|'' @ cseq_method (Response_CSeq resp))"

definition sameHost :: "string \<Rightarrow> string \<Rightarrow> bool" where
  "sameHost a b \<longleftrightarrow> EqualFold a b \<or>
     (case (ParseIP a, ParseIP b) of (Some ia, Some ib) \<Rightarrow> IP_Equal ia ib | _ \<Rightarrow> False)"

definition sameAddr :: "Addr \<Rightarrow> Addr \<Rightarrow> bool" where
  "sameAddr a b \<longleftrightarrow> a = b \<or> (APort a = APort b \<and> sameHost (AHost a) (AHost b))"

section \<open>Sending, the table, timers\<close>

definition message_uri :: "Message \<Rightarrow> Uri option" where
  "message_uri msg = (case msg of Req r \<Rightarrow> RUri r | Resp _ \<Rightarrow> None)"

definition send_target :: "Message \<Rightarrow> Addr \<Rightarrow> Addr" where
  "send_target msg dst =
     (let network = (if Network dst = [] then
            (case message_uri msg of Some u \<Rightarrow> fst (TransportFor u) | None \<Rightarrow> ''udp'')
          else Network dst);
          hp = (if APort dst = 0 then
            (case message_uri msg of Some u \<Rightarrow> snd (TransportFor u) | None \<Rightarrow> (AHost dst, APort dst))
          else (AHost dst, APort dst))
      in \<lparr>Network = network, AHost = fst hp, APort = snd hp\<rparr>)"

definition TxManager_send :: "OS \<Rightarrow> int \<Rightarrow> Message \<Rightarrow> Addr \<Rightarrow> TxManager \<Rightarrow> TxManager \<times> unit result" where
  "TxManager_send os now msg dst m = (case m_tp m of
     None \<Rightarrow> (m, Inl ErrTransportClosed)
   | Some tp \<Rightarrow>
       (let a = send_target msg dst in
        case Transport_Send os now (Network a) a msg tp of
          (tp', r) \<Rightarrow> (m\<lparr>m_tp := Some tp'\<rparr>, r)))"

definition TxManager_remove :: "string \<Rightarrow> TxManager \<Rightarrow> TxManager" where
  "TxManager_remove key m = m\<lparr>m_txs := (m_txs m)(key := None)\<rparr>"

definition schedule_finish :: "nat \<Rightarrow> TxManager \<Rightarrow> TxManager" where
  "schedule_finish i m = m\<lparr>m_timers := m_timers m @ [i]\<rparr>"

definition put_tx :: "nat \<Rightarrow> Tx \<Rightarrow> TxManager \<Rightarrow> TxManager" where
  "put_tx i t m = m\<lparr>m_heap := (m_heap m)(i \<mapsto> t)\<rparr>"

definition lookup_tx :: "string \<Rightarrow> TxManager \<Rightarrow> (nat \<times> Tx) option" where
  "lookup_tx key m = (case m_txs m key of
     None \<Rightarrow> None
   | Some i \<Rightarrow> (case m_heap m i of None \<Rightarrow> None | Some t \<Rightarrow> Some (i, t)))"

definition add_tx :: "string \<Rightarrow> Tx \<Rightarrow> TxManager \<Rightarrow> TxManager" where
  "add_tx key t m = m\<lparr>m_heap := (m_heap m)(m_next m \<mapsto> t), m_txs := (m_txs m)(key \<mapsto> m_next m),
     m_next := Suc (m_next m)\<rparr>"

definition inc_metric :: "string \<Rightarrow> TxManager \<Rightarrow> TxManager" where
  "inc_metric name m = m\<lparr>m_metrics := map_option (Metrics_Inc name) (m_metrics m)\<rparr>"

section \<open>Client transactions\<close>

definition ClientTx_finish :: "nat \<Rightarrow> ClientTx \<Rightarrow> TxManager \<Rightarrow> TxManager" where
  "ClientTx_finish i t m =
     TxManager_remove (c_key t) (put_tx i (CTx (t\<lparr>c_stop := True, c_terminated := True\<rparr>)) m)"

definition ClientTx_push :: "TxEvent \<Rightarrow> ClientTx \<Rightarrow> ClientTx" where
  "ClientTx_push e t = (if length (c_events t) < event_capacity then t\<lparr>c_events := c_events t @ [e]\<rparr> else t)"

definition ClientTx_deliver :: "nat \<Rightarrow> TxEvent \<Rightarrow> ClientTx \<Rightarrow> TxManager \<Rightarrow> ClientTx \<times> TxManager" where
  "ClientTx_deliver i e t m =
     (if length (c_events t) < event_capacity then (ClientTx_push e t, put_tx i (CTx (ClientTx_push e t)) m)
      else (t, inc_metric ''tx_events_dropped'' (put_tx i (CTx t) m)))"

definition add_opt :: "Header option \<Rightarrow> Headers \<Rightarrow> Headers" where
  "add_opt h hs = (case h of None \<Rightarrow> hs | Some g \<Rightarrow> Headers_Add (Header_Clone g) hs)"

text \<open>The end that \<^verbatim>\<open>sendACK\<close> and \<^verbatim>\<open>Cancel\<close> share: Call-ID, CSeq with the request's number, Max-Forwards.\<close>

definition follow_up :: "Method \<Rightarrow> Request \<Rightarrow> Headers \<Rightarrow> Headers" where
  "follow_up method req hs0 =
     (let hs1 = Headers_Set (NewHeader ''Call-ID'' (Request_CallID req)) hs0;
          hs2 = (case Request_CSeq req of
                   None \<Rightarrow> hs1
                 | Some c \<Rightarrow> Headers_Set (CSeqHeader \<lparr>Seq = Seq c, CMethod = method\<rparr>) hs1)
      in Headers_Set (MaxForwards 70) hs2)"

definition ack_request :: "Request \<Rightarrow> Response \<Rightarrow> Request result" where
  "ack_request req resp = (case Request_Via req of
     None \<Rightarrow> Inl GoPanic
   | Some via \<Rightarrow>
       (let hs0 = Headers_Add (ViaHeader (Via_Clone via)) [];
            hs1 = fold (\<lambda>h. Headers_Add (Header_Clone h)) (Headers_All ''Route'' (RHeaders req)) hs0;
            hs2 = add_opt (Headers_Get (RHeaders req) ''From'') hs1;
            hs3 = add_opt (Headers_Get (SHeaders resp) ''To'') hs2
        in Inr ((NewRequest ACK (RUri req))\<lparr>RHeaders := follow_up ACK req hs3\<rparr>)))"

definition ClientTx_sendACK :: "OS \<Rightarrow> int \<Rightarrow> ClientTx \<Rightarrow> Response \<Rightarrow> TxManager \<Rightarrow> TxManager result" where
  "ClientTx_sendACK os now t resp m =
     bind_result (ack_request (c_req t) resp) (\<lambda>ack. Inr (fst (TxManager_send os now (Req ack) (c_dst t) m)))"

definition ClientTx_receive :: "OS \<Rightarrow> int \<Rightarrow> nat \<Rightarrow> ClientTx \<Rightarrow> Response \<Rightarrow> TxManager \<Rightarrow> TxManager result" where
  "ClientTx_receive os now i t resp m =
     (if StatusCode resp < 200 then
        (if c_state t = TxStateCompleted \<or> c_state t = TxStateTerminated then Inr m
         else Inr (snd (ClientTx_deliver i (EvResponse resp) (t\<lparr>c_state := TxStateProceeding\<rparr>) m)))
      else if StatusCode resp < 300 then
        (if RMethod (c_req t) = INVITE then
           (let wasCompleted = (c_state t = TxStateCompleted);
                t1 = t\<lparr>c_state := TxStateCompleted\<rparr>;
                m1 = (if wasCompleted then put_tx i (CTx t1) m
                      else schedule_finish i (snd (ClientTx_deliver i (EvResponse resp) t1 m)))
            in ClientTx_sendACK os now t1 resp m1)
         else (case ClientTx_deliver i (EvResponse resp) t m of
            (t1, m1) \<Rightarrow> Inr (ClientTx_finish i t1 m1)))
      else
        (if c_state t = TxStateCompleted \<or> c_state t = TxStateTerminated then Inr m
         else (case ClientTx_deliver i (EvResponse resp) (t\<lparr>c_state := TxStateCompleted\<rparr>) m of
            (t1, m1) \<Rightarrow> bind_result (ClientTx_sendACK os now t1 resp m1) (\<lambda>m2. Inr (schedule_finish i m2)))))"

definition ClientTx_timeout :: "nat \<Rightarrow> ClientTx \<Rightarrow> TxManager \<Rightarrow> TxManager" where
  "ClientTx_timeout i t m =
     (if c_state t = TxStateCompleted \<or> c_state t = TxStateTerminated then m
      else ClientTx_finish i (ClientTx_push (EvErr ErrTimeout) t) m)"

definition retransmit_cap :: "TxConfig \<Rightarrow> Method \<Rightarrow> int" where
  "retransmit_cap cfg method = (if method = INVITE then T1 cfg * 2 else T2 cfg)"

text \<open>\<^verbatim>\<open>startRetransmit\<close>: the goroutine's variables are the time elapsed, the interval (first T1) and the
  cap of the interval. \<open>ClientTx_tick\<close> is its loop body once the timer fired; \<open>ClientTx_tick_stop\<close> is the
  other branch of the \<^verbatim>\<open>select\<close>.\<close>

definition ClientTx_startRetransmit :: "TxConfig \<Rightarrow> ClientTx \<Rightarrow> ClientTx" where
  "ClientTx_startRetransmit cfg t = t\<lparr>c_retransmit := Some (0, T1 cfg, retransmit_cap cfg (RMethod (c_req t)))\<rparr>"

definition ClientTx_tick :: "OS \<Rightarrow> int \<Rightarrow> nat \<Rightarrow> ClientTx \<Rightarrow> TxManager \<Rightarrow> TxManager" where
  "ClientTx_tick os now i t m = (case c_retransmit t of
     None \<Rightarrow> m
   | Some (elapsed, interval, capInterval) \<Rightarrow>
       (let t0 = t\<lparr>c_retransmit := None\<rparr> in
        if c_state t = TxStateCompleted \<or> c_state t = TxStateTerminated then put_tx i (CTx t0) m
        else if RMethod (c_req t) = INVITE \<and> c_state t = TxStateProceeding then put_tx i (CTx t0) m
        else
          (let m1 = fst (TxManager_send os now (Req (c_req t)) (c_dst t) m);
               elapsed' = elapsed + interval
           in if TimerF (m_cfg m) \<le> elapsed' then ClientTx_timeout i t0 (put_tx i (CTx t0) m1)
              else put_tx i (CTx (t\<lparr>c_retransmit := Some (elapsed', min (interval * 2) capInterval, capInterval)\<rparr>)) m1)))"

definition ClientTx_tick_stop :: "nat \<Rightarrow> ClientTx \<Rightarrow> TxManager \<Rightarrow> TxManager" where
  "ClientTx_tick_stop i t m = (if c_stop t then put_tx i (CTx (t\<lparr>c_retransmit := None\<rparr>)) m else m)"

definition cancel_request :: "Request \<Rightarrow> Request" where
  "cancel_request req =
     (let hs0 = (case Request_Via req of None \<Rightarrow> [] | Some via \<Rightarrow> Headers_Add (ViaHeader (Via_Clone via)) []);
          hs1 = add_opt (Headers_Get (RHeaders req) ''From'') hs0;
          hs2 = add_opt (Headers_Get (RHeaders req) ''To'') hs1
      in (NewRequest CANCEL (RUri req))\<lparr>RHeaders := follow_up CANCEL req hs2\<rparr>)"

definition ClientTx_Cancel :: "OS \<Rightarrow> int \<Rightarrow> ClientTx \<Rightarrow> TxManager \<Rightarrow> TxManager \<times> unit result" where
  "ClientTx_Cancel os now t m =
     (if c_state t = TxStateProceeding \<or> c_state t = TxStateCalling
      then TxManager_send os now (Req (cancel_request (c_req t))) (c_dst t) m
      else (m, Inl ErrUnsupported))"

section \<open>Server transactions\<close>

definition ServerTx_finish :: "nat \<Rightarrow> ServerTx \<Rightarrow> TxManager \<Rightarrow> TxManager" where
  "ServerTx_finish i t m =
     TxManager_remove (s_key t) (put_tx i (STx (t\<lparr>s_stop := True, s_terminated := True\<rparr>)) m)"

definition isInvite :: "ServerTx \<Rightarrow> bool" where
  "isInvite t \<longleftrightarrow> RMethod (s_req t) = INVITE"

definition ServerTx_receiveRetransmission :: "OS \<Rightarrow> int \<Rightarrow> ServerTx \<Rightarrow> TxManager \<Rightarrow> TxManager" where
  "ServerTx_receiveRetransmission os now t m = (case s_final t of
     Some final \<Rightarrow>
       if s_state t = TxStateCompleted \<or> s_state t = TxStateConfirmed
       then fst (TxManager_send os now (Resp final) (s_src t) m) else m
   | None \<Rightarrow> m)"

definition ServerTx_receiveACK :: "nat \<Rightarrow> ServerTx \<Rightarrow> TxManager \<Rightarrow> TxManager" where
  "ServerTx_receiveACK i t m =
     (if \<not> isInvite t then m
      else if s_state t = TxStateCompleted
      then schedule_finish i (put_tx i (STx (t\<lparr>s_state := TxStateConfirmed\<rparr>)) m)
      else m)"

definition set_missing :: "string \<Rightarrow> Header option \<Rightarrow> Headers \<Rightarrow> Headers" where
  "set_missing name h hs = (if Headers_Get hs name = None then add_opt h hs else hs)"

text \<open>The headers \<^verbatim>\<open>Respond\<close> completes the response with.\<close>

definition respond_headers :: "Request \<Rightarrow> Headers \<Rightarrow> Headers" where
  "respond_headers req hs0 =
     (let hs1 = (case Request_CSeq req of
                   None \<Rightarrow> hs0
                 | Some c \<Rightarrow> Headers_Set (CSeqHeader \<lparr>Seq = Seq c, CMethod = CMethod c\<rparr>) hs0);
          hs2 = (case Request_Via req of None \<Rightarrow> hs1 | Some via \<Rightarrow> Headers_Prepend (ViaHeader (Via_Clone via)) hs1);
          hs3 = set_missing ''From'' (Headers_Get (RHeaders req) ''From'') hs2;
          hs4 = set_missing ''To'' (Headers_Get (RHeaders req) ''To'') hs3;
          hs5 = (if Headers_Get hs4 ''Call-ID'' = None
                 then Headers_Set (NewHeader ''Call-ID'' (Request_CallID req)) hs4 else hs4)
      in if Headers_All ''Record-Route'' hs5 = []
         then fold (\<lambda>h. Headers_Add (Header_Clone h)) (Headers_All ''Record-Route'' (RHeaders req)) hs5
         else hs5)"

definition ServerTx_startFinalRetransmit :: "TxConfig \<Rightarrow> ServerTx \<Rightarrow> ServerTx" where
  "ServerTx_startFinalRetransmit cfg t = t\<lparr>s_retransmit := Some (T1 cfg)\<rparr>"

text \<open>\<^verbatim>\<open>Respond\<close> completes the response in place and keeps the pointer; a caller that changed the response
  afterwards, or passed it again, would change what is retransmitted. The model stores the value sent.\<close>

definition ServerTx_Respond :: "OS \<Rightarrow> int \<Rightarrow> nat \<Rightarrow> ServerTx \<Rightarrow> Response \<Rightarrow> TxManager \<Rightarrow> TxManager \<times> unit result" where
  "ServerTx_Respond os now i t resp0 m =
     (if StatusCode resp0 < 100 \<or> StatusCode resp0 > 699 then (m, Inl ErrInvalidResponse)
      else
        (let resp = resp0\<lparr>SHeaders := respond_headers (s_req t) (SHeaders resp0)\<rparr> in
         if StatusCode resp < 200 then
           (if s_state t = TxStateCompleted \<or> s_state t = TxStateConfirmed \<or> s_state t = TxStateTerminated
            then (m, Inl ErrTxTerminated)
            else TxManager_send os now (Resp resp) (s_src t)
                   (put_tx i (STx (t\<lparr>s_state := TxStateProceeding\<rparr>)) m))
         else if s_final t \<noteq> None then (m, Inr ())
         else
           (let t1 = t\<lparr>s_final := Some resp, s_state := TxStateCompleted\<rparr> in
            case TxManager_send os now (Resp resp) (s_src t) (put_tx i (STx t1) m) of
              (m1, r) \<Rightarrow>
                if isInvite t then
                  (case r of
                     Inl e \<Rightarrow> (m1, Inl e)
                   | Inr _ \<Rightarrow> (schedule_finish i (put_tx i (STx (ServerTx_startFinalRetransmit (m_cfg m1) t1)) m1), Inr ()))
                else (schedule_finish i m1, r))))"

definition ServerTx_tick :: "OS \<Rightarrow> int \<Rightarrow> nat \<Rightarrow> ServerTx \<Rightarrow> TxManager \<Rightarrow> TxManager" where
  "ServerTx_tick os now i t m = (case s_retransmit t of
     None \<Rightarrow> m
   | Some interval \<Rightarrow>
       if s_state t \<noteq> TxStateCompleted then put_tx i (STx (t\<lparr>s_retransmit := None\<rparr>)) m
       else (case s_final t of
         None \<Rightarrow> put_tx i (STx (t\<lparr>s_retransmit := None\<rparr>)) m
       | Some final \<Rightarrow>
           (let m1 = fst (TxManager_send os now (Resp final) (s_src t) m)
            in put_tx i (STx (t\<lparr>s_retransmit := Some (min (interval * 2) (T2 (m_cfg m1)))\<rparr>)) m1)))"

definition ServerTx_tick_stop :: "nat \<Rightarrow> ServerTx \<Rightarrow> TxManager \<Rightarrow> TxManager" where
  "ServerTx_tick_stop i t m = (if s_stop t then put_tx i (STx (t\<lparr>s_retransmit := None\<rparr>)) m else m)"

section \<open>The manager\<close>

definition defaultTransport :: "TxManager \<Rightarrow> string" where
  "defaultTransport m = (case m_tp m of
     None \<Rightarrow> ''UDP''
   | Some tp \<Rightarrow> if tp_udp tp \<noteq> None then ''UDP'' else if tp_tcpListener tp then ''TCP'' else ''UDP'')"

text \<open>The headers \<^verbatim>\<open>Request\<close> completes the request with.\<close>

definition complete_request :: "Entropy \<Rightarrow> Entropy \<Rightarrow> TxManager \<Rightarrow> Request \<Rightarrow> Request" where
  "complete_request branch callid m req =
     (let via = Via_SetBranch (NewBranch branch) \<lparr>VProto = ''SIP/2.0/'' @ defaultTransport m, VTransport = [],
            VHost = m_viaHost m, VPort = m_viaPort m, VParams = Some NewParams\<rparr>;
          hs0 = RHeaders req;
          hs1 = (if Request_Via req = None \<and> Headers_Get hs0 ''Via'' = None then Headers_Add (ViaHeader via) hs0 else hs0);
          hs2 = (if Headers_Get hs1 ''Max-Forwards'' = None then Headers_Set (MaxForwards 70) hs1 else hs1);
          hs3 = (if Headers_Get hs2 ''Call-ID'' = None
                 then Headers_Set (NewHeader ''Call-ID'' (NewCallID callid)) hs2 else hs2);
          hs4 = (if Headers_Get hs3 ''CSeq'' = None
                 then Headers_Set (CSeqHeader \<lparr>Seq = 1, CMethod = RMethod req\<rparr>) hs3 else hs3)
      in req\<lparr>RHeaders := hs4\<rparr>)"

definition new_client_tx :: "Request \<Rightarrow> string \<Rightarrow> Addr \<Rightarrow> ClientTx" where
  "new_client_tx req key dst = \<lparr>c_req = req, c_key = key, c_dst = dst, c_state = TxStateIdle, c_events = [],
     c_terminated = False, c_stop = False, c_retransmit = None, c_starting = True\<rparr>"

text \<open>\<^verbatim>\<open>Request\<close> releases the manager's lock while it sends, and a response may be handled before it sets
  the first state: its two halves are \<open>Request_begin\<close> (register and send) and \<open>Request_end\<close>.\<close>

definition Request_begin ::
    "OS \<Rightarrow> int \<Rightarrow> Entropy \<Rightarrow> Entropy \<Rightarrow> Request \<Rightarrow> Addr \<Rightarrow> TxManager \<Rightarrow> TxManager \<times> nat result" where
  "Request_begin os now branch callid req0 dst m =
     (let req = complete_request branch callid m req0; key = clientTxKey req in
      if m_txs m key \<noteq> None then (m, Inl ErrTxExists)
      else
        (case TxManager_send os now (Req req) dst (add_tx key (CTx (new_client_tx req key dst)) m) of
           (m1, Inl e) \<Rightarrow> (TxManager_remove key m1, Inl e)
         | (m1, Inr _) \<Rightarrow> (m1, Inr (m_next m))))"

definition Request_end :: "nat \<Rightarrow> ClientTx \<Rightarrow> TxManager \<Rightarrow> TxManager" where
  "Request_end i ctx m =
     put_tx i (CTx (ClientTx_startRetransmit (m_cfg m)
       (ctx\<lparr>c_state := (if RMethod (c_req ctx) = INVITE then TxStateCalling else TxStateTrying), c_starting := False\<rparr>))) m"

definition TxManager_Request ::
    "OS \<Rightarrow> int \<Rightarrow> Entropy \<Rightarrow> Entropy \<Rightarrow> Request \<Rightarrow> Addr \<Rightarrow> TxManager \<Rightarrow> TxManager \<times> nat result" where
  "TxManager_Request os now branch callid req dst m = (case Request_begin os now branch callid req dst m of
     (m1, Inl e) \<Rightarrow> (m1, Inl e)
   | (m1, Inr i) \<Rightarrow> (case m_heap m1 i of
       Some (CTx ctx) \<Rightarrow> (Request_end i ctx m1, Inr i)
     | _ \<Rightarrow> (m1, Inr i)))"

definition new_server_tx :: "Request \<Rightarrow> string \<Rightarrow> Addr \<Rightarrow> ServerTx" where
  "new_server_tx req key src = \<lparr>s_req = req, s_key = key, s_src = src, s_state = TxStateProceeding, s_final = None,
     s_terminated = False, s_stop = False, s_retransmit = None\<rparr>"

definition handleRequest :: "OS \<Rightarrow> int \<Rightarrow> Request \<Rightarrow> Addr \<Rightarrow> TxManager \<Rightarrow> TxManager \<times> Upcall option" where
  "handleRequest os now req src m =
     (let method = cseq_method (Request_CSeq req);
          inviteKey = ''S|'' @ viaBranch req @ ''|INVITE'';
          key = serverTxKey req
      in
      if method = ACK then
        (case lookup_tx inviteKey m of
           Some (i, STx stx) \<Rightarrow> (ServerTx_receiveACK i stx m, None)
         | _ \<Rightarrow> (m, Some (OnRequest req src None)))
      else if method = CANCEL \<and>
              (case lookup_tx inviteKey m of Some (i, STx stx) \<Rightarrow> \<not> sameAddr src (s_src stx) | _ \<Rightarrow> False) then
        (m, Some (OnError ErrTxNotFound src))
      else
        (case lookup_tx key m of
           Some (i, STx stx) \<Rightarrow> (ServerTx_receiveRetransmission os now stx m, None)
         | _ \<Rightarrow>
             if key = [] then (m, None)
             else (add_tx key (STx (new_server_tx req key src)) m, Some (OnRequest req src (Some (m_next m))))))"

definition handleResponse :: "OS \<Rightarrow> int \<Rightarrow> Response \<Rightarrow> Addr \<Rightarrow> TxManager \<Rightarrow> (TxManager \<times> Upcall option) result" where
  "handleResponse os now resp src m =
     (let key = clientTxKeyOf resp in
      if key = [] then Inr (m, None)
      else (case lookup_tx key m of
        Some (i, CTx ctx) \<Rightarrow>
          bind_result (ClientTx_receive os now i ctx resp m) (\<lambda>m1. Inr (m1, Some (OnResponse resp src i)))
      | _ \<Rightarrow> Inr (m, Some (OnError ErrTxNotFound src))))"

definition handlePacket :: "OS \<Rightarrow> int \<Rightarrow> Packet \<Rightarrow> TxManager \<Rightarrow> (TxManager \<times> Upcall option) result" where
  "handlePacket os now pkt m0 =
     (let m = inc_metric ''packets_received'' m0 in
      case Msg pkt of
        Req r \<Rightarrow> Inr (handleRequest os now r (Src pkt) m)
      | Resp r \<Rightarrow> handleResponse os now r (Src pkt) m)"

text \<open>A scheduled \<^verbatim>\<open>finish\<close> fires.\<close>

definition finish_tx :: "nat \<Rightarrow> TxManager \<Rightarrow> TxManager" where
  "finish_tx i m = (case m_heap m i of
     None \<Rightarrow> m
   | Some (CTx t) \<Rightarrow> ClientTx_finish i t m
   | Some (STx t) \<Rightarrow> ServerTx_finish i t m)"

section \<open>Runs\<close>

text \<open>One step of the system: a packet arrives, the application calls the manager or reads an event, a
  timer fires, a goroutine runs its loop body or the application uses the transport directly. What the network answers is free in every step.\<close>

inductive tx_step :: "TxManager \<Rightarrow> TxManager \<Rightarrow> bool" where
  packet: "handlePacket os now pkt m = Inr (m', u) \<Longrightarrow> tx_step m m'"
| request_begin: "Request_begin os now br ci req dst m = (m', r) \<Longrightarrow> tx_step m m'"
| request_end: "m_heap m i = Some (CTx t) \<Longrightarrow> c_starting t \<Longrightarrow> tx_step m (Request_end i t m)"
| respond: "m_heap m i = Some (STx t) \<Longrightarrow> ServerTx_Respond os now i t resp m = (m', r) \<Longrightarrow> tx_step m m'"
| cancel: "m_heap m i = Some (CTx t) \<Longrightarrow> ClientTx_Cancel os now t m = (m', r) \<Longrightarrow> tx_step m m'"
| timer: "i \<in> set (m_timers m) \<Longrightarrow> tx_step m (finish_tx i (m\<lparr>m_timers := remove1 i (m_timers m)\<rparr>))"
| client_tick: "m_heap m i = Some (CTx t) \<Longrightarrow> tx_step m (ClientTx_tick os now i t m)"
| client_stop: "m_heap m i = Some (CTx t) \<Longrightarrow> tx_step m (ClientTx_tick_stop i t m)"
| server_tick: "m_heap m i = Some (STx t) \<Longrightarrow> tx_step m (ServerTx_tick os now i t m)"
| server_stop: "m_heap m i = Some (STx t) \<Longrightarrow> tx_step m (ServerTx_tick_stop i t m)"
| read_event: "m_heap m i = Some (CTx t) \<Longrightarrow> c_events t = e # es \<Longrightarrow>
    tx_step m (put_tx i (CTx (t\<lparr>c_events := es\<rparr>)) m)"
| config: "tx_step m (SetConfig cfg m)"
| raw_send: "m_tp m = Some tp \<Longrightarrow> Transport_Send os now network dst msg tp = (tp', r) \<Longrightarrow> tx_step m (m\<lparr>m_tp := Some tp'\<rparr>)"

definition tx_init :: "TxManager \<Rightarrow> bool" where
  "tx_init m \<longleftrightarrow> m_txs m = Map.empty \<and> m_heap m = Map.empty \<and> m_timers m = []"

definition tx_reachable :: "TxManager \<Rightarrow> bool" where
  "tx_reachable m \<longleftrightarrow> (\<exists>tp host port. tx_step\<^sup>*\<^sup>* (NewTxManager tp host port) m)"

inductive_cases tx_stepE: "tx_step m m'"

end
