(* ===== verification/TransactionCorrect.thy ===== *)
theory TransactionCorrect
  imports Transaction
begin

text \<open>
  The transaction layer as a state machine: the invariant of the table and of every transaction object,
  what no step ever undoes, when a transaction ends, and what the layer does to a retransmission, an ACK
  and a CANCEL.
\<close>

section \<open>The invariant\<close>

fun tx_key :: "Tx \<Rightarrow> string" where
  "tx_key (CTx t) = c_key t"
| "tx_key (STx t) = s_key t"

fun tx_terminated :: "Tx \<Rightarrow> bool" where
  "tx_terminated (CTx t) = c_terminated t"
| "tx_terminated (STx t) = s_terminated t"

definition client_ok :: "ClientTx \<Rightarrow> bool" where
  "client_ok t \<longleftrightarrow> length (c_events t) \<le> event_capacity \<and> c_stop t = c_terminated t \<and>
     c_key t = clientTxKey (c_req t) \<and> c_state t \<notin> {TxStateConfirmed, TxStateTerminated}"

definition server_ok :: "ServerTx \<Rightarrow> bool" where
  "server_ok t \<longleftrightarrow> s_stop t = s_terminated t \<and> s_key t = serverTxKey (s_req t) \<and>
     s_state t \<in> {TxStateProceeding, TxStateCompleted, TxStateConfirmed} \<and>
     (s_final t = None \<longleftrightarrow> s_state t = TxStateProceeding) \<and>
     (\<forall>f. s_final t = Some f \<longrightarrow> 200 \<le> StatusCode f \<and> StatusCode f \<le> 699) \<and>
     (s_state t = TxStateConfirmed \<longrightarrow> isInvite t)"

fun tx_ok :: "Tx \<Rightarrow> bool" where
  "tx_ok (CTx t) = client_ok t"
| "tx_ok (STx t) = server_ok t"

definition tx_inv :: "TxManager \<Rightarrow> bool" where
  "tx_inv m \<longleftrightarrow>
     (\<forall>k i. m_txs m k = Some i \<longrightarrow> (\<exists>t. m_heap m i = Some t \<and> tx_key t = k \<and> \<not> tx_terminated t)) \<and>
     (\<forall>i t. m_heap m i = Some t \<longrightarrow> i < m_next m \<and> tx_ok t)"

lemma tx_invI [intro?]:
  assumes "\<And>k i. m_txs m k = Some i \<Longrightarrow> \<exists>t. m_heap m i = Some t \<and> tx_key t = k \<and> \<not> tx_terminated t"
    and "\<And>i t. m_heap m i = Some t \<Longrightarrow> i < m_next m \<and> tx_ok t"
  shows "tx_inv m"
  using assms by (simp add: tx_inv_def)

lemma tx_inv_table: "tx_inv m \<Longrightarrow> m_txs m k = Some i \<Longrightarrow> \<exists>t. m_heap m i = Some t \<and> tx_key t = k \<and> \<not> tx_terminated t"
  by (simp add: tx_inv_def)

lemma tx_inv_heap: "tx_inv m \<Longrightarrow> m_heap m i = Some t \<Longrightarrow> i < m_next m \<and> tx_ok t"
  by (simp add: tx_inv_def)

section \<open>What an operation may do to one transaction\<close>

fun state_rank :: "TxState \<Rightarrow> nat" where
  "state_rank TxStateProceeding = 0"
| "state_rank TxStateCompleted = 1"
| "state_rank _ = 2"

definition client_le :: "ClientTx \<Rightarrow> ClientTx \<Rightarrow> bool" where
  "client_le t t' \<longleftrightarrow> c_req t' = c_req t \<and> c_key t' = c_key t \<and> c_dst t' = c_dst t \<and>
     (c_terminated t \<longrightarrow> c_terminated t') \<and> (\<not> c_starting t \<longrightarrow> \<not> c_starting t') \<and>
     (c_state t = TxStateCompleted \<and> \<not> c_starting t \<longrightarrow> c_state t' = TxStateCompleted)"

definition server_le :: "ServerTx \<Rightarrow> ServerTx \<Rightarrow> bool" where
  "server_le t t' \<longleftrightarrow> s_req t' = s_req t \<and> s_key t' = s_key t \<and> s_src t' = s_src t \<and>
     (s_terminated t \<longrightarrow> s_terminated t') \<and> (s_final t \<noteq> None \<longrightarrow> s_final t' = s_final t) \<and>
     state_rank (s_state t) \<le> state_rank (s_state t')"

fun tx_le :: "Tx \<Rightarrow> Tx \<Rightarrow> bool" where
  "tx_le (CTx t) (CTx t') = client_le t t'"
| "tx_le (STx t) (STx t') = server_le t t'"
| "tx_le _ _ = False"

lemma tx_le_refl [simp]: "tx_le t t"
  by (cases t) (simp_all add: client_le_def server_le_def)

lemma tx_le_trans: "tx_le t u \<Longrightarrow> tx_le u v \<Longrightarrow> tx_le t v"
  by (cases t; cases u; cases v) (auto simp: client_le_def server_le_def)

lemma tx_le_key: "tx_le t t' \<Longrightarrow> tx_key t' = tx_key t"
  by (cases t; cases t') (auto simp: client_le_def server_le_def)

text \<open>The operation replaces the transaction \<open>i\<close> by one that evolved from it and, if it finished it, takes
  its key out of the table; nothing else of the table and the heap changes.\<close>

definition evolves :: "nat \<Rightarrow> Tx \<Rightarrow> TxManager \<Rightarrow> TxManager \<Rightarrow> bool" where
  "evolves i t m m' \<longleftrightarrow> (\<exists>t' fin. m_heap m' = (m_heap m)(i \<mapsto> t') \<and> m_next m' = m_next m \<and>
     m_txs m' = (if fin then (m_txs m)(tx_key t := None) else m_txs m) \<and>
     tx_ok t' \<and> tx_le t t' \<and> (fin \<or> tx_terminated t' = tx_terminated t))"

lemma evolvesI:
  assumes "m_heap m' = (m_heap m)(i \<mapsto> t')" "m_next m' = m_next m" "m_txs m' = m_txs m"
    "tx_ok t'" "tx_le t t'" "tx_terminated t' = tx_terminated t"
  shows "evolves i t m m'"
  unfolding evolves_def by (rule exI [of _ t'], rule exI [of _ False]) (use assms in simp)

lemma evolves_finishI:
  assumes "m_heap m' = (m_heap m)(i \<mapsto> t')" "m_next m' = m_next m" "m_txs m' = (m_txs m)(tx_key t := None)"
    "tx_ok t'" "tx_le t t'"
  shows "evolves i t m m'"
  unfolding evolves_def by (rule exI [of _ t'], rule exI [of _ True]) (use assms in simp)

lemma evolves_refl: "m_heap m i = Some t \<Longrightarrow> tx_ok t \<Longrightarrow> m_heap m' = m_heap m \<Longrightarrow> m_next m' = m_next m \<Longrightarrow>
    m_txs m' = m_txs m \<Longrightarrow> evolves i t m m'"
  by (rule evolvesI [of _ _ _ t]) (simp_all add: map_upd_triv)

lemma evolves_inv:
  assumes "tx_inv m" "m_heap m i = Some t" "evolves i t m m'"
  shows "tx_inv m'"
proof -
  from assms(3) obtain t' fin where e: "m_heap m' = (m_heap m)(i \<mapsto> t')" "m_next m' = m_next m"
    "m_txs m' = (if fin then (m_txs m)(tx_key t := None) else m_txs m)"
    "tx_ok t'" "tx_le t t'" "fin \<or> tx_terminated t' = tx_terminated t"
    by (auto simp: evolves_def)
  show ?thesis
  proof
    fix k j assume k: "m_txs m' k = Some j"
    then have k': "m_txs m k = Some j" "fin \<longrightarrow> k \<noteq> tx_key t" using e(3) by (auto split: if_splits)
    obtain s where s: "m_heap m j = Some s" "tx_key s = k" "\<not> tx_terminated s"
      using tx_inv_table [OF assms(1) k'(1)] by blast
    show "\<exists>s. m_heap m' j = Some s \<and> tx_key s = k \<and> \<not> tx_terminated s"
    proof (cases "j = i")
      case True
      then show ?thesis using s assms(2) e k' tx_le_key [OF e(5)] by (cases fin) auto
    qed (use s e(1) in auto)
  next
    fix j s assume "m_heap m' j = Some s"
    then show "j < m_next m' \<and> tx_ok s"
      using tx_inv_heap [OF assms(1)] assms(2) e by (auto split: if_splits)
  qed
qed

section \<open>Frames of the building blocks\<close>

lemma send_frame [simp]:
  "m_txs (fst (TxManager_send os now msg dst m)) = m_txs m"
  "m_heap (fst (TxManager_send os now msg dst m)) = m_heap m"
  "m_next (fst (TxManager_send os now msg dst m)) = m_next m"
  "m_cfg (fst (TxManager_send os now msg dst m)) = m_cfg m"
  "m_timers (fst (TxManager_send os now msg dst m)) = m_timers m"
  by (simp_all add: TxManager_send_def Let_def split: option.splits prod.splits)

lemma block_frame [simp]:
  "m_heap (put_tx i t m) = (m_heap m)(i \<mapsto> t)" "m_txs (put_tx i t m) = m_txs m"
  "m_next (put_tx i t m) = m_next m" "m_cfg (put_tx i t m) = m_cfg m" "m_timers (put_tx i t m) = m_timers m"
  "m_heap (schedule_finish i m) = m_heap m" "m_txs (schedule_finish i m) = m_txs m"
  "m_next (schedule_finish i m) = m_next m" "m_cfg (schedule_finish i m) = m_cfg m"
  "m_heap (inc_metric n m) = m_heap m" "m_txs (inc_metric n m) = m_txs m"
  "m_next (inc_metric n m) = m_next m" "m_cfg (inc_metric n m) = m_cfg m" "m_timers (inc_metric n m) = m_timers m"
  "m_heap (TxManager_remove k m) = m_heap m" "m_txs (TxManager_remove k m) = (m_txs m)(k := None)"
  "m_next (TxManager_remove k m) = m_next m" "m_timers (TxManager_remove k m) = m_timers m"
  "m_heap (add_tx k t m) = (m_heap m)(m_next m \<mapsto> t)" "m_txs (add_tx k t m) = (m_txs m)(k \<mapsto> m_next m)"
  "m_next (add_tx k t m) = Suc (m_next m)" "m_cfg (add_tx k t m) = m_cfg m"
  "m_heap (SetConfig cfg m) = m_heap m" "m_txs (SetConfig cfg m) = m_txs m" "m_next (SetConfig cfg m) = m_next m"
  by (simp_all add: put_tx_def schedule_finish_def inc_metric_def TxManager_remove_def add_tx_def SetConfig_def)

lemma push_frame [simp]:
  "c_key (ClientTx_push e t) = c_key t" "c_terminated (ClientTx_push e t) = c_terminated t"
  "c_state (ClientTx_push e t) = c_state t" "c_req (ClientTx_push e t) = c_req t"
  "c_dst (ClientTx_push e t) = c_dst t" "c_stop (ClientTx_push e t) = c_stop t"
  "c_starting (ClientTx_push e t) = c_starting t"
  by (simp_all add: ClientTx_push_def)

lemma push_length: "length (c_events t) \<le> event_capacity \<Longrightarrow> length (c_events (ClientTx_push e t)) \<le> event_capacity"
  by (simp add: ClientTx_push_def)

lemma deliver_frame [simp]:
  "fst (ClientTx_deliver i e t m) = ClientTx_push e t"
  "m_heap (snd (ClientTx_deliver i e t m)) = (m_heap m)(i \<mapsto> CTx (ClientTx_push e t))"
  "m_txs (snd (ClientTx_deliver i e t m)) = m_txs m" "m_next (snd (ClientTx_deliver i e t m)) = m_next m"
  "m_cfg (snd (ClientTx_deliver i e t m)) = m_cfg m"
  by (simp_all add: ClientTx_deliver_def ClientTx_push_def)

lemma sendACK_frame:
  "ClientTx_sendACK os now t resp m = Inr m' \<Longrightarrow>
     m_heap m' = m_heap m \<and> m_txs m' = m_txs m \<and> m_next m' = m_next m \<and> m_cfg m' = m_cfg m \<and> m_timers m' = m_timers m"
  by (auto simp: ClientTx_sendACK_def bind_result_eq_Inr)

section \<open>Client operations\<close>

lemma client_finish_evolves:
  assumes "client_ok t" "client_le t0 t" "m_heap m = h(i \<mapsto> x)" "m_next m = m_next m0" "m_txs m = m_txs m0" "h = m_heap m0"
  shows "evolves i (CTx t0) m0 (ClientTx_finish i t m)"
  using assms
  by (intro evolves_finishI [of _ _ _ "CTx (t\<lparr>c_stop := True, c_terminated := True\<rparr>)"])
     (auto simp: ClientTx_finish_def client_ok_def client_le_def)

lemma receive_cases:
  assumes "ClientTx_receive os now i t resp m = Inr m'"
  obtains (same) "m' = m"
    | (prov) "c_state t \<noteq> TxStateCompleted"
        "m' = snd (ClientTx_deliver i (EvResponse resp) (t\<lparr>c_state := TxStateProceeding\<rparr>) m)"
    | (again) "c_state t = TxStateCompleted"
        "ClientTx_sendACK os now (t\<lparr>c_state := TxStateCompleted\<rparr>) resp (put_tx i (CTx (t\<lparr>c_state := TxStateCompleted\<rparr>)) m) = Inr m'"
    | (first) "ClientTx_sendACK os now (t\<lparr>c_state := TxStateCompleted\<rparr>) resp
        (schedule_finish i (snd (ClientTx_deliver i (EvResponse resp) (t\<lparr>c_state := TxStateCompleted\<rparr>) m))) = Inr m'"
    | (ended) "m' = ClientTx_finish i (ClientTx_push (EvResponse resp) t) (snd (ClientTx_deliver i (EvResponse resp) t m))"
    | (failed) m2 where "ClientTx_sendACK os now (ClientTx_push (EvResponse resp) (t\<lparr>c_state := TxStateCompleted\<rparr>)) resp
        (snd (ClientTx_deliver i (EvResponse resp) (t\<lparr>c_state := TxStateCompleted\<rparr>) m)) = Inr m2" "m' = schedule_finish i m2"
proof (cases "StatusCode resp < 200")
  case True
  then show ?thesis
    using assms same prov by (cases "c_state t = TxStateCompleted \<or> c_state t = TxStateTerminated") (auto simp: ClientTx_receive_def)
next
  case p: False
  show ?thesis
  proof (cases "StatusCode resp < 300")
    case True
    show ?thesis
    proof (cases "RMethod (c_req t) = INVITE")
      case True
      then show ?thesis
        using assms p \<open>StatusCode resp < 300\<close> again first
        by (cases "c_state t = TxStateCompleted") (simp_all add: ClientTx_receive_def Let_def)
    next
      case False
      then show ?thesis
        using assms p True by (intro ended) (simp add: ClientTx_receive_def case_prod_beta)
    qed
  next
    case False
    show ?thesis
    proof (cases "c_state t = TxStateCompleted \<or> c_state t = TxStateTerminated")
      case True
      then show ?thesis using assms p False by (intro same) (simp add: ClientTx_receive_def)
    next
      case nc: False
      then obtain m2 where "ClientTx_sendACK os now (ClientTx_push (EvResponse resp) (t\<lparr>c_state := TxStateCompleted\<rparr>)) resp
        (snd (ClientTx_deliver i (EvResponse resp) (t\<lparr>c_state := TxStateCompleted\<rparr>) m)) = Inr m2" "m' = schedule_finish i m2"
        using assms p False by (auto simp: ClientTx_receive_def case_prod_beta bind_result_eq_Inr)
      then show ?thesis by (rule failed)
    qed
  qed
qed

lemma receive_evolves:
  assumes "m_heap m i = Some (CTx t)" "client_ok t" "ClientTx_receive os now i t resp m = Inr m'"
  shows "evolves i (CTx t) m m'"
proof -
  have ok: "client_ok (ClientTx_push e (t\<lparr>c_state := s\<rparr>))" if "s \<in> {TxStateProceeding, TxStateCompleted}" for s e
    using that assms(2) push_length [of "t\<lparr>c_state := s\<rparr>"] by (auto simp: client_ok_def)
  let ?e = "EvResponse resp" and ?c = "t\<lparr>c_state := TxStateCompleted\<rparr>"
  consider (same) "m' = m" | (prov) "c_state t \<noteq> TxStateCompleted" "m' = snd (ClientTx_deliver i ?e (t\<lparr>c_state := TxStateProceeding\<rparr>) m)"
    | (again) "c_state t = TxStateCompleted" "ClientTx_sendACK os now ?c resp (put_tx i (CTx ?c) m) = Inr m'"
    | (first) "ClientTx_sendACK os now ?c resp (schedule_finish i (snd (ClientTx_deliver i ?e ?c m))) = Inr m'"
    | (ended) "m' = ClientTx_finish i (ClientTx_push ?e t) (snd (ClientTx_deliver i ?e t m))"
    | (failed) m2 where "ClientTx_sendACK os now (ClientTx_push ?e ?c) resp (snd (ClientTx_deliver i ?e ?c m)) = Inr m2"
        "m' = schedule_finish i m2"
    by (rule receive_cases [OF assms(3)])
  then show ?thesis
  proof cases
    case same
    then show ?thesis using assms by (simp add: evolves_refl)
  next
    case prov
    then show ?thesis
      using ok by (intro evolvesI [of _ _ _ "CTx (ClientTx_push ?e (t\<lparr>c_state := TxStateProceeding\<rparr>))"]) (simp_all add: client_le_def)
  next
    case again
    have "client_ok ?c" using assms(2) by (simp add: client_ok_def)
    then show ?thesis
      using sendACK_frame [OF again(2)] by (intro evolvesI [of _ _ _ "CTx ?c"]) (simp_all add: client_le_def)
  next
    case first
    show ?thesis
      using ok sendACK_frame [OF first] by (intro evolvesI [of _ _ _ "CTx (ClientTx_push ?e ?c)"]) (simp_all add: client_le_def)
  next
    case ended
    have "client_ok (ClientTx_push ?e t)" using assms(2) push_length [of t] by (simp add: client_ok_def)
    then show ?thesis unfolding ended by (rule client_finish_evolves) (simp_all add: client_le_def)
  next
    case failed
    show ?thesis
      using ok sendACK_frame [OF failed(1)] failed(2)
      by (intro evolvesI [of _ _ _ "CTx (ClientTx_push ?e ?c)"]) (simp_all add: client_le_def)
  qed
qed

lemma timeout_evolves:
  assumes "client_ok t" "client_le t0 t" "c_terminated t = c_terminated t0" "m_heap m = (m_heap m0)(i \<mapsto> CTx t)"
    "m_next m = m_next m0" "m_txs m = m_txs m0"
  shows "evolves i (CTx t0) m0 (ClientTx_timeout i t m)"
proof (cases "c_state t = TxStateCompleted \<or> c_state t = TxStateTerminated")
  case True
  then show ?thesis
    using assms by (intro evolvesI [of _ _ _ "CTx t"]) (auto simp: ClientTx_timeout_def)
next
  case False
  have "client_ok (ClientTx_push (EvErr ErrTimeout) t)" "client_le t0 (ClientTx_push (EvErr ErrTimeout) t)"
    using assms(1,2) push_length [of t] by (auto simp add: client_ok_def client_le_def)
  then have "evolves i (CTx t0) m0 (ClientTx_finish i (ClientTx_push (EvErr ErrTimeout) t) m)"
    by (rule client_finish_evolves) (use assms in simp_all)
  then show ?thesis using False by (simp add: ClientTx_timeout_def)
qed

lemma client_tick_evolves:
  assumes "m_heap m i = Some (CTx t)" "client_ok t"
  shows "evolves i (CTx t) m (ClientTx_tick os now i t m)"
proof (cases "c_retransmit t")
  case None
  then show ?thesis using assms by (simp add: ClientTx_tick_def evolves_refl)
next
  case (Some v)
  obtain elapsed interval capI where v: "v = (elapsed, interval, capI)" by (cases v) auto
  let ?t = "\<lambda>r. t\<lparr>c_retransmit := r\<rparr>" and ?m = "fst (TxManager_send os now (Req (c_req t)) (c_dst t) m)"
  have ok: "client_ok (?t r)" "client_le t (?t r)" for r using assms(2) by (simp_all add: client_ok_def client_le_def)
  then have put: "evolves i (CTx t) m (put_tx i (CTx (?t r)) m1)"
    if "m_heap m1 = m_heap m" "m_txs m1 = m_txs m" "m_next m1 = m_next m" for r m1
    using that by (intro evolvesI [of _ _ _ "CTx (?t r)"]) simp_all
  have "evolves i (CTx t) m (ClientTx_timeout i (?t None) (put_tx i (CTx (?t None)) ?m))"
    using ok by (intro timeout_evolves) simp_all
  then show ?thesis using Some v put by (simp add: ClientTx_tick_def Let_def)
qed

lemma client_stop_evolves:
  assumes "m_heap m i = Some (CTx t)" "client_ok t"
  shows "evolves i (CTx t) m (ClientTx_tick_stop i t m)"
proof (cases "c_stop t")
  case True
  then show ?thesis
    using assms by (intro evolvesI [of _ _ _ "CTx (t\<lparr>c_retransmit := None\<rparr>)"])
      (simp_all add: ClientTx_tick_stop_def client_ok_def client_le_def)
qed (use assms in \<open>simp add: ClientTx_tick_stop_def evolves_refl\<close>)

lemma request_end_evolves:
  assumes "m_heap m i = Some (CTx t)" "client_ok t" "c_starting t"
  shows "evolves i (CTx t) m (Request_end i t m)"
  using assms
  by (intro evolvesI [of _ _ _ "CTx (ClientTx_startRetransmit (m_cfg m)
       (t\<lparr>c_state := (if RMethod (c_req t) = INVITE then TxStateCalling else TxStateTrying), c_starting := False\<rparr>))"])
     (simp_all add: Request_end_def ClientTx_startRetransmit_def client_ok_def client_le_def)

lemma send_pair:
  "TxManager_send os now msg dst m = (m1, r) \<Longrightarrow> m_heap m1 = m_heap m \<and> m_txs m1 = m_txs m \<and> m_next m1 = m_next m
     \<and> m_cfg m1 = m_cfg m"
  using send_frame [of os now msg dst m] by simp

lemma cancel_frame:
  "ClientTx_Cancel os now t m = (m', r) \<Longrightarrow> m_heap m' = m_heap m \<and> m_txs m' = m_txs m \<and> m_next m' = m_next m"
  by (auto simp: ClientTx_Cancel_def split: if_splits dest!: send_pair)

section \<open>Server operations\<close>

lemma server_finish_evolves:
  assumes "m_heap m i = Some (STx t)" "server_ok t"
  shows "evolves i (STx t) m (ServerTx_finish i t m)"
  using assms
  by (intro evolves_finishI [of _ _ _ "STx (t\<lparr>s_stop := True, s_terminated := True\<rparr>)"])
     (auto simp: ServerTx_finish_def server_ok_def server_le_def isInvite_def)

lemma receiveACK_evolves:
  assumes "m_heap m i = Some (STx t)" "server_ok t"
  shows "evolves i (STx t) m (ServerTx_receiveACK i t m)"
proof (cases "isInvite t \<and> s_state t = TxStateCompleted")
  case True
  then show ?thesis
    using assms by (intro evolvesI [of _ _ _ "STx (t\<lparr>s_state := TxStateConfirmed\<rparr>)"])
      (auto simp: ServerTx_receiveACK_def server_ok_def server_le_def isInvite_def)
qed (use assms in \<open>auto simp: ServerTx_receiveACK_def intro!: evolves_refl\<close>)

lemma retransmission_frame [simp]:
  "m_heap (ServerTx_receiveRetransmission os now t m) = m_heap m"
  "m_txs (ServerTx_receiveRetransmission os now t m) = m_txs m"
  "m_next (ServerTx_receiveRetransmission os now t m) = m_next m"
  by (simp_all add: ServerTx_receiveRetransmission_def split: option.split)

lemma respond_evolves:
  assumes "m_heap m i = Some (STx t)" "server_ok t" "ServerTx_Respond os now i t resp m = (m', r)"
  shows "evolves i (STx t) m m'"
proof -
  let ?resp = "resp\<lparr>SHeaders := respond_headers (s_req t) (SHeaders resp)\<rparr>"
  let ?p = "t\<lparr>s_state := TxStateProceeding\<rparr>" and ?f = "t\<lparr>s_final := Some ?resp, s_state := TxStateCompleted\<rparr>"
  consider (same) "m' = m"
    | (prov) "s_state t = TxStateProceeding" "TxManager_send os now (Resp ?resp) (s_src t) (put_tx i (STx ?p) m) = (m', r)"
    | (final) "s_final t = None" "200 \<le> StatusCode resp" "StatusCode resp \<le> 699"
    using assms(2,3) by (fastforce simp: ServerTx_Respond_def Let_def server_ok_def split: if_splits)
  then show ?thesis
  proof cases
    case same
    then show ?thesis using assms by (simp add: evolves_refl)
  next
    case prov
    then show ?thesis
      using send_pair [OF prov(2)] assms(2) by (intro evolvesI [of _ _ _ "STx ?p"]) (auto simp: server_ok_def server_le_def)
  next
    case final
    have ok: "server_ok ?f" "server_le t ?f" using assms(2) final by (auto simp: server_ok_def server_le_def isInvite_def)
    obtain m1 r1 where snd: "TxManager_send os now (Resp ?resp) (s_src t) (put_tx i (STx ?f) m) = (m1, r1)"
      by (cases "TxManager_send os now (Resp ?resp) (s_src t) (put_tx i (STx ?f) m)") auto
    note frame = send_pair [OF snd]
    have "m' = m1 \<or> m' = schedule_finish i m1 \<or>
      m' = schedule_finish i (put_tx i (STx (ServerTx_startFinalRetransmit (m_cfg m1) ?f)) m1)"
      using assms(3) final snd by (auto simp: ServerTx_Respond_def Let_def split: if_splits sum.splits)
    then show ?thesis
    proof (elim disjE)
      assume "m' = schedule_finish i (put_tx i (STx (ServerTx_startFinalRetransmit (m_cfg m1) ?f)) m1)"
      then show ?thesis
        using frame ok by (intro evolvesI [of _ _ _ "STx (ServerTx_startFinalRetransmit (m_cfg m1) ?f)"])
          (simp_all add: ServerTx_startFinalRetransmit_def server_ok_def server_le_def isInvite_def)
    qed (use frame ok in \<open>auto intro!: evolvesI [of _ _ _ "STx ?f"]\<close>)
  qed
qed

lemma server_tick_evolves:
  assumes "m_heap m i = Some (STx t)" "server_ok t"
  shows "evolves i (STx t) m (ServerTx_tick os now i t m)"
proof -
  have ok: "server_ok (t\<lparr>s_retransmit := r\<rparr>)" "server_le t (t\<lparr>s_retransmit := r\<rparr>)" for r
    using assms(2) by (simp_all add: server_ok_def server_le_def isInvite_def)
  have put: "evolves i (STx t) m (put_tx i (STx (t\<lparr>s_retransmit := r\<rparr>)) m1)"
    if "m_heap m1 = m_heap m" "m_txs m1 = m_txs m" "m_next m1 = m_next m" for r m1
    using that ok by (intro evolvesI [of _ _ _ "STx (t\<lparr>s_retransmit := r\<rparr>)"]) simp_all
  show ?thesis
    using assms put by (auto simp: ServerTx_tick_def Let_def evolves_refl split: option.split)
qed

lemma server_stop_evolves:
  assumes "m_heap m i = Some (STx t)" "server_ok t"
  shows "evolves i (STx t) m (ServerTx_tick_stop i t m)"
proof (cases "s_stop t")
  case True
  then show ?thesis
    using assms by (intro evolvesI [of _ _ _ "STx (t\<lparr>s_retransmit := None\<rparr>)"])
      (simp_all add: ServerTx_tick_stop_def server_ok_def server_le_def isInvite_def)
qed (use assms in \<open>simp add: ServerTx_tick_stop_def evolves_refl\<close>)

section \<open>Every step keeps the invariant and goes up\<close>

definition manager_le :: "TxManager \<Rightarrow> TxManager \<Rightarrow> bool" where
  "manager_le m m' \<longleftrightarrow> (\<forall>i t. m_heap m i = Some t \<longrightarrow> (\<exists>t'. m_heap m' i = Some t' \<and> tx_le t t'))"

lemma manager_le_refl [simp]: "manager_le m m"
  by (simp add: manager_le_def)

lemma manager_le_trans: "manager_le m m1 \<Longrightarrow> manager_le m1 m2 \<Longrightarrow> manager_le m m2"
  unfolding manager_le_def by (meson tx_le_trans)

lemma manager_le_heap: "m_heap m' = m_heap m \<Longrightarrow> manager_le m m'"
  by (simp add: manager_le_def)

definition good_step :: "TxManager \<Rightarrow> TxManager \<Rightarrow> bool" where
  "good_step m m' \<longleftrightarrow> tx_inv m' \<and> manager_le m m'"

lemma evolves_good:
  assumes "tx_inv m" "m_heap m i = Some t" "evolves i t m m'"
  shows "good_step m m'"
  using evolves_inv [OF assms] assms(2,3) by (auto simp: good_step_def manager_le_def evolves_def)

lemma frame_good:
  "tx_inv m \<Longrightarrow> m_heap m' = m_heap m \<Longrightarrow> m_txs m' = m_txs m \<Longrightarrow> m_next m' = m_next m \<Longrightarrow> good_step m m'"
  by (simp add: good_step_def manager_le_heap tx_inv_def)

lemma add_good:
  assumes "tx_inv m" "tx_ok t" "tx_key t = k" "\<not> tx_terminated t"
    "m_heap m' = (m_heap m)(m_next m \<mapsto> t)" "m_txs m' = (m_txs m)(k := x)" "x = None \<or> x = Some (m_next m)" "m_next m' = Suc (m_next m)"
  shows "good_step m m'"
proof -
  have fresh: "m_heap m (m_next m) = None"
    using tx_inv_heap [OF assms(1), of "m_next m"] by (cases "m_heap m (m_next m)") auto
  have "tx_inv m'"
  proof
    fix k' j assume j: "m_txs m' k' = Some j"
    show "\<exists>s. m_heap m' j = Some s \<and> tx_key s = k' \<and> \<not> tx_terminated s"
    proof (cases "k' = k")
      case True
      then show ?thesis using j assms by auto
    next
      case False
      then have "m_txs m k' = Some j" using j assms(6) by simp
      then show ?thesis using tx_inv_table [OF assms(1), of k' j] fresh assms(5) by auto
    qed
  next
    fix j s assume "m_heap m' j = Some s"
    then show "j < m_next m' \<and> tx_ok s"
      using tx_inv_heap [OF assms(1), of j s] assms(2,5,8) by (auto split: if_splits)
  qed
  moreover have "manager_le m m'" using fresh assms(5) by (auto simp: manager_le_def)
  ultimately show ?thesis by (simp add: good_step_def)
qed

lemma lookup_tx_Some: "lookup_tx k m = Some (i, t) \<Longrightarrow> m_heap m i = Some t \<and> m_txs m k = Some i"
  by (auto simp: lookup_tx_def split: option.splits)

lemma new_server_ok: "server_ok (new_server_tx req (serverTxKey req) src)"
  by (simp add: server_ok_def new_server_tx_def)

lemma new_client_ok: "client_ok (new_client_tx req (clientTxKey req) dst)"
  by (simp add: client_ok_def new_client_tx_def)

lemma lookup_cases:
  obtains (server) i t where "lookup_tx k m = Some (i, STx t)" | (client) i t where "lookup_tx k m = Some (i, CTx t)"
    | (none) "lookup_tx k m = None"
proof (cases "lookup_tx k m")
  case (Some p)
  then show ?thesis using server client by (cases p; cases "snd p") auto
qed (use none in simp)

lemma handleRequest_cases:
  assumes "handleRequest os now req src m = (m', u)"
  obtains (same) "m' = m"
    | (ack) k i t where "lookup_tx k m = Some (i, STx t)" "m' = ServerTx_receiveACK i t m"
    | (again) t where "m' = ServerTx_receiveRetransmission os now t m"
    | (new) "m' = add_tx (serverTxKey req) (STx (new_server_tx req (serverTxKey req) src)) m"
proof (cases "cseq_method (Request_CSeq req) = ACK")
  case True
  then have eq: "(case lookup_tx (''S|'' @ viaBranch req @ ''|INVITE'') m of
      Some (i, STx stx) \<Rightarrow> (ServerTx_receiveACK i stx m, None) | _ \<Rightarrow> (m, Some (OnRequest req src None))) = (m', u)"
    using assms unfolding handleRequest_def Let_def by (simp only: if_True refl)
  show ?thesis
  proof (cases rule: lookup_cases [of "''S|'' @ viaBranch req @ ''|INVITE''" m])
    case (server i t)
    then show ?thesis using eq by (intro ack [OF server]) simp
  qed (use eq same in simp_all)
next
  case nack: False
  show ?thesis
  proof (cases "cseq_method (Request_CSeq req) = CANCEL \<and>
      (case lookup_tx (''S|'' @ viaBranch req @ ''|INVITE'') m of Some (i, STx stx) \<Rightarrow> \<not> sameAddr src (s_src stx) | _ \<Rightarrow> False)")
    case True
    then show ?thesis using assms nack by (intro same) (simp add: handleRequest_def Let_def)
  next
    case False
    then have eq: "(case lookup_tx (serverTxKey req) m of
           Some (i, STx stx) \<Rightarrow> (ServerTx_receiveRetransmission os now stx m, None)
         | _ \<Rightarrow>
             if serverTxKey req = [] then (m, None)
             else (add_tx (serverTxKey req) (STx (new_server_tx req (serverTxKey req) src)) m,
                   Some (OnRequest req src (Some (m_next m))))) = (m', u)"
      using assms nack unfolding handleRequest_def Let_def by (simp only: if_False)
    show ?thesis
    proof (cases rule: lookup_cases [of "serverTxKey req" m])
      case (server i t)
      then show ?thesis using eq by (intro again [of t]) simp
    qed (use eq same new in \<open>simp_all split: if_splits\<close>)
  qed
qed

lemma handleRequest_good:
  assumes "tx_inv m" "handleRequest os now req src m = (m', u)"
  shows "good_step m m'"
proof -
  let ?key = "serverTxKey req"
  consider (same) "m' = m" | (ack) k i t where "lookup_tx k m = Some (i, STx t)" "m' = ServerTx_receiveACK i t m"
    | (again) t where "m' = ServerTx_receiveRetransmission os now t m"
    | (new) "m' = add_tx ?key (STx (new_server_tx req ?key src)) m"
    by (rule handleRequest_cases [OF assms(2)])
  then show ?thesis
  proof cases
    case (ack k i t)
    then have "m_heap m i = Some (STx t)" using lookup_tx_Some by blast
    then show ?thesis
      using evolves_good [OF assms(1) _ receiveACK_evolves] tx_inv_heap [OF assms(1)] ack(2) by fastforce
  next
    case new
    then show ?thesis
      using new_server_ok by (intro add_good [OF assms(1), of "STx (new_server_tx req ?key src)" ?key _ "Some (m_next m)"])
        (simp_all add: new_server_tx_def)
  qed (use assms(1) in \<open>simp_all add: frame_good\<close>)
qed

lemma handleResponse_good:
  assumes "tx_inv m" "handleResponse os now resp src m = Inr (m', u)"
  shows "good_step m m'"
proof -
  consider (same) "m' = m"
    | (rcv) i t where "lookup_tx (clientTxKeyOf resp) m = Some (i, CTx t)" "ClientTx_receive os now i t resp m = Inr m'"
    using assms(2) by (auto simp: handleResponse_def Let_def bind_result_eq_Inr split: if_splits option.splits prod.splits Tx.splits)
  then show ?thesis
  proof cases
    case (rcv i t)
    then have h: "m_heap m i = Some (CTx t)" using lookup_tx_Some by blast
    then have "client_ok t" using tx_inv_heap [OF assms(1) h] by simp
    then show ?thesis using evolves_good [OF assms(1) h receive_evolves [OF h _ rcv(2)]] by simp
  qed (use assms(1) in \<open>simp add: frame_good\<close>)
qed

lemma handlePacket_good:
  assumes "tx_inv m" "handlePacket os now pkt m = Inr (m', u)"
  shows "good_step m m'"
proof -
  have inv: "tx_inv (inc_metric ''packets_received'' m)" using assms(1) by (simp add: tx_inv_def)
  have "good_step (inc_metric ''packets_received'' m) m'"
    using assms(2) handleRequest_good [OF inv] handleResponse_good [OF inv]
    by (auto simp: handlePacket_def Let_def split: Message.splits)
  then show ?thesis by (simp add: good_step_def manager_le_def)
qed

lemma request_begin_good:
  assumes "tx_inv m" "Request_begin os now br ci req dst m = (m', r)"
  shows "good_step m m'"
proof -
  let ?req = "complete_request br ci m req"
  let ?key = "clientTxKey ?req" and ?t = "CTx (new_client_tx ?req (clientTxKey ?req) dst)"
  obtain m1 r1 where snd: "TxManager_send os now (Req ?req) dst (add_tx ?key ?t m) = (m1, r1)"
    by (cases "TxManager_send os now (Req ?req) dst (add_tx ?key ?t m)") auto
  note frame = send_pair [OF snd]
  have ok: "tx_ok ?t" "tx_key ?t = ?key" "\<not> tx_terminated ?t"
    using new_client_ok by (simp_all add: new_client_tx_def)
  have "m' = m \<or> m' = m1 \<or> m' = TxManager_remove ?key m1"
    using assms(2) snd by (auto simp: Request_begin_def Let_def split: if_splits sum.splits)
  then show ?thesis
  proof (elim disjE)
    assume "m' = m1"
    then show ?thesis using frame by (intro add_good [OF assms(1) ok, of _ "Some (m_next m)"]) simp_all
  next
    assume "m' = TxManager_remove ?key m1"
    then show ?thesis using frame by (intro add_good [OF assms(1) ok, of _ None]) simp_all
  qed (use assms(1) in \<open>simp add: frame_good\<close>)
qed

lemma finish_good:
  assumes "tx_inv m"
  shows "good_step m (finish_tx i m)"
proof (cases "m_heap m i")
  case (Some t)
  note ok = tx_inv_heap [OF assms Some]
  show ?thesis
  proof (cases t)
    case (CTx c)
    have "evolves i (CTx c) m (ClientTx_finish i c m)"
      using ok CTx Some by (intro client_finish_evolves) (auto simp: client_le_def map_upd_triv)
    then show ?thesis using evolves_good [OF assms] Some CTx by (simp add: finish_tx_def)
  next
    case (STx c)
    then show ?thesis
      using evolves_good [OF assms] server_finish_evolves Some ok by (simp add: finish_tx_def)
  qed
qed (use assms in \<open>simp add: finish_tx_def frame_good\<close>)

lemma tx_step_good:
  assumes "tx_step m m'" "tx_inv m"
  shows "good_step m m'"
  using assms
proof (induction rule: tx_step.induct)
  case (timer i m)
  have "tx_inv (m\<lparr>m_timers := remove1 i (m_timers m)\<rparr>)" using timer by (simp add: tx_inv_def)
  from finish_good [OF this, of i] show ?case by (simp add: good_step_def manager_le_def)
next
  case (read_event m i t e es)
  then have "evolves i (CTx t) m (put_tx i (CTx (t\<lparr>c_events := es\<rparr>)) m)"
    using tx_inv_heap [OF read_event.prems read_event.hyps(1)]
    by (intro evolvesI [of _ _ _ "CTx (t\<lparr>c_events := es\<rparr>)"]) (auto simp: client_ok_def client_le_def)
  then show ?case using evolves_good read_event by blast
next
  case (cancel m i t os now m' r)
  then show ?case using cancel_frame frame_good by blast
next
  case (config m cfg)
  then show ?case by (simp add: frame_good)
next
  case (raw_send m tp os now network dst msg tp' r)
  then show ?case by (simp add: frame_good)
next
  case (packet os now pkt m m' u)
  then show ?case using handlePacket_good by blast
next
  case (request_begin os now br ci req dst m m' r)
  then show ?case using request_begin_good by blast
qed (metis evolves_good tx_inv_heap tx_ok.simps request_end_evolves respond_evolves client_tick_evolves
      client_stop_evolves server_tick_evolves server_stop_evolves)+

interpretation tx_system: monotone_system tx_init tx_step tx_inv manager_le
proof
  show "tx_inv m" if "tx_init m" for m using that by (simp add: tx_init_def tx_inv_def)
  show "tx_inv m'" if "tx_inv m" "tx_step m m'" for m m' using tx_step_good that by (simp add: good_step_def)
  show "manager_le m m" for m by simp
  show "manager_le m m2" if "manager_le m m1" "manager_le m1 m2" for m m1 m2 using that by (rule manager_le_trans)
  show "manager_le m m'" if "tx_inv m" "tx_step m m'" for m m' using tx_step_good that by (simp add: good_step_def)
qed

lemma reachable_tx_inv: "tx_reachable m \<Longrightarrow> tx_inv m"
proof -
  have "tx_init (NewTxManager tp host port)" for tp host port by (simp add: tx_init_def NewTxManager_def)
  then show "tx_reachable m \<Longrightarrow> ?thesis" unfolding tx_reachable_def using tx_system.reachable_inv by blast
qed

section \<open>The manager's operations as steps\<close>

lemma Request_run:
  assumes "TxManager_Request os now br ci req dst m = (m', r)"
  shows "tx_step\<^sup>*\<^sup>* m m'"
proof (cases "Request_begin os now br ci req dst m")
  case (Pair m1 r1)
  then have 1: "tx_step m m1" by (rule tx_step.request_begin)
  show ?thesis
  proof (cases r1)
    case (Inl e)
    then show ?thesis using Pair 1 assms by (auto simp: TxManager_Request_def)
  next
    case (Inr i)
    then have i: "i = m_next m" and h: "\<exists>c. m_heap m1 i = Some (CTx c) \<and> c_starting c"
      using Pair by (auto simp: Request_begin_def Let_def add_tx_def new_client_tx_def dest!: send_pair split: if_splits prod.splits sum.splits)
    then obtain c where c: "m_heap m1 i = Some (CTx c)" "c_starting c" by blast
    then have "m' = Request_end i c m1" using Pair Inr assms by (simp add: TxManager_Request_def)
    then show ?thesis using 1 tx_step.request_end [OF c] by auto
  qed
qed

lemma tx_step_Respond: "m_heap m i = Some (STx t) \<Longrightarrow> tx_step m (fst (ServerTx_Respond os now i t resp m))"
  by (rule tx_step.respond [where r = "snd (ServerTx_Respond os now i t resp m)"]) auto

lemma tx_step_Cancel: "m_heap m i = Some (CTx t) \<Longrightarrow> tx_step m (fst (ClientTx_Cancel os now t m))"
  by (rule tx_step.cancel [where r = "snd (ClientTx_Cancel os now t m)"]) auto

end
