(* ===== verification/TransactionProps.thy ===== *)
theory TransactionProps
  imports TransactionCorrect
begin

text \<open>
  The properties of the transaction layer: the invariant of every run, decisions that are final, the
  treatment of retransmissions, ACK and CANCEL, the end of an unanswered request, and three defects: an
  ACK to a non-INVITE response, a stale timer that unregisters a live transaction, and a first state that
  overwrites a response.
\<close>

section \<open>An unanswered request\<close>

text \<open>The goroutine of transaction \<open>i\<close> runs its loop body \<open>n\<close> times and nothing else happens.\<close>

fun client_ticks :: "(nat \<Rightarrow> OS) \<Rightarrow> (nat \<Rightarrow> int) \<Rightarrow> nat \<Rightarrow> nat \<Rightarrow> TxManager \<Rightarrow> TxManager" where
  "client_ticks os now i 0 m = m"
| "client_ticks os now i (Suc n) m =
     (let m' = client_ticks os now i n m in
      case m_heap m' i of Some (CTx t) \<Rightarrow> ClientTx_tick (os n) (now n) i t m' | _ \<Rightarrow> m')"

definition waiting :: "TxManager \<Rightarrow> nat \<Rightarrow> ClientTx \<Rightarrow> nat \<Rightarrow> bool" where
  "waiting m i t n \<longleftrightarrow> c_state t \<in> {TxStateCalling, TxStateTrying} \<and> m_heap m i = Some (CTx t) \<and>
     (\<exists>e iv c. c_retransmit t = Some (e, iv, c) \<and> int n * T1 (m_cfg m) \<le> e \<and> T1 (m_cfg m) \<le> iv \<and> T1 (m_cfg m) \<le> c)"

definition timed_out :: "TxManager \<Rightarrow> nat \<Rightarrow> string \<Rightarrow> bool" where
  "timed_out m i key \<longleftrightarrow> m_txs m key = None \<and>
     (\<exists>t. m_heap m i = Some (CTx t) \<and> c_key t = key \<and> c_terminated t \<and> c_stop t \<and>
        c_events t \<noteq> [] \<and> last (c_events t) = EvErr ErrTimeout)"

lemma waiting_tick:
  assumes "waiting m i t n" "length (c_events t) < event_capacity" "0 < T1 (m_cfg m)"
  shows "timed_out (ClientTx_tick os now i t m) i (c_key t) \<or>
    (\<exists>t'. waiting (ClientTx_tick os now i t m) i t' (Suc n) \<and> c_events t' = c_events t \<and> c_key t' = c_key t \<and>
       m_cfg (ClientTx_tick os now i t m) = m_cfg m \<and> int (Suc n) * T1 (m_cfg m) < TimerF (m_cfg m))"
proof -
  obtain e iv c where r: "c_retransmit t = Some (e, iv, c)" "int n * T1 (m_cfg m) \<le> e" "T1 (m_cfg m) \<le> iv" "T1 (m_cfg m) \<le> c"
    and st: "c_state t \<in> {TxStateCalling, TxStateTrying}" and h: "m_heap m i = Some (CTx t)"
    using assms(1) by (auto simp: waiting_def)
  let ?m1 = "fst (TxManager_send os now (Req (c_req t)) (c_dst t) m)" and ?t0 = "t\<lparr>c_retransmit := None\<rparr>"
  have tick: "ClientTx_tick os now i t m =
      (if TimerF (m_cfg m) \<le> e + iv then ClientTx_timeout i ?t0 (put_tx i (CTx ?t0) ?m1)
       else put_tx i (CTx (t\<lparr>c_retransmit := Some (e + iv, min (iv * 2) c, c)\<rparr>)) ?m1)"
    using r(1) st by (auto simp: ClientTx_tick_def Let_def)
  have grow: "int (Suc n) * T1 (m_cfg m) \<le> e + iv" using r by (simp add: algebra_simps)
  show ?thesis
  proof (cases "TimerF (m_cfg m) \<le> e + iv")
    case True
    then show ?thesis
      using st assms(2) by (auto simp: tick timed_out_def ClientTx_timeout_def ClientTx_finish_def ClientTx_push_def)
  next
    case False
    then have "waiting (ClientTx_tick os now i t m) i (t\<lparr>c_retransmit := Some (e + iv, min (iv * 2) c, c)\<rparr>) (Suc n)"
      using st r assms(3) grow by (auto simp: tick waiting_def)
    then show ?thesis
      using False grow by (intro disjI2 exI [of _ "t\<lparr>c_retransmit := Some (e + iv, min (iv * 2) c, c)\<rparr>"] conjI) (auto simp: tick)
  qed
qed

lemma waiting_ticks:
  assumes "waiting m i t 0" "length (c_events t) < event_capacity" "0 < T1 (m_cfg m)"
  shows "(\<exists>k \<le> n. timed_out (client_ticks os now i k m) i (c_key t)) \<or>
    (\<exists>t'. waiting (client_ticks os now i n m) i t' n \<and> c_events t' = c_events t \<and> c_key t' = c_key t \<and>
       m_cfg (client_ticks os now i n m) = m_cfg m \<and> (0 < n \<longrightarrow> int n * T1 (m_cfg m) < TimerF (m_cfg m)))"
proof (induction n)
  case 0
  then show ?case using assms(1) by auto
next
  case (Suc n)
  then show ?case
  proof (elim disjE)
    assume "\<exists>k \<le> n. timed_out (client_ticks os now i k m) i (c_key t)"
    then show ?thesis using le_SucI by blast
  next
    let ?m = "client_ticks os now i n m"
    assume "\<exists>t'. waiting ?m i t' n \<and> c_events t' = c_events t \<and> c_key t' = c_key t \<and> m_cfg ?m = m_cfg m \<and>
      (0 < n \<longrightarrow> int n * T1 (m_cfg m) < TimerF (m_cfg m))"
    then obtain t' where w: "waiting ?m i t' n" "c_events t' = c_events t" "c_key t' = c_key t" "m_cfg ?m = m_cfg m"
      by blast
    have "client_ticks os now i (Suc n) m = ClientTx_tick (os n) (now n) i t' ?m"
      using w(1) by (simp add: waiting_def)
    then show ?thesis
      using waiting_tick [OF w(1), of "os n" "now n"] w assms(2,3) by (metis order_refl zero_less_Suc)
  qed
qed

lemma unanswered_times_out:
  assumes "waiting m i t 0" "length (c_events t) < event_capacity" "0 < T1 (m_cfg m)"
  shows "\<exists>k \<le> nat (TimerF (m_cfg m) div T1 (m_cfg m)) + 1. timed_out (client_ticks os now i k m) i (c_key t)"
proof (rule ccontr)
  let ?T = "T1 (m_cfg m)" and ?F = "TimerF (m_cfg m)"
  let ?n = "nat (?F div ?T) + 1"
  assume "\<not> ?thesis"
  then have "int ?n * ?T < ?F" using waiting_ticks [OF assms, of ?n os now] by auto
  moreover have "?F < int ?n * ?T"
  proof -
    have "?F = ?F div ?T * ?T + ?F mod ?T" "?F mod ?T < ?T" using assms(3) by simp_all
    then have "?F < (?F div ?T + 1) * ?T" by (simp only: distrib_right mult_1)
    also have "\<dots> \<le> int ?n * ?T" using assms(3) by (intro mult_right_mono) simp_all
    finally show ?thesis .
  qed
  ultimately show False by simp
qed

section \<open>A run with a stale timer\<close>

definition demo_request :: "Method \<Rightarrow> Request" where
  "demo_request method = \<lparr>RMethod = method, RUri = Some sample_uri, RProto = ''SIP/2.0'',
     RHeaders = sample_headers method, RBody = []\<rparr>"

definition demo_addr :: Addr where
  "demo_addr = \<lparr>Network = ''udp'', AHost = ''h'', APort = 5\<rparr>"

definition demo_os :: OS where
  "demo_os = \<lparr>os_LookupIP = (\<lambda>_. None), os_udp_write = (\<lambda>_ _ _. None), os_dial = (\<lambda>_ _. Inl ErrOther),
     os_write = (\<lambda>_ _. None)\<rparr>"

definition demo_manager :: TxManager where
  "demo_manager = NewTxManager (Some ((new_transport (Some (v4_prefix @ [0, 0, 0, 0])) False False)\<lparr>tp_DropHook := Some (\<lambda>_ _. True)\<rparr>)) ''h'' 0"

definition demo_key :: string where "demo_key = ''S|z9hG4bK1|INVITE''"

lemma demo_CSeq: "cseq_method (Request_CSeq (demo_request method)) = method"
  by (simp add: Request_CSeq_def demo_request_def sample_Get_plain cseq_method_def)

lemma demo_branch: "viaBranch (demo_request method) = ''z9hG4bK1''"
proof -
  have "Via_Branch sample_via = ''z9hG4bK1''" by code_simp
  then show ?thesis by (simp add: viaBranch_def Request_Via_def via_of_def demo_request_def sample_Get_plain)
qed

lemma demo_method: "RMethod (demo_request method) = method"
  by (simp add: demo_request_def)

lemma demo_send:
  assumes "m_tp m = m_tp demo_manager"
  shows "TxManager_send os now msg demo_addr m = (m, Inr ())"
proof -
  have "ToLower ''udp'' = ''udp''" by code_simp
  then show ?thesis
    using assms by (simp add: TxManager_send_def demo_manager_def NewTxManager_def demo_addr_def send_target_def
        Transport_Send_def Let_def new_transport_def)
qed

lemma demo_tp [simp]:
  "m_tp (put_tx i t m) = m_tp m" "m_tp (schedule_finish i m) = m_tp m" "m_tp (inc_metric n m) = m_tp m"
  "m_tp (TxManager_remove k m) = m_tp m" "m_tp (add_tx k t m) = m_tp m"
  by (simp_all add: put_tx_def schedule_finish_def inc_metric_def TxManager_remove_def add_tx_def)

definition demo_stx :: ServerTx where
  "demo_stx = new_server_tx (demo_request INVITE) demo_key demo_addr"

lemma demo_invite:
  assumes "m_txs m demo_key = None"
  shows "handlePacket os now \<lparr>Msg = Req (demo_request INVITE), Src = demo_addr\<rparr> m =
    Inr (add_tx demo_key (STx demo_stx) (inc_metric ''packets_received'' m),
         Some (OnRequest (demo_request INVITE) demo_addr (Some (m_next m))))"
proof -
  have "serverTxKey (demo_request INVITE) = demo_key"
    by (simp add: serverTxKey_def demo_branch demo_CSeq demo_key_def INVITE_def)
  moreover have "INVITE \<noteq> ACK" "INVITE \<noteq> CANCEL" by (simp_all add: INVITE_def ACK_def CANCEL_def)
  ultimately show ?thesis
    using assms by (simp add: handlePacket_def handleRequest_def Let_def demo_CSeq lookup_tx_def demo_stx_def demo_key_def)
qed

definition demo_final :: ServerTx where
  "demo_final = (let r = (NewResponse 486 [])\<lparr>SHeaders := respond_headers (demo_request INVITE) []\<rparr> in
     ServerTx_startFinalRetransmit DefaultTxConfig (demo_stx\<lparr>s_final := Some r, s_state := TxStateCompleted\<rparr>))"

lemma demo_respond:
  assumes "m_tp m = m_tp demo_manager" "m_cfg m = DefaultTxConfig"
  shows "\<exists>m'. ServerTx_Respond os now i demo_stx (NewResponse 486 []) m = (m', Inr ()) \<and>
    m_heap m' = (m_heap m)(i \<mapsto> STx demo_final) \<and> m_txs m' = m_txs m \<and> m_next m' = m_next m \<and>
    m_timers m' = m_timers m @ [i] \<and> m_tp m' = m_tp m \<and> m_cfg m' = m_cfg m"
  using assms demo_send [of "put_tx i t m" for t]
  by (simp add: ServerTx_Respond_def Let_def demo_stx_def new_server_tx_def isInvite_def demo_method demo_final_def
      NewResponse_def schedule_finish_def)

lemma demo_ack:
  assumes "m_txs m demo_key = Some i" "m_heap m i = Some (STx demo_final)"
  shows "handlePacket os now \<lparr>Msg = Req (demo_request ACK), Src = demo_addr\<rparr> m =
    Inr (schedule_finish i (put_tx i (STx (demo_final\<lparr>s_state := TxStateConfirmed\<rparr>)) (inc_metric ''packets_received'' m)), None)"
proof -
  have "''S|'' @ viaBranch (demo_request ACK) @ ''|INVITE'' = demo_key" by (simp add: demo_branch demo_key_def)
  then have "lookup_tx (''S|'' @ viaBranch (demo_request ACK) @ ''|INVITE'') (inc_metric ''packets_received'' m) = Some (i, STx demo_final)"
    using assms by (simp add: lookup_tx_def)
  moreover have "isInvite demo_final" "s_state demo_final = TxStateCompleted"
    by (simp_all add: demo_final_def Let_def ServerTx_startFinalRetransmit_def isInvite_def demo_stx_def new_server_tx_def demo_method)
  ultimately show ?thesis
    by (simp add: handlePacket_def handleRequest_def Let_def demo_CSeq ServerTx_receiveACK_def)
qed

lemma stale_timer_run:
  "\<exists>m. tx_reachable m \<and> m_heap m 1 = Some (STx demo_stx) \<and> m_txs m demo_key = None"
proof -
  let ?m0 = demo_manager
  let ?m1 = "add_tx demo_key (STx demo_stx) (inc_metric ''packets_received'' ?m0)"
  have key: "s_key demo_final = demo_key"
    by (simp add: demo_final_def Let_def ServerTx_startFinalRetransmit_def demo_stx_def new_server_tx_def)
  have m0: "m_txs ?m0 = Map.empty" "m_heap ?m0 = Map.empty" "m_next ?m0 = 0" "m_timers ?m0 = []" "m_cfg ?m0 = DefaultTxConfig"
    by (simp_all add: demo_manager_def NewTxManager_def)
  have s1: "tx_step ?m0 ?m1" using m0 by (intro tx_step.packet [OF demo_invite [of _ demo_os 0]]) simp
  obtain m2 where m2: "ServerTx_Respond demo_os 0 0 demo_stx (NewResponse 486 []) ?m1 = (m2, Inr ())"
      "m_heap m2 = [0 \<mapsto> STx demo_final]" "m_txs m2 = [demo_key \<mapsto> 0]" "m_next m2 = 1"
      "m_timers m2 = [0]" "m_tp m2 = m_tp ?m0"
    using demo_respond [where os = demo_os and now = 0 and m = ?m1 and i = 0] m0
    by (force simp: add_tx_def inc_metric_def)
  have s2: "tx_step ?m1 m2" using m2(1) m0 by (intro tx_step.respond [OF _ m2(1)]) (simp add: add_tx_def inc_metric_def)
  obtain m3 where s3: "tx_step m2 m3" and m3: "m_heap m3 = [0 \<mapsto> STx (demo_final\<lparr>s_state := TxStateConfirmed\<rparr>)]"
      "m_txs m3 = [demo_key \<mapsto> 0]" "m_next m3 = 1" "m_timers m3 = [0, 0]"
    using tx_step.packet [OF demo_ack [where os = demo_os and now = 0 and m = m2 and i = 0]] m2
    by (force simp: schedule_finish_def put_tx_def inc_metric_def)
  let ?m4 = "finish_tx 0 (m3\<lparr>m_timers := remove1 0 (m_timers m3)\<rparr>)"
  have s4: "tx_step m3 ?m4" using m3 by (intro tx_step.timer) simp
  have m4: "m_txs ?m4 = Map.empty" "m_next ?m4 = 1" "m_timers ?m4 = [0]" "m_heap ?m4 0 \<noteq> None"
      "\<forall>t. m_heap ?m4 0 = Some t \<longrightarrow> (\<exists>u. t = STx u \<and> s_key u = demo_key)"
    using m3 key by (auto simp: finish_tx_def ServerTx_finish_def put_tx_def TxManager_remove_def)
  let ?m5 = "add_tx demo_key (STx demo_stx) (inc_metric ''packets_received'' ?m4)"
  have s5: "tx_step ?m4 ?m5" using m4 by (intro tx_step.packet [OF demo_invite [of _ demo_os 0]]) simp
  let ?m6 = "finish_tx 0 (?m5\<lparr>m_timers := remove1 0 (m_timers ?m5)\<rparr>)"
  have s6: "tx_step ?m5 ?m6" using m4 by (intro tx_step.timer) (simp add: add_tx_def inc_metric_def)
  have "m_heap ?m6 1 = Some (STx demo_stx) \<and> m_txs ?m6 demo_key = None"
    using m4 by (auto simp: finish_tx_def ServerTx_finish_def put_tx_def TxManager_remove_def add_tx_def inc_metric_def split: option.splits)
  moreover have "tx_step\<^sup>*\<^sup>* ?m0 ?m6" using s1 s2 s3 s4 s5 s6 by (meson r_into_rtranclp rtranclp_trans)
  ultimately show ?thesis unfolding tx_reachable_def demo_manager_def by blast
qed

section \<open>Properties\<close>

text \<open>C2 (invariant): in every state the transaction layer can reach, each entry of the table leads to a
  transaction of that key that has not ended; every client transaction holds at most 64 undelivered events;
  and a server transaction has a final response exactly when it is completed or confirmed, with a status
  from 200 to 699.\<close>

theorem transaction_invariant: "tx_reachable m \<Longrightarrow> tx_inv m"
  by (rule reachable_tx_inv)

theorem transaction_invariant_witness: "tx_inv (fst (TxManager_Request demo_os 0 (RandomBytes [7]) (RandomBytes [2])
    (demo_request ''INFO'') demo_addr demo_manager))"
proof -
  let ?b = "Request_begin demo_os 0 (RandomBytes [7]) (RandomBytes [2]) (demo_request ''INFO'') demo_addr demo_manager"
  let ?req = "complete_request (RandomBytes [7]) (RandomBytes [2]) demo_manager (demo_request ''INFO'')"
  let ?t = "new_client_tx ?req (clientTxKey ?req) demo_addr"
  have n0: "m_next demo_manager = 0" "m_txs demo_manager = Map.empty" by (simp_all add: demo_manager_def NewTxManager_def)
  have b: "?b = (add_tx (clientTxKey ?req) (CTx ?t) demo_manager, Inr 0)"
    using demo_send [where m = "add_tx (clientTxKey ?req) (CTx ?t) demo_manager"]
    by (simp add: Request_begin_def Let_def n0)
  have "tx_step demo_manager (fst ?b)" by (intro tx_step.request_begin) (rule prod.collapse [symmetric])
  moreover have "tx_step (fst ?b) (Request_end 0 ?t (fst ?b))"
    by (intro tx_step.request_end) (simp_all add: b n0 new_client_tx_def)
  ultimately have "tx_reachable (Request_end 0 ?t (fst ?b))"
    unfolding tx_reachable_def demo_manager_def by (meson r_into_rtranclp rtranclp_trans)
  moreover have "fst (TxManager_Request demo_os 0 (RandomBytes [7]) (RandomBytes [2]) (demo_request ''INFO'') demo_addr demo_manager)
      = Request_end 0 ?t (fst ?b)"
    by (simp add: TxManager_Request_def b n0)
  ultimately show ?thesis using transaction_invariant by metis
qed

text \<open>C7 (safety): what a server transaction has answered stays answered: from any reachable state, however
  the run goes on, a transaction with a final response keeps that response, its request and its source
  address, and a confirmed one never goes back.\<close>

theorem final_response_stable:
  assumes "tx_reachable m" "tx_step\<^sup>*\<^sup>* m m'" "m_heap m i = Some (STx t)" "s_final t = Some f"
  shows "\<exists>t'. m_heap m' i = Some (STx t') \<and> s_final t' = Some f \<and> s_req t' = s_req t \<and> s_src t' = s_src t \<and>
    state_rank (s_state t) \<le> state_rank (s_state t')"
proof -
  obtain t' where "m_heap m' i = Some t'" "tx_le (STx t) t'"
    using tx_system.steps_le [OF assms(2) reachable_tx_inv [OF assms(1)]] assms(3) by (auto simp: manager_le_def)
  then show ?thesis using assms(4) by (cases t') (auto simp: server_le_def)
qed

theorem final_response_stable_witness:
  "\<exists>m t t'. tx_reachable m \<and> m_heap m 0 = Some (STx t) \<and> s_final t \<noteq> None \<and>
     m_heap (SetConfig DefaultTxConfig m) 0 = Some (STx t') \<and> s_final t' = s_final t"
proof -
  let ?m1 = "add_tx demo_key (STx demo_stx) (inc_metric ''packets_received'' demo_manager)"
  have m0: "m_txs demo_manager = Map.empty" "m_next demo_manager = 0" "m_cfg demo_manager = DefaultTxConfig"
    by (simp_all add: demo_manager_def NewTxManager_def)
  have s1: "tx_step demo_manager ?m1" using m0 by (intro tx_step.packet [OF demo_invite [of _ demo_os 0]]) simp
  obtain m2 where m2: "ServerTx_Respond demo_os 0 0 demo_stx (NewResponse 486 []) ?m1 = (m2, Inr ())"
      "m_heap m2 0 = Some (STx demo_final)"
    using demo_respond [where os = demo_os and now = 0 and m = ?m1 and i = 0] m0 by force
  have "tx_step ?m1 m2" using m0 by (intro tx_step.respond [OF _ m2(1)]) simp
  with s1 have "tx_step\<^sup>*\<^sup>* demo_manager m2" by (meson r_into_rtranclp rtranclp_trans)
  then have r: "tx_reachable m2" unfolding tx_reachable_def demo_manager_def by blast
  obtain f where f: "s_final demo_final = Some f"
    by (simp add: demo_final_def Let_def ServerTx_startFinalRetransmit_def)
  have "tx_step\<^sup>*\<^sup>* m2 (SetConfig DefaultTxConfig m2)" by (intro r_into_rtranclp tx_step.config)
  from final_response_stable [OF r this m2(2) f] show ?thesis using r m2(2) f by (metis option.distinct(1))
qed



text \<open>C16 (safety): a CANCEL from another address than the INVITE it names is refused: no state changes and
  no request handler runs.\<close>

theorem spoofed_cancel_refused:
  assumes "cseq_method (Request_CSeq req) = CANCEL" "lookup_tx (''S|'' @ viaBranch req @ ''|INVITE'') m = Some (i, STx t)"
    "\<not> sameAddr src (s_src t)"
  shows "handleRequest os now req src m = (m, Some (OnError ErrTxNotFound src))"
  using assms by (simp add: handleRequest_def Let_def CANCEL_def ACK_def)

theorem spoofed_cancel_refused_witness:
  "let m = add_tx demo_key (STx demo_stx) demo_manager; src = demo_addr\<lparr>AHost := ''x''\<rparr>
   in handleRequest demo_os 0 (demo_request CANCEL) src m = (m, Some (OnError ErrTxNotFound src))"
proof -
  let ?m = "add_tx demo_key (STx demo_stx) demo_manager" and ?src = "demo_addr\<lparr>AHost := ''x''\<rparr>"
  have l: "lookup_tx (''S|'' @ viaBranch (demo_request CANCEL) @ ''|INVITE'') ?m = Some (m_next demo_manager, STx demo_stx)"
    by (simp add: lookup_tx_def demo_branch demo_key_def)
  have "ParseIP ''x'' = None" by code_simp
  moreover have "\<not> EqualFold ''x'' ''h''" by code_simp
  ultimately have "\<not> sameAddr ?src (s_src demo_stx)"
    by (simp add: sameAddr_def sameHost_def demo_stx_def new_server_tx_def demo_addr_def)
  from spoofed_cancel_refused [OF demo_CSeq l this] show ?thesis by (simp add: Let_def)
qed

text \<open>A server transaction answers once: a final response after the final one is dropped
  without being sent, and a provisional one is refused with \<^verbatim>\<open>ErrTxTerminated\<close>.\<close>

theorem respond_once:
  assumes "server_ok t" "s_final t \<noteq> None" "100 \<le> StatusCode resp" "StatusCode resp \<le> 699"
  shows "ServerTx_Respond os now i t resp m = (m, if StatusCode resp < 200 then Inl ErrTxTerminated else Inr ())"
  using assms by (auto simp: ServerTx_Respond_def Let_def server_ok_def)

theorem respond_once_witness:
  "ServerTx_Respond demo_os 0 0 demo_final (NewResponse 180 []) demo_manager = (demo_manager, Inl ErrTxTerminated)"
proof -
  have "server_ok demo_final"
    using new_server_ok [of "demo_request INVITE" demo_addr]
    by (auto simp: server_ok_def demo_final_def Let_def ServerTx_startFinalRetransmit_def demo_stx_def new_server_tx_def
        NewResponse_def isInvite_def demo_method serverTxKey_def demo_branch demo_CSeq demo_key_def INVITE_def)
  moreover have "s_final demo_final \<noteq> None" by (simp add: demo_final_def Let_def ServerTx_startFinalRetransmit_def)
  ultimately show ?thesis
    using respond_once [of demo_final "NewResponse 180 []" demo_os 0 0 demo_manager] by (simp add: NewResponse_def)
qed

text \<open>C9 (liveness): a request that nobody answers ends. If nothing but its own timer runs, then after at
  most \<open>TimerF div T1 + 1\<close> expirations the transaction is terminated and out of the table, its goroutine is
  stopped, and the application finds \<^verbatim>\<open>ErrTimeout\<close> as the last event, whether or not the retransmissions
  could be sent.\<close>

theorem unanswered_request_ends:
  assumes "c_starting t" "m_heap m i = Some (CTx t)" "length (c_events t) < event_capacity"
    "0 < T1 (m_cfg m)" "T1 (m_cfg m) \<le> T2 (m_cfg m)"
  shows "\<exists>k \<le> nat (TimerF (m_cfg m) div T1 (m_cfg m)) + 1.
    timed_out (client_ticks os now i k (Request_end i t m)) i (c_key t)"
proof -
  let ?t = "ClientTx_startRetransmit (m_cfg m)
       (t\<lparr>c_state := (if RMethod (c_req t) = INVITE then TxStateCalling else TxStateTrying), c_starting := False\<rparr>)"
  have "waiting (Request_end i t m) i ?t 0" "c_events ?t = c_events t" "c_key ?t = c_key t" "m_cfg (Request_end i t m) = m_cfg m"
    using assms by (simp_all add: waiting_def Request_end_def ClientTx_startRetransmit_def retransmit_cap_def)
  then show ?thesis using unanswered_times_out [of "Request_end i t m" i ?t os now] assms by simp
qed

theorem unanswered_request_ends_witness:
  "let t = new_client_tx (demo_request INVITE) ''k'' demo_addr; m = put_tx 0 (CTx t) demo_manager
   in \<exists>k \<le> 65. timed_out (client_ticks (\<lambda>_. demo_os) (\<lambda>_. 0) 0 k (Request_end 0 t m)) 0 ''k''"
proof -
  let ?t = "new_client_tx (demo_request INVITE) ''k'' demo_addr"
  let ?m = "put_tx 0 (CTx ?t) demo_manager"
  have "\<exists>k \<le> nat (TimerF (m_cfg ?m) div T1 (m_cfg ?m)) + 1. timed_out (client_ticks (\<lambda>_. demo_os) (\<lambda>_. 0) 0 k (Request_end 0 ?t ?m)) 0 (c_key ?t)"
    by (rule unanswered_request_ends) (simp_all add: new_client_tx_def event_capacity_def demo_manager_def NewTxManager_def DefaultTxConfig_def)
  moreover have "nat (TimerF (m_cfg ?m) div T1 (m_cfg ?m)) + 1 = 65"
    by (simp add: demo_manager_def NewTxManager_def DefaultTxConfig_def)
  ultimately show ?thesis by (simp add: Let_def new_client_tx_def)
qed

text \<open>The client transaction acknowledges every final response from 300 on, not only those to
  INVITE: a REGISTER that is challenged with 401 is followed by an ACK on the wire.\<close>

theorem ack_to_non_invite:
  assumes "RMethod (c_req t) \<noteq> INVITE" "c_state t = TxStateTrying" "300 \<le> StatusCode resp" "Request_Via (c_req t) = Some via"
  shows "\<exists>ack. RMethod ack = ACK \<and> ClientTx_receive os now i t resp m =
    Inr (schedule_finish i (fst (TxManager_send os now (Req ack) (c_dst t)
      (snd (ClientTx_deliver i (EvResponse resp) (t\<lparr>c_state := TxStateCompleted\<rparr>) m)))))"
proof -
  obtain ack where "ack_request (c_req t) resp = Inr ack" "RMethod ack = ACK"
    using assms(4) by (simp add: ack_request_def Let_def NewRequest_def)
  then show ?thesis using assms(1-3) by (intro exI [of _ ack]) (simp add: ClientTx_receive_def case_prod_beta ClientTx_sendACK_def)
qed

theorem ack_to_non_invite_witness:
  "let t = (new_client_tx (demo_request ''REGISTER'') ''k'' demo_addr)\<lparr>c_state := TxStateTrying\<rparr>
   in \<exists>ack. RMethod ack = ACK \<and> ClientTx_receive demo_os 0 0 t (NewResponse 401 []) demo_manager =
     Inr (schedule_finish 0 (fst (TxManager_send demo_os 0 (Req ack) demo_addr
       (snd (ClientTx_deliver 0 (EvResponse (NewResponse 401 [])) (t\<lparr>c_state := TxStateCompleted\<rparr>) demo_manager)))))"
proof -
  let ?t = "(new_client_tx (demo_request ''REGISTER'') ''k'' demo_addr)\<lparr>c_state := TxStateTrying\<rparr>"
  have "Request_Via (c_req ?t) = Some sample_via"
    by (simp add: new_client_tx_def Request_Via_def via_of_def demo_request_def sample_Get_plain)
  then show ?thesis
    using ack_to_non_invite [of ?t "NewResponse 401 []" sample_via demo_os 0 0 demo_manager]
    by (simp add: Let_def new_client_tx_def demo_method INVITE_def NewResponse_def)
qed

text \<open>A server INVITE transaction is finished by two timers (the one of the final response and
  the one of the ACK). The second one removes whatever holds the key by then: the layer reaches a state
  with a server transaction that has just been created, has not ended, and is not in the table.\<close>

theorem stale_timer_unregisters:
  "\<exists>m t. tx_reachable m \<and> m_heap m 1 = Some (STx t) \<and> \<not> s_terminated t \<and> s_state t = TxStateProceeding \<and>
     m_txs m (s_key t) = None"
  using stale_timer_run by (auto simp: demo_stx_def new_server_tx_def)

end
