(* ===== verification/Intake.thy ===== *)
theory Intake
  imports TransportOpen TransactionProps
begin

text \<open>
  \<^verbatim>\<open>TxManager.Run\<close> of \<^verbatim>\<open>transaction.go\<close>: the goroutine that takes the packets from the transport's queue and
  hands them to \<^verbatim>\<open>handlePacket\<close>, one after the other. A turn is given what the network answers while the packet
  is handled. Handling a packet never looks at the queue behind it (\<open>requeue\<close> commutes with every handler), so
  that the bytes of a stream, however cut, have the effect of its messages handled one by one.
\<close>

section \<open>The loop\<close>

definition Run_step :: "OS \<Rightarrow> int \<Rightarrow> TxManager \<Rightarrow> (TxManager \<times> Upcall option) result option" where
  "Run_step os now m = (case m_tp m of
     None \<Rightarrow> None
   | Some t \<Rightarrow> (case tp_packets t of
       [] \<Rightarrow> None
     | pkt # rest \<Rightarrow> Some (handlePacket os now pkt (m\<lparr>m_tp := Some (t\<lparr>tp_packets := rest\<rparr>)\<rparr>))))"

text \<open>Turns of the loop until the answers of the network run out or the queue is empty.\<close>

fun Run_loop :: "(OS \<times> int) list \<Rightarrow> TxManager \<Rightarrow> (TxManager \<times> Upcall option list) result" where
  "Run_loop [] m = Inr (m, [])"
| "Run_loop ((os, now) # env) m = (case Run_step os now m of
     None \<Rightarrow> Inr (m, [])
   | Some (Inl e) \<Rightarrow> Inl e
   | Some (Inr (m', u)) \<Rightarrow> map_sum id (map_prod id ((#) u)) (Run_loop env m'))"

fun handle_all :: "(OS \<times> int) list \<Rightarrow> Packet list \<Rightarrow> TxManager \<Rightarrow> (TxManager \<times> Upcall option list) result" where
  "handle_all ((os, now) # env) (pkt # pkts) m = (case handlePacket os now pkt m of
     Inl e \<Rightarrow> Inl e
   | Inr (m', u) \<Rightarrow> map_sum id (map_prod id ((#) u)) (handle_all env pkts m'))"
| "handle_all _ _ m = Inr (m, [])"

section \<open>Handlers and the queue\<close>

definition requeue :: "Packet list \<Rightarrow> TxManager \<Rightarrow> TxManager" where
  "requeue q m = m\<lparr>m_tp := map_option (\<lambda>t. t\<lparr>tp_packets := q\<rparr>) (m_tp m)\<rparr>"

lemma requeue_frame [simp]:
  "m_txs (requeue q m) = m_txs m" "m_heap (requeue q m) = m_heap m" "m_next (requeue q m) = m_next m"
  "m_cfg (requeue q m) = m_cfg m" "m_timers (requeue q m) = m_timers m" "m_metrics (requeue q m) = m_metrics m"
  "m_tp (requeue q m) = map_option (\<lambda>t. t\<lparr>tp_packets := q\<rparr>) (m_tp m)"
  by (simp_all add: requeue_def)

lemma requeue_requeue [simp]: "requeue q (requeue r m) = requeue q m"
  by (simp add: requeue_def option.map_comp o_def)

lemma requeue_update:
  "put_tx i t (requeue q m) = requeue q (put_tx i t m)" "TxManager_remove k (requeue q m) = requeue q (TxManager_remove k m)"
  "schedule_finish i (requeue q m) = requeue q (schedule_finish i m)" "add_tx k t (requeue q m) = requeue q (add_tx k t m)"
  "inc_metric n (requeue q m) = requeue q (inc_metric n m)"
  by (simp_all add: put_tx_def TxManager_remove_def schedule_finish_def add_tx_def inc_metric_def requeue_def)

lemma lookup_requeue [simp]: "lookup_tx k (requeue q m) = lookup_tx k m"
  by (simp add: lookup_tx_def cong: option.case_cong)

lemma getStreamConn_requeue:
  "getStreamConn os now n dst (t\<lparr>tp_packets := q\<rparr>) = map_prod (\<lambda>t. t\<lparr>tp_packets := q\<rparr>) id (getStreamConn os now n dst t)"
  by (simp add: getStreamConn_def Let_def dial_def registerConn_def split: option.split sum.split)

lemma Transport_Send_requeue:
  "Transport_Send os now n dst msg (t\<lparr>tp_packets := q\<rparr>) = map_prod (\<lambda>t. t\<lparr>tp_packets := q\<rparr>) id (Transport_Send os now n dst msg t)"
proof -
  obtain t1 r where g: "getStreamConn os now n dst t = (t1, r)" by fastforce
  show ?thesis
    unfolding Transport_Send_def getStreamConn_requeue g
    by (simp add: Let_def record_wire_def touchConn_def split: option.split sum.split)
qed

lemma TxManager_send_requeue:
  "TxManager_send os now msg dst (requeue q m) = map_prod (requeue q) id (TxManager_send os now msg dst m)"
  by (simp add: TxManager_send_def Let_def Transport_Send_requeue requeue_def split: option.split prod.split)

lemma fst_send_requeue: "fst (TxManager_send os now msg dst (requeue q m)) = requeue q (fst (TxManager_send os now msg dst m))"
  by (simp add: TxManager_send_requeue)

lemma deliver_requeue: "ClientTx_deliver i e t (requeue q m) = map_prod id (requeue q) (ClientTx_deliver i e t m)"
  by (simp add: ClientTx_deliver_def requeue_update)

lemma sendACK_requeue: "ClientTx_sendACK os now t resp (requeue q m) = map_sum id (requeue q) (ClientTx_sendACK os now t resp m)"
  by (cases "ack_request (c_req t) resp") (simp_all add: ClientTx_sendACK_def fst_send_requeue)

lemma receive_requeue:
  "ClientTx_receive os now i t resp (requeue q m) = map_sum id (requeue q) (ClientTx_receive os now i t resp m)"
proof -
  have bind: "bind_result (map_sum id (requeue q) r) (\<lambda>m. Inr (schedule_finish i m)) =
      map_sum id (requeue q) (bind_result r (\<lambda>m. Inr (schedule_finish i m)))" for r :: "TxManager result"
    by (cases r) (simp_all add: requeue_update)
  show ?thesis
    by (simp add: ClientTx_receive_def Let_def deliver_requeue requeue_update sendACK_requeue ClientTx_finish_def bind split: prod.split)
qed

lemma handleRequest_requeue:
  "handleRequest os now req src (requeue q m) = map_prod (requeue q) id (handleRequest os now req src m)"
  by (simp add: handleRequest_def Let_def requeue_update ServerTx_receiveACK_def ServerTx_receiveRetransmission_def fst_send_requeue
      split: option.split prod.split Tx.split)

lemma handleResponse_requeue:
  "handleResponse os now resp src (requeue q m) = map_sum id (map_prod (requeue q) id) (handleResponse os now resp src m)"
proof -
  have bind: "bind_result (map_sum id (requeue q) r) (\<lambda>m. Inr (m, u)) = map_sum id (map_prod (requeue q) id) (bind_result r (\<lambda>m. Inr (m, u)))"
    for r :: "TxManager result" and u :: "Upcall option" by (cases r) simp_all
  show ?thesis
    by (simp add: handleResponse_def Let_def requeue_update receive_requeue bind split: option.split prod.split Tx.split)
qed

lemma handlePacket_requeue:
  "handlePacket os now pkt (requeue q m) = map_sum id (map_prod (requeue q) id) (handlePacket os now pkt m)"
  by (simp add: handlePacket_def Let_def requeue_update handleRequest_requeue handleResponse_requeue split: Message.split)

lemma handle_all_requeue:
  "handle_all env pkts (requeue q m) = map_sum id (map_prod (requeue q) id) (handle_all env pkts m)"
proof (induction env pkts m rule: handle_all.induct)
  case (1 os now env pkt pkts m)
  show ?case
  proof (cases "handlePacket os now pkt m")
    case (Inr r)
    obtain m' u where "r = (m', u)" by (cases r) auto
    then have "handlePacket os now pkt m = Inr (m', u)" using Inr by simp
    then show ?thesis
      using "1.IH" [OF \<open>handlePacket os now pkt m = Inr (m', u)\<close> refl]
      by (cases "handle_all env pkts m'") (auto simp: handlePacket_requeue)
  qed (simp add: handlePacket_requeue)
qed simp_all

lemma send_tp: "m_tp (fst (TxManager_send os now msg dst m)) = None \<longleftrightarrow> m_tp m = None"
  by (simp add: TxManager_send_def Let_def split: option.split prod.split)

lemma deliver_tp: "m_tp (snd (ClientTx_deliver i e t m)) = m_tp m"
  by (simp add: ClientTx_deliver_def)

lemma sendACK_tp: "ClientTx_sendACK os now t resp m = Inr m' \<Longrightarrow> m_tp m' = None \<longleftrightarrow> m_tp m = None"
  by (auto simp: ClientTx_sendACK_def bind_result_eq_Inr send_tp)

lemma receive_tp:
  assumes r: "ClientTx_receive os now i t resp m = Inr m'"
  shows "m_tp m' = None \<longleftrightarrow> m_tp m = None"
proof -
  let ?d = "\<lambda>t. ClientTx_deliver i (EvResponse resp) t m"
  consider "StatusCode resp < 200" | "\<not> StatusCode resp < 200" "StatusCode resp < 300" "RMethod (c_req t) = INVITE"
    | "\<not> StatusCode resp < 200" "StatusCode resp < 300" "RMethod (c_req t) \<noteq> INVITE"
    | "\<not> StatusCode resp < 200" "\<not> StatusCode resp < 300" by blast
  then show ?thesis
  proof cases
    case 1 then show ?thesis using r unfolding ClientTx_receive_def by (simp add: deliver_tp split: if_splits) (metis deliver_tp)
  next
    case 2
    let ?t = "t\<lparr>c_state := TxStateCompleted\<rparr>"
    have "ClientTx_sendACK os now ?t resp (if c_state t = TxStateCompleted then put_tx i (CTx ?t) m
        else schedule_finish i (snd (?d ?t))) = Inr m'"
      using r 2 unfolding ClientTx_receive_def Let_def by simp
    from sendACK_tp [OF this] show ?thesis by (simp add: deliver_tp split: if_splits)
  next
    case 3
    then have "m' = ClientTx_finish i (fst (?d t)) (snd (?d t))" using r unfolding ClientTx_receive_def by (simp add: case_prod_beta)
    then show ?thesis by (simp add: ClientTx_finish_def deliver_tp)
  next
    case 4
    show ?thesis
    proof (cases "c_state t = TxStateCompleted \<or> c_state t = TxStateTerminated")
      case True then show ?thesis using r 4 unfolding ClientTx_receive_def by simp
    next
      case False
      let ?p = "?d (t\<lparr>c_state := TxStateCompleted\<rparr>)"
      have "bind_result (ClientTx_sendACK os now (fst ?p) resp (snd ?p)) (\<lambda>m2. Inr (schedule_finish i m2)) = Inr m'"
        using r 4 False unfolding ClientTx_receive_def by (simp add: case_prod_beta)
      then obtain m2 where "ClientTx_sendACK os now (fst ?p) resp (snd ?p) = Inr m2" "m' = schedule_finish i m2"
        unfolding bind_result_eq_Inr by blast
      then show ?thesis using sendACK_tp deliver_tp by simp
    qed
  qed
qed

lemma handleRequest_tp: "m_tp (fst (handleRequest os now req src m)) = None \<longleftrightarrow> m_tp m = None"
  by (simp add: handleRequest_def Let_def ServerTx_receiveACK_def ServerTx_receiveRetransmission_def send_tp
      split: option.split prod.split Tx.split)

lemma handlePacket_tp:
  assumes "handlePacket os now pkt m = Inr (m', u)"
  shows "m_tp m' = None \<longleftrightarrow> m_tp m = None"
proof (cases "Msg pkt")
  case (Req r)
  then show ?thesis using assms handleRequest_tp [of os now r "Src pkt" "inc_metric ''packets_received'' m"] by (simp add: handlePacket_def)
next
  case (Resp r)
  then show ?thesis
    using assms by (auto simp: handlePacket_def handleResponse_def Let_def bind_result_eq_Inr dest!: receive_tp
      split: if_splits option.splits Tx.splits)
qed

section \<open>From the queue to the handlers\<close>

lemma Run_loop_handles:
  assumes "m_tp m \<noteq> None" "length env = length pkts"
  shows "Run_loop env (requeue pkts m) = map_sum id (map_prod (requeue []) id) (handle_all env pkts m)"
  using assms(2,1)
proof (induction env pkts arbitrary: m rule: list_induct2)
  case (Cons e env pkt pkts)
  obtain os now where e: "e = (os, now)" by (cases e)
  obtain t where t: "m_tp m = Some t" using Cons.prems by auto
  have "(requeue (pkt # pkts) m)\<lparr>m_tp := Some (t\<lparr>tp_packets := pkts\<rparr>)\<rparr> = requeue pkts m"
    using t by (simp add: requeue_def)
  then have step: "Run_step os now (requeue (pkt # pkts) m) = Some (handlePacket os now pkt (requeue pkts m))"
    using t by (simp add: Run_step_def)
  show ?case
  proof (cases "handlePacket os now pkt m")
    case (Inl x) then show ?thesis by (simp add: e step handlePacket_requeue)
  next
    case (Inr r)
    obtain m' u where r: "r = (m', u)" by (cases r)
    have "m_tp m' \<noteq> None" using handlePacket_tp [of os now pkt m m' u] Inr r Cons.prems by simp
    then show ?thesis
      using Cons.IH [of m'] Inr r by (cases "handle_all env pkts m'") (auto simp: e step handlePacket_requeue)
  qed
next
  case Nil then show ?case by simp
qed

lemma stream_handled_lemma:
  assumes "wf_stream ms" "concat cs = concat (map render ms)" "cs \<noteq> []" "list_all (\<lambda>x. x \<noteq> []) cs"
    "m_tp m = Some t" "tp_packets t = []" "\<not> tp_done t" "length env = length ms"
  shows "\<exists>t'. readTCP now c (map (\<lambda>x. (x, False)) cs) t = Some (\<lparr>buf = []\<rparr>, t', True) \<and>
    Run_loop env (m\<lparr>m_tp := Some t'\<rparr>) =
    handle_all env (map (\<lambda>x. \<lparr>Msg = x, Src = conn_src c\<rparr>) ms) (m\<lparr>m_tp := Some (registerConn now c t)\<rparr>)"
proof -
  let ?pkts = "map (\<lambda>x. \<lparr>Msg = x, Src = conn_src c\<rparr>) ms" and ?t = "registerConn now c t"
  let ?m = "m\<lparr>m_tp := Some ?t\<rparr>"
  have t: "tp_packets ?t = []" "\<not> tp_done ?t" using assms(6,7) by (simp_all add: registerConn_def)
  have "readTCP_all cs (conn_src c) \<lparr>buf = []\<rparr> ?t = Some (\<lparr>buf = []\<rparr>, ?t\<lparr>tp_packets := ?pkts\<rparr>, True)"
    using stream_delivered [OF assms(1-3) t(2)] t(1) by simp
  from readTCP_loop_all [OF this assms(4), of "[]"]
  have read: "readTCP now c (map (\<lambda>x. (x, False)) cs) t = Some (\<lparr>buf = []\<rparr>, ?t\<lparr>tp_packets := ?pkts\<rparr>, True)"
    by (simp add: readTCP_def)
  have q: "m\<lparr>m_tp := Some (?t\<lparr>tp_packets := ?pkts\<rparr>)\<rparr> = requeue ?pkts ?m" by (simp add: requeue_def)
  have "?t\<lparr>tp_packets := []\<rparr> = ?t" using t(1) by simp
  then have empty: "requeue [] ?m = ?m" by (simp add: requeue_def)
  have "Run_loop env (requeue ?pkts ?m) = handle_all env ?pkts (requeue [] ?m)"
    using Run_loop_handles [of ?m env ?pkts] assms(8) unfolding handle_all_requeue by simp
  then show ?thesis using read q empty by auto
qed

section \<open>Properties\<close>

text \<open>C19 (refinement): from bytes to transactions. However the bytes of a stream of messages are cut into reads,
  \<^verbatim>\<open>readTCP\<close>, the queue and the loop of \<^verbatim>\<open>Run\<close> together have the effect of handling the messages themselves, one
  after the other in the order they were sent: the same transactions, the same answers sent, the same calls of
  the layer above, the same panic if one of them causes it.\<close>

theorem stream_handled:
  assumes "wf_stream ms" "concat cs = concat (map render ms)" "cs \<noteq> []" "list_all (\<lambda>x. x \<noteq> []) cs"
    "m_tp m = Some t" "tp_packets t = []" "\<not> tp_done t" "length env = length ms"
  shows "\<exists>t'. readTCP now c (map (\<lambda>x. (x, False)) cs) t = Some (\<lparr>buf = []\<rparr>, t', True) \<and>
    Run_loop env (m\<lparr>m_tp := Some t'\<rparr>) =
    handle_all env (map (\<lambda>x. \<lparr>Msg = x, Src = conn_src c\<rparr>) ms) (m\<lparr>m_tp := Some (registerConn now c t)\<rparr>)"
  using stream_handled_lemma [OF assms] .

theorem stream_handled_witness:
  "let t = new_transport None True False; m = NewTxManager (Some t) ''h'' 5060;
       c = \<lparr>c_tls = False, c_host = ''10.0.0.1'', c_port = 5060\<rparr>; raw = render (Req sample_request)
   in \<exists>t' m'. readTCP 0 c [(take 20 raw, False), (drop 20 raw, False)] t = Some (\<lparr>buf = []\<rparr>, t', True) \<and>
     Run_loop [(demo_os, 0)] (m\<lparr>m_tp := Some t'\<rparr>) = Inr (m', [Some (OnRequest sample_request (conn_src c) (Some 0))])"
proof -
  let ?t = "new_transport None True False" and ?c = "\<lparr>c_tls = False, c_host = ''10.0.0.1'', c_port = 5060\<rparr>"
  let ?m = "NewTxManager (Some ?t) ''h'' 5060" and ?raw = "render (Req sample_request)"
  let ?n = "?m\<lparr>m_tp := Some (registerConn 0 ?c ?t)\<rparr>"
  have wf: "wf_stream [Req sample_request]"
    using wf_sample_request sample_request_length sample_length
    by (simp add: wf_stream_def MaxMessageSize_def) (simp add: sample_request_def)
  have "20 < length ?raw" by code_simp
  then have cut: "list_all (\<lambda>x. x \<noteq> []) [take 20 ?raw, drop 20 ?raw]" by auto
  have "cseq_method (Request_CSeq sample_request) \<noteq> ACK" "cseq_method (Request_CSeq sample_request) \<noteq> CANCEL" by code_simp+
  then have "handlePacket demo_os 0 \<lparr>Msg = Req sample_request, Src = conn_src ?c\<rparr> ?n =
      Inr (add_tx (serverTxKey sample_request) (STx (new_server_tx sample_request (serverTxKey sample_request) (conn_src ?c)))
        (inc_metric ''packets_received'' ?n), Some (OnRequest sample_request (conn_src ?c) (Some 0)))"
    by (simp add: handlePacket_def handleRequest_def Let_def lookup_tx_def inc_metric_def NewTxManager_def serverTxKey_def)
  then show ?thesis
    using stream_handled [of "[Req sample_request]" "[take 20 ?raw, drop 20 ?raw]" ?m ?t "[(demo_os, 0)]" 0 ?c] wf cut
    by (simp add: Let_def NewTxManager_def new_transport_def del: Run_loop.simps) blast
qed

end
