(* ===== verification/Dialog.thy ===== *)
theory Dialog
  imports TransportCorrect TransactionProps
begin

text \<open>
  \<^verbatim>\<open>dialog.go\<close>: dialogs and the table that finds them. Dialogs are shared by pointer between the table, the
  sessions and the application, and their identifier changes when the remote tag becomes known, so the
  objects live in a heap and the table maps the identifier a dialog had when it was added to its number.
\<close>

section \<open>Data\<close>

datatype DialogState = DialogEarly | DialogConfirmed | DialogTerminated

record Dialog =
  d_CallID :: string
  d_LocalTag :: string
  d_RemoteTag :: string
  d_Local :: "Address option"
  d_Remote :: "Address option"
  d_RemoteTarget :: "Uri option"
  d_RouteSet :: "Uri option list"
  d_State :: DialogState
  d_LocalSeq :: "32 word"
  d_RemoteSeq :: "32 word"
  d_Secure :: bool

record DialogManager =
  dm_dialogs :: "(string \<times> nat) list"
  dm_heap :: "nat \<rightharpoonup> Dialog"
  dm_next :: nat

definition NewDialogManager :: DialogManager where
  "NewDialogManager = \<lparr>dm_dialogs = [], dm_heap = Map.empty, dm_next = 0\<rparr>"

fun NewTag :: "Entropy \<Rightarrow> string" where
  "NewTag (RandomBytes b) = concat (map hex_byte b)"
| "NewTag (NoRandom t p n) = format_nat 10 t"

definition dialog_id :: "string \<Rightarrow> string \<Rightarrow> string \<Rightarrow> string" where
  "dialog_id callID localTag remoteTag = callID @ '';'' @ localTag @ '';'' @ remoteTag"

definition Dialog_ID :: "Dialog \<Rightarrow> string" where
  "Dialog_ID d = dialog_id (d_CallID d) (d_LocalTag d) (d_RemoteTag d)"

definition NextLocalSeq :: "Dialog \<Rightarrow> Dialog \<times> 32 word" where
  "NextLocalSeq d = (let s = d_LocalSeq d + 1 in (d\<lparr>d_LocalSeq := s\<rparr>, s))"

fun DialogState_String :: "DialogState \<Rightarrow> string" where
  "DialogState_String DialogEarly = ''early''"
| "DialogState_String DialogConfirmed = ''confirmed''"
| "DialogState_String DialogTerminated = ''terminated''"

definition Dialog_SetState :: "DialogState \<Rightarrow> Dialog \<Rightarrow> Dialog" where
  "Dialog_SetState s d = d\<lparr>d_State := s\<rparr>"

section \<open>Requests inside a dialog\<close>

definition fromHeader :: "Address \<Rightarrow> Header" where "fromHeader a = AddrHeader a ''From''"
definition toHeader :: "Address \<Rightarrow> Header" where "toHeader a = AddrHeader a ''To''"

definition address_params :: "Address \<Rightarrow> Params" where
  "address_params a = (case AParams a of None \<Rightarrow> NewParams | Some p \<Rightarrow> p)"

definition dialog_from :: "string \<Rightarrow> Address \<Rightarrow> Address" where
  "dialog_from tag a = a\<lparr>AParams := Some (Params_Set ''tag'' tag (Params_del ''tag'' (address_params a)))\<rparr>"

definition dialog_to :: "string \<Rightarrow> Address \<Rightarrow> Address" where
  "dialog_to tag a =
     a\<lparr>AParams := Some (if tag \<noteq> [] then Params_Set ''tag'' tag (address_params a) else address_params a)\<rparr>"

definition dialog_headers :: "Method \<Rightarrow> Dialog \<Rightarrow> Address \<Rightarrow> Address \<Rightarrow> Headers" where
  "dialog_headers method d local remote =
     (let h1 = Headers_Set (NewHeader ''Call-ID'' (d_CallID d)) [];
          h2 = Headers_Set (fromHeader (dialog_from (d_LocalTag d) local)) h1;
          h3 = Headers_Set (toHeader (dialog_to (d_RemoteTag d) remote)) h2;
          h4 = Headers_Set (CSeqHeader \<lparr>Seq = d_LocalSeq d + 1, CMethod = method\<rparr>) h3;
          h5 = Headers_Set (MaxForwards 70) h4
      in fold (\<lambda>u. Headers_Add (NewHeader ''Route'' (Uri_String u))) (rev (d_RouteSet d)) h5)"

definition CreateRequest :: "Method \<Rightarrow> string \<Rightarrow> string option \<Rightarrow> Dialog \<Rightarrow> (Dialog \<times> Request) result" where
  "CreateRequest method contentType body d =
     (if d_State d = DialogTerminated then Inl ErrDialogNotFound
      else if d_RemoteTarget d = None \<and> d_Remote d = None then Inl ErrDialogNotFound
      else
        (let uri = (case d_RemoteTarget d of
               Some u \<Rightarrow> Some u
             | None \<Rightarrow> (case d_Remote d of Some r \<Rightarrow> AUri r | None \<Rightarrow> None))
         in case (Address_Clone (d_Local d), Address_Clone (d_Remote d)) of
              (Some local, Some remote) \<Rightarrow>
                (let req = (NewRequest method (Uri_Clone uri))\<lparr>RHeaders := dialog_headers method d local remote\<rparr>
                 in Inr (d\<lparr>d_LocalSeq := d_LocalSeq d + 1\<rparr>, Request_SetBody contentType body req))
            | _ \<Rightarrow> Inl GoPanic))"

definition recordRouteSet :: "Headers \<Rightarrow> Uri option list" where
  "recordRouteSet hs = concat (map (\<lambda>h. case nameAddrListOf (Some h) of
       None \<Rightarrow> []
     | Some l \<Rightarrow> map (\<lambda>a. Uri_Clone (AUri a)) (Addresses l)) (Headers_All ''Record-Route'' hs))"

definition updateFromResponse :: "Response \<Rightarrow> Dialog \<Rightarrow> Dialog" where
  "updateFromResponse resp d0 =
     (let tag = Address_Tag (addressOf (Headers_Get (SHeaders resp) ''To''));
          d1 = (if tag \<noteq> [] then d0\<lparr>d_RemoteTag := tag\<rparr> else d0);
          d2 = (case NameAddrList_First (Response_Contact resp) of
                  None \<Rightarrow> d1
                | Some c \<Rightarrow> d1\<lparr>d_RemoteTarget := Uri_Clone (AUri c)\<rparr>)
      in d2\<lparr>d_RouteSet := recordRouteSet (SHeaders resp)\<rparr>)"

definition updateFromRequest :: "Request \<Rightarrow> Dialog \<Rightarrow> Dialog" where
  "updateFromRequest req d = (case Request_CSeq req of
     None \<Rightarrow> d
   | Some c \<Rightarrow> if d_RemoteSeq d < Seq c then d\<lparr>d_RemoteSeq := Seq c\<rparr> else d)"

definition Dialog_Terminate :: "Dialog \<Rightarrow> Dialog" where
  "Dialog_Terminate d = d\<lparr>d_State := DialogTerminated\<rparr>"

section \<open>The two sides\<close>

definition NewClientDialog :: "string \<Rightarrow> string \<Rightarrow> string \<Rightarrow> Address option \<Rightarrow> Address option \<Rightarrow> 32 word \<Rightarrow> Dialog" where
  "NewClientDialog callID localTag remoteTag from to seq =
     \<lparr>d_CallID = callID, d_LocalTag = localTag, d_RemoteTag = remoteTag, d_Local = Address_Clone from,
      d_Remote = Address_Clone to, d_RemoteTarget = None, d_RouteSet = [], d_State = DialogEarly,
      d_LocalSeq = seq, d_RemoteSeq = 0, d_Secure = False\<rparr>"

definition NewServerDialog :: "Request \<Rightarrow> string \<Rightarrow> Dialog" where
  "NewServerDialog req localTag =
     (let from = Request_From req; to = Request_To req in
      \<lparr>d_CallID = Request_CallID req, d_LocalTag = localTag, d_RemoteTag = Address_Tag from,
       d_Local = Address_Clone to, d_Remote = Address_Clone from, d_RemoteTarget = Uri_Clone (RUri req),
       d_RouteSet = recordRouteSet (RHeaders req), d_State = DialogEarly, d_LocalSeq = 0,
       d_RemoteSeq = (case Request_CSeq req of None \<Rightarrow> 0 | Some c \<Rightarrow> Seq c), d_Secure = False\<rparr>)"

section \<open>The table\<close>

definition new_dialog :: "Dialog \<Rightarrow> DialogManager \<Rightarrow> DialogManager \<times> nat" where
  "new_dialog d dm = (dm\<lparr>dm_heap := (dm_heap dm)(dm_next dm \<mapsto> d), dm_next := Suc (dm_next dm)\<rparr>, dm_next dm)"

definition set_dialog :: "nat \<Rightarrow> Dialog \<Rightarrow> DialogManager \<Rightarrow> DialogManager" where
  "set_dialog i d dm = dm\<lparr>dm_heap := (dm_heap dm)(i \<mapsto> d)\<rparr>"

definition DialogManager_Add :: "nat \<Rightarrow> Dialog \<Rightarrow> DialogManager \<Rightarrow> DialogManager" where
  "DialogManager_Add i d dm = dm\<lparr>dm_dialogs := map_put (Dialog_ID d) i (dm_dialogs dm)\<rparr>"

definition DialogManager_Get :: "string \<Rightarrow> string \<Rightarrow> string \<Rightarrow> DialogManager \<Rightarrow> nat option" where
  "DialogManager_Get callID localTag remoteTag dm = map_of (dm_dialogs dm) (dialog_id callID localTag remoteTag)"

definition DialogManager_Remove :: "Dialog \<Rightarrow> DialogManager \<Rightarrow> DialogManager" where
  "DialogManager_Remove d dm = dm\<lparr>dm_dialogs := map_delete (Dialog_ID d) (dm_dialogs dm)\<rparr>"

definition DialogManager_Len :: "DialogManager \<Rightarrow> nat" where
  "DialogManager_Len dm = length (dm_dialogs dm)"

text \<open>A Go map is a keyed store.\<close>

interpretation go_map: keyed_store "\<lambda>p m. map_put (fst p) (snd p) m" "\<lambda>m k. map_option (Pair k) (map_of m k)" map_delete
    fst "(=)" "\<lambda>_. True"
  by unfold_locales auto

end
