(* ===== verification/UA.thy ===== *)
theory UA
  imports Dialog
begin

text \<open>
  \<^verbatim>\<open>ua.go\<close>: the user agent on top of the transaction layer and the dialog table. The application's
  callbacks are not part of the program: a handler that calls one returns it as a \<open>UaCall\<close>, and which of
  them are set is the record \<open>UACallbacks\<close>. A server transaction or a dialog that is passed by pointer is
  its number; a nil pointer is \<open>None\<close>. The hash functions of the Digest scheme are parameters (\<open>Hashes\<close>):
  no property depends on more than that they are functions. Waiting for events is a function of the
  events that arrive, where \<open>None\<close> is the deadline.
\<close>

section \<open>Data\<close>

definition BYE :: Method where "BYE = ''BYE''"
definition MESSAGE :: Method where "MESSAGE = ''MESSAGE''"
definition OPTIONS :: Method where "OPTIONS = ''OPTIONS''"
definition INFO :: Method where "INFO = ''INFO''"
definition NOTIFY :: Method where "NOTIFY = ''NOTIFY''"
definition SUBSCRIBE :: Method where "SUBSCRIBE = ''SUBSCRIBE''"
definition REGISTER :: Method where "REGISTER = ''REGISTER''"

record Credentials =
  cr_Username :: string
  cr_Password :: string
  cr_Realm :: string

record UACallbacks =
  has_OnInvite :: bool
  has_OnRegister :: bool
  has_OnBye :: bool
  has_OnMessage :: bool
  has_OnInfo :: bool
  has_OnNotify :: bool
  has_OnSubscribe :: bool

definition no_callbacks :: UACallbacks where
  "no_callbacks = \<lparr>has_OnInvite = False, has_OnRegister = False, has_OnBye = False, has_OnMessage = False,
     has_OnInfo = False, has_OnNotify = False, has_OnSubscribe = False\<rparr>"

record UA =
  ua_tm :: TxManager
  ua_Host :: string
  ua_UserAgent :: string
  ua_dialogs :: DialogManager
  ua_cb :: UACallbacks

datatype UaCall =
    CallInvite Request "nat option" nat
  | CallRegister Request "nat option"
  | CallBye Request nat "nat option"
  | CallMessage Request "nat option"
  | CallInfo Request "nat option" nat
  | CallNotify Request "nat option"
  | CallSubscribe Request "nat option"

definition NewUA :: "Transport \<Rightarrow> string \<Rightarrow> int \<Rightarrow> UA" where
  "NewUA tp host udpPort =
     \<lparr>ua_tm = NewTxManager (Some tp) host udpPort, ua_Host = host, ua_UserAgent = ''go-sip/1.0'',
      ua_dialogs = NewDialogManager, ua_cb = no_callbacks\<rparr>"

definition SetCallbacks :: "UACallbacks \<Rightarrow> UA \<Rightarrow> UA" where
  "SetCallbacks cb ua = ua\<lparr>ua_cb :=
     \<lparr>has_OnInvite = has_OnInvite cb \<or> has_OnInvite (ua_cb ua), has_OnRegister = has_OnRegister cb \<or> has_OnRegister (ua_cb ua),
      has_OnBye = has_OnBye cb \<or> has_OnBye (ua_cb ua), has_OnMessage = has_OnMessage cb \<or> has_OnMessage (ua_cb ua),
      has_OnInfo = has_OnInfo cb \<or> has_OnInfo (ua_cb ua), has_OnNotify = has_OnNotify cb \<or> has_OnNotify (ua_cb ua),
      has_OnSubscribe = has_OnSubscribe cb \<or> has_OnSubscribe (ua_cb ua)\<rparr>\<rparr>"

section \<open>Incoming requests\<close>

text \<open>\<^verbatim>\<open>stx.Respond(resp)\<close> with the error ignored: on a nil transaction it panics, since \<^verbatim>\<open>Respond\<close> reads
  the request of its receiver (the status codes used here are all in range).\<close>

definition respond_stx :: "OS \<Rightarrow> int \<Rightarrow> nat option \<Rightarrow> Response \<Rightarrow> UA \<Rightarrow> UA result" where
  "respond_stx os now stx resp ua = (case stx of
     None \<Rightarrow> Inl GoPanic
   | Some i \<Rightarrow> (case m_heap (ua_tm ua) i of
       Some (STx t) \<Rightarrow> Inr (ua\<lparr>ua_tm := fst (ServerTx_Respond os now i t resp (ua_tm ua))\<rparr>)
     | _ \<Rightarrow> Inr ua))"

definition findDialog :: "Request \<Rightarrow> UA \<Rightarrow> UA \<times> nat option" where
  "findDialog req ua = (case (Request_To req, Request_From req) of
     (Some to, Some from) \<Rightarrow>
       (case DialogManager_Get (Request_CallID req) (Address_Tag (Some to)) (Address_Tag (Some from)) (ua_dialogs ua) of
          None \<Rightarrow> (ua, None)
        | Some i \<Rightarrow> (case dm_heap (ua_dialogs ua) i of
            None \<Rightarrow> (ua, None)
          | Some d \<Rightarrow> (ua\<lparr>ua_dialogs := set_dialog i (updateFromRequest req d) (ua_dialogs ua)\<rparr>, Some i)))
   | _ \<Rightarrow> (ua, None))"

definition dialogSourceAllowed :: "Dialog \<Rightarrow> Addr \<Rightarrow> bool" where
  "dialogSourceAllowed dlg src =
     (let host = (case d_RemoteTarget dlg of
            Some u \<Rightarrow> Host u
          | None \<Rightarrow> (case d_Remote dlg of
              Some r \<Rightarrow> (case AUri r of Some u \<Rightarrow> Host u | None \<Rightarrow> [])
            | None \<Rightarrow> []))
      in host = [] \<or> sameHost (AHost src) host)"

definition handleBye :: "OS \<Rightarrow> int \<Rightarrow> Request \<Rightarrow> Addr \<Rightarrow> nat option \<Rightarrow> UA \<Rightarrow> (UA \<times> UaCall option) result" where
  "handleBye os now req src stx ua0 = (case findDialog req ua0 of
     (ua, None) \<Rightarrow> bind_result (respond_stx os now stx (NewResponse 481 []) ua) (\<lambda>ua'. Inr (ua', None))
   | (ua, Some i) \<Rightarrow> (case dm_heap (ua_dialogs ua) i of
       None \<Rightarrow> Inr (ua, None)
     | Some dlg \<Rightarrow>
         if \<not> dialogSourceAllowed dlg src
         then bind_result (respond_stx os now stx (NewResponse 403 []) ua) (\<lambda>ua'. Inr (ua', None))
         else if (case Request_CSeq req of Some c \<Rightarrow> Seq c < d_RemoteSeq dlg | None \<Rightarrow> False)
         then bind_result (respond_stx os now stx (NewResponse 500 []) ua) (\<lambda>ua'. Inr (ua', None))
         else
           (let dlg' = Dialog_Terminate dlg;
                ua1 = ua\<lparr>ua_dialogs := DialogManager_Remove dlg' (set_dialog i dlg' (ua_dialogs ua))\<rparr>
            in bind_result (respond_stx os now stx (NewResponse 200 []) ua1) (\<lambda>ua2.
                 Inr (ua2, if has_OnBye (ua_cb ua2) then Some (CallBye req i stx) else None)))))"

definition handleInvite :: "OS \<Rightarrow> int \<Rightarrow> Entropy \<Rightarrow> Request \<Rightarrow> nat option \<Rightarrow> UA \<Rightarrow> (UA \<times> UaCall option) result" where
  "handleInvite os now tag req stx ua =
     (if \<not> has_OnInvite (ua_cb ua)
      then bind_result (respond_stx os now stx (NewResponse 501 []) ua) (\<lambda>ua'. Inr (ua', None))
      else
        (let dlg = NewServerDialog req (NewTag tag) in
         case new_dialog dlg (ua_dialogs ua) of
           (dm, i) \<Rightarrow> Inr (ua\<lparr>ua_dialogs := DialogManager_Add i dlg dm\<rparr>, Some (CallInvite req stx i))))"

definition options_response :: Response where
  "options_response =
     (let r = NewResponse 200 [];
          allow = TokenListHeader (ParseTokenList ''Allow''
            ''INVITE, ACK, CANCEL, BYE, REGISTER, OPTIONS, MESSAGE, INFO, NOTIFY, SUBSCRIBE'')
      in r\<lparr>SHeaders := Headers_Set allow (SHeaders r)\<rparr>)"

definition not_implemented :: Response where
  "not_implemented = (let r = NewResponse 501 [] in r\<lparr>SHeaders := Headers_Set (MaxForwards 70) (SHeaders r)\<rparr>)"

definition respond_if :: "OS \<Rightarrow> int \<Rightarrow> nat option \<Rightarrow> Response \<Rightarrow> UA \<Rightarrow> (UA \<times> UaCall option) result" where
  "respond_if os now stx resp ua = (case stx of
     None \<Rightarrow> Inr (ua, None)
   | Some i \<Rightarrow> bind_result (respond_stx os now stx resp ua) (\<lambda>ua'. Inr (ua', None)))"

definition UA_handleRequest ::
    "OS \<Rightarrow> int \<Rightarrow> Entropy \<Rightarrow> Request \<Rightarrow> Addr \<Rightarrow> nat option \<Rightarrow> UA \<Rightarrow> (UA \<times> UaCall option) result" where
  "UA_handleRequest os now tag req src stx ua =
     (let cb = ua_cb ua; method = RMethod req in
      if method = ACK \<or> method = CANCEL then Inr (ua, None)
      else if method = BYE then handleBye os now req src stx ua
      else if method = INVITE then handleInvite os now tag req stx ua
      else if method = MESSAGE \<and> has_OnMessage cb then Inr (ua, Some (CallMessage req stx))
      else if method = OPTIONS then respond_if os now stx options_response ua
      else if method = INFO then
        (case findDialog req ua of
           (ua', Some i) \<Rightarrow>
             if has_OnInfo cb then Inr (ua', Some (CallInfo req stx i)) else respond_if os now stx not_implemented ua'
         | (ua', None) \<Rightarrow> respond_if os now stx not_implemented ua')
      else if method = NOTIFY \<and> has_OnNotify cb then Inr (ua, Some (CallNotify req stx))
      else if method = SUBSCRIBE \<and> has_OnSubscribe cb then Inr (ua, Some (CallSubscribe req stx))
      else if method = REGISTER \<and> has_OnRegister cb then Inr (ua, Some (CallRegister req stx))
      else respond_if os now stx not_implemented ua)"

text \<open>A packet handled by the transaction layer with the user agent as its request handler.\<close>

definition UA_packet :: "OS \<Rightarrow> int \<Rightarrow> Entropy \<Rightarrow> Packet \<Rightarrow> UA \<Rightarrow> (UA \<times> UaCall option) result" where
  "UA_packet os now tag pkt ua =
     bind_result (handlePacket os now pkt (ua_tm ua)) (\<lambda>(tm, up).
       (let ua' = ua\<lparr>ua_tm := tm\<rparr> in
        case up of
          Some (OnRequest req src stx) \<Rightarrow> UA_handleRequest os now tag req src stx ua'
        | _ \<Rightarrow> Inr (ua', None)))"

section \<open>Digest authentication\<close>

record Hashes =
  md5_hex :: "string \<Rightarrow> string"
  sha256_hex :: "string \<Rightarrow> string"
  sha512_256_hex :: "string \<Rightarrow> string"

definition MD5Hex :: "Hashes \<Rightarrow> string list \<Rightarrow> string" where
  "MD5Hex h parts = md5_hex h (concat parts)"

definition digestHashHex :: "Hashes \<Rightarrow> string \<Rightarrow> string list \<Rightarrow> string" where
  "digestHashHex h algorithm parts =
     (let joined = concat parts; a = ToLower algorithm in
      if a = ''sha-256'' then sha256_hex h joined
      else if a = ''sha-512-256'' then sha512_256_hex h joined
      else MD5Hex h parts)"

definition digest_value :: "Hashes \<Rightarrow> Auth \<Rightarrow> Method \<Rightarrow> string \<Rightarrow> string \<Rightarrow> string \<Rightarrow> string \<Rightarrow> string \<Rightarrow> string" where
  "digest_value h challenge method uri username password cnonce nc =
     (let alg = Algorithm challenge; qop = Qop challenge;
          ha1 = digestHashHex h alg [username @ '':'' @ Realm challenge @ '':'' @ password];
          ha2 = digestHashHex h alg [method @ '':'' @ uri]
      in if qop = [] then digestHashHex h alg [ha1 @ '':'' @ Nonce challenge @ '':'' @ ha2]
         else digestHashHex h alg [ha1 @ '':'' @ Nonce challenge @ '':'' @ nc @ '':'' @ cnonce @ '':'' @ qop @ '':'' @ ha2])"

definition DigestResponse :: "Hashes \<Rightarrow> Auth \<Rightarrow> Method \<Rightarrow> string \<Rightarrow> string \<Rightarrow> string \<Rightarrow> string \<Rightarrow> string \<Rightarrow> Auth" where
  "DigestResponse h challenge method uri username password cnonce nc =
     empty_auth\<lparr>AuScheme := ''Digest'', Username := username, Realm := Realm challenge, Nonce := Nonce challenge,
       AuURI := uri, AuResponse := digest_value h challenge method uri username password cnonce nc,
       Qop := Qop challenge, Cnonce := cnonce, Nc := nc, Algorithm := ToUpper (Algorithm challenge),
       Opaque := Opaque challenge\<rparr>"

definition escapeAuthValue :: "string \<Rightarrow> string" where
  "escapeAuthValue s = escape_quotes (escape_backslashes s)"

definition authorization_value :: "Request \<Rightarrow> Credentials \<Rightarrow> string" where
  "authorization_value req creds =
     ''Digest username='' @ [DQ] @ escapeAuthValue (cr_Username creds) @ [DQ] @ '', realm='' @ [DQ] @
     escapeAuthValue (cr_Realm creds) @ [DQ] @ '', uri='' @ [DQ] @ escapeAuthValue (Uri_String (RUri req)) @ [DQ]"

definition authHeaders :: "Request \<Rightarrow> Credentials \<Rightarrow> Request" where
  "authHeaders req creds =
     req\<lparr>RHeaders := Headers_Set (NewHeader ''Authorization'' (authorization_value req creds)) (RHeaders req)\<rparr>"

section \<open>Outgoing requests\<close>

definition plain_uri :: "string \<Rightarrow> string \<Rightarrow> string \<Rightarrow> int \<Rightarrow> Uri" where
  "plain_uri scheme user host port = \<lparr>Scheme = scheme, User = user, Password = [], Host = host, Port = port,
     UParams = None, UHeaders = None\<rparr>"

definition plain_address :: "Uri option \<Rightarrow> Params option \<Rightarrow> Address" where
  "plain_address u p = \<lparr>DisplayName = [], Quoted = False, AUri = u, AParams = p\<rparr>"

definition register_request ::
    "Entropy \<Rightarrow> Entropy \<Rightarrow> Uri \<Rightarrow> Uri option \<Rightarrow> int \<Rightarrow> Credentials option \<Rightarrow> int \<Rightarrow> UA \<Rightarrow> Request" where
  "register_request tag callid aor contact0 expires creds port ua =
     (let contact = (case contact0 of Some c \<Rightarrow> c | None \<Rightarrow> plain_uri (Scheme aor) (User aor) (ua_Host ua) port);
          from = plain_address (Some aor) (Some (Params_Set ''tag'' (NewTag tag) NewParams));
          h1 = Headers_Set (fromHeader from) [];
          h2 = Headers_Set (toHeader (plain_address (Some aor) None)) h1;
          h3 = Headers_Set (NewHeader ''Call-ID'' (NewCallID callid)) h2;
          h4 = Headers_Set (CSeqHeader \<lparr>Seq = 1, CMethod = REGISTER\<rparr>) h3;
          h5 = Headers_Set (MaxForwards 70) h4;
          h6 = Headers_Set (NewHeader ''Expires'' (Itoa expires)) h5;
          h7 = Headers_Set (NewHeader ''Contact'' (Uri_String (Some contact) @ '';expires='' @ Itoa expires)) h6;
          h8 = Headers_Set (NewHeader ''User-Agent'' (ua_UserAgent ua)) h7;
          req = (NewRequest REGISTER (Some aor))\<lparr>RHeaders := h8\<rparr>
      in case creds of None \<Rightarrow> req | Some c \<Rightarrow> authHeaders req c)"

definition UA_request :: "OS \<Rightarrow> int \<Rightarrow> Entropy \<Rightarrow> Entropy \<Rightarrow> Request \<Rightarrow> Addr \<Rightarrow> UA \<Rightarrow> UA \<times> nat result" where
  "UA_request os now br ci req dst ua = (case TxManager_Request os now br ci req dst (ua_tm ua) of
     (tm, r) \<Rightarrow> (ua\<lparr>ua_tm := tm\<rparr>, r))"

definition UA_Register ::
    "OS \<Rightarrow> int \<Rightarrow> Entropy \<Rightarrow> Entropy \<Rightarrow> Entropy \<Rightarrow> Uri \<Rightarrow> Uri option \<Rightarrow> int \<Rightarrow> Credentials option \<Rightarrow> int \<Rightarrow> UA \<Rightarrow> UA \<times> nat result" where
  "UA_Register os now tag callid br aor contact expires creds port ua =
     UA_request os now br callid (register_request tag callid aor contact expires creds port ua)
       \<lparr>Network = ''udp'', AHost = Host aor, APort = Uri_EffectivePort (Some aor)\<rparr> ua"

section \<open>Outgoing calls\<close>

record ClientInviteSession =
  se_ctx :: nat
  se_dlg :: nat
  se_Done :: bool
  se_Final :: "Response option"
  se_Err :: "error option"

definition invite_request :: "string \<Rightarrow> Entropy \<Rightarrow> Uri \<Rightarrow> Address \<Rightarrow> string \<Rightarrow> string option \<Rightarrow> int \<Rightarrow> UA \<Rightarrow> Request" where
  "invite_request localTag callid target from contentType body port ua =
     (let h1 = Headers_Set (fromHeader from) [];
          h2 = Headers_Set (toHeader (plain_address (Some target) None)) h1;
          h3 = Headers_Set (NewHeader ''Call-ID'' (NewCallID callid)) h2;
          h4 = Headers_Set (CSeqHeader \<lparr>Seq = 1, CMethod = INVITE\<rparr>) h3;
          h5 = Headers_Set (MaxForwards 70) h4;
          user = (case AUri from of Some u \<Rightarrow> User u | None \<Rightarrow> []);
          h6 = Headers_Set (NewHeader ''Contact'' (Address_String
                 (plain_address (Some (plain_uri (Scheme target) user (ua_Host ua) port)) None))) h5;
          h7 = Headers_Set (NewHeader ''User-Agent'' (ua_UserAgent ua)) h6
      in Request_SetBody contentType body ((NewRequest INVITE (Some target))\<lparr>RHeaders := h7\<rparr>))"

definition UA_Invite ::
    "OS \<Rightarrow> int \<Rightarrow> Entropy \<Rightarrow> Entropy \<Rightarrow> Entropy \<Rightarrow> Uri \<Rightarrow> Address \<Rightarrow> string \<Rightarrow> string option \<Rightarrow> int \<Rightarrow> UA
      \<Rightarrow> UA \<times> ClientInviteSession result" where
  "UA_Invite os now tag callid br target from0 contentType body port ua =
     (if AUri from0 = None then (ua, Inl GoPanic)
      else
        (let localTag = NewTag tag;
             from = from0\<lparr>AParams := Some (Params_Set ''tag'' localTag (address_params from0))\<rparr>;
             req = invite_request localTag callid target from contentType body port ua;
             dst = \<lparr>Network = ''udp'', AHost = Host target, APort = Uri_EffectivePort (Some target)\<rparr>
         in case UA_request os now br callid req dst ua of
              (ua1, Inl e) \<Rightarrow> (ua1, Inl e)
            | (ua1, Inr ctx) \<Rightarrow>
                (let dlg = NewClientDialog (Request_CallID req) localTag [] (Some from) (Some (plain_address (Some target) None)) 1
                 in case new_dialog dlg (ua_dialogs ua1) of
                      (dm, i) \<Rightarrow>
                        (ua1\<lparr>ua_dialogs := DialogManager_Add i dlg dm\<rparr>,
                         Inr \<lparr>se_ctx = ctx, se_dlg = i, se_Done = False, se_Final = None, se_Err = None\<rparr>))))"

definition contactUri :: "Response \<Rightarrow> Uri option" where
  "contactUri resp = (case NameAddrList_First (Response_Contact resp) of None \<Rightarrow> None | Some c \<Rightarrow> Uri_Clone (AUri c))"

text \<open>\<^verbatim>\<open>pump\<close> handles one event; once \<open>se_Done\<close> it has returned.\<close>

definition pump_response :: "Response \<Rightarrow> ClientInviteSession \<Rightarrow> UA \<Rightarrow> ClientInviteSession \<times> UA" where
  "pump_response resp s ua = (case dm_heap (ua_dialogs ua) (se_dlg s) of
     None \<Rightarrow> (s, ua)
   | Some d0 \<Rightarrow>
       (let d = updateFromResponse resp d0; i = se_dlg s; dm = ua_dialogs ua in
        if 300 \<le> StatusCode resp then
          (let d' = Dialog_Terminate d in
           (s\<lparr>se_Final := Some resp, se_Done := True\<rparr>,
            ua\<lparr>ua_dialogs := DialogManager_Remove d' (set_dialog i d' dm)\<rparr>))
        else if 200 \<le> StatusCode resp then
          (let d1 = d\<lparr>d_State := DialogConfirmed\<rparr>;
               d2 = (if d_RemoteTarget d1 = None then
                       (case contactUri resp of
                          Some u \<Rightarrow> d1\<lparr>d_RemoteTarget := Some u\<rparr>
                        | None \<Rightarrow> (case d_Remote d1 of None \<Rightarrow> d1 | Some r \<Rightarrow> d1\<lparr>d_RemoteTarget := Uri_Clone (AUri r)\<rparr>))
                     else d1)
           in (s\<lparr>se_Final := Some resp, se_Done := True\<rparr>, ua\<lparr>ua_dialogs := set_dialog i d2 dm\<rparr>))
        else (s, ua\<lparr>ua_dialogs := set_dialog i d dm\<rparr>)))"

definition pump :: "TxEvent \<Rightarrow> ClientInviteSession \<Rightarrow> UA \<Rightarrow> ClientInviteSession \<times> UA" where
  "pump ev s ua =
     (if se_Done s then (s, ua)
      else (case ev of
        EvErr e \<Rightarrow> (s\<lparr>se_Err := Some e, se_Done := True\<rparr>, ua)
      | EvResponse resp \<Rightarrow> pump_response resp s ua))"

definition session_ack :: "Request \<Rightarrow> Response \<Rightarrow> Dialog \<Rightarrow> Request" where
  "session_ack orig resp dlg =
     (let h0 = (case Request_Via orig of None \<Rightarrow> [] | Some via \<Rightarrow> Headers_Add (ViaHeader (Via_Clone via)) []);
          h1 = fold (\<lambda>h. Headers_Add (Header_Clone h)) (Headers_All ''Route'' (RHeaders orig)) h0;
          h2 = add_opt (Headers_Get (RHeaders orig) ''From'') h1;
          h3 = add_opt (Headers_Get (SHeaders resp) ''To'') h2;
          h4 = Headers_Set (NewHeader ''Call-ID'' (d_CallID dlg)) h3;
          h5 = (case Request_CSeq orig of None \<Rightarrow> h4 | Some c \<Rightarrow> Headers_Set (CSeqHeader \<lparr>Seq = Seq c, CMethod = ACK\<rparr>) h4)
      in (NewRequest ACK (Uri_Clone (d_RemoteTarget dlg)))\<lparr>RHeaders := Headers_Set (MaxForwards 70) h5\<rparr>)"

definition session_Ack :: "OS \<Rightarrow> int \<Rightarrow> ClientInviteSession \<Rightarrow> UA \<Rightarrow> UA \<times> unit result" where
  "session_Ack os now s ua = (case (se_Final s, m_heap (ua_tm ua) (se_ctx s), dm_heap (ua_dialogs ua) (se_dlg s)) of
     (None, _, _) \<Rightarrow> (ua, Inl ErrInvalidResponse)
   | (Some resp, Some (CTx ctx), Some dlg) \<Rightarrow>
       (case (d_RemoteTarget dlg, m_tp (ua_tm ua)) of
          (Some target, Some tp) \<Rightarrow>
            (case TransportFor target of (network, host, port) \<Rightarrow>
               (case Transport_Send os now network \<lparr>Network = network, AHost = host, APort = port\<rparr>
                       (Req (session_ack (c_req ctx) resp dlg)) tp of
                  (tp', r) \<Rightarrow> (ua\<lparr>ua_tm := (ua_tm ua)\<lparr>m_tp := Some tp'\<rparr>\<rparr>, r)))
        | _ \<Rightarrow> (ua, Inl GoPanic))
   | _ \<Rightarrow> (ua, Inl GoPanic))"

section \<open>Hanging up\<close>

text \<open>The loop of \<^verbatim>\<open>sendAndWait\<close> over what arrives: an event of the transaction, or \<open>None\<close>, the deadline. With
  nothing left to arrive the call is still waiting, and the result is \<open>None\<close>.\<close>

fun wait_final :: "TxEvent option list \<Rightarrow> Response result option" where
  "wait_final [] = None"
| "wait_final (None # evs) = Some (Inl ErrTimeout)"
| "wait_final (Some (EvErr e) # evs) = Some (Inl e)"
| "wait_final (Some (EvResponse r) # evs) = (if 200 \<le> StatusCode r then Some (Inr r) else wait_final evs)"

definition sendAndWait ::
    "OS \<Rightarrow> int \<Rightarrow> Entropy \<Rightarrow> Entropy \<Rightarrow> Request \<Rightarrow> Uri option \<Rightarrow> TxEvent option list \<Rightarrow> UA \<Rightarrow> UA \<times> Response result option" where
  "sendAndWait os now br ci req target evs ua = (case target of
     None \<Rightarrow> (ua, Some (Inl GoPanic))
   | Some u \<Rightarrow>
       (case TransportFor u of (network, host, port) \<Rightarrow>
          (case UA_request os now br ci req \<lparr>Network = network, AHost = host, APort = port\<rparr> ua of
             (ua', Inl e) \<Rightarrow> (ua', Some (Inl e))
           | (ua', Inr ctx) \<Rightarrow> (ua', wait_final evs))))"

text \<open>\<^verbatim>\<open>Hangup\<close>: at most three attempts; each attempt has what arrives during it. \<open>n\<close> counts the attempts
  left.\<close>

fun Hangup_loop ::
    "nat \<Rightarrow> OS \<Rightarrow> int \<Rightarrow> (nat \<Rightarrow> Entropy) \<Rightarrow> (nat \<Rightarrow> TxEvent option list) \<Rightarrow> Response option \<Rightarrow> nat \<Rightarrow> UA
      \<Rightarrow> UA \<times> Response result option" where
  "Hangup_loop 0 os now br evs lastResp i ua =
     (ua, Some (case lastResp of Some r \<Rightarrow> Inr r | None \<Rightarrow> Inl ErrTimeout))"
| "Hangup_loop (Suc n) os now br evs lastResp i ua = (case dm_heap (ua_dialogs ua) i of
     None \<Rightarrow> (ua, Some (Inl GoPanic))
   | Some dlg \<Rightarrow>
       (case CreateRequest BYE [] None dlg of
          Inl e \<Rightarrow> (ua, Some (Inl e))
        | Inr (dlg', req) \<Rightarrow>
            (case sendAndWait os now (br n) (br n) req (d_RemoteTarget dlg') (evs n)
                    (ua\<lparr>ua_dialogs := set_dialog i dlg' (ua_dialogs ua)\<rparr>) of
               (ua1, None) \<Rightarrow> (ua1, None)
             | (ua1, Some (Inl e)) \<Rightarrow> (ua1, Some (Inl e))
             | (ua1, Some (Inr resp)) \<Rightarrow>
                 if StatusCode resp = 491 then Hangup_loop n os now br evs (Some resp) i ua1
                 else (ua1\<lparr>ua_dialogs := set_dialog i (Dialog_Terminate dlg') (ua_dialogs ua1)\<rparr>, Some (Inr resp)))))"

definition Hangup :: "OS \<Rightarrow> int \<Rightarrow> (nat \<Rightarrow> Entropy) \<Rightarrow> (nat \<Rightarrow> TxEvent option list) \<Rightarrow> nat \<Rightarrow> UA \<Rightarrow> UA \<times> Response result option" where
  "Hangup os now br evs i ua = Hangup_loop 3 os now br evs None i ua"

section \<open>Answering\<close>

definition tagged :: "string \<Rightarrow> Address \<Rightarrow> Address" where
  "tagged tag a = (if Address_Tag (Some a) = [] then Address_SetTag tag a else a)"

definition ua_response :: "Dialog option \<Rightarrow> int \<Rightarrow> string \<Rightarrow> string option \<Rightarrow> Response" where
  "ua_response dlg status contentType body =
     (let r = NewResponse status [];
          h1 = (case dlg of
                  None \<Rightarrow> SHeaders r
                | Some d \<Rightarrow> (case d_Local d of
                    None \<Rightarrow> SHeaders r
                  | Some local \<Rightarrow> Headers_Set (toHeader (if 100 \<le> status \<and> d_LocalTag d \<noteq> [] then tagged (d_LocalTag d) local else local))
                                    (SHeaders r)));
          h2 = (case dlg of
                  None \<Rightarrow> h1
                | Some d \<Rightarrow> (case d_RemoteTarget d of
                    Some t \<Rightarrow> if 200 \<le> status \<and> status < 300
                              then Headers_Set (NewHeader ''Contact'' (Address_String (plain_address (Some t) None))) h1 else h1
                  | None \<Rightarrow> h1))
      in Response_SetBody contentType body (r\<lparr>SHeaders := h2\<rparr>))"

definition UA_Respond :: "OS \<Rightarrow> int \<Rightarrow> Dialog option \<Rightarrow> nat option \<Rightarrow> int \<Rightarrow> string \<Rightarrow> string option \<Rightarrow> UA \<Rightarrow> UA \<times> unit result" where
  "UA_Respond os now dlg stx status contentType body ua = (case stx of
     None \<Rightarrow> (ua, Inl ErrUnsupported)
   | Some i \<Rightarrow> (case m_heap (ua_tm ua) i of
       Some (STx t) \<Rightarrow>
         (case ServerTx_Respond os now i t (ua_response dlg status contentType body) (ua_tm ua) of
            (tm, r) \<Rightarrow> (ua\<lparr>ua_tm := tm\<rparr>, r))
     | _ \<Rightarrow> (ua, Inl ErrUnsupported)))"

end
