(* ===== verification/UaCorrect.thy ===== *)
theory UaCorrect
  imports UA
begin

text \<open>
  What dialogs and the user agent guarantee: requests inside a dialog carry its identity and a new
  sequence number, a credential cannot break out of its quotes, a BYE from a stranger changes nothing but
  a counter. And what they do not: four defects of the dialog table and of the request dispatcher.
\<close>

section \<open>Requests inside a dialog\<close>

lemma Get_fold_Add:
  "Headers_Get (fold (\<lambda>u. Headers_Add (f u)) us hs) n =
     (case Headers_Get hs n of Some g \<Rightarrow> Some g | None \<Rightarrow> find (named n) (map f us))"
proof (induction us arbitrary: hs)
  case Nil
  then show ?case by (simp split: option.split)
next
  case (Cons u us)
  then show ?case by (simp add: Get_Add split: option.split)
qed

lemma canonical_dialog_names:
  "CanonicalName ''Max-Forwards'' = ''Max-Forwards''" "CanonicalName ''Content-Type'' = ''Content-Type''"
  "CanonicalName ''Route'' = ''Route''"
  by code_simp+

lemma body_headers_Get:
  assumes "CanonicalName n \<noteq> ''Content-Length''" "CanonicalName n \<noteq> ''Content-Type''"
  shows "Headers_Get (body_headers ct body hs) n = Headers_Get hs n"
  using assms
  by (auto simp: body_headers_def Let_def NewHeader_def Get_Del_miss Get_Set_miss same_name_def sample_names
      canonical_dialog_names split: option.split)

definition dialog_base :: "Method \<Rightarrow> Dialog \<Rightarrow> Address \<Rightarrow> Address \<Rightarrow> Headers" where
  "dialog_base method d local remote =
     [NewHeader ''Call-ID'' (d_CallID d), fromHeader (dialog_from (d_LocalTag d) local),
      toHeader (dialog_to (d_RemoteTag d) remote), CSeqHeader \<lparr>Seq = d_LocalSeq d + 1, CMethod = method\<rparr>, MaxForwards 70]"

lemma dialog_headers_base:
  "dialog_headers method d local remote =
     fold (\<lambda>u. Headers_Add (NewHeader ''Route'' (Uri_String u))) (rev (d_RouteSet d)) (dialog_base method d local remote)"
  by (simp add: dialog_headers_def dialog_base_def Let_def named_def NewHeader_def fromHeader_def toHeader_def
      sample_names canonical_dialog_names)

lemma dialog_base_Get:
  "Headers_Get (dialog_base method d local remote) ''Call-ID'' = Some (NewHeader ''Call-ID'' (d_CallID d))"
  "Headers_Get (dialog_base method d local remote) ''From'' = Some (fromHeader (dialog_from (d_LocalTag d) local))"
  "Headers_Get (dialog_base method d local remote) ''To'' = Some (toHeader (dialog_to (d_RemoteTag d) remote))"
  "Headers_Get (dialog_base method d local remote) ''CSeq'' =
     Some (CSeqHeader \<lparr>Seq = d_LocalSeq d + 1, CMethod = method\<rparr>)"
  by (simp_all add: dialog_base_def NewHeader_def fromHeader_def toHeader_def Headers_Get_def named_def
      sample_names canonical_dialog_names)

lemma dialog_headers_Get:
  "Headers_Get (dialog_headers method d local remote) ''Call-ID'' = Some (NewHeader ''Call-ID'' (d_CallID d))"
  "Headers_Get (dialog_headers method d local remote) ''From'' = Some (fromHeader (dialog_from (d_LocalTag d) local))"
  "Headers_Get (dialog_headers method d local remote) ''To'' = Some (toHeader (dialog_to (d_RemoteTag d) remote))"
  "Headers_Get (dialog_headers method d local remote) ''CSeq'' =
     Some (CSeqHeader \<lparr>Seq = d_LocalSeq d + 1, CMethod = method\<rparr>)"
  by (simp_all only: dialog_headers_base Get_fold_Add dialog_base_Get option.case)

lemma Params_Get_Set: "Params_Get (Some (Params_Set k v p)) k = (v, True)"
  by (simp add: Params_Get_def Params_Set_def find_set_hit)

lemma CreateRequest_headers:
  assumes "CreateRequest method ct body d = Inr (d', req)"
  shows "RMethod req = method \<and> Request_CallID req = d_CallID d \<and>
    Request_CSeq req = Some \<lparr>Seq = d_LocalSeq d + 1, CMethod = method\<rparr> \<and>
    Address_Tag (Request_From req) = d_LocalTag d \<and>
    (d_RemoteTag d \<noteq> [] \<longrightarrow> Address_Tag (Request_To req) = d_RemoteTag d) \<and>
    d' = d\<lparr>d_LocalSeq := d_LocalSeq d + 1\<rparr>"
proof -
  obtain local remote uri where r: "d' = d\<lparr>d_LocalSeq := d_LocalSeq d + 1\<rparr>"
    "req = Request_SetBody ct body ((NewRequest method uri)\<lparr>RHeaders := dialog_headers method d local remote\<rparr>)"
    using assms by (auto simp: CreateRequest_def Let_def split: if_splits option.splits)
  have h: "Headers_Get (RHeaders req) n = Headers_Get (dialog_headers method d local remote) n"
    if "n \<in> {''Call-ID'', ''From'', ''To'', ''CSeq''}" for n
    using that r(2) by (auto simp: Request_SetBody_def body_headers_Get sample_names)
  show ?thesis
    using r h [of "''Call-ID''"] h [of "''From''"] h [of "''To''"] h [of "''CSeq''"]
    by (simp add: Request_CallID_def Request_CSeq_def Request_From_def Request_To_def dialog_headers_Get
        headerValue_def NewHeader_def fromHeader_def toHeader_def dialog_from_def dialog_to_def Address_Tag_def
        Params_Get_Set Request_SetBody_def NewRequest_def)
qed

lemma cut_unique:
  fixes c :: char
  assumes "c \<notin> set a" "c \<notin> set a'" "a @ c # b = a' @ c # b'"
  shows "a = a' \<and> b = b'"
proof -
  have "(a, b, True) = (a', b', True)"
    unfolding Cut_append [OF assms(1), of b, symmetric] Cut_append [OF assms(2), of b', symmetric] assms(3) by (rule refl)
  then show ?thesis by simp
qed

lemma dialog_id_unique:
  assumes "CHR '';'' \<notin> set c" "CHR '';'' \<notin> set c'" "CHR '';'' \<notin> set l" "CHR '';'' \<notin> set l'"
    "dialog_id c l r = dialog_id c' l' r'"
  shows "c = c' \<and> l = l' \<and> r = r'"
proof -
  have "c @ CHR '';'' # (l @ CHR '';'' # r) = c' @ CHR '';'' # (l' @ CHR '';'' # r')"
    using assms(5) by (simp add: dialog_id_def)
  from cut_unique [OF assms(1,2) this] have "c = c'" "l @ CHR '';'' # r = l' @ CHR '';'' # r'" by blast+
  with cut_unique [OF assms(3,4)] show ?thesis by blast
qed

section \<open>Quoting credentials\<close>

lemma escapeAuthValue_Cons:
  "escapeAuthValue (c # s) = (if c = BS then [BS, BS] else if c = DQ then [BS, DQ] else [c]) @ escapeAuthValue s"
  by (simp add: escapeAuthValue_def escape_backslashes_def escape_quotes_def)

lemma splitAuth_escaped:
  "splitAuthParams_loop True False cur (escapeAuthValue s @ DQ # rest) =
     splitAuthParams_loop False False (cur @ escapeAuthValue s @ [DQ]) rest"
proof (induction s arbitrary: cur)
  case Nil
  then show ?case by (simp add: escapeAuthValue_def escape_backslashes_def)
next
  case (Cons c s)
  consider "c = BS" | "c = DQ" | "c \<noteq> BS" "c \<noteq> DQ" by blast
  then show ?case
  proof cases
    case 1
    then show ?thesis using Cons [of "cur @ [BS, BS]"] by (simp add: escapeAuthValue_Cons)
  next
    case 2
    then show ?thesis using Cons [of "cur @ [BS, DQ]"] by (simp add: escapeAuthValue_Cons)
  next
    case 3
    then show ?thesis using Cons [of "cur @ [c]"] by (simp add: escapeAuthValue_Cons)
  qed
qed

lemma TrimSpace_quoted: "visible c \<Longrightarrow> TrimSpace (c # s @ [DQ]) = c # s @ [DQ]"
  by (rule TrimSpace_vis) (simp add: vis_ends_def visible_def)

lemma splitAuth_authorization:
  "splitAuthParams (drop 7 (authorization_value req creds)) =
     [''username='' @ [DQ] @ escapeAuthValue (cr_Username creds) @ [DQ],
      ''realm='' @ [DQ] @ escapeAuthValue (cr_Realm creds) @ [DQ],
      ''uri='' @ [DQ] @ escapeAuthValue (Uri_String (RUri req)) @ [DQ]]"
  using TrimSpace_quoted [of "CHR ''u''" "''sername='' @ [DQ] @ escapeAuthValue (cr_Username creds)"]
    TrimSpace_quoted [of "CHR ''r''" "''ealm='' @ [DQ] @ escapeAuthValue (cr_Realm creds)"]
    TrimSpace_quoted [of "CHR ''u''" "''ri='' @ [DQ] @ escapeAuthValue (Uri_String (RUri req))"]
  by (simp add: splitAuthParams_def authorization_value_def splitAuth_escaped visible_def)

lemma unquote_escaped: "unquote (TrimSpace (DQ # escapeAuthValue s @ [DQ])) = unescape_quotes (escapeAuthValue s)"
  using TrimSpace_quoted [of DQ "escapeAuthValue s"] by (simp add: unquote_def visible_def)

lemma unescape_escapeAuthValue: "BS \<notin> set s \<Longrightarrow> unescape_quotes (escapeAuthValue s) = s"
proof -
  assume a: "BS \<notin> set s"
  then have "escape_backslashes s = s" by (induction s) (auto simp: escape_backslashes_def)
  with a show ?thesis by (simp add: escapeAuthValue_def unescape_escape)
qed

lemma ParseAuth_authorization:
  "ParseAuth (authorization_value req creds) =
     empty_auth\<lparr>AuScheme := ''Digest'', Username := unescape_quotes (escapeAuthValue (cr_Username creds)),
       Realm := unescape_quotes (escapeAuthValue (cr_Realm creds)),
       AuURI := unescape_quotes (escapeAuthValue (Uri_String (RUri req))), Other := Some NewParams\<rparr>"
proof -
  let ?v = "authorization_value req creds"
  obtain t where t: "?v = ''Digest'' @ SP # t @ [DQ]" by (simp add: authorization_value_def)
  have "TrimSpace ?v = ?v"
    using TrimSpace_quoted [of "CHR ''D''" "''igest'' @ SP # t"] t by (simp add: visible_def)
  moreover have "IndexAny ?v [SP, TAB, CHR '',''] = Some 6"
    using IndexAny_append [of "''Digest''" "[SP, TAB, CHR '','']" SP "t @ [DQ]"] t by simp
  moreover have "take 6 ?v = ''Digest''" using t by simp
  moreover have cut: "Cut (''username='' @ [DQ] @ v) CHR ''='' = (''username'', DQ # v, True)"
    "Cut (''realm='' @ [DQ] @ v) CHR ''='' = (''realm'', DQ # v, True)"
    "Cut (''uri='' @ [DQ] @ v) CHR ''='' = (''uri'', DQ # v, True)" for v
    using Cut_append [of "CHR ''=''" "''username''" "DQ # v"] Cut_append [of "CHR ''=''" "''realm''" "DQ # v"]
      Cut_append [of "CHR ''=''" "''uri''" "DQ # v"] by simp_all
  moreover have "ToLower (TrimSpace ''username'') = ''username''" "ToLower (TrimSpace ''realm'') = ''realm''"
    "ToLower (TrimSpace ''uri'') = ''uri''" by code_simp+
  ultimately show ?thesis
    using splitAuth_authorization [of req creds]
    by (simp add: ParseAuth_def unquote_escaped auth_field_def empty_auth_def)
qed

section \<open>Dispatching\<close>

lemma respond_stx_frame:
  "respond_stx os now stx resp ua = Inr ua' \<Longrightarrow> ua_dialogs ua' = ua_dialogs ua \<and> ua_cb ua' = ua_cb ua"
  by (auto simp: respond_stx_def split: option.splits Tx.splits)

lemma findDialog_Some:
  "findDialog req ua = (ua', Some i) \<Longrightarrow>
    \<exists>d. dm_heap (ua_dialogs ua) i = Some d \<and> ua' = ua\<lparr>ua_dialogs := set_dialog i (updateFromRequest req d) (ua_dialogs ua)\<rparr>"
  by (auto simp: findDialog_def split: option.splits)

lemma handleBye_nil: "handleBye os now req src None ua = Inl GoPanic"
proof (cases "findDialog req ua")
  case (Pair ua' o')
  show ?thesis
  proof (cases o')
    case None
    then show ?thesis using Pair by (simp add: handleBye_def respond_stx_def)
  next
    case (Some i)
    then obtain d where "dm_heap (ua_dialogs ua) i = Some d"
      "ua' = ua\<lparr>ua_dialogs := set_dialog i (updateFromRequest req d) (ua_dialogs ua)\<rparr>"
      using findDialog_Some Pair by blast
    then show ?thesis using Pair Some by (simp add: handleBye_def respond_stx_def set_dialog_def Let_def)
  qed
qed

section \<open>Byes\<close>

lemma findDialog_get:
  assumes "Request_To req = Some to" "Request_From req = Some from"
    "DialogManager_Get (Request_CallID req) (Address_Tag (Some to)) (Address_Tag (Some from)) (ua_dialogs ua) = Some i"
    "dm_heap (ua_dialogs ua) i = Some d"
  shows "findDialog req ua = (ua\<lparr>ua_dialogs := set_dialog i (updateFromRequest req d) (ua_dialogs ua)\<rparr>, Some i)"
  using assms by (simp add: findDialog_def)

lemma updateFromRequest_frame [simp]:
  "d_State (updateFromRequest req d) = d_State d" "Dialog_ID (updateFromRequest req d) = Dialog_ID d"
  "dialogSourceAllowed (updateFromRequest req d) src = dialogSourceAllowed d src"
  by (auto simp: updateFromRequest_def Dialog_ID_def dialogSourceAllowed_def split: option.split)

lemma updateFromRequest_seq:
  "Request_CSeq req = Some c \<Longrightarrow> d_RemoteSeq (updateFromRequest req d) = max (d_RemoteSeq d) (Seq c)"
  by (auto simp: updateFromRequest_def max_def)

text \<open>What addresses a dialog: the Call-ID and the two tags of the request.\<close>

definition in_dialog :: "Request \<Rightarrow> UA \<Rightarrow> nat \<Rightarrow> bool" where
  "in_dialog req ua i \<longleftrightarrow> Request_To req \<noteq> None \<and> Request_From req \<noteq> None \<and>
     DialogManager_Get (Request_CallID req) (Address_Tag (Request_To req)) (Address_Tag (Request_From req)) (ua_dialogs ua) = Some i"

lemma in_dialog_set: "in_dialog req (ua\<lparr>ua_dialogs := set_dialog j d (ua_dialogs ua)\<rparr>) i = in_dialog req ua i"
  by (simp add: in_dialog_def DialogManager_Get_def set_dialog_def)

lemma in_dialog_cong: "dm_dialogs (ua_dialogs ua') = dm_dialogs (ua_dialogs ua) \<Longrightarrow> in_dialog req ua' i = in_dialog req ua i"
  by (simp add: in_dialog_def DialogManager_Get_def)

lemma handleBye_cases:
  assumes "in_dialog req ua i" "dm_heap (ua_dialogs ua) i = Some d" "Request_CSeq req = Some c"
    "handleBye os now req src stx ua = Inr (ua', call)"
    "\<not> dialogSourceAllowed d src \<or> Seq c < d_RemoteSeq d"
  shows "call = None \<and> ua_dialogs ua' = set_dialog i (updateFromRequest req d) (ua_dialogs ua)"
proof -
  let ?d = "updateFromRequest req d" and ?ua = "ua\<lparr>ua_dialogs := set_dialog i (updateFromRequest req d) (ua_dialogs ua)\<rparr>"
  have f: "findDialog req ua = (?ua, Some i)"
    using assms(1,2) findDialog_get by (auto simp: in_dialog_def)
  have h: "dm_heap (ua_dialogs ?ua) i = Some ?d" by (simp add: set_dialog_def)
  have "Seq c < d_RemoteSeq ?d \<or> \<not> dialogSourceAllowed ?d src"
    using assms(5) updateFromRequest_seq [OF assms(3), of d] by (auto simp: less_max_iff_disj)
  then obtain resp where "handleBye os now req src stx ua =
      bind_result (respond_stx os now stx resp ?ua) (\<lambda>ua'. Inr (ua', None))"
    using f h assms(3) unfolding handleBye_def by (cases "dialogSourceAllowed ?d src") auto
  then have "respond_stx os now stx resp ?ua = Inr ua'" "call = None"
    using assms(4) by (auto simp: bind_result_def split: sum.splits)
  then show ?thesis using respond_stx_frame by fastforce
qed

section \<open>Hanging up\<close>

lemma UA_request_frame: "ua_dialogs (fst (UA_request os now br ci req dst ua)) = ua_dialogs ua"
  by (simp add: UA_request_def split: prod.split)

lemma sendAndWait_frame: "sendAndWait os now br ci req target evs ua = (ua', r) \<Longrightarrow> ua_dialogs ua' = ua_dialogs ua"
  using UA_request_frame
  by (auto simp: sendAndWait_def split: option.splits prod.splits sum.splits) (metis fst_conv)+

lemma wait_final_final: "wait_final evs = Some (Inr r) \<Longrightarrow> 200 \<le> StatusCode r"
  by (induction evs rule: wait_final.induct) (auto split: if_splits)

lemma wait_final_returns: "None \<in> set evs \<Longrightarrow> \<exists>r. wait_final evs = Some r"
  by (induction evs rule: wait_final.induct) auto

lemma sendAndWait_returns: "None \<in> set evs \<Longrightarrow> \<exists>r. snd (sendAndWait os now br ci req target evs ua) = Some r"
  using wait_final_returns [of evs] by (auto simp: sendAndWait_def split: option.split prod.split sum.split)

lemma CreateRequest_dialog:
  "CreateRequest method ct body d = Inr (d', req) \<Longrightarrow> d' = d\<lparr>d_LocalSeq := d_LocalSeq d + 1\<rparr> \<and> d_State d \<noteq> DialogTerminated"
  by (auto simp: CreateRequest_def Let_def split: if_splits option.splits)

lemma Hangup_loop_returns:
  assumes "\<And>k. k < n \<Longrightarrow> None \<in> set (evs k)"
  shows "\<exists>r. snd (Hangup_loop n os now br evs l i ua) = Some r"
  using assms
proof (induction n arbitrary: l ua)
  case (Suc n)
  have w: "\<exists>r. snd (sendAndWait os now (br n) (br n) req t (evs n) ua') = Some r" for req t ua'
    by (rule sendAndWait_returns) (simp add: Suc.prems)
  have "\<exists>r. snd (Hangup_loop n os now br evs l' i ua') = Some r" for l' ua'
    using Suc.IH Suc.prems by simp
  with w show ?case
    by (auto split: option.splits sum.splits prod.splits) (metis option.distinct(1) snd_conv)
qed simp

text \<open>How many BYEs an attempt budget of \<open>n\<close> sent, and what became of the dialog.\<close>

lemma Hangup_loop_outcome:
  assumes "Hangup_loop n os now br evs l i ua = (ua', Some (Inr r))" "dm_heap (ua_dialogs ua) i = Some d"
    "\<forall>r0. l = Some r0 \<longrightarrow> StatusCode r0 = 491" "d_State d \<noteq> DialogTerminated"
  shows "\<exists>k \<le> n. \<exists>d'. dm_heap (ua_dialogs ua') i = Some d' \<and> d_LocalSeq d' = d_LocalSeq d + of_nat k \<and>
    (d_State d' = DialogTerminated \<longleftrightarrow> StatusCode r \<noteq> 491)"
  using assms
proof (induction n arbitrary: l ua d)
  case 0
  then show ?case by (auto split: option.splits)
next
  case (Suc n)
  obtain d1 req where c: "CreateRequest BYE [] None d = Inr (d1, req)"
    using Suc.prems(1,2) by (cases "CreateRequest BYE [] None d") auto
  then have d1: "d1 = d\<lparr>d_LocalSeq := d_LocalSeq d + 1\<rparr>" using CreateRequest_dialog by blast
  let ?ua = "ua\<lparr>ua_dialogs := set_dialog i d1 (ua_dialogs ua)\<rparr>"
  let ?w = "sendAndWait os now (br n) (br n) req (d_RemoteTarget d1) (evs n) ?ua"
  obtain ua1 resp where w: "?w = (ua1, Some (Inr resp))"
    using Suc.prems(1,2) c by (auto split: prod.splits option.splits sum.splits)
  then have h: "dm_heap (ua_dialogs ua1) i = Some d1"
    using sendAndWait_frame [OF w] by (simp add: set_dialog_def)
  show ?case
  proof (cases "StatusCode resp = 491")
    case True
    then have "Hangup_loop n os now br evs (Some resp) i ua1 = (ua', Some (Inr r))"
      using Suc.prems(1,2) c w by simp
    from Suc.IH [OF this h] True Suc.prems(4) d1 obtain k d' where
      k: "k \<le> n" "dm_heap (ua_dialogs ua') i = Some d'" "d_LocalSeq d' = d_LocalSeq d1 + of_nat k"
        "(d_State d' = DialogTerminated) = (StatusCode r \<noteq> 491)"
      by auto
    then show ?thesis using d1 by (intro exI [of _ "Suc k"] conjI exI [of _ d']) (simp_all add: algebra_simps)
  next
    case False
    then have "ua' = ua1\<lparr>ua_dialogs := set_dialog i (Dialog_Terminate d1) (ua_dialogs ua1)\<rparr>" "r = resp"
      using Suc.prems(1,2) c w by simp_all
    then show ?thesis
      using d1 False by (intro exI [of _ 1] conjI exI [of _ "Dialog_Terminate d1"]) (simp_all add: set_dialog_def Dialog_Terminate_def)
  qed
qed

end
