(* ===== verification/UaProps.thy ===== *)
theory UaProps
  imports UaCorrect
begin

text \<open>
  The properties of dialogs and of the user agent, each with an instance on a call that is set up by the
  program's own operations: \<open>demo_ua\<close> has accepted an INVITE and holds its dialog.
\<close>

section \<open>A user agent in a call\<close>

definition demo_tag :: Entropy where "demo_tag = RandomBytes [7]"

definition demo_idle :: UA where
  "demo_idle = SetCallbacks (no_callbacks\<lparr>has_OnInvite := True\<rparr>)
     (NewUA ((new_transport (Some (v4_prefix @ [0, 0, 0, 0])) False False)\<lparr>tp_DropHook := Some (\<lambda>_ _. True)\<rparr>) ''h'' 0)"

definition demo_dialog :: Dialog where "demo_dialog = NewServerDialog (demo_request INVITE) (NewTag demo_tag)"

definition demo_ua :: UA where
  "demo_ua = (case new_dialog demo_dialog (ua_dialogs demo_idle) of
     (dm, i) \<Rightarrow> demo_idle\<lparr>ua_dialogs := DialogManager_Add i demo_dialog dm\<rparr>)"

definition demo_bye :: "32 word \<Rightarrow> Request" where
  "demo_bye n = \<lparr>RMethod = BYE, RUri = Some sample_uri, RProto = ''SIP/2.0'',
     RHeaders = [ViaHeader sample_via, sample_addr ''From'',
       toHeader (plain_address (Some sample_uri) (Some [\<lparr>Key = ''tag'', Val = ''07'', HasValue = True\<rparr>])),
       GenericHeader ''Call-ID'' ''c1'', CSeqHeader \<lparr>Seq = n, CMethod = BYE\<rparr>], RBody = []\<rparr>"

definition stranger :: Addr where "stranger = \<lparr>Network = ''udp'', AHost = ''x'', APort = 5\<rparr>"

lemma demo_ua_invite:
  "handleInvite os now demo_tag (demo_request INVITE) stx demo_idle =
     Inr (demo_ua, Some (CallInvite (demo_request INVITE) stx 0))"
  by (simp add: handleInvite_def demo_ua_def demo_dialog_def demo_idle_def SetCallbacks_def NewUA_def new_dialog_def
      NewDialogManager_def Let_def)

lemma demo_bye_headers:
  "Headers_Get (RHeaders (demo_bye n)) ''To'' =
     Some (toHeader (plain_address (Some sample_uri) (Some [\<lparr>Key = ''tag'', Val = ''07'', HasValue = True\<rparr>])))"
  "Headers_Get (RHeaders (demo_bye n)) ''From'' = Some (sample_addr ''From'')"
  "Headers_Get (RHeaders (demo_bye n)) ''Call-ID'' = Some (GenericHeader ''Call-ID'' ''c1'')"
  "Headers_Get (RHeaders (demo_bye n)) ''CSeq'' = Some (CSeqHeader \<lparr>Seq = n, CMethod = BYE\<rparr>)"
  by (simp_all add: demo_bye_def Headers_Get_def named_def sample_addr_def toHeader_def sample_names)

lemma demo_bye_CSeq: "Request_CSeq (demo_bye n) = Some \<lparr>Seq = n, CMethod = BYE\<rparr>"
  by (simp add: Request_CSeq_def demo_bye_headers)

lemma demo_in_dialog: "in_dialog (demo_bye n) demo_ua 0"
proof -
  have "Request_To (demo_bye n) = Some (plain_address (Some sample_uri) (Some [\<lparr>Key = ''tag'', Val = ''07'', HasValue = True\<rparr>]))"
    "Request_CallID (demo_bye n) = ''c1''"
    by (simp_all add: Request_To_def Request_CallID_def demo_bye_headers toHeader_def headerValue_def)
  moreover have "Address_Tag (Some (plain_address (Some sample_uri) (Some [\<lparr>Key = ''tag'', Val = ''07'', HasValue = True\<rparr>]))) = ''07''"
    by code_simp
  moreover have "\<exists>a. Request_From (demo_bye n) = Some a \<and> Address_Tag (Some a) = []"
    by (simp add: Request_From_def demo_bye_headers sample_addr_def Address_Tag_def NameAddrList_First_def)
  moreover have "dm_dialogs (ua_dialogs demo_ua) = [(''c1;07;'', 0)]" by code_simp
  ultimately show ?thesis by (auto simp: in_dialog_def DialogManager_Get_def dialog_id_def)
qed

lemma demo_heap: "dm_heap (ua_dialogs demo_ua) 0 = Some demo_dialog"
  by (simp add: demo_ua_def demo_idle_def NewUA_def SetCallbacks_def new_dialog_def DialogManager_Add_def NewDialogManager_def)

lemma demo_dialog_eq:
  "demo_dialog = \<lparr>d_CallID = ''c1'', d_LocalTag = ''07'', d_RemoteTag = [],
     d_Local = Some (plain_address (Some sample_uri) None), d_Remote = Some (plain_address (Some sample_uri) None),
     d_RemoteTarget = Some sample_uri, d_RouteSet = [], d_State = DialogEarly, d_LocalSeq = 0, d_RemoteSeq = 1,
     d_Secure = False\<rparr>"
proof -
  have "NewTag demo_tag = ''07''" "CanonicalName ''Record-Route'' = ''Record-Route''" by code_simp+
  moreover from this have "recordRouteSet (sample_headers INVITE) = []"
    by (simp add: recordRouteSet_def Headers_All_def sample_headers_def sample_addr_def named_def sample_names)
  ultimately show ?thesis
    by (simp add: demo_dialog_def NewServerDialog_def Let_def demo_request_def Request_From_def Request_To_def Request_CallID_def
        Request_CSeq_def sample_Get_plain sample_addr_def NameAddrList_First_def headerValue_def plain_address_def Address_Tag_def)
qed

lemma demo_source: "\<not> dialogSourceAllowed demo_dialog stranger"
proof -
  have "\<not> sameHost ''x'' ''h''" by code_simp
  then show ?thesis by (simp add: demo_dialog_eq dialogSourceAllowed_def sample_uri_def stranger_def)
qed

lemma lookup_tx_inc: "lookup_tx k (inc_metric s m) = lookup_tx k m"
  by (simp add: lookup_tx_def inc_metric_def split: option.split)

section \<open>Properties\<close>

text \<open>C20 (functional): a request created inside a dialog carries the dialog's Call-ID and both tags, its own
  method, and the next local sequence number, which the dialog then remembers.\<close>

theorem in_dialog_request:
  assumes "CreateRequest method ct body d = Inr (d', req)"
  shows "RMethod req = method \<and> Request_CallID req = d_CallID d \<and>
    Request_CSeq req = Some \<lparr>Seq = d_LocalSeq d + 1, CMethod = method\<rparr> \<and>
    Address_Tag (Request_From req) = d_LocalTag d \<and>
    (d_RemoteTag d \<noteq> [] \<longrightarrow> Address_Tag (Request_To req) = d_RemoteTag d) \<and>
    d' = d\<lparr>d_LocalSeq := d_LocalSeq d + 1\<rparr>"
  using assms by (rule CreateRequest_headers)

lemma demo_create: "\<exists>d' req. CreateRequest BYE [] None demo_dialog = Inr (d', req)"
  by (simp add: CreateRequest_def Let_def demo_dialog_eq)

theorem in_dialog_request_witness:
  "\<exists>d' req. CreateRequest BYE [] None demo_dialog = Inr (d', req) \<and> Request_CSeq req = Some \<lparr>Seq = 1, CMethod = BYE\<rparr> \<and>
     Address_Tag (Request_From req) = ''07''"
proof -
  obtain d' req where c: "CreateRequest BYE [] None demo_dialog = Inr (d', req)" using demo_create by blast
  then show ?thesis using in_dialog_request [OF c] by (auto simp: demo_dialog_eq)
qed

text \<open>C33 (safety): whatever characters a user name, realm or URI holds, the Authorization header built from
  them is read back as exactly these three parameters and nothing else; values without a backslash are
  read back unchanged.\<close>

theorem credentials_stay_quoted:
  "\<exists>u r w. ParseAuth (authorization_value req creds) =
     empty_auth\<lparr>AuScheme := ''Digest'', Username := u, Realm := r, AuURI := w, Other := Some NewParams\<rparr> \<and>
     (BS \<notin> set (cr_Username creds) \<longrightarrow> u = cr_Username creds) \<and> (BS \<notin> set (cr_Realm creds) \<longrightarrow> r = cr_Realm creds) \<and>
     (BS \<notin> set (Uri_String (RUri req)) \<longrightarrow> w = Uri_String (RUri req))"
  using ParseAuth_authorization [of req creds] unescape_escapeAuthValue by blast

theorem credentials_stay_quoted_witness:
  "Username (ParseAuth (authorization_value sample_request \<lparr>cr_Username = ''a'' @ [DQ], cr_Password = [], cr_Realm = ''r''\<rparr>)) =
     ''a'' @ [DQ]"
  using credentials_stay_quoted [of sample_request "\<lparr>cr_Username = ''a'' @ [DQ], cr_Password = [], cr_Realm = ''r''\<rparr>"]
  by auto

text \<open>C38 (safety): a BYE that does not come from the dialog's remote host never ends the dialog and is not
  reported to the application. It still raises the dialog's remote sequence number, so that a later BYE with
  a lower number, from whatever host, does not end the dialog either.\<close>

theorem forged_bye:
  assumes "in_dialog req ua i" "dm_heap (ua_dialogs ua) i = Some d" "Request_CSeq req = Some c"
    "\<not> dialogSourceAllowed d src" "handleBye os now req src stx ua = Inr (ua1, call1)"
    "in_dialog req2 ua i" "Request_CSeq req2 = Some c2" "Seq c2 < Seq c"
    "handleBye os2 now2 req2 src2 stx2 ua1 = Inr (ua2, call2)"
  shows "call1 = None \<and> call2 = None \<and>
    (\<exists>d1 d2. dm_heap (ua_dialogs ua1) i = Some d1 \<and> d_State d1 = d_State d \<and>
       dm_heap (ua_dialogs ua2) i = Some d2 \<and> d_State d2 = d_State d) \<and>
    dm_dialogs (ua_dialogs ua2) = dm_dialogs (ua_dialogs ua)"
proof -
  let ?d = "updateFromRequest req d"
  have 1: "call1 = None" "ua_dialogs ua1 = set_dialog i ?d (ua_dialogs ua)"
    using handleBye_cases [OF assms(1,2,3,5)] assms(4) by simp_all
  then have t: "dm_dialogs (ua_dialogs ua1) = dm_dialogs (ua_dialogs ua)" and h: "dm_heap (ua_dialogs ua1) i = Some ?d"
    by (simp_all add: set_dialog_def)
  have "Seq c2 < d_RemoteSeq ?d" using assms(8) updateFromRequest_seq [OF assms(3), of d] by (simp add: less_max_iff_disj)
  then have "call2 = None" "ua_dialogs ua2 = set_dialog i (updateFromRequest req2 ?d) (ua_dialogs ua1)"
    using handleBye_cases [OF _ h assms(7,9)] assms(6) in_dialog_cong [OF t] by simp_all
  with 1 t h show ?thesis by (simp add: set_dialog_def)
qed

lemma respond_stx_total: "\<exists>ua'. respond_stx os now (Some j) resp ua = Inr ua'"
  by (simp add: respond_stx_def split: option.split Tx.split)

lemma respond_stx_bind: "\<exists>ua' call. bind_result (respond_stx os now (Some j) resp ua) (\<lambda>ua'. Inr (ua', f ua')) = Inr (ua', call)"
  using respond_stx_total [of os now j resp ua] by auto

lemma handleBye_total: "\<exists>ua' call. handleBye os now req src (Some j) ua = Inr (ua', call)"
proof (cases "findDialog req ua")
  case (Pair ua0 o0)
  show ?thesis
  proof (cases o0)
    case None
    then show ?thesis using Pair respond_stx_bind by (simp add: handleBye_def)
  next
    case (Some i)
    then show ?thesis
      using Pair by (cases "dm_heap (ua_dialogs ua0) i") (simp_all add: handleBye_def Let_def respond_stx_bind)
  qed
qed

theorem forged_bye_witness:
  "\<exists>ua1 ua2 d2. handleBye demo_os 0 (demo_bye 9) stranger (Some 9) demo_ua = Inr (ua1, None) \<and>
     handleBye demo_os 1 (demo_bye 5) demo_addr (Some 9) ua1 = Inr (ua2, None) \<and>
     dm_heap (ua_dialogs ua2) 0 = Some d2 \<and> d_State d2 = DialogEarly"
proof -
  obtain ua1 call1 where 1: "handleBye demo_os 0 (demo_bye 9) stranger (Some 9) demo_ua = Inr (ua1, call1)"
    using handleBye_total by blast
  obtain ua2 call2 where 2: "handleBye demo_os 1 (demo_bye 5) demo_addr (Some 9) ua1 = Inr (ua2, call2)"
    using handleBye_total by blast
  show ?thesis
    using forged_bye [OF demo_in_dialog demo_heap demo_bye_CSeq demo_source 1 demo_in_dialog demo_bye_CSeq _ 2] 1 2
    by (auto simp: demo_dialog_eq)
qed

text \<open>The dialog of an incoming call takes the request's own URI as the remote target, so the
  caller cannot hang up: for every accepted INVITE, a later BYE in the dialog, from any host but the one the
  INVITE was addressed to, is refused and the dialog stays as it was.\<close>

theorem caller_cannot_hang_up:
  assumes "handleInvite os now tag req stx ua = Inr (ua1, Some (CallInvite req stx i))"
    "RUri req = Some u" "Host u \<noteq> []" "\<not> sameHost (AHost src) (Host u)"
    "in_dialog bye ua1 i" "Request_CSeq bye = Some c"
    "handleBye os2 now2 bye src stx2 ua1 = Inr (ua2, call)"
  shows "call = None \<and> (\<exists>d. dm_heap (ua_dialogs ua2) i = Some d \<and> d_State d = DialogEarly) \<and>
    dm_dialogs (ua_dialogs ua2) = dm_dialogs (ua_dialogs ua1)"
proof -
  let ?d = "NewServerDialog req (NewTag tag)"
  have h: "dm_heap (ua_dialogs ua1) i = Some ?d"
    using assms(1) by (auto simp: handleInvite_def new_dialog_def DialogManager_Add_def Let_def bind_result_eq_Inr split: if_splits)
  have "\<not> dialogSourceAllowed ?d src"
    using assms(2-4) by (simp add: NewServerDialog_def Let_def dialogSourceAllowed_def)
  from handleBye_cases [OF assms(5) h assms(6,7)] this show ?thesis
    by (simp add: set_dialog_def NewServerDialog_def Let_def)
qed

theorem caller_cannot_hang_up_witness:
  "\<exists>ua2 d. handleBye demo_os 0 (demo_bye 9) stranger (Some 9) demo_ua = Inr (ua2, None) \<and>
     dm_heap (ua_dialogs ua2) 0 = Some d \<and> d_State d = DialogEarly"
proof -
  obtain ua2 call where 1: "handleBye demo_os 0 (demo_bye 9) stranger (Some 9) demo_ua = Inr (ua2, call)"
    using handleBye_total by blast
  have "RUri (demo_request INVITE) = Some sample_uri" "Host sample_uri = ''h''" "AHost stranger = ''x''"
    by (simp_all add: demo_request_def sample_uri_def stranger_def)
  moreover have "\<not> sameHost ''x'' ''h''" by code_simp
  ultimately show ?thesis
    using caller_cannot_hang_up [OF demo_ua_invite _ _ _ demo_in_dialog demo_bye_CSeq 1] 1 by auto
qed

text \<open>The table files an outgoing call under the identifier it had before the callee's tag was
  known. After any response that brings a tag, no request of the callee finds the dialog, and a call that
  fails is never taken out of the table.\<close>

theorem callee_tag_loses_dialog:
  assumes "dm_heap (ua_dialogs ua) (se_dlg s) = Some d" "d_RemoteTag d = []"
    "DialogManager_Get (d_CallID d) (d_LocalTag d) [] (ua_dialogs ua) = Some (se_dlg s)"
    "DialogManager_Get (d_CallID d) (d_LocalTag d) tag (ua_dialogs ua) = None"
    "Address_Tag (addressOf (Headers_Get (SHeaders resp) ''To'')) = tag" "tag \<noteq> []"
    "pump_response resp s ua = (s', ua')"
  shows "DialogManager_Get (d_CallID d) (d_LocalTag d) tag (ua_dialogs ua') = None \<and>
    DialogManager_Get (d_CallID d) (d_LocalTag d) [] (ua_dialogs ua') = Some (se_dlg s) \<and>
    (\<exists>d'. dm_heap (ua_dialogs ua') (se_dlg s) = Some d' \<and> d_RemoteTag d' = tag \<and>
       (300 \<le> StatusCode resp \<longrightarrow> d_State d' = DialogTerminated))"
proof -
  let ?d = "updateFromResponse resp d" and ?c = "d_CallID d" and ?l = "d_LocalTag d"
  have r: "d_RemoteTag ?d = tag" "d_CallID ?d = ?c" "d_LocalTag ?d = ?l"
    using assms(5,6) by (simp_all add: updateFromResponse_def Let_def split: option.split)
  have k: "dialog_id ?c ?l tag \<noteq> dialog_id ?c ?l []" using assms(6) by (simp add: dialog_id_def)
  consider (fail) "300 \<le> StatusCode resp" | (ok) "\<not> 300 \<le> StatusCode resp" "200 \<le> StatusCode resp"
    | (early) "\<not> 300 \<le> StatusCode resp" "\<not> 200 \<le> StatusCode resp" by blast
  then show ?thesis
  proof cases
    case fail
    let ?t = "Dialog_Terminate ?d"
    have "ua_dialogs ua' = DialogManager_Remove ?t (set_dialog (se_dlg s) ?t (ua_dialogs ua))"
      using assms(1,7) fail by (auto simp: pump_response_def Let_def)
    moreover have "Dialog_ID ?t = dialog_id ?c ?l tag" using r by (simp add: Dialog_Terminate_def Dialog_ID_def)
    ultimately show ?thesis
      using assms(3,4) k r by (simp add: DialogManager_Get_def DialogManager_Remove_def set_dialog_def Dialog_Terminate_def)
  next
    case ok
    then obtain d2 where "ua_dialogs ua' = set_dialog (se_dlg s) d2 (ua_dialogs ua)" "d_RemoteTag d2 = tag"
      using assms(1,7) r(1) by (auto simp: pump_response_def Let_def split: if_splits option.splits)
    then show ?thesis using assms(3,4) ok by (simp add: DialogManager_Get_def set_dialog_def)
  next
    case early
    then have "ua_dialogs ua' = set_dialog (se_dlg s) ?d (ua_dialogs ua)"
      using assms(1,7) by (auto simp: pump_response_def Let_def)
    then show ?thesis using assms(3,4) early r(1) by (simp add: DialogManager_Get_def set_dialog_def)
  qed
qed

text \<open>The instance: an outgoing call and its refusal by a callee with a tag.\<close>

definition demo_call :: Dialog where
  "demo_call = NewClientDialog ''c1'' ''07'' [] (Some (plain_address (Some sample_uri) None)) (Some (plain_address (Some sample_uri) None)) 1"

definition demo_calling :: UA where
  "demo_calling = (case new_dialog demo_call (ua_dialogs demo_idle) of
     (dm, i) \<Rightarrow> demo_idle\<lparr>ua_dialogs := DialogManager_Add i demo_call dm\<rparr>)"

definition demo_busy :: Response where
  "demo_busy = \<lparr>StatusCode = 486, Reason = [], SProto = ''SIP/2.0'',
     SHeaders = [toHeader (plain_address (Some sample_uri) (Some [\<lparr>Key = ''tag'', Val = ''t'', HasValue = True\<rparr>]))], SBody = []\<rparr>"

theorem callee_tag_loses_dialog_witness:
  "DialogManager_Get ''c1'' ''07'' [] (ua_dialogs (snd (pump_response demo_busy
     \<lparr>se_ctx = 0, se_dlg = 0, se_Done = False, se_Final = None, se_Err = None\<rparr> demo_calling))) = Some 0"
proof -
  let ?s = "\<lparr>se_ctx = 0, se_dlg = 0, se_Done = False, se_Final = None, se_Err = None\<rparr>"
  obtain s' ua' where p: "pump_response demo_busy ?s demo_calling = (s', ua')" by force
  have "d_CallID demo_call = ''c1''" "d_LocalTag demo_call = ''07''" "d_RemoteTag demo_call = []"
    by (simp_all add: demo_call_def NewClientDialog_def)
  moreover have "dm_heap (ua_dialogs demo_calling) (se_dlg ?s) = Some demo_call"
    by (simp add: demo_calling_def demo_idle_def NewUA_def SetCallbacks_def new_dialog_def DialogManager_Add_def NewDialogManager_def)
  moreover have "dm_dialogs (ua_dialogs demo_calling) = [(''c1;07;'', 0)]" by code_simp
  moreover have "Address_Tag (addressOf (Headers_Get (SHeaders demo_busy) ''To'')) = ''t''" by code_simp
  ultimately show ?thesis
    using callee_tag_loses_dialog [of demo_calling ?s demo_call "''t''" demo_busy s' ua'] p
    by (simp add: DialogManager_Get_def dialog_id_def)
qed

text \<open>The transaction layer tells requests apart by the method of CSeq, the user agent by the
  method of the request line. A BYE whose CSeq names ACK, with no matching INVITE transaction, is
  handed up without a transaction and the handler dereferences the nil pointer: one packet crashes the
  user agent.\<close>

theorem ack_cseq_crashes:
  assumes "RMethod req = BYE" "cseq_method (Request_CSeq req) = ACK"
    "lookup_tx (''S|'' @ viaBranch req @ ''|INVITE'') (ua_tm ua) = None"
  shows "UA_packet os now tag \<lparr>Msg = Req req, Src = src\<rparr> ua = Inl GoPanic"
  using assms handleBye_nil
  by (simp add: UA_packet_def handlePacket_def handleRequest_def Let_def lookup_tx_inc UA_handleRequest_def BYE_def ACK_def CANCEL_def)

definition crash_request :: Request where
  "crash_request = (demo_request ACK)\<lparr>RMethod := BYE\<rparr>"

theorem ack_cseq_crashes_witness:
  "UA_packet demo_os 0 demo_tag \<lparr>Msg = Req crash_request, Src = stranger\<rparr> demo_idle = Inl GoPanic \<and>
   Request_Validate crash_request = Inr ()"
proof -
  have "Request_Validate crash_request = Inr ()"
    using sample_valid [of ACK "[]"] by (simp add: Request_Validate_def crash_request_def demo_request_def sample_uri_def BYE_def)
  moreover have "Request_CSeq crash_request = Request_CSeq (demo_request ACK)" by (simp add: crash_request_def Request_CSeq_def)
  moreover have "lookup_tx k (ua_tm demo_idle) = None" for k
    by (simp add: lookup_tx_def demo_idle_def SetCallbacks_def NewUA_def NewTxManager_def)
  ultimately show ?thesis using ack_cseq_crashes [of crash_request demo_idle] demo_CSeq by (simp add: crash_request_def)
qed



end
