(* ===== verification/Resolver.thy ===== *)
theory Resolver
  imports GoNet Uri "HOL-Library.Multiset"
begin

text \<open>
  \<^verbatim>\<open>resolver.go\<close>: from a URI to a list of transport targets. The DNS service is a parameter (the record
  \<open>Resolver\<close>, one field per method of the interface), and so are the random numbers: \<open>rnd k\<close> is what the
  generator yields at its \<open>k\<close>-th use, reduced by \<^verbatim>\<open>rand.Intn\<close> to its range.
\<close>

section \<open>Data\<close>

record HostPort =
  hp_Host :: string
  hp_Port :: int

record SRV =
  srv_Target :: string
  srv_Port :: "16 word"
  srv_Priority :: "16 word"
  srv_Weight :: "16 word"

record Resolver =
  LookupSRV :: "string \<Rightarrow> string \<Rightarrow> string \<Rightarrow> SRV list result"
  LookupHost :: "string \<Rightarrow> string list result"

section \<open>Ordering SRV records\<close>

definition Intn :: "(nat \<Rightarrow> nat) \<Rightarrow> nat \<Rightarrow> nat \<Rightarrow> nat" where
  "Intn rnd k n = rnd k mod n"

definition total_weight :: "SRV list \<Rightarrow> nat" where
  "total_weight grp = sum_list (map (\<lambda>s. unat (srv_Weight s)) grp)"

text \<open>The inner loop over the group: the first record at which the accumulated weight reaches \<open>n\<close>; \<open>0\<close>,
  the initial value of \<^verbatim>\<open>pick\<close>, when there is none.\<close>

fun weighted_pick :: "nat \<Rightarrow> nat \<Rightarrow> nat \<Rightarrow> SRV list \<Rightarrow> nat" where
  "weighted_pick n acc k [] = 0"
| "weighted_pick n acc k (s # grp) =
     (let acc' = acc + unat (srv_Weight s) in if n \<le> acc' then k else weighted_pick n acc' (Suc k) grp)"

definition srv_pick :: "(nat \<Rightarrow> nat) \<Rightarrow> nat \<Rightarrow> SRV list \<Rightarrow> nat" where
  "srv_pick rnd k grp =
     (if total_weight grp = 0 then Intn rnd k (length grp)
      else weighted_pick (Intn rnd k (total_weight grp) + 1) 0 0 grp)"

lemma weighted_pick_bound: "weighted_pick n acc k grp < k + length grp \<or> weighted_pick n acc k grp = 0"
  by (induction n acc k grp rule: weighted_pick.induct) (auto simp: Let_def)

lemma srv_pick_bound: "grp \<noteq> [] \<Longrightarrow> srv_pick rnd k grp < length grp"
  using weighted_pick_bound [of _ 0 0 grp] by (fastforce simp: srv_pick_def Intn_def)

definition srv_hostport :: "SRV \<Rightarrow> HostPort" where
  "srv_hostport s = \<lparr>hp_Host = srv_Target s, hp_Port = uint (srv_Port s)\<rparr>"

function shuffle_group :: "(nat \<Rightarrow> nat) \<Rightarrow> nat \<Rightarrow> SRV list \<Rightarrow> SRV list" where
  "shuffle_group rnd k grp =
     (if grp = [] then []
      else (let pick = srv_pick rnd k grp in
            grp ! pick # shuffle_group rnd (Suc k) (take pick grp @ drop (Suc pick) grp)))"
  by pat_completeness auto
termination
proof (relation "measure (\<lambda>(rnd, k, grp). length grp)")
  fix rnd k and grp :: "SRV list" and pick
  assume "grp \<noteq> []" "pick = srv_pick rnd k grp"
  then show "((rnd, Suc k, take pick grp @ drop (Suc pick) grp), rnd, k, grp) \<in> measure (\<lambda>(rnd, k, grp). length grp)"
    using srv_pick_bound [of grp rnd k] by simp
qed simp

declare shuffle_group.simps [simp del]

text \<open>The outer loop: runs of equal priority of the sorted records. \<open>k\<close> counts the random numbers used.\<close>

function shuffle_runs :: "(nat \<Rightarrow> nat) \<Rightarrow> nat \<Rightarrow> SRV list \<Rightarrow> SRV list" where
  "shuffle_runs rnd k [] = []"
| "shuffle_runs rnd k (s # srvs) =
     (let same = (\<lambda>x. srv_Priority x = srv_Priority s); grp = s # takeWhile same srvs in
      shuffle_group rnd k grp @ shuffle_runs rnd (k + length grp) (dropWhile same srvs))"
  by pat_completeness auto
termination
  by (relation "measure (\<lambda>(rnd, k, srvs). length srvs)") (auto intro: le_imp_less_Suc length_dropWhile_le)

definition shuffleSRV :: "(nat \<Rightarrow> nat) \<Rightarrow> SRV list \<Rightarrow> HostPort list" where
  "shuffleSRV rnd srvs = map srv_hostport (shuffle_runs rnd 0 (sort_key srv_Priority srvs))"

section \<open>Resolving\<close>

definition resolve_network :: "Uri \<Rightarrow> string" where
  "resolve_network uri =
     (let network = (if Uri_IsEncrypted (Some uri) then ''tls'' else ''udp'') in
      case Params_Get (UParams uri) ''transport'' of (tp, ok) \<Rightarrow>
        if \<not> ok then network
        else if ToLower tp = ''tcp'' then ''tcp''
        else if ToLower tp = ''tls'' then ''tls''
        else if ToLower tp = ''udp'' then ''udp''
        else network)"

definition srv_service :: "Uri \<Rightarrow> string \<times> string" where
  "srv_service uri =
     (if Uri_IsEncrypted (Some uri) then (''sips'', ''tcp'')
      else (case Params_Get (UParams uri) ''transport'' of (tp, ok) \<Rightarrow>
              (''sip'', if ok \<and> (ToLower tp = ''tcp'' \<or> ToLower tp = ''tls'') then ''tcp'' else ''udp'')))"

definition host_targets :: "Uri \<Rightarrow> int \<Rightarrow> string list \<Rightarrow> HostPort list" where
  "host_targets uri port ips =
     (let out = map (\<lambda>ip. \<lparr>hp_Host = ip, hp_Port = port\<rparr>) ips in
      if out = [] then [\<lparr>hp_Host = Host uri, hp_Port = port\<rparr>] else out)"

definition ResolveTarget :: "Resolver \<Rightarrow> (nat \<Rightarrow> nat) \<Rightarrow> Uri \<Rightarrow> HostPort list result \<times> string" where
  "ResolveTarget r rnd uri =
     (let network = resolve_network uri in
      if 0 < Port uri then
        (bind_result (LookupHost r (Host uri)) (\<lambda>ips. Inr (host_targets uri (Port uri) ips)), network)
      else
        (case srv_service uri of (service, proto) \<Rightarrow>
           (case LookupSRV r service proto (Host uri) of
              Inr (s # srvs) \<Rightarrow> (Inr (shuffleSRV rnd (s # srvs)), network)
            | _ \<Rightarrow> (bind_result (LookupHost r (Host uri))
                      (\<lambda>ips. Inr (host_targets uri (Uri_EffectivePort (Some uri)) ips)), network))))"

definition formatHostPort :: "HostPort \<Rightarrow> string" where
  "formatHostPort hp = JoinHostPort (hp_Host hp) (Itoa (hp_Port hp))"

section \<open>Correctness\<close>

lemma mset_pick: "p < length xs \<Longrightarrow> mset xs = add_mset (xs ! p) (mset (take p xs @ drop (Suc p) xs))"
  by (metis id_take_nth_drop mset.simps(2) mset_append union_mset_add_mset_right)

lemma shuffle_group_perm: "mset (shuffle_group rnd k grp) = mset grp"
proof (induction rnd k grp rule: shuffle_group.induct)
  case (1 rnd k grp)
  then show ?case
    using mset_pick [OF srv_pick_bound [of grp rnd k]]
    by (cases "grp = []") (simp_all add: shuffle_group.simps [of rnd k grp] shuffle_group.simps [of rnd k "[]"] Let_def)
qed

lemma shuffle_runs_perm: "mset (shuffle_runs rnd k srvs) = mset srvs"
proof (induction rnd k srvs rule: shuffle_runs.induct)
  case (2 rnd k s srvs)
  let ?same = "\<lambda>x. srv_Priority x = srv_Priority s"
  have "mset srvs = mset (takeWhile ?same srvs) + mset (dropWhile ?same srvs)"
    by (metis mset_append takeWhile_dropWhile_id)
  with 2 show ?case by (simp add: Let_def shuffle_group_perm)
qed simp

lemma sorted_group_append:
  assumes "\<forall>x \<in> set g. f x = (v :: 'a :: linorder)" "sorted (map f rest)" "\<forall>x \<in> set rest. v \<le> f x"
  shows "sorted (map f (g @ rest))"
proof -
  have "map f g = replicate (length g) v" using assms(1) by (induction g) simp_all
  with assms(2,3) show ?thesis by (simp add: sorted_append)
qed

lemma shuffle_runs_sorted: "sorted (map srv_Priority srvs) \<Longrightarrow> sorted (map srv_Priority (shuffle_runs rnd k srvs))"
proof (induction rnd k srvs rule: shuffle_runs.induct)
  case (2 rnd k s srvs)
  let ?same = "\<lambda>x. srv_Priority x = srv_Priority s" and ?rest = "dropWhile (\<lambda>x. srv_Priority x = srv_Priority s) srvs"
  let ?g = "s # takeWhile ?same srvs"
  have "\<forall>x \<in> set (shuffle_group rnd k ?g). srv_Priority x = srv_Priority s"
    using mset_eq_setD [OF shuffle_group_perm [of rnd k ?g]] by (auto dest: set_takeWhileD)
  moreover have rest: "sorted (map srv_Priority ?rest)"
  proof -
    have "sorted (map srv_Priority (takeWhile ?same srvs @ ?rest))" using 2(2) by simp
    then show ?thesis by (simp only: map_append sorted_append)
  qed
  moreover have "sorted (map srv_Priority (shuffle_runs rnd (k + length ?g) ?rest))"
    using 2(1) [OF refl refl rest] .
  moreover have "\<forall>x \<in> set (shuffle_runs rnd (k + length ?g) ?rest). srv_Priority s \<le> srv_Priority x"
    using mset_eq_setD [OF shuffle_runs_perm [of rnd "k + length ?g" ?rest]] 2(2) by (auto dest: set_dropWhileD)
  ultimately have "sorted (map srv_Priority (shuffle_group rnd k ?g @ shuffle_runs rnd (k + length ?g) ?rest))"
    using sorted_group_append [where v = "srv_Priority s" and f = srv_Priority] by blast
  then show ?case by (simp only: shuffle_runs.simps Let_def)
qed simp

text \<open>C28 (functional): whatever the random numbers, the targets of a list of SRV records are a
  permutation of its records in the order of their priorities.\<close>

theorem srv_targets_ordered:
  "\<exists>ys. shuffleSRV rnd srvs = map srv_hostport ys \<and> mset ys = mset srvs \<and> sorted (map srv_Priority ys)"
proof (intro exI conjI)
  let ?ys = "shuffle_runs rnd 0 (sort_key srv_Priority srvs)"
  show "shuffleSRV rnd srvs = map srv_hostport ?ys" by (simp add: shuffleSRV_def)
  show "mset ?ys = mset srvs" by (simp add: shuffle_runs_perm)
  show "sorted (map srv_Priority ?ys)" by (intro shuffle_runs_sorted sorted_sort_key)
qed

lemma weighted_pick_positive:
  "acc < n \<Longrightarrow> n \<le> acc + total_weight grp \<Longrightarrow>
     k \<le> weighted_pick n acc k grp \<and> weighted_pick n acc k grp < k + length grp \<and>
     0 < srv_Weight (grp ! (weighted_pick n acc k grp - k))"
proof (induction n acc k grp rule: weighted_pick.induct)
  case (2 n acc k s grp)
  show ?case
  proof (cases "n \<le> acc + unat (srv_Weight s)")
    case True
    with 2(2) have "srv_Weight s \<noteq> 0" by auto
    with True show ?thesis by (simp add: word_gt_0)
  next
    case False
    then show ?thesis using 2(1) [OF refl] 2(2,3) by (simp add: total_weight_def)
  qed
qed (simp add: total_weight_def)

lemma shuffleSRV_length: "length (shuffleSRV rnd srvs) = length srvs"
  using mset_eq_length [OF shuffle_runs_perm [of rnd 0 "sort_key srv_Priority srvs"]] by (simp add: shuffleSRV_def)

lemma host_targets_nonempty: "host_targets uri port ips \<noteq> []"
  by (simp add: host_targets_def Let_def)

lemma ResolveTarget_nonempty: "fst (ResolveTarget r rnd uri) = Inr ts \<Longrightarrow> ts \<noteq> []"
  using shuffleSRV_length [of rnd] host_targets_nonempty
  by (auto simp: ResolveTarget_def Let_def bind_result_eq_Inr split: if_splits prod.splits sum.splits list.splits
      dest!: arg_cong [where f = length])

end
