(* ===== verification/Proxy.thy ===== *)
theory Proxy
  imports UaProps
begin

text \<open>
  \<^verbatim>\<open>proxy.go\<close>: a stateful proxy that forks a request to the targets its application resolves. The branches of
  a fork are shared between the table and their goroutines, so they live in a heap. What a handler starts
  with \<^verbatim>\<open>go\<close> or \<^verbatim>\<open>time.AfterFunc\<close> is recorded in the state (\<open>px_runs\<close>, \<open>px_timers\<close>, \<open>px_jobs\<close>, \<open>px_waits\<close>) and
  happens in a later step. The transport of the proxy is the one of its transaction manager; the logger is
  output only.
\<close>

section \<open>Data\<close>

definition REFER :: Method where "REFER = ''REFER''"
definition UPDATE :: Method where "UPDATE = ''UPDATE''"

record ProxyConfig =
  pc_RecordRoute :: bool
  pc_TimerC :: int
  pc_RelayRegister :: bool

record branchState =
  bs_ctx :: nat
  bs_target :: "Uri option"
  bs_final :: "Response option"
  bs_isFinal :: bool

record proxyDialog =
  pd_callID :: string
  pd_callerAddr :: Addr
  pd_remoteLeg :: "Uri option"
  pd_routeSet :: "Uri option list"
  pd_responseTag :: string

record Proxy =
  px_tm :: TxManager
  px_Host :: string
  px_port :: int
  px_cfg :: ProxyConfig
  px_branches :: "(string \<times> nat list) list"
  px_dialogs :: "(string \<times> proxyDialog) list"
  px_cancelled :: "(string \<times> bool) list"
  px_resolve :: "(Request \<Rightarrow> Uri list result) option"
  px_heap :: "nat \<rightharpoonup> branchState"
  px_next :: nat
  px_runs :: "(string \<times> nat \<times> nat) list"
  px_timers :: "(string \<times> nat) list"
  px_jobs :: "(Request \<times> Uri \<times> nat) list"
  px_waits :: "(nat \<times> nat) list"

definition NewProxy :: "TxManager \<Rightarrow> string \<Rightarrow> int \<Rightarrow> ProxyConfig \<Rightarrow> Proxy" where
  "NewProxy tm host port cfg =
     \<lparr>px_tm = tm, px_Host = host, px_port = port,
      px_cfg = (if pc_TimerC cfg \<le> 0 then cfg\<lparr>pc_TimerC := 180 * 1000000000\<rparr> else cfg),
      px_branches = [], px_dialogs = [], px_cancelled = [], px_resolve = None,
      px_heap = Map.empty, px_next = 0, px_runs = [], px_timers = [], px_jobs = [], px_waits = []\<rparr>"

definition SetRecordRoute :: "bool \<Rightarrow> Proxy \<Rightarrow> Proxy" where
  "SetRecordRoute on p = p\<lparr>px_cfg := (px_cfg p)\<lparr>pc_RecordRoute := on\<rparr>\<rparr>"

definition SetResolveTargets :: "(Request \<Rightarrow> Uri list result) option \<Rightarrow> Proxy \<Rightarrow> Proxy" where
  "SetResolveTargets f p = p\<lparr>px_resolve := f\<rparr>"

section \<open>Reading the tables\<close>

definition group_branches :: "Proxy \<Rightarrow> string \<Rightarrow> nat list" where
  "group_branches p k = (case map_of (px_branches p) k of None \<Rightarrow> [] | Some bs \<Rightarrow> bs)"

definition group_cancelled :: "Proxy \<Rightarrow> string \<Rightarrow> bool" where
  "group_cancelled p k = (map_of (px_cancelled p) k = Some True)"

definition branch_final :: "Proxy \<Rightarrow> nat \<Rightarrow> bool" where
  "branch_final p b = (case px_heap p b of None \<Rightarrow> False | Some bs \<Rightarrow> bs_isFinal bs)"

definition markFinal :: "nat \<Rightarrow> Response \<Rightarrow> Proxy \<Rightarrow> Proxy" where
  "markFinal b resp p = (case px_heap p b of
     None \<Rightarrow> p
   | Some bs \<Rightarrow> p\<lparr>px_heap := (px_heap p)(b \<mapsto> bs\<lparr>bs_isFinal := True, bs_final := Some resp\<rparr>)\<rparr>)"

definition cleanupGroup :: "string \<Rightarrow> Proxy \<Rightarrow> Proxy" where
  "cleanupGroup k p = p\<lparr>px_branches := map_delete k (px_branches p), px_cancelled := map_delete k (px_cancelled p)\<rparr>"

section \<open>Answering and cancelling\<close>

text \<open>The server transaction behind a pointer; none for a nil pointer.\<close>

definition stx_of :: "Proxy \<Rightarrow> nat option \<Rightarrow> (nat \<times> ServerTx) option" where
  "stx_of p stx = (case stx of
     None \<Rightarrow> None
   | Some i \<Rightarrow> (case m_heap (px_tm p) i of Some (STx t) \<Rightarrow> Some (i, t) | _ \<Rightarrow> None))"

text \<open>\<^verbatim>\<open>stx.Respond(resp)\<close> with the error ignored.\<close>

definition stx_Respond :: "OS \<Rightarrow> int \<Rightarrow> nat \<Rightarrow> Response \<Rightarrow> Proxy \<Rightarrow> Proxy" where
  "stx_Respond os now i resp p = (case m_heap (px_tm p) i of
     Some (STx t) \<Rightarrow> p\<lparr>px_tm := fst (ServerTx_Respond os now i t resp (px_tm p))\<rparr>
   | _ \<Rightarrow> p)"

definition px_respond :: "OS \<Rightarrow> int \<Rightarrow> nat option \<Rightarrow> Response \<Rightarrow> Proxy \<Rightarrow> Proxy result" where
  "px_respond os now stx resp p = (case stx of None \<Rightarrow> Inl GoPanic | Some i \<Rightarrow> Inr (stx_Respond os now i resp p))"

definition cancel_branch :: "OS \<Rightarrow> int \<Rightarrow> nat \<Rightarrow> Proxy \<Rightarrow> Proxy" where
  "cancel_branch os now b p = (case px_heap p b of
     None \<Rightarrow> p
   | Some bs \<Rightarrow> (case m_heap (px_tm p) (bs_ctx bs) of
       Some (CTx t) \<Rightarrow> if bs_isFinal bs then p else p\<lparr>px_tm := fst (ClientTx_Cancel os now t (px_tm p))\<rparr>
     | _ \<Rightarrow> p))"

section \<open>Forwarding\<close>

definition via_header :: "Entropy \<Rightarrow> Proxy \<Rightarrow> Header" where
  "via_header ent p = ViaHeader (Via_SetBranch (NewBranch ent)
     \<lparr>VProto = ''SIP/2.0/UDP'', VTransport = [], VHost = px_Host p, VPort = px_port p, VParams = Some NewParams\<rparr>)"

definition record_route :: "Proxy \<Rightarrow> Header" where
  "record_route p = NewHeader ''Record-Route'' (Address_String (plain_address
     (Some ((plain_uri ''sip'' [] (px_Host p) (px_port p))\<lparr>UParams := Some (Params_Set ''lr'' [] NewParams)\<rparr>)) None))"

definition forward_headers :: "Entropy \<Rightarrow> bool \<Rightarrow> Proxy \<Rightarrow> Headers \<Rightarrow> Headers" where
  "forward_headers ent newBranch p hs0 =
     (let hs1 = (if newBranch then Headers_Prepend (via_header ent p) hs0 else hs0)
      in if pc_RecordRoute (px_cfg p) then Headers_Add (record_route p) hs1 else hs1)"

definition prepareBranch :: "Entropy \<Rightarrow> Request \<Rightarrow> Uri option \<Rightarrow> bool \<Rightarrow> Proxy \<Rightarrow> Request result" where
  "prepareBranch ent req target newBranch p =
     (let out = (Request_Clone req)\<lparr>RUri := Uri_Clone target\<rparr>;
          ok = (\<lambda>hs. Inr (out\<lparr>RHeaders := forward_headers ent newBranch p hs\<rparr>))
      in case Headers_Get (RHeaders out) ''Max-Forwards'' of
           Some (MaxForwards mf) \<Rightarrow>
             if mf \<le> 0 then Inl ErrMaxForwards else ok (Headers_Set (MaxForwards (mf - 1)) (RHeaders out))
         | _ \<Rightarrow> ok (RHeaders out))"

definition target_addr :: "Uri \<Rightarrow> Addr" where
  "target_addr u = (case TransportFor u of (network, host, port) \<Rightarrow> \<lparr>Network = network, AHost = host, APort = port\<rparr>)"

text \<open>The body of the loop of \<^verbatim>\<open>fork\<close>; \<open>False\<close> is the early return.\<close>

definition fork_branch :: "OS \<Rightarrow> int \<Rightarrow> Entropy \<Rightarrow> Request \<Rightarrow> nat \<Rightarrow> string \<Rightarrow> Uri \<Rightarrow> Proxy \<Rightarrow> Proxy \<times> bool" where
  "fork_branch os now ent req stx groupKey tgt p = (case prepareBranch ent req (Some tgt) True p of
     Inl e \<Rightarrow> if e = ErrMaxForwards then (stx_Respond os now stx (NewResponse 483 []) p, False) else (p, True)
   | Inr br \<Rightarrow> (case TxManager_Request os now ent ent br (target_addr tgt) (px_tm p) of
       (tm, Inl _) \<Rightarrow> (p\<lparr>px_tm := tm\<rparr>, True)
     | (tm, Inr ctx) \<Rightarrow>
         (p\<lparr>px_tm := tm,
            px_heap := (px_heap p)(px_next p \<mapsto> \<lparr>bs_ctx = ctx, bs_target = Uri_Clone (Some tgt), bs_final = None, bs_isFinal = False\<rparr>),
            px_branches := map_put groupKey (group_branches p groupKey @ [px_next p]) (px_branches p),
            px_runs := px_runs p @ [(groupKey, px_next p, stx)],
            px_next := Suc (px_next p)\<rparr>, True)))"

fun fork_loop :: "OS \<Rightarrow> int \<Rightarrow> (nat \<Rightarrow> Entropy) \<Rightarrow> nat \<Rightarrow> Request \<Rightarrow> nat \<Rightarrow> string \<Rightarrow> Uri list \<Rightarrow> Proxy \<Rightarrow> Proxy \<times> bool" where
  "fork_loop os now ent k req stx groupKey [] p = (p, True)"
| "fork_loop os now ent k req stx groupKey (tgt # tgts) p = (case fork_branch os now (ent k) req stx groupKey tgt p of
     (p', True) \<Rightarrow> fork_loop os now ent (Suc k) req stx groupKey tgts p'
   | (p', False) \<Rightarrow> (p', False))"

definition fork :: "OS \<Rightarrow> int \<Rightarrow> (nat \<Rightarrow> Entropy) \<Rightarrow> Request \<Rightarrow> nat \<Rightarrow> string \<Rightarrow> Uri list \<Rightarrow> Proxy \<Rightarrow> Proxy" where
  "fork os now ent req stx groupKey targets p =
     (let p0 = p\<lparr>px_branches := map_put groupKey [] (px_branches p), px_cancelled := map_put groupKey False (px_cancelled p)\<rparr>
      in case fork_loop os now ent 0 req stx groupKey targets p0 of
           (p1, True) \<Rightarrow> p1\<lparr>px_timers := px_timers p1 @ [(groupKey, stx)]\<rparr>
         | (p1, False) \<Rightarrow> p1)"

section \<open>The end of a fork\<close>

text \<open>\<^verbatim>\<open>rank\<close> and \<^verbatim>\<open>pickBestResponse\<close>.\<close>

definition rank_prefs :: "int list" where
  "rank_prefs = [491, 600, 603, 486, 404, 403, 401, 407, 415, 503, 500, 502, 504]"

fun pref_rank :: "int \<Rightarrow> int list \<Rightarrow> int \<Rightarrow> int" where
  "pref_rank i [] code = code"
| "pref_rank i (c # cs) code = (if c = code then 900 - i else pref_rank (i + 1) cs code)"

definition rank :: "int \<Rightarrow> int" where
  "rank code = (if 200 \<le> code \<and> code < 300 then 1000 else pref_rank 0 rank_prefs code)"

fun pick_best :: "Response option \<Rightarrow> Response option list \<Rightarrow> Response option" where
  "pick_best best [] = best"
| "pick_best best (None # rs) = pick_best best rs"
| "pick_best best (Some r # rs) =
     pick_best (case best of None \<Rightarrow> Some r | Some b \<Rightarrow> if rank (StatusCode b) < rank (StatusCode r) then Some r else Some b) rs"

definition pickBestResponse :: "Proxy \<Rightarrow> nat list \<Rightarrow> Response option" where
  "pickBestResponse p branches =
     pick_best None (map (\<lambda>b. case px_heap p b of None \<Rightarrow> None | Some bs \<Rightarrow> bs_final bs) branches)"

definition forwarded :: "Response \<Rightarrow> Response" where
  "forwarded resp = (let r = Response_Clone resp in r\<lparr>SHeaders := Headers_Del ''Via'' (SHeaders r)\<rparr>)"

definition checkGroupDone :: "OS \<Rightarrow> int \<Rightarrow> string \<Rightarrow> nat \<Rightarrow> Proxy \<Rightarrow> Proxy" where
  "checkGroupDone os now groupKey stx p =
     (let branches = group_branches p groupKey in
      if group_cancelled p groupKey then p
      else if list_ex (\<lambda>b. \<not> branch_final p b) branches then p
      else
        (let best = (case pickBestResponse p branches of None \<Rightarrow> NewResponse 500 [] | Some r \<Rightarrow> r)
         in cleanupGroup groupKey (stx_Respond os now stx (forwarded best) p)))"

definition tag_to :: "string \<Rightarrow> Header \<Rightarrow> Header" where
  "tag_to tag h = (case h of
     AddrHeader a k \<Rightarrow> AddrHeader (tagged tag a) k
   | NameAddrListHeader l \<Rightarrow> (case Addresses l of
       [] \<Rightarrow> NameAddrListHeader l
     | a # as \<Rightarrow> NameAddrListHeader (l\<lparr>Addresses := tagged tag a # as\<rparr>))
   | g \<Rightarrow> g)"

text \<open>The tag is set in the header of the response itself, the first one named To.\<close>

fun tag_first_to :: "string \<Rightarrow> Headers \<Rightarrow> Headers" where
  "tag_first_to tag [] = []"
| "tag_first_to tag (h # hs) = (if named ''To'' h then tag_to tag h # hs else h # tag_first_to tag hs)"

definition answered_dialog :: "Entropy \<Rightarrow> ServerTx \<Rightarrow> Response \<Rightarrow> proxyDialog" where
  "answered_dialog tag t resp =
     \<lparr>pd_callID = Request_CallID (s_req t), pd_callerAddr = s_src t, pd_remoteLeg = contactUri resp,
      pd_routeSet = recordRouteSet (SHeaders resp), pd_responseTag = NewTag tag\<rparr>"

definition deliverFinal :: "OS \<Rightarrow> int \<Rightarrow> Entropy \<Rightarrow> string \<Rightarrow> nat \<Rightarrow> nat \<Rightarrow> Response \<Rightarrow> Proxy \<Rightarrow> Proxy" where
  "deliverFinal os now tag groupKey winner stx resp p =
     (if group_cancelled p groupKey then p
      else
        (let p1 = p\<lparr>px_cancelled := map_put groupKey True (px_cancelled p)\<rparr>;
             p2 = fold (cancel_branch os now) (filter (\<lambda>b. b \<noteq> winner) (group_branches p groupKey)) p1
         in case m_heap (px_tm p2) stx of
              Some (STx t) \<Rightarrow>
                (let p3 = (if 200 \<le> StatusCode resp \<and> StatusCode resp < 300
                           then p2\<lparr>px_dialogs := map_put (Request_CallID (s_req t)) (answered_dialog tag t resp) (px_dialogs p2)\<rparr>
                           else p2);
                     resp' = (if 200 \<le> StatusCode resp \<and> StatusCode resp < 300
                              then resp\<lparr>SHeaders := tag_first_to (NewTag tag) (SHeaders resp)\<rparr> else resp)
                 in cleanupGroup groupKey (stx_Respond os now stx (forwarded resp') p3))
            | _ \<Rightarrow> p))"

text \<open>\<^verbatim>\<open>runBranch\<close>: what its loop does with an event, or with the deadline (\<open>None\<close>); \<open>True\<close> while it goes on.\<close>

definition runBranch :: "OS \<Rightarrow> int \<Rightarrow> Entropy \<Rightarrow> string \<Rightarrow> nat \<Rightarrow> nat \<Rightarrow> TxEvent option \<Rightarrow> Proxy \<Rightarrow> Proxy \<times> bool" where
  "runBranch os now tag groupKey b stx ev p = (case ev of
     Some (EvErr e) \<Rightarrow> (checkGroupDone os now groupKey stx (markFinal b (NewResponse 504 []) p), False)
   | Some (EvResponse resp) \<Rightarrow>
       if StatusCode resp < 200 then (p, True)
       else if StatusCode resp < 300 then (deliverFinal os now tag groupKey b stx resp (markFinal b resp p), False)
       else (let p' = checkGroupDone os now groupKey stx (markFinal b resp p) in (p', \<not> branch_final p' b))
   | None \<Rightarrow>
       (let p1 = markFinal b (NewResponse 504 []) p;
            p2 = (case px_heap p1 b of
                    None \<Rightarrow> p1
                  | Some bs \<Rightarrow> (case m_heap (px_tm p1) (bs_ctx bs) of
                      Some (CTx t) \<Rightarrow> p1\<lparr>px_tm := fst (ClientTx_Cancel os now t (px_tm p1))\<rparr>
                    | _ \<Rightarrow> p1))
        in (checkGroupDone os now groupKey stx p2, False)))"

text \<open>The function given to \<^verbatim>\<open>time.AfterFunc\<close> by \<^verbatim>\<open>fork\<close>.\<close>

definition timerC :: "OS \<Rightarrow> int \<Rightarrow> string \<Rightarrow> nat \<Rightarrow> Proxy \<Rightarrow> Proxy" where
  "timerC os now groupKey stx p =
     (if group_cancelled p groupKey then p
      else
        (let branches = group_branches p groupKey;
             stillPending = list_ex (\<lambda>b. \<not> branch_final p b) branches;
             p1 = fold (cancel_branch os now) branches p
         in if stillPending then cleanupGroup groupKey (stx_Respond os now stx (NewResponse 504 []) p1) else p1))"

section \<open>Requests\<close>

definition proxy_dialogSourceAllowed :: "proxyDialog \<Rightarrow> Addr \<Rightarrow> bool" where
  "proxy_dialogSourceAllowed dlg src \<longleftrightarrow>
     (AHost (pd_callerAddr dlg) \<noteq> [] \<and> sameHost (AHost src) (AHost (pd_callerAddr dlg))) \<or>
     (case pd_remoteLeg dlg of None \<Rightarrow> False | Some u \<Rightarrow> sameHost (AHost src) (Host u))"

definition forwardRaw :: "OS \<Rightarrow> int \<Rightarrow> Request \<Rightarrow> Uri option \<Rightarrow> Proxy \<Rightarrow> Proxy result" where
  "forwardRaw os now req target p = (case (target, m_tp (px_tm p)) of
     (Some u, Some tp) \<Rightarrow>
       (let a = target_addr u in
        Inr (p\<lparr>px_tm := (px_tm p)\<lparr>m_tp := Some (fst (Transport_Send os now (Network a) a (Req req) tp))\<rparr>\<rparr>))
   | _ \<Rightarrow> Inl GoPanic)"

definition handleAck :: "OS \<Rightarrow> int \<Rightarrow> Entropy \<Rightarrow> Request \<Rightarrow> Addr \<Rightarrow> Proxy \<Rightarrow> Proxy result" where
  "handleAck os now ent req src p = (case map_of (px_dialogs p) (Request_CallID req) of
     None \<Rightarrow> Inr p
   | Some dlg \<Rightarrow>
       if \<not> proxy_dialogSourceAllowed dlg src then Inr p
       else (case prepareBranch ent req (pd_remoteLeg dlg) False p of
         Inl _ \<Rightarrow> Inr p
       | Inr ack \<Rightarrow> forwardRaw os now ack (pd_remoteLeg dlg) p))"

definition handleInDialog :: "OS \<Rightarrow> int \<Rightarrow> Entropy \<Rightarrow> Request \<Rightarrow> nat option \<Rightarrow> Proxy \<Rightarrow> Proxy result" where
  "handleInDialog os now ent req stx p = (case map_of (px_dialogs p) (Request_CallID req) of
     None \<Rightarrow> px_respond os now stx (NewResponse 481 []) p
   | Some dlg \<Rightarrow> (case pd_remoteLeg dlg of
       None \<Rightarrow> px_respond os now stx (NewResponse 481 []) p
     | Some leg \<Rightarrow> (case stx_of p stx of
         None \<Rightarrow> Inl GoPanic
       | Some (i, t) \<Rightarrow>
           if \<not> proxy_dialogSourceAllowed dlg (s_src t) then px_respond os now stx (NewResponse 403 []) p
           else (case prepareBranch ent req (Some leg) True p of
             Inl e \<Rightarrow> px_respond os now stx (NewResponse (if e = ErrMaxForwards then 483 else 500) []) p
           | Inr fwd \<Rightarrow>
               (let p1 = (if RMethod req = BYE then p\<lparr>px_dialogs := map_delete (Request_CallID req) (px_dialogs p)\<rparr> else p)
                in Inr (p1\<lparr>px_jobs := px_jobs p1 @ [(fwd, leg, i)]\<rparr>))))))"

definition handleInitial :: "OS \<Rightarrow> int \<Rightarrow> (nat \<Rightarrow> Entropy) \<Rightarrow> Request \<Rightarrow> nat option \<Rightarrow> Proxy \<Rightarrow> Proxy result" where
  "handleInitial os now ent req stx p = (case px_resolve p of
     None \<Rightarrow> px_respond os now stx (NewResponse 500 []) p
   | Some resolve \<Rightarrow> (case resolve req of
       Inr (tgt # tgts) \<Rightarrow>
         if Address_Tag (Request_To req) \<noteq> [] then handleInDialog os now (ent 0) req stx p
         else (case stx_of p stx of
           None \<Rightarrow> Inl GoPanic
         | Some (i, t) \<Rightarrow> Inr (fork os now ent req i (s_key t) (tgt # tgts) p))
     | _ \<Rightarrow> px_respond os now stx (NewResponse 500 []) p))"

definition cancel_group :: "OS \<Rightarrow> int \<Rightarrow> string \<times> nat list \<Rightarrow> Proxy \<Rightarrow> Proxy" where
  "cancel_group os now g p =
     fold (cancel_branch os now) (snd g) (p\<lparr>px_cancelled := map_put (fst g) True (px_cancelled p)\<rparr>)"

definition handleCancel :: "OS \<Rightarrow> int \<Rightarrow> Request \<Rightarrow> nat option \<Rightarrow> Proxy \<Rightarrow> Proxy result" where
  "handleCancel os now req stx p =
     (let ours = (\<lambda>k. k = ''S|'' @ viaBranch req @ ''|INVITE'' \<or> k = ''S|'' @ viaBranch req @ ''|'' @ RMethod req);
          p1 = fold (cancel_group os now) (filter (\<lambda>g. ours (fst g)) (px_branches p)) p
      in px_respond os now stx (NewResponse 200 []) p1)"

definition handleRegister :: "OS \<Rightarrow> int \<Rightarrow> (nat \<Rightarrow> Entropy) \<Rightarrow> Request \<Rightarrow> nat option \<Rightarrow> Proxy \<Rightarrow> Proxy result" where
  "handleRegister os now ent req stx p =
     (if \<not> pc_RelayRegister (px_cfg p) then px_respond os now stx (NewResponse 403 []) p
      else handleInitial os now ent req stx p)"

definition Proxy_handleRequest ::
    "OS \<Rightarrow> int \<Rightarrow> (nat \<Rightarrow> Entropy) \<Rightarrow> (nat \<Rightarrow> Entropy) \<Rightarrow> Request \<Rightarrow> Addr \<Rightarrow> nat option \<Rightarrow> Proxy \<Rightarrow> Proxy result" where
  "Proxy_handleRequest os now ent ent2 req src stx p =
     (let method = RMethod req in
      if method = ACK then handleAck os now (ent 0) req src p
      else if method = CANCEL then handleCancel os now req stx p
      else if method = BYE then handleInDialog os now (ent 0) req stx p
      else if method \<in> {INVITE, SUBSCRIBE, REFER} then handleInitial os now ent req stx p
      else if method = REGISTER then handleRegister os now ent req stx p
      else if method \<in> {MESSAGE, OPTIONS, INFO, NOTIFY, UPDATE}
      then bind_result (handleInitial os now ent req stx p) (handleInitial os now ent2 req stx)
      else px_respond os now stx (NewResponse 501 []) p)"

definition Proxy_packet :: "OS \<Rightarrow> int \<Rightarrow> (nat \<Rightarrow> Entropy) \<Rightarrow> (nat \<Rightarrow> Entropy) \<Rightarrow> Packet \<Rightarrow> Proxy \<Rightarrow> Proxy result" where
  "Proxy_packet os now ent ent2 pkt p = bind_result (handlePacket os now pkt (px_tm p)) (\<lambda>(tm, up).
     (let p' = p\<lparr>px_tm := tm\<rparr> in
      case up of
        Some (OnRequest req src stx) \<Rightarrow> Proxy_handleRequest os now ent ent2 req src stx p'
      | _ \<Rightarrow> Inr p'))"

text \<open>The goroutine of \<^verbatim>\<open>handleInDialog\<close> with \<^verbatim>\<open>forwardAndCollect\<close>: it sends, then waits for one event or a
  minute (\<open>None\<close>).\<close>

definition job_send :: "OS \<Rightarrow> int \<Rightarrow> Entropy \<Rightarrow> Request \<times> Uri \<times> nat \<Rightarrow> Proxy \<Rightarrow> Proxy" where
  "job_send os now ent job p = (case job of (fwd, leg, stx) \<Rightarrow>
     (case TxManager_Request os now ent ent fwd (target_addr leg) (px_tm p) of
        (tm, Inl _) \<Rightarrow> stx_Respond os now stx (NewResponse 500 []) (p\<lparr>px_tm := tm\<rparr>)
      | (tm, Inr ctx) \<Rightarrow> p\<lparr>px_tm := tm, px_waits := px_waits p @ [(ctx, stx)]\<rparr>))"

definition job_event :: "OS \<Rightarrow> int \<Rightarrow> nat \<Rightarrow> TxEvent option \<Rightarrow> Proxy \<Rightarrow> Proxy" where
  "job_event os now stx ev p = (case ev of
     Some (EvResponse resp) \<Rightarrow> stx_Respond os now stx resp p
   | _ \<Rightarrow> stx_Respond os now stx (NewResponse 500 []) p)"

section \<open>Runs\<close>

text \<open>Taking the next event out of the channel of a client transaction.\<close>

definition next_event :: "nat \<Rightarrow> TxManager \<Rightarrow> (TxEvent \<times> TxManager) option" where
  "next_event i m = (case m_heap m i of
     Some (CTx t) \<Rightarrow> (case c_events t of
       [] \<Rightarrow> None
     | e # es \<Rightarrow> Some (e, put_tx i (CTx (t\<lparr>c_events := es\<rparr>)) m))
   | _ \<Rightarrow> None)"

definition end_run :: "string \<times> nat \<times> nat \<Rightarrow> Proxy \<times> bool \<Rightarrow> Proxy" where
  "end_run r pb = (if snd pb then fst pb else (fst pb)\<lparr>px_runs := remove1 r (px_runs (fst pb))\<rparr>)"

inductive px_step :: "Proxy \<Rightarrow> Proxy \<Rightarrow> bool" where
  packet: "Proxy_packet os now ent ent2 pkt p = Inr p' \<Longrightarrow> px_step p p'"
| branch_event: "(g, b, stx) \<in> set (px_runs p) \<Longrightarrow> px_heap p b = Some bs \<Longrightarrow>
    next_event (bs_ctx bs) (px_tm p) = Some (e, m) \<Longrightarrow>
    px_step p (end_run (g, b, stx) (runBranch os now tag g b stx (Some e) (p\<lparr>px_tm := m\<rparr>)))"
| branch_deadline: "(g, b, stx) \<in> set (px_runs p) \<Longrightarrow>
    px_step p (end_run (g, b, stx) (runBranch os now tag g b stx None p))"
| timer_c: "(g, stx) \<in> set (px_timers p) \<Longrightarrow>
    px_step p (timerC os now g stx (p\<lparr>px_timers := remove1 (g, stx) (px_timers p)\<rparr>))"
| job: "j \<in> set (px_jobs p) \<Longrightarrow> px_step p (job_send os now ent j (p\<lparr>px_jobs := remove1 j (px_jobs p)\<rparr>))"
| reply: "(ctx, stx) \<in> set (px_waits p) \<Longrightarrow> next_event ctx (px_tm p) = Some (e, m) \<Longrightarrow>
    px_step p (job_event os now stx (Some e) (p\<lparr>px_tm := m, px_waits := remove1 (ctx, stx) (px_waits p)\<rparr>))"
| give_up: "(ctx, stx) \<in> set (px_waits p) \<Longrightarrow>
    px_step p (job_event os now stx None (p\<lparr>px_waits := remove1 (ctx, stx) (px_waits p)\<rparr>))"
| transactions: "tx_step (px_tm p) m \<Longrightarrow> px_step p (p\<lparr>px_tm := m\<rparr>)"
| set_record_route: "px_step p (SetRecordRoute on p)"
| set_resolve: "px_step p (SetResolveTargets f p)"

inductive_cases px_stepE: "px_step p p'"

end
