(* ===== verification/ProxyCorrect.thy ===== *)
theory ProxyCorrect
  imports Proxy
begin

text \<open>
  What holds of every operation of the proxy: it changes the transaction layer only by the layer's own
  steps (so the layer's guarantees hold in a running proxy), and it keeps the tables of forks consistent.
\<close>

section \<open>The proxy is a layer on the transactions\<close>

definition tx_run :: "Proxy \<Rightarrow> Proxy \<Rightarrow> bool" where
  "tx_run p p' \<longleftrightarrow> tx_step\<^sup>*\<^sup>* (px_tm p) (px_tm p')"

named_theorems px_run \<open>operations of the proxy are runs of the transaction layer\<close>

lemma tx_run_refl [px_run]: "tx_run p p"
  by (simp add: tx_run_def)

lemma tx_run_trans: "tx_run p q \<Longrightarrow> tx_run q r \<Longrightarrow> tx_run p r"
  by (simp add: tx_run_def)

lemma tx_run_frame: "px_tm q = px_tm p \<Longrightarrow> tx_run p q"
  by (simp add: tx_run_def)

lemma tx_run_from: "px_tm q = px_tm p \<Longrightarrow> tx_run q r \<Longrightarrow> tx_run p r"
  by (simp add: tx_run_def)

lemma tx_run_to: "px_tm q = px_tm r \<Longrightarrow> tx_run p q \<Longrightarrow> tx_run p r"
  by (simp add: tx_run_def)

lemma proxy_frame [simp]:
  "px_tm (markFinal b resp p) = px_tm p" "px_tm (cleanupGroup k p) = px_tm p"
  "px_tm (SetRecordRoute on p) = px_tm p" "px_tm (SetResolveTargets f p) = px_tm p"
  by (auto simp: markFinal_def cleanupGroup_def SetRecordRoute_def SetResolveTargets_def split: option.split)

lemma tx_run_cleanup [simp]: "tx_run p (cleanupGroup k q) = tx_run p q"
  by (simp add: tx_run_def)

lemma stx_Respond_run [px_run]: "tx_run p (stx_Respond os now i resp p)"
  unfolding stx_Respond_def tx_run_def by (auto split: option.split Tx.split intro: tx_step_Respond)

lemma cancel_branch_run [px_run]: "tx_run p (cancel_branch os now b p)"
  unfolding cancel_branch_def tx_run_def by (auto split: option.split Tx.split intro: tx_step_Cancel)

lemma fold_run: "(\<And>x p. tx_run p (f x p)) \<Longrightarrow> tx_run p (fold f xs p)"
  by (induction xs arbitrary: p) (auto intro: tx_run_refl tx_run_trans)

lemma px_respond_run: "px_respond os now stx resp p = Inr p' \<Longrightarrow> tx_run p p'"
  by (auto simp: px_respond_def px_run split: option.splits)

lemma fork_branch_run: "tx_run p (fst (fork_branch os now ent req stx g tgt p))"
proof (cases "prepareBranch ent req (Some tgt) True p")
  case (Inl e)
  then show ?thesis by (simp add: fork_branch_def px_run)
next
  case (Inr br)
  obtain tm r where r: "TxManager_Request os now ent ent br (target_addr tgt) (px_tm p) = (tm, r)" by force
  then show ?thesis using Request_run [OF r] Inr by (cases r) (simp_all add: fork_branch_def tx_run_def)
qed

lemma fork_loop_run: "tx_run p (fst (fork_loop os now ent k req stx g tgts p))"
proof (induction tgts arbitrary: k p)
  case (Cons tgt tgts)
  show ?case
    using fork_branch_run [of p os now "ent k" req stx g tgt] Cons
    by (auto split: prod.split bool.split intro: tx_run_trans)
qed (simp add: px_run)

lemma fork_run: "tx_run p (fork os now ent req stx g tgts p)"
proof -
  let ?p0 = "p\<lparr>px_branches := map_put g [] (px_branches p), px_cancelled := map_put g False (px_cancelled p)\<rparr>"
  have "tx_run p (fst (fork_loop os now ent 0 req stx g tgts ?p0))"
    by (rule tx_run_from [OF _ fork_loop_run]) simp
  then show ?thesis by (auto simp: fork_def Let_def tx_run_def split: prod.split bool.split)
qed

lemma checkGroupDone_run [px_run]: "tx_run p (checkGroupDone os now g stx p)"
  using stx_Respond_run by (auto simp: checkGroupDone_def Let_def px_run tx_run_def)

lemma deliverFinal_run [px_run]: "tx_run p (deliverFinal os now tag g w stx resp p)"
proof -
  let ?p2 = "fold (cancel_branch os now) (filter (\<lambda>b. b \<noteq> w) (group_branches p g)) (p\<lparr>px_cancelled := map_put g True (px_cancelled p)\<rparr>)"
  have 2: "tx_run p ?p2"
    by (rule tx_run_from [OF _ fold_run]) (simp_all add: px_run)
  have "tx_run p (stx_Respond os now stx r p3)" if "px_tm p3 = px_tm ?p2" for r p3
    using tx_run_trans [OF tx_run_to [OF _ 2] stx_Respond_run] that by simp
  then show ?thesis
    by (auto simp: deliverFinal_def Let_def px_run split: option.split Tx.split)
qed

lemma runBranch_run: "tx_run p (fst (runBranch os now tag g b stx ev p))"
proof -
  have mark: "tx_run p (checkGroupDone os now g stx (markFinal b r p))" "tx_run p (deliverFinal os now tag g b stx r' (markFinal b r p))" for r r'
    using tx_run_from [OF _ checkGroupDone_run] tx_run_from [OF _ deliverFinal_run] by simp_all
  let ?p1 = "markFinal b (NewResponse 504 []) p"
  let ?p2 = "case px_heap ?p1 b of None \<Rightarrow> ?p1 | Some bs \<Rightarrow> (case m_heap (px_tm ?p1) (bs_ctx bs) of
      Some (CTx t) \<Rightarrow> ?p1\<lparr>px_tm := fst (ClientTx_Cancel os now t (px_tm ?p1))\<rparr> | _ \<Rightarrow> ?p1)"
  have "tx_run p ?p2"
    by (auto simp: tx_run_def split: option.split Tx.split intro: tx_step_Cancel)
  then have "tx_run p (checkGroupDone os now g stx ?p2)" using tx_run_trans checkGroupDone_run by blast
  with mark show ?thesis
    unfolding runBranch_def by (auto simp: Let_def px_run split: option.split TxEvent.split)
qed

lemma timerC_run: "tx_run p (timerC os now g stx p)"
proof -
  let ?p1 = "fold (cancel_branch os now) (group_branches p g) p"
  have "tx_run p ?p1" by (rule fold_run) (simp add: px_run)
  then show ?thesis
    using tx_run_trans [OF _ stx_Respond_run] by (auto simp: timerC_def Let_def px_run)
qed

lemma cancel_group_run: "tx_run p (cancel_group os now g p)"
  unfolding cancel_group_def by (rule tx_run_from [OF _ fold_run]) (simp_all add: px_run)

lemma handleCancel_run: "handleCancel os now req stx p = Inr p' \<Longrightarrow> tx_run p p'"
  unfolding handleCancel_def Let_def by (rule tx_run_trans [OF fold_run px_respond_run]) (rule cancel_group_run)

lemma forwardRaw_run: "forwardRaw os now req target p = Inr p' \<Longrightarrow> tx_run p p'"
  by (auto simp: forwardRaw_def Let_def tx_run_def split: option.splits
      intro!: r_into_rtranclp tx_step.raw_send prod.collapse [symmetric])

lemma handleAck_run: "handleAck os now ent req src p = Inr p' \<Longrightarrow> tx_run p p'"
  by (auto simp: handleAck_def px_run dest: forwardRaw_run split: option.splits if_splits sum.splits)

lemma handleInDialog_run: "handleInDialog os now ent req stx p = Inr p' \<Longrightarrow> tx_run p p'"
  by (auto simp: handleInDialog_def Let_def tx_run_def dest: px_respond_run [unfolded tx_run_def]
      split: option.splits prod.splits if_splits sum.splits)

lemma handleInitial_run: "handleInitial os now ent req stx p = Inr p' \<Longrightarrow> tx_run p p'"
  by (auto simp: handleInitial_def fork_run dest: px_respond_run handleInDialog_run
      split: option.splits prod.splits if_splits sum.splits list.splits)

lemma Proxy_handleRequest_run:
  assumes "Proxy_handleRequest os now ent ent2 req src stx p = Inr p'"
  shows "tx_run p p'"
proof -
  have twice: "bind_result (handleInitial os now ent req stx p) (handleInitial os now ent2 req stx) = Inr p' \<Longrightarrow> tx_run p p'"
    unfolding bind_result_eq_Inr using handleInitial_run tx_run_trans by blast
  have "handleRegister os now ent req stx p = Inr p' \<Longrightarrow> tx_run p p'"
    using handleInitial_run px_respond_run by (auto simp: handleRegister_def split: if_splits)
  with assms twice show ?thesis
    unfolding Proxy_handleRequest_def Let_def
    using handleAck_run handleCancel_run handleInDialog_run handleInitial_run px_respond_run by (auto split: if_splits)
qed

lemma Proxy_packet_run:
  assumes "Proxy_packet os now ent ent2 pkt p = Inr p'"
  shows "tx_run p p'"
proof -
  obtain tm up where h: "handlePacket os now pkt (px_tm p) = Inr (tm, up)"
    using assms by (auto simp: Proxy_packet_def bind_result_eq_Inr)
  then have "tx_run p (p\<lparr>px_tm := tm\<rparr>)" by (auto simp: tx_run_def intro: tx_step.packet)
  moreover have "tx_run (p\<lparr>px_tm := tm\<rparr>) p'"
    using assms h by (auto simp: Proxy_packet_def Let_def px_run dest: Proxy_handleRequest_run split: option.splits Upcall.splits)
  ultimately show ?thesis by (rule tx_run_trans)
qed

lemma next_event_step: "next_event i m = Some (e, m') \<Longrightarrow> tx_step m m'"
  by (auto simp: next_event_def intro: tx_step.read_event split: option.splits Tx.splits list.splits)

lemma job_send_run: "tx_run p (job_send os now ent j p)"
proof -
  obtain fwd leg stx tm r where j: "j = (fwd, leg, stx)" "TxManager_Request os now ent ent fwd (target_addr leg) (px_tm p) = (tm, r)"
    by (metis prod_cases3 surj_pair)
  then have "tx_run p (p\<lparr>px_tm := tm\<rparr>)" using Request_run by (simp add: tx_run_def)
  with j show ?thesis
    using tx_run_trans [OF _ stx_Respond_run] by (cases r) (auto simp: job_send_def tx_run_def)
qed

lemma job_event_run: "tx_run p (job_event os now stx ev p)"
  by (simp add: job_event_def px_run split: option.split TxEvent.split)

lemma end_run_run: "tx_run p (fst pb) \<Longrightarrow> tx_run p (end_run r pb)"
  by (simp add: end_run_def tx_run_def)

lemma px_step_run: "px_step p p' \<Longrightarrow> tx_run p p'"
proof (induction rule: px_step.induct)
  case (packet os now ent ent2 pkt p p')
  then show ?case by (rule Proxy_packet_run)
next
  case (branch_event g b stx p bs e m os now tag)
  then have "tx_run p (p\<lparr>px_tm := m\<rparr>)" by (auto simp: tx_run_def dest: next_event_step)
  then show ?case using end_run_run [OF tx_run_trans [OF _ runBranch_run]] by blast
next
  case (branch_deadline g b stx p os now tag)
  show ?case by (rule end_run_run [OF runBranch_run])
next
  case (timer_c g stx p os now)
  show ?case by (rule tx_run_from [OF _ timerC_run]) simp
next
  case (job j p os now ent)
  show ?case by (rule tx_run_from [OF _ job_send_run]) simp
next
  case (reply ctx stx p e m os now)
  then have "tx_run p (p\<lparr>px_tm := m, px_waits := remove1 (ctx, stx) (px_waits p)\<rparr>)"
    by (auto simp: tx_run_def dest: next_event_step)
  then show ?case using tx_run_trans job_event_run by blast
next
  case (give_up ctx stx p os now)
  show ?case by (rule tx_run_from [OF _ job_event_run]) simp
next
  case (transactions p m)
  then show ?case by (auto simp: tx_run_def)
qed (simp_all add: tx_run_frame)

interpretation proxy_layer: layered_system tx_init tx_step tx_inv manager_le px_step px_tm
  by unfold_locales (use px_step_run in \<open>simp add: tx_run_def\<close>)

section \<open>The tables of forks\<close>

text \<open>The two tables have the same groups; every branch in them, and every branch a goroutine serves, is
  allocated; a branch that is final has its response.\<close>

definition px_inv :: "Proxy \<Rightarrow> bool" where
  "px_inv p \<longleftrightarrow>
     (\<forall>k. (map_of (px_cancelled p) k = None) = (map_of (px_branches p) k = None)) \<and>
     (\<forall>k bs. map_of (px_branches p) k = Some bs \<longrightarrow> (\<forall>b \<in> set bs. b < px_next p)) \<and>
     (\<forall>b. (px_heap p b \<noteq> None) = (b < px_next p)) \<and>
     (\<forall>b s. px_heap p b = Some s \<longrightarrow> bs_isFinal s \<longrightarrow> bs_final s \<noteq> None) \<and>
     (\<forall>r \<in> set (px_runs p). fst (snd r) < px_next p)"

definition tables :: "Proxy \<Rightarrow> (string \<times> nat list) list \<times> (string \<times> bool) list \<times> (nat \<rightharpoonup> branchState) \<times> nat \<times> (string \<times> nat \<times> nat) list" where
  "tables p = (px_branches p, px_cancelled p, px_heap p, px_next p, px_runs p)"

lemma px_inv_tables: "tables p' = tables p \<Longrightarrow> px_inv p' = px_inv p"
  by (simp add: px_inv_def tables_def)

lemma tables_frame [simp]:
  "tables (p\<lparr>px_tm := m\<rparr>) = tables p" "tables (p\<lparr>px_dialogs := ds\<rparr>) = tables p" "tables (p\<lparr>px_jobs := js\<rparr>) = tables p"
  "tables (p\<lparr>px_waits := ws\<rparr>) = tables p" "tables (p\<lparr>px_timers := ts\<rparr>) = tables p" "tables (p\<lparr>px_cfg := c\<rparr>) = tables p"
  "tables (p\<lparr>px_resolve := f\<rparr>) = tables p"
  "tables (stx_Respond os now i resp p) = tables p" "tables (cancel_branch os now b p) = tables p"
  by (auto simp: tables_def stx_Respond_def cancel_branch_def split: option.split Tx.split)

lemma tables_fold: "tables (fold (cancel_branch os now) bs p) = tables p"
  by (induction bs arbitrary: p) simp_all

lemma tables_px_respond: "px_respond os now stx resp p = Inr p' \<Longrightarrow> tables p' = tables p"
  by (auto simp: px_respond_def split: option.splits)

lemma px_inv_mark: "px_inv p \<Longrightarrow> px_inv (markFinal b resp p)"
  by (auto simp: px_inv_def markFinal_def split: option.split)

lemma px_inv_cleanup: "px_inv p \<Longrightarrow> px_inv (cleanupGroup k p)"
  by (auto simp: px_inv_def cleanupGroup_def split: if_splits)

lemma px_inv_start:
  "px_inv p \<Longrightarrow> px_inv (p\<lparr>px_branches := map_put k [] (px_branches p), px_cancelled := map_put k c (px_cancelled p)\<rparr>)"
  by (auto simp: px_inv_def)

lemma px_inv_cancel:
  "px_inv p \<Longrightarrow> map_of (px_branches p) k \<noteq> None \<Longrightarrow> px_inv (p\<lparr>px_cancelled := map_put k c (px_cancelled p)\<rparr>)"
  by (auto simp: px_inv_def)

lemma px_inv_cancel_cleanup:
  "px_inv p \<Longrightarrow> px_inv (cleanupGroup k (p\<lparr>px_cancelled := map_put k c (px_cancelled p)\<rparr>))"
  by (auto simp: px_inv_def cleanupGroup_def split: if_splits)

lemma tables_cleanup: "tables q = tables q' \<Longrightarrow> tables (cleanupGroup k q) = tables (cleanupGroup k q')"
  by (simp add: tables_def cleanupGroup_def)

lemma px_inv_respond [simp]: "px_inv (stx_Respond os now i resp p) = px_inv p"
  by (rule px_inv_tables) simp

lemma px_inv_fold [simp]: "px_inv (fold (cancel_branch os now) bs p) = px_inv p"
  by (rule px_inv_tables) (rule tables_fold)

lemma px_inv_check: "px_inv p \<Longrightarrow> px_inv (checkGroupDone os now g stx p)"
  by (simp add: checkGroupDone_def Let_def px_inv_cleanup)

lemma px_inv_deliver:
  assumes "px_inv p"
  shows "px_inv (deliverFinal os now tag g w stx resp p)"
proof -
  let ?p1 = "p\<lparr>px_cancelled := map_put g True (px_cancelled p)\<rparr>"
  have "px_inv (cleanupGroup g q)" if "tables q = tables ?p1" for q
    using px_inv_cancel_cleanup [OF assms] px_inv_tables [OF tables_cleanup [OF that]] by blast
  then show ?thesis
    using assms tables_fold by (auto simp: deliverFinal_def Let_def split: option.split Tx.split)
qed

lemma px_inv_run: "px_inv p \<Longrightarrow> px_inv (fst (runBranch os now tag g b stx ev p))"
proof -
  assume p: "px_inv p"
  have "px_inv (p'\<lparr>px_tm := m\<rparr>) = px_inv p'" for p' m by (rule px_inv_tables) simp
  with p show ?thesis
    unfolding runBranch_def
    by (auto simp: Let_def px_inv_check px_inv_deliver px_inv_mark split: option.split TxEvent.split Tx.split intro!: px_inv_check)
qed

lemma px_inv_fork_branch:
  assumes "px_inv p" "map_of (px_branches p) g \<noteq> None"
  shows "px_inv (fst (fork_branch os now ent req stx g tgt p)) \<and> map_of (px_branches (fst (fork_branch os now ent req stx g tgt p))) g \<noteq> None"
proof (cases "prepareBranch ent req (Some tgt) True p")
  case (Inl e)
  have "px_branches (stx_Respond os now stx r p) = px_branches p" for r
    using tables_frame(8) [of os now stx r p] by (simp add: tables_def)
  with Inl assms show ?thesis by (simp add: fork_branch_def)
next
  case (Inr br)
  obtain tm r where r: "TxManager_Request os now ent ent br (target_addr tgt) (px_tm p) = (tm, r)" by force
  have frame: "px_inv (p\<lparr>px_tm := tm\<rparr>)" using assms(1) px_inv_tables by (metis tables_frame(1))
  show ?thesis
  proof (cases r)
    case (Inl e)
    then show ?thesis using r Inr frame assms(2) by (simp add: fork_branch_def)
  next
    case (Inr ctx)
    have "\<forall>b \<in> set (group_branches p g). b < px_next p" using assms(1) by (cases "map_of (px_branches p) g") (auto simp: px_inv_def group_branches_def)
    then show ?thesis
      using r Inr \<open>prepareBranch ent req (Some tgt) True p = Inr br\<close> assms
      by (auto simp: fork_branch_def px_inv_def less_Suc_eq)
  qed
qed

lemma px_inv_fork_loop:
  "px_inv p \<Longrightarrow> map_of (px_branches p) g \<noteq> None \<Longrightarrow> px_inv (fst (fork_loop os now ent k req stx g tgts p))"
proof (induction tgts arbitrary: k p)
  case (Cons tgt tgts)
  show ?case
    using px_inv_fork_branch [OF Cons.prems, of os now "ent k" req stx tgt] Cons.IH
    by (auto split: prod.split bool.split)
qed simp

lemma px_inv_fork: "px_inv p \<Longrightarrow> px_inv (fork os now ent req stx g tgts p)"
proof -
  assume p: "px_inv p"
  have t: "px_inv (p'\<lparr>px_timers := ts\<rparr>) = px_inv p'" for p' ts by (rule px_inv_tables) simp
  show ?thesis
    using px_inv_fork_loop [OF px_inv_start [OF p, of g False], of g os now ent 0 req stx tgts]
    by (auto simp: fork_def Let_def t split: prod.split bool.split)
qed

lemma px_inv_cancel_groups:
  "px_inv p \<Longrightarrow> \<forall>g \<in> set gs. map_of (px_branches p) (fst g) \<noteq> None \<Longrightarrow> px_inv (fold (cancel_group os now) gs p)"
proof (induction gs arbitrary: p)
  case (Cons g gs)
  have "px_branches (cancel_group os now g p) = px_branches p"
    using tables_fold [of os now "snd g" "p\<lparr>px_cancelled := map_put (fst g) True (px_cancelled p)\<rparr>"]
    by (simp add: cancel_group_def tables_def)
  moreover have "px_inv (cancel_group os now g p)"
    using Cons.prems px_inv_cancel by (simp add: cancel_group_def)
  ultimately show ?case using Cons by simp
qed simp

lemma px_inv_forwardRaw: "forwardRaw os now req target p = Inr p' \<Longrightarrow> tables p' = tables p"
  by (auto simp: forwardRaw_def Let_def split: option.splits)

lemma tables_handleAck: "handleAck os now ent req src p = Inr p' \<Longrightarrow> tables p' = tables p"
  by (auto simp: handleAck_def dest: px_inv_forwardRaw split: option.splits if_splits sum.splits)

lemma tables_handleInDialog: "handleInDialog os now ent req stx p = Inr p' \<Longrightarrow> tables p' = tables p"
  by (auto simp: handleInDialog_def Let_def dest: tables_px_respond split: option.splits prod.splits if_splits sum.splits)

lemmas px_inv_kept = px_inv_tables [THEN iffD2]

lemmas px_inv_handlers = px_inv_kept [OF tables_px_respond] px_inv_kept [OF tables_handleAck] px_inv_kept [OF tables_handleInDialog]

lemma px_inv_handleInitial: "handleInitial os now ent req stx p = Inr p' \<Longrightarrow> px_inv p \<Longrightarrow> px_inv p'"
  by (auto simp: handleInitial_def px_inv_fork dest: px_inv_handlers
      split: option.splits prod.splits if_splits sum.splits list.splits)

lemma px_inv_handleCancel:
  assumes "handleCancel os now req stx p = Inr p'" "px_inv p"
  shows "px_inv p'"
proof -
  let ?gs = "filter (\<lambda>g. fst g = ''S|'' @ viaBranch req @ ''|INVITE'' \<or> fst g = ''S|'' @ viaBranch req @ ''|'' @ RMethod req) (px_branches p)"
  have "\<forall>g \<in> set ?gs. map_of (px_branches p) (fst g) \<noteq> None"
  proof
    fix g
    assume "g \<in> set ?gs"
    then have "fst g \<in> fst ` set (px_branches p)" by simp
    then show "map_of (px_branches p) (fst g) \<noteq> None" by (simp add: map_of_eq_None_iff)
  qed
  from px_inv_cancel_groups [OF assms(2) this] show ?thesis
    using assms(1) px_inv_handlers(1) by (simp add: handleCancel_def Let_def)
qed

lemma px_inv_handleRequest:
  assumes "Proxy_handleRequest os now ent ent2 req src stx p = Inr p'" "px_inv p"
  shows "px_inv p'"
proof -
  have "bind_result (handleInitial os now ent req stx p) (handleInitial os now ent2 req stx) = Inr p' \<Longrightarrow> px_inv p'"
    unfolding bind_result_eq_Inr using px_inv_handleInitial assms(2) by blast
  moreover have "handleRegister os now ent req stx p = Inr p' \<Longrightarrow> px_inv p'"
    using px_inv_handleInitial assms(2) px_inv_handlers(1) by (auto simp: handleRegister_def split: if_splits)
  ultimately show ?thesis
    using assms px_inv_handleInitial px_inv_handleCancel px_inv_handlers
    unfolding Proxy_handleRequest_def Let_def by (simp split: if_splits)
qed

lemma px_inv_packet:
  assumes "Proxy_packet os now ent ent2 pkt p = Inr p'" "px_inv p"
  shows "px_inv p'"
proof -
  obtain tm up where h: "handlePacket os now pkt (px_tm p) = Inr (tm, up)"
    using assms by (auto simp: Proxy_packet_def bind_result_eq_Inr)
  have "px_inv (p\<lparr>px_tm := tm\<rparr>)" using assms(2) px_inv_tables [OF tables_frame(1)] by blast
  then show ?thesis
    using assms(1) h px_inv_handleRequest
    by (auto simp: Proxy_packet_def Let_def split: option.splits Upcall.splits)
qed

lemma px_inv_end: "px_inv (fst pb) \<Longrightarrow> px_inv (end_run r pb)"
  using set_remove1_subset [of r "px_runs (fst pb)"] by (auto simp: end_run_def px_inv_def)

lemma tables_jobs: "tables (job_event os now stx ev p) = tables p" "tables (job_send os now ent j p) = tables p"
  by (auto simp: job_event_def job_send_def tables_def [of "_\<lparr>px_tm := _, px_waits := _\<rparr>"] tables_def [of p]
      split: option.split TxEvent.split prod.split sum.split)

lemma px_inv_timerC: "px_inv p \<Longrightarrow> px_inv (timerC os now g stx p)"
  by (simp add: timerC_def Let_def px_inv_cleanup)

lemma px_inv_step: "px_step p p' \<Longrightarrow> px_inv p \<Longrightarrow> px_inv p'"
proof (induction rule: px_step.induct)
  case (packet os now ent ent2 pkt p p')
  then show ?case by (rule px_inv_packet)
next
  case (branch_event g b stx p bs e m os now tag)
  then have "px_inv (p\<lparr>px_tm := m\<rparr>)" using px_inv_tables [OF tables_frame(1)] by blast
  then show ?case by (intro px_inv_end px_inv_run)
next
  case (branch_deadline g b stx p os now tag)
  then show ?case by (intro px_inv_end px_inv_run)
next
  case (timer_c g stx p os now)
  then have "px_inv (p\<lparr>px_timers := remove1 (g, stx) (px_timers p)\<rparr>)" using px_inv_tables [OF tables_frame(5)] by blast
  then show ?case by (rule px_inv_timerC)
qed (erule px_inv_tables [THEN iffD2, rotated], simp add: tables_jobs SetRecordRoute_def SetResolveTargets_def)+

interpretation proxy_system: step_system "\<lambda>p. \<exists>tm host port cfg. p = NewProxy tm host port cfg" px_step px_inv
proof
  show "px_inv p" if "\<exists>tm host port cfg. p = NewProxy tm host port cfg" for p
    using that by (auto simp: NewProxy_def px_inv_def)
  show "px_inv p'" if "px_inv p" "px_step p p'" for p p' using px_inv_step that by blast
qed

end
