(* ===== verification/ProxyProps.thy ===== *)
theory ProxyProps
  imports ProxyCorrect
begin

text \<open>
  The properties of the proxy: it runs on top of the transaction layer, its tables stay consistent, its
  choice among the answers of a fork is the best one by rank, and forwarding ends when the hops are used
  up. And its defects: a cancelled INVITE that is never answered, a second answer that takes over the
  dialog, a fork that cannot be sent and is never answered, requests forwarded twice, and a crash.
\<close>

section \<open>The best response\<close>

definition first_best :: "Response list \<Rightarrow> Response option" where
  "first_best rs = find (\<lambda>r. list_all (\<lambda>s. rank (StatusCode s) \<le> rank (StatusCode r)) rs) rs"

definition branch_finals :: "Proxy \<Rightarrow> nat list \<Rightarrow> Response list" where
  "branch_finals p branches = List.map_filter (\<lambda>b. case px_heap p b of None \<Rightarrow> None | Some bs \<Rightarrow> bs_final bs) branches"

lemma find_cong_list: "(\<And>x. x \<in> set xs \<Longrightarrow> P x = Q x) \<Longrightarrow> find P xs = find Q xs"
  by (induction xs) auto

lemma first_best_later:
  "rank (StatusCode b) < rank (StatusCode r) \<Longrightarrow> first_best (b # r # rs) = first_best (r # rs)"
  by (auto simp: first_best_def list_all_iff intro: find_cong_list)

lemma first_best_earlier:
  assumes "rank (StatusCode r) \<le> rank (StatusCode b)"
  shows "first_best (b # r # rs) = first_best (b # rs)"
proof (cases "list_all (\<lambda>s. rank (StatusCode s) \<le> rank (StatusCode b)) rs")
  case True
  then show ?thesis using assms by (simp add: first_best_def)
next
  case False
  then obtain s where "s \<in> set rs" "rank (StatusCode b) < rank (StatusCode s)" by (auto simp: list_all_iff)
  with assms have "\<not> list_all (\<lambda>s. rank (StatusCode s) \<le> rank (StatusCode r)) rs"
    unfolding list_all_iff by (meson leD order_trans)
  with False assms show ?thesis by (auto simp: first_best_def list_all_iff intro!: find_cong_list)
qed

lemma pick_best_Some: "pick_best (Some b) rs = first_best (b # List.map_filter id rs)"
proof (induction rs arbitrary: b)
  case Nil
  then show ?case by (simp add: first_best_def map_filter_simps)
next
  case (Cons r rs)
  then show ?case
    by (cases r) (auto simp: map_filter_simps first_best_later first_best_earlier)
qed

lemma pick_best_None: "pick_best None rs = first_best (List.map_filter id rs)"
proof (induction rs)
  case Nil
  then show ?case by (simp add: first_best_def map_filter_simps)
next
  case (Cons r rs)
  then show ?case by (cases r) (simp_all add: pick_best_Some map_filter_simps id_def)
qed

lemma map_filter_id: "List.map_filter id (map f xs) = List.map_filter f xs"
  by (induction xs) (simp_all add: map_filter_simps split: option.split)

text \<open>C17 (equivalence): the response chosen among the final responses of a fork's branches is the first of
  those whose rank no other exceeds.\<close>

theorem best_response: "pickBestResponse p branches = first_best (branch_finals p branches)"
  by (simp add: pickBestResponse_def branch_finals_def pick_best_None map_filter_id)

section \<open>A proxy\<close>

definition demo_proxy :: Proxy where
  "demo_proxy = NewProxy demo_manager ''h'' 5 \<lparr>pc_RecordRoute = True, pc_TimerC = 0, pc_RelayRegister = False\<rparr>"

definition demo_forking :: Proxy where
  "demo_forking = demo_proxy\<lparr>px_branches := [(demo_key, [])], px_cancelled := [(demo_key, False)]\<rparr>"

section \<open>Hops\<close>

text \<open>A request that passes the proxies of a list, each with its next target.\<close>

fun relay :: "(Proxy \<times> Entropy \<times> Uri) list \<Rightarrow> Request \<Rightarrow> Request result" where
  "relay [] req = Inr req"
| "relay ((p, ent, u) # hops) req = bind_result (prepareBranch ent req (Some u) True p) (relay hops)"

lemma named_simple:
  "\<not> named ''Max-Forwards'' (via_header ent p)" "named ''Max-Forwards'' (MaxForwards n)"
  by (simp_all add: named_def via_header_def canonical_dialog_names sample_names)

lemma forward_headers_Get:
  assumes "Headers_Get hs ''Max-Forwards'' = Some h"
  shows "Headers_Get (forward_headers ent nb p hs) ''Max-Forwards'' = Some h"
  using assms by (simp add: forward_headers_def Let_def Get_Add Get_Prepend named_simple)

lemma prepareBranch_hops:
  assumes "Headers_Get (RHeaders req) ''Max-Forwards'' = Some (MaxForwards mf)"
  shows "if mf \<le> 0 then prepareBranch ent req target nb p = Inl ErrMaxForwards
    else \<exists>out. prepareBranch ent req target nb p = Inr out \<and> RUri out = target \<and>
      Headers_Get (RHeaders out) ''Max-Forwards'' = Some (MaxForwards (mf - 1))"
  using assms
  by (auto simp: prepareBranch_def Let_def intro!: forward_headers_Get Get_Set_hit) (simp add: same_name_def canonical_dialog_names)

text \<open>C21 (bounds): whatever proxies a request passes, with Max-Forwards \<open>mf\<close> it is forwarded at most \<open>mf\<close> times: up
  to there the header counts down by one per hop, and the next proxy refuses it.\<close>

theorem forwarding_ends:
  assumes "Headers_Get (RHeaders req) ''Max-Forwards'' = Some (MaxForwards mf)" "0 \<le> mf"
  shows "if mf < int (length hops) then relay hops req = Inl ErrMaxForwards
    else \<exists>out. relay hops req = Inr out \<and> Headers_Get (RHeaders out) ''Max-Forwards'' = Some (MaxForwards (mf - int (length hops)))"
  using assms
proof (induction hops arbitrary: req mf)
  case (Cons hop hops)
  obtain p ent u where hop: "hop = (p, ent, u)" by (cases hop)
  show ?case
  proof (cases "mf = 0")
    case True
    then show ?thesis using prepareBranch_hops [OF Cons.prems(1), of ent "Some u" True p] hop by simp
  next
    case False
    then obtain out where "prepareBranch ent req (Some u) True p = Inr out"
        "Headers_Get (RHeaders out) ''Max-Forwards'' = Some (MaxForwards (mf - 1))"
      using prepareBranch_hops [OF Cons.prems(1), of ent "Some u" True p] Cons.prems(2) by auto
    then show ?thesis using Cons.IH [of out "mf - 1"] False Cons.prems(2) hop by (auto split: if_splits simp: algebra_simps)
  qed
qed simp

theorem forwarding_ends_witness:
  "\<exists>out. relay [(demo_proxy, demo_tag, sample_uri)]
       ((demo_request INVITE)\<lparr>RHeaders := MaxForwards 1 # sample_headers INVITE\<rparr>) = Inr out \<and>
     Headers_Get (RHeaders out) ''Max-Forwards'' = Some (MaxForwards 0)"
proof -
  have "Headers_Get (RHeaders ((demo_request INVITE)\<lparr>RHeaders := MaxForwards 1 # sample_headers INVITE\<rparr>)) ''Max-Forwards'' = Some (MaxForwards 1)"
    by (simp add: Headers_Get_def named_simple)
  from forwarding_ends [OF this, of "[(demo_proxy, demo_tag, sample_uri)]"]
  show ?thesis by simp
qed

section \<open>A cancelled fork\<close>

lemma Cancel_heap [simp]: "m_heap (fst (ClientTx_Cancel os now t m)) = m_heap m"
  by (simp add: ClientTx_Cancel_def)

lemma cancel_branch_heap [simp]: "m_heap (px_tm (cancel_branch os now b p)) = m_heap (px_tm p)"
  by (simp add: cancel_branch_def split: option.split Tx.split)

lemma fold_cancel_heap [simp]: "m_heap (px_tm (fold (cancel_branch os now) bs p)) = m_heap (px_tm p)"
  by (induction bs arbitrary: p) simp_all

lemma group_cancelled_tables: "tables p' = tables p \<Longrightarrow> group_cancelled p' g = group_cancelled p g"
  by (simp add: group_cancelled_def tables_def)

lemma group_cancelled_mark [simp]: "group_cancelled (markFinal b r p) g = group_cancelled p g"
  by (simp add: group_cancelled_def markFinal_def split: option.split)

lemma group_cancelled_tm [simp]: "group_cancelled (p\<lparr>px_tm := m\<rparr>) g = group_cancelled p g"
  by (simp add: group_cancelled_def)

lemma checkGroupDone_cancelled: "group_cancelled p g \<Longrightarrow> checkGroupDone os now g stx p = p"
  by (simp add: checkGroupDone_def Let_def)

lemma runBranch_cancelled:
  assumes "group_cancelled p g"
  shows "m_heap (px_tm (fst (runBranch os now tag g b stx ev p))) = m_heap (px_tm p) \<and>
    group_cancelled (fst (runBranch os now tag g b stx ev p)) g"
  using assms unfolding runBranch_def
  by (auto simp: Let_def checkGroupDone_cancelled deliverFinal_def split: option.split TxEvent.split Tx.split)

lemma cancel_group_mono: "group_cancelled p g \<Longrightarrow> group_cancelled (cancel_group os now h p) g"
proof -
  let ?p = "p\<lparr>px_cancelled := map_put (fst h) True (px_cancelled p)\<rparr>"
  assume "group_cancelled p g"
  then have "group_cancelled ?p g" by (simp add: group_cancelled_def)
  then show ?thesis using group_cancelled_tables [OF tables_fold, of os now "snd h" ?p g] by (simp add: cancel_group_def)
qed

lemma cancel_groups_mono: "group_cancelled p g \<Longrightarrow> group_cancelled (fold (cancel_group os now) hs p) g"
  by (induction hs arbitrary: p) (simp_all add: cancel_group_mono)

lemma cancel_groups_hit: "(g, bs) \<in> set hs \<Longrightarrow> group_cancelled (fold (cancel_group os now) hs p) g"
proof (induction hs arbitrary: p)
  case (Cons h hs)
  show ?case
  proof (cases "h = (g, bs)")
    case True
    let ?p = "p\<lparr>px_cancelled := map_put g True (px_cancelled p)\<rparr>"
    have "group_cancelled (cancel_group os now h p) g"
      using True group_cancelled_tables [OF tables_fold, of os now bs ?p g] by (simp add: cancel_group_def group_cancelled_def)
    then show ?thesis using cancel_groups_mono by simp
  next
    case False
    with Cons show ?thesis by simp
  qed
qed simp



section \<open>A second answer\<close>

lemma Respond_final:
  assumes "s_final t = None" "200 \<le> StatusCode resp" "StatusCode resp \<le> 699" "m_heap m i = Some (STx t)"
  shows "\<exists>t'. m_heap (fst (ServerTx_Respond os now i t resp m)) i = Some (STx t') \<and> s_req t' = s_req t \<and> s_src t' = s_src t \<and>
    s_final t' = Some (resp\<lparr>SHeaders := respond_headers (s_req t) (SHeaders resp)\<rparr>)"
proof -
  let ?r = "resp\<lparr>SHeaders := respond_headers (s_req t) (SHeaders resp)\<rparr>"
  let ?t = "t\<lparr>s_final := Some ?r, s_state := TxStateCompleted\<rparr>"
  obtain m1 r where s: "TxManager_send os now (Resp ?r) (s_src t) (put_tx i (STx ?t) m) = (m1, r)" by force
  then have "m_heap m1 i = Some (STx ?t)" using send_pair [OF s] by simp
  then show ?thesis
    using assms s by (cases r) (auto simp: ServerTx_Respond_def Let_def ServerTx_startFinalRetransmit_def)
qed

lemma Respond_again:
  "s_final t \<noteq> None \<Longrightarrow> 200 \<le> StatusCode resp \<Longrightarrow> fst (ServerTx_Respond os now i t resp m) = m"
  by (auto simp: ServerTx_Respond_def Let_def)

lemma forwarded_status [simp]: "StatusCode (forwarded r) = StatusCode r" "SBody (forwarded r) = SBody r"
  by (simp_all add: forwarded_def Let_def)

lemma deliverFinal_ok:
  assumes "\<not> group_cancelled p g" "m_heap (px_tm p) stx = Some (STx t)" "200 \<le> StatusCode resp" "StatusCode resp < 300"
  shows "\<exists>p3 r. deliverFinal os now tag g w stx resp p = cleanupGroup g (stx_Respond os now stx r p3) \<and>
    StatusCode r = StatusCode resp \<and> SBody r = SBody resp \<and> m_heap (px_tm p3) = m_heap (px_tm p) \<and>
    px_dialogs p3 = map_put (Request_CallID (s_req t)) (answered_dialog tag t resp) (px_dialogs p)"
proof -
  let ?p1 = "p\<lparr>px_cancelled := map_put g True (px_cancelled p)\<rparr>"
  let ?p2 = "fold (cancel_branch os now) (filter (\<lambda>b. b \<noteq> w) (group_branches p g)) ?p1"
  have d: "px_dialogs (fold (cancel_branch os now) bs q) = px_dialogs q" for bs q
    by (induction bs arbitrary: q) (simp_all add: cancel_branch_def split: option.split Tx.split)
  have h: "m_heap (px_tm ?p2) stx = Some (STx t)" using assms(2) by simp
  show ?thesis
    using assms h d
    by (intro exI [of _ "?p2\<lparr>px_dialogs := map_put (Request_CallID (s_req t)) (answered_dialog tag t resp) (px_dialogs ?p2)\<rparr>"]
        exI [of _ "forwarded (resp\<lparr>SHeaders := tag_first_to (NewTag tag) (SHeaders resp)\<rparr>)"])
      (simp add: deliverFinal_def Let_def)
qed

lemma group_cancelled_cleanup: "\<not> group_cancelled (cleanupGroup g p) g"
  by (simp add: group_cancelled_def cleanupGroup_def)

lemma markFinal_frame [simp]: "px_dialogs (markFinal b r p) = px_dialogs p"
  by (simp add: markFinal_def split: option.split)

lemma stx_Respond_dialogs [simp]: "px_dialogs (stx_Respond os now i r p) = px_dialogs p" "px_dialogs (cleanupGroup g p) = px_dialogs p"
  by (simp_all add: stx_Respond_def cleanupGroup_def split: option.split Tx.split)

text \<open>The first 2xx of a fork is forwarded and the fork is forgotten, the mark that it has its
  answer included. When a second branch answers 2xx, the caller keeps the first answer, but the dialog now
  leads to the second callee: the caller's ACK and BYE go to the wrong one.\<close>

theorem second_answer_steals_dialog:
  assumes "m_heap (px_tm p) stx = Some (STx t)" "s_final t = None" "\<not> group_cancelled p g"
    "200 \<le> StatusCode r1" "StatusCode r1 < 300" "200 \<le> StatusCode r2" "StatusCode r2 < 300"
    "p1 = fst (runBranch os now tag1 g b1 stx (Some (EvResponse r1)) p)"
    "p2 = fst (runBranch os now tag2 g b2 stx (Some (EvResponse r2)) p1)"
  shows "\<exists>t2 f dlg. m_heap (px_tm p2) stx = Some (STx t2) \<and> s_final t2 = Some f \<and>
    StatusCode f = StatusCode r1 \<and> SBody f = SBody r1 \<and>
    map_of (px_dialogs p2) (Request_CallID (s_req t)) = Some dlg \<and> pd_remoteLeg dlg = contactUri r2"
proof -
  have p1: "p1 = deliverFinal os now tag1 g b1 stx r1 (markFinal b1 r1 p)"
    and p2: "p2 = deliverFinal os now tag2 g b2 stx r2 (markFinal b2 r2 p1)"
    using assms by (simp_all add: runBranch_def)
  obtain q r where q: "p1 = cleanupGroup g (stx_Respond os now stx r q)" "StatusCode r = StatusCode r1" "SBody r = SBody r1"
      "m_heap (px_tm q) = m_heap (px_tm p)"
    using deliverFinal_ok [of "markFinal b1 r1 p" g stx t r1 os now tag1 b1] assms p1 by auto
  then obtain t1 f where t1: "m_heap (px_tm p1) stx = Some (STx t1)" "s_req t1 = s_req t" "s_final t1 = Some f"
      "StatusCode f = StatusCode r1" "SBody f = SBody r1"
    using Respond_final [OF assms(2), of r "px_tm q" stx os now] assms(1,4,5) by (auto simp: stx_Respond_def)
  have nc: "\<not> group_cancelled (markFinal b2 r2 p1) g" using q(1) group_cancelled_cleanup by simp
  obtain q' r' where q': "p2 = cleanupGroup g (stx_Respond os now stx r' q')" "StatusCode r' = StatusCode r2"
      "m_heap (px_tm q') = m_heap (px_tm p1)"
      "px_dialogs q' = map_put (Request_CallID (s_req t1)) (answered_dialog tag2 t1 r2) (px_dialogs p1)"
    using deliverFinal_ok [OF nc, of stx t1 r2 os now tag2 b2] t1 assms(6,7) p2 by auto
  have "m_heap (px_tm p2) = m_heap (px_tm p1)"
    using q' t1 Respond_again [of t1 r' os now stx "px_tm q'"] assms(6) by (simp add: stx_Respond_def)
  moreover have "map_of (px_dialogs p2) (Request_CallID (s_req t)) = Some (answered_dialog tag2 t1 r2)"
    using q'(1,4) t1(2) by simp
  ultimately show ?thesis using t1 by (auto simp: answered_dialog_def)
qed

text \<open>The instance: a fork of the sample INVITE whose two branches both answer 200.\<close>

definition demo_answer :: "string \<Rightarrow> Response" where
  "demo_answer body = \<lparr>StatusCode = 200, Reason = [], SProto = ''SIP/2.0'', SHeaders = [], SBody = body\<rparr>"

definition demo_invited :: Proxy where
  "demo_invited = demo_forking\<lparr>px_tm := demo_manager\<lparr>m_heap := [0 \<mapsto> STx (new_server_tx (demo_request INVITE) demo_key demo_addr)]\<rparr>\<rparr>"

theorem second_answer_steals_dialog_witness:
  "let p1 = fst (runBranch demo_os 0 demo_tag demo_key 5 0 (Some (EvResponse (demo_answer ''a''))) demo_invited);
       p2 = fst (runBranch demo_os 0 demo_tag demo_key 6 0 (Some (EvResponse (demo_answer ''b''))) p1)
   in \<exists>t f dlg. m_heap (px_tm p2) 0 = Some (STx t) \<and> s_final t = Some f \<and> SBody f = ''a'' \<and>
        map_of (px_dialogs p2) (Request_CallID (demo_request INVITE)) = Some dlg \<and> pd_remoteLeg dlg = contactUri (demo_answer ''b'')"
proof -
  let ?t = "new_server_tx (demo_request INVITE) demo_key demo_addr"
  have h: "m_heap (px_tm demo_invited) 0 = Some (STx ?t)" "s_final ?t = None" "\<not> group_cancelled demo_invited demo_key"
    by (simp_all add: demo_invited_def demo_forking_def group_cancelled_def new_server_tx_def)
  have a: "StatusCode (demo_answer b) = 200" "SBody (demo_answer b) = b" "s_req ?t = demo_request INVITE" for b
    by (simp_all add: demo_answer_def new_server_tx_def)
  show ?thesis
    using second_answer_steals_dialog [OF h _ _ _ _ refl refl, of "demo_answer ''a''" "demo_answer ''b''" demo_os 0 demo_tag 6 demo_tag 5]
    unfolding Let_def a by auto
qed

section \<open>A fork that cannot be sent\<close>

definition unreachable :: "OS \<Rightarrow> int \<Rightarrow> Transport option \<Rightarrow> Addr \<Rightarrow> bool" where
  "unreachable os now tp dst \<longleftrightarrow> (\<forall>m req. m_tp m = tp \<longrightarrow> (\<exists>e. TxManager_send os now (Req req) dst m = (m, Inl e)))"

lemma Request_fails:
  assumes "unreachable os now (m_tp m) dst" "stx < m_next m"
  shows "\<exists>m' e. TxManager_Request os now br ci req dst m = (m', Inl e) \<and> m_heap m' stx = m_heap m stx \<and>
    stx < m_next m' \<and> m_tp m' = m_tp m"
proof -
  let ?req = "complete_request br ci m req"
  let ?m0 = "add_tx (clientTxKey ?req) (CTx (new_client_tx ?req (clientTxKey ?req) dst)) m"
  have "m_tp ?m0 = m_tp m" by simp
  then obtain e where s: "TxManager_send os now (Req ?req) dst ?m0 = (?m0, Inl e)" using assms(1) unfolding unreachable_def by blast
  then show ?thesis
    using assms(2) by (auto simp: TxManager_Request_def Request_begin_def Let_def TxManager_remove_def add_tx_def)
qed

lemma fork_branch_unsent:
  assumes "unreachable os now (m_tp (px_tm p)) (target_addr tgt)" "prepareBranch ent req (Some tgt) True p = Inr br"
    "stx < m_next (px_tm p)"
  shows "\<exists>m'. fork_branch os now ent req stx g tgt p = (p\<lparr>px_tm := m'\<rparr>, True) \<and> m_heap m' stx = m_heap (px_tm p) stx \<and>
    stx < m_next m' \<and> m_tp m' = m_tp (px_tm p)"
  using Request_fails [OF assms(1,3), of ent ent br] assms(2) by (auto simp: fork_branch_def)

lemma fork_loop_unsent:
  assumes "\<forall>tgt \<in> set tgts. unreachable os now (m_tp (px_tm p)) (target_addr tgt)"
    "\<And>ent tgt p. \<exists>br. prepareBranch ent req (Some tgt) True p = Inr br" "stx < m_next (px_tm p)"
  shows "\<exists>p'. fork_loop os now ent k req stx g tgts p = (p', True) \<and> m_heap (px_tm p') stx = m_heap (px_tm p) stx \<and>
    tables p' = tables p"
  using assms(1,3)
proof (induction tgts arbitrary: k p)
  case (Cons tgt tgts)
  obtain br where "prepareBranch (ent k) req (Some tgt) True p = Inr br" using assms(2) by blast
  with Cons.prems obtain m' where 1: "fork_branch os now (ent k) req stx g tgt p = (p\<lparr>px_tm := m'\<rparr>, True)"
      "m_heap m' stx = m_heap (px_tm p) stx" "stx < m_next m'" "m_tp m' = m_tp (px_tm p)"
    using fork_branch_unsent [of os now p tgt "ent k" req br stx g] by auto
  then show ?case using Cons.IH [of "p\<lparr>px_tm := m'\<rparr>" "Suc k"] Cons.prems by simp
qed simp

lemma prepareBranch_refuses:
  "prepareBranch ent req target nb p = Inl e \<Longrightarrow>
     \<exists>mf. Headers_Get (RHeaders req) ''Max-Forwards'' = Some (MaxForwards mf) \<and> mf \<le> 0"
  by (auto simp: prepareBranch_def Let_def split: option.splits Header.splits if_splits)

text \<open>A fork none of whose targets can be reached is never answered: no branch is started, the
  server transaction stays without a response, and Timer C, finding nothing pending, leaves it so.\<close>

theorem unsent_fork_unanswered:
  assumes "\<forall>tgt \<in> set tgts. unreachable os now (m_tp (px_tm p)) (target_addr tgt)"
    "\<forall>mf. Headers_Get (RHeaders req) ''Max-Forwards'' = Some (MaxForwards mf) \<longrightarrow> 0 < mf"
    "m_heap (px_tm p) stx = Some (STx t)" "stx < m_next (px_tm p)"
  shows "let p' = fork os now ent req stx g tgts p in
    m_heap (px_tm p') stx = Some (STx t) \<and> px_runs p' = px_runs p \<and> map_of (px_branches p') g = Some [] \<and>
    (\<forall>os now. timerC os now g stx p' = p')"
proof -
  let ?p0 = "p\<lparr>px_branches := map_put g [] (px_branches p), px_cancelled := map_put g False (px_cancelled p)\<rparr>"
  have "\<exists>br. prepareBranch ent req (Some tgt) True p = Inr br" for ent tgt p
    using prepareBranch_refuses [of ent req "Some tgt" True p] assms(2)
    by (cases "prepareBranch ent req (Some tgt) True p") auto
  from fork_loop_unsent [OF _ this, of tgts os now ?p0 stx ent 0 g] assms obtain p' where
    p': "fork_loop os now ent 0 req stx g tgts ?p0 = (p', True)" "m_heap (px_tm p') stx = Some (STx t)" "tables p' = tables ?p0"
    by auto
  then show ?thesis
    by (auto simp: fork_def Let_def tables_def timerC_def group_branches_def group_cancelled_def)
qed

text \<open>The instance: the target's name does not resolve.\<close>

definition open_transport :: Transport where "open_transport = new_transport (Some (v4_prefix @ [0, 0, 0, 0])) False False"

definition asked_proxy :: Proxy where
  "asked_proxy = demo_proxy\<lparr>px_tm := (NewTxManager (Some open_transport) ''h'' 5)
     \<lparr>m_heap := [0 \<mapsto> STx (new_server_tx (demo_request INVITE) demo_key demo_addr)], m_next := 2\<rparr>\<rparr>"

lemma demo_unreachable: "unreachable demo_os now (Some open_transport) (target_addr sample_uri)"
proof -
  have "target_addr sample_uri = \<lparr>Network = ''udp'', AHost = ''h'', APort = 5060\<rparr>" by code_simp
  moreover have "ToLower ''udp'' = ''udp''" "ParseIP ''h'' = None" by code_simp+
  moreover have "pickAddrFamily (Some l) None = None" for l by (simp add: pickAddrFamily_def)
  ultimately show ?thesis
    by (simp add: unreachable_def TxManager_send_def send_target_def Let_def Transport_Send_def open_transport_def
        new_transport_def udp_target_def demo_os_def)
qed

theorem unsent_fork_unanswered_witness:
  "let p' = fork demo_os 0 (\<lambda>_. demo_tag) (demo_request INVITE) 0 demo_key [sample_uri] asked_proxy in
   (\<forall>os now. timerC os now demo_key 0 p' = p') \<and> (\<exists>t. m_heap (px_tm p') 0 = Some (STx t) \<and> s_final t = None)"
proof -
  let ?t = "new_server_tx (demo_request INVITE) demo_key demo_addr"
  have f: "s_final ?t = None" by (simp add: new_server_tx_def)
  have "m_tp (px_tm asked_proxy) = Some open_transport" "m_heap (px_tm asked_proxy) 0 = Some (STx ?t)" "0 < m_next (px_tm asked_proxy)"
    by (simp_all add: asked_proxy_def NewTxManager_def)
  moreover have "Headers_Get (RHeaders (demo_request INVITE)) ''Max-Forwards'' = None"
    by (simp add: demo_request_def sample_headers_def sample_addr_def Headers_Get_def named_def sample_names canonical_dialog_names)
  ultimately show ?thesis
    using unsent_fork_unanswered [of "[sample_uri]" demo_os 0 asked_proxy "demo_request INVITE" 0 ?t "\<lambda>_. demo_tag" demo_key]
      demo_unreachable f unfolding Let_def by auto
qed

section \<open>Requests forwarded twice\<close>

lemma Request_ok:
  assumes "TxManager_Request os now br ci req dst m = (m', Inr c)"
  shows "c = m_next m \<and> m_next m' = Suc c \<and> (\<forall>i. i \<noteq> c \<longrightarrow> m_heap m' i = m_heap m i)"
proof -
  obtain m1 where b: "Request_begin os now br ci req dst m = (m1, Inr c)"
      and e: "m' = m1 \<or> (\<exists>x. m' = Request_end c x m1)"
    using assms by (auto simp: TxManager_Request_def split: prod.splits sum.splits option.splits Tx.splits)
  have 1: "c = m_next m" "m_next m1 = Suc (m_next m)" "\<forall>i. i \<noteq> m_next m \<longrightarrow> m_heap m1 i = m_heap m i"
    using b by (auto simp: Request_begin_def Let_def add_tx_def dest!: send_pair split: if_splits prod.splits sum.splits)
  with e show ?thesis by (auto simp: Request_end_def)
qed

lemma prepareBranch_cong:
  "px_Host p' = px_Host p \<Longrightarrow> px_port p' = px_port p \<Longrightarrow> px_cfg p' = px_cfg p \<Longrightarrow>
     prepareBranch ent req target nb p' = prepareBranch ent req target nb p"
proof -
  assume "px_Host p' = px_Host p" "px_port p' = px_port p" "px_cfg p' = px_cfg p"
  then have "forward_headers ent nb p' = forward_headers ent nb p"
    by (intro ext) (simp add: forward_headers_def via_header_def record_route_def)
  then show ?thesis by (simp add: prepareBranch_def)
qed

text \<open>A MESSAGE, OPTIONS, INFO, NOTIFY or UPDATE outside a dialog is forked twice: its target gets
  it in two transactions, and the table knows only the second.\<close>

theorem request_forwarded_twice:
  assumes "RMethod req \<in> {MESSAGE, OPTIONS, INFO, NOTIFY, UPDATE}" "px_resolve p = Some f" "f req = Inr [u]"
    "Address_Tag (Request_To req) = []" "m_heap (px_tm p) i = Some (STx t)" "i < m_next (px_tm p)"
    "prepareBranch (ent 0) req (Some u) True p = Inr br1" "prepareBranch (ent2 0) req (Some u) True p = Inr br2"
    "TxManager_Request os now (ent 0) (ent 0) br1 (target_addr u) (px_tm p) = (m1, Inr c1)"
    "TxManager_Request os now (ent2 0) (ent2 0) br2 (target_addr u) m1 = (m2, Inr c2)"
  shows "\<exists>p'. Proxy_handleRequest os now ent ent2 req src (Some i) p = Inr p' \<and> px_tm p' = m2 \<and> c1 \<noteq> c2 \<and>
    px_runs p' = px_runs p @ [(s_key t, px_next p, i), (s_key t, Suc (px_next p), i)] \<and>
    group_branches p' (s_key t) = [Suc (px_next p)]"
proof -
  have c: "c1 = m_next (px_tm p)" "c2 = m_next m1" "m_next m1 = Suc c1" "m_heap m1 i = Some (STx t)"
    using Request_ok [OF assms(9)] Request_ok [OF assms(10)] assms(5,6) by auto
  have one: "\<exists>p'. handleInitial os now ent req (Some i) p = Inr p' \<and> px_tm p' = m' \<and>
      px_runs p' = px_runs p @ [(s_key t, px_next p, i)] \<and> px_next p' = Suc (px_next p) \<and>
      group_branches p' (s_key t) = [px_next p] \<and> px_resolve p' = px_resolve p \<and>
      px_Host p' = px_Host p \<and> px_port p' = px_port p \<and> px_cfg p' = px_cfg p"
    if "px_resolve p = Some f" "m_heap (px_tm p) i = Some (STx t)" "prepareBranch (ent 0) req (Some u) True p = Inr br"
      "TxManager_Request os now (ent 0) (ent 0) br (target_addr u) (px_tm p) = (m', Inr c)" for p ent br m' c
  proof -
    let ?p0 = "p\<lparr>px_branches := map_put (s_key t) [] (px_branches p), px_cancelled := map_put (s_key t) False (px_cancelled p)\<rparr>"
    have "prepareBranch (ent 0) req (Some u) True ?p0 = Inr br"
      using that(3) prepareBranch_cong [of ?p0 p] by simp
    then show ?thesis
      using that assms(3,4) by (simp add: handleInitial_def stx_of_def fork_def Let_def fork_branch_def group_branches_def)
  qed
  obtain p1 where p1: "handleInitial os now ent req (Some i) p = Inr p1" "px_tm p1 = m1"
      "px_runs p1 = px_runs p @ [(s_key t, px_next p, i)]" "px_next p1 = Suc (px_next p)"
      "px_resolve p1 = Some f" "px_Host p1 = px_Host p" "px_port p1 = px_port p" "px_cfg p1 = px_cfg p"
    using one [of p ent br1 m1 c1] assms by auto
  have "prepareBranch (ent2 0) req (Some u) True p1 = Inr br2" using assms(8) prepareBranch_cong [of p1 p] p1 by simp
  then obtain p2 where p2: "handleInitial os now ent2 req (Some i) p1 = Inr p2" "px_tm p2 = m2"
      "px_runs p2 = px_runs p1 @ [(s_key t, px_next p1, i)]" "group_branches p2 (s_key t) = [px_next p1]"
    using one [of p1 ent2 br2 m2 c2] p1 c(4) assms(10) by auto
  have "Proxy_handleRequest os now ent ent2 req src (Some i) p = Inr p2"
    using assms(1) p1(1) p2(1)
    by (auto simp: Proxy_handleRequest_def Let_def MESSAGE_def OPTIONS_def INFO_def NOTIFY_def UPDATE_def ACK_def CANCEL_def
        BYE_def INVITE_def SUBSCRIBE_def REFER_def REGISTER_def)
  then show ?thesis using p1 p2 c by auto
qed

text \<open>The instance: a MESSAGE to a target the demonstration transport reaches.\<close>

definition near_uri :: Uri where "near_uri = sample_uri\<lparr>Port := 5\<rparr>"

definition messaged :: Proxy where
  "messaged = demo_proxy\<lparr>px_tm := demo_manager\<lparr>m_heap := [0 \<mapsto> STx (new_server_tx (demo_request MESSAGE) demo_key demo_addr)], m_next := 2\<rparr>,
     px_resolve := Some (\<lambda>_. Inr [near_uri])\<rparr>"

lemma complete_request_Via:
  assumes "Headers_Get (RHeaders req) ''Via'' = Some (ViaHeader v)"
  shows "Headers_Get (RHeaders (complete_request a b m req)) ''Via'' = Some (ViaHeader v)"
proof -
  have "Request_Via req \<noteq> None" using assms by (simp add: Request_Via_def via_of_def)
  then show ?thesis
    using assms by (simp add: complete_request_def Let_def Get_Set_miss same_name_def NewHeader_def sample_names canonical_dialog_names)
qed

lemma prepared_branch:
  assumes "prepareBranch ent req target True p = Inr br"
  shows "viaBranch (complete_request a b m br) = NewBranch ent"
proof -
  have "\<exists>v. via_header ent p = ViaHeader v \<and> Via_Branch v = NewBranch ent"
    by (simp add: via_header_def Via_Branch_def Via_SetBranch_def Params_Get_Set)
  then obtain v where v: "via_header ent p = ViaHeader v" "Via_Branch v = NewBranch ent" by blast
  have "Headers_Get (RHeaders br) ''Via'' = Some (ViaHeader v)"
    using assms v(1) by (auto simp: prepareBranch_def forward_headers_def Let_def Get_Add Get_Prepend named_def sample_names
        split: option.splits Header.splits if_splits)
  from complete_request_Via [OF this] v(2) show ?thesis by (simp add: viaBranch_def Request_Via_def via_of_def)
qed

lemma demo_request_sent:
  assumes "m_tp m = m_tp demo_manager" "m_txs m (clientTxKey (complete_request a b m br)) = None"
  shows "\<exists>m'. TxManager_Request os now a b br demo_addr m = (m', Inr (m_next m)) \<and> m_tp m' = m_tp m \<and>
    m_txs m' = (m_txs m)(clientTxKey (complete_request a b m br) \<mapsto> m_next m)"
  using assms demo_send [of "add_tx (clientTxKey (complete_request a b m br)) t m" for t]
  by (auto simp: TxManager_Request_def Request_begin_def Let_def Request_end_def add_tx_def put_tx_def)

theorem request_forwarded_twice_witness:
  "\<exists>p'. Proxy_handleRequest demo_os 0 (\<lambda>_. RandomBytes [7]) (\<lambda>_. RandomBytes [8]) (demo_request MESSAGE) demo_addr (Some 0) messaged = Inr p' \<and>
     px_runs p' = [(demo_key, 0, 0), (demo_key, Suc 0, 0)]"
proof -
  let ?t = "new_server_tx (demo_request MESSAGE) demo_key demo_addr" and ?m = "px_tm messaged"
  have facts: "px_resolve messaged = Some (\<lambda>_. Inr [near_uri])" "m_heap ?m 0 = Some (STx ?t)" "0 < m_next ?m"
    "m_tp ?m = m_tp demo_manager" "m_txs ?m = Map.empty" "px_runs messaged = []" "px_next messaged = 0"
    by (simp_all add: messaged_def demo_manager_def NewTxManager_def demo_proxy_def NewProxy_def)
  have a: "target_addr near_uri = demo_addr" unfolding demo_addr_def by code_simp
  have "Headers_Get (RHeaders (demo_request MESSAGE)) ''Max-Forwards'' = None"
    by (simp add: demo_request_def sample_headers_def sample_addr_def Headers_Get_def named_def sample_names canonical_dialog_names)
  then have "\<exists>br. prepareBranch ent (demo_request MESSAGE) (Some near_uri) True messaged = Inr br" for ent
    by (simp add: prepareBranch_def Let_def)
  then obtain br1 br2 where br: "prepareBranch (RandomBytes [7]) (demo_request MESSAGE) (Some near_uri) True messaged = Inr br1"
      "prepareBranch (RandomBytes [8]) (demo_request MESSAGE) (Some near_uri) True messaged = Inr br2" by blast
  have b: "NewBranch (RandomBytes [7]) = ''z9hG4bK07''" "NewBranch (RandomBytes [8]) = ''z9hG4bK08''" by code_simp+
  obtain m1 where m1: "TxManager_Request demo_os 0 (RandomBytes [7]) (RandomBytes [7]) br1 demo_addr ?m = (m1, Inr (m_next ?m))"
      "m_tp m1 = m_tp demo_manager"
      "m_txs m1 = [clientTxKey (complete_request (RandomBytes [7]) (RandomBytes [7]) ?m br1) \<mapsto> m_next ?m]"
    using demo_request_sent [of ?m "RandomBytes [7]" "RandomBytes [7]" br1 demo_os 0] facts by auto
  moreover have "clientTxKey (complete_request (RandomBytes [7]) (RandomBytes [7]) ?m br1) \<noteq>
      clientTxKey (complete_request (RandomBytes [8]) (RandomBytes [8]) m1 br2)"
    using prepared_branch [OF br(1)] prepared_branch [OF br(2)] b by (simp add: clientTxKey_def)
  ultimately obtain m2 c2 where "TxManager_Request demo_os 0 (RandomBytes [8]) (RandomBytes [8]) br2 demo_addr m1 = (m2, Inr c2)"
    using demo_request_sent [of m1 "RandomBytes [8]" "RandomBytes [8]" br2 demo_os 0] by auto
  moreover have "Address_Tag (Request_To (demo_request MESSAGE)) = []" "s_key ?t = demo_key" "RMethod (demo_request MESSAGE) = MESSAGE"
    by (simp_all add: Request_To_def demo_request_def sample_Get_plain sample_addr_def NameAddrList_First_def Address_Tag_def new_server_tx_def)
  ultimately show ?thesis
    using request_forwarded_twice [of "demo_request MESSAGE" messaged "\<lambda>_. Inr [near_uri]" near_uri 0 ?t "\<lambda>_. RandomBytes [7]" br1
        "\<lambda>_. RandomBytes [8]" br2 demo_os 0 m1 "m_next ?m" m2 c2 demo_addr]
      facts br m1(1) a by auto
qed

section \<open>A crash\<close>

text \<open>A call answered without a Contact header leaves a dialog without a remote leg, and the ACK that
  the caller then sends makes the proxy dereference the nil URI.\<close>

theorem ack_without_contact_crashes:
  assumes "RMethod req = ACK" "map_of (px_dialogs p) (Request_CallID req) = Some (answered_dialog tag t resp)"
    "contactUri resp = None" "AHost (s_src t) \<noteq> []" "sameHost (AHost src) (AHost (s_src t))"
    "\<forall>mf. Headers_Get (RHeaders req) ''Max-Forwards'' = Some (MaxForwards mf) \<longrightarrow> 0 < mf"
  shows "Proxy_handleRequest os now ent ent2 req src stx p = Inl GoPanic"
proof -
  let ?d = "answered_dialog tag t resp"
  have "pd_remoteLeg ?d = None" "proxy_dialogSourceAllowed ?d src"
    using assms(3-5) by (simp_all add: answered_dialog_def proxy_dialogSourceAllowed_def)
  moreover obtain ack where "prepareBranch (ent 0) req None False p = Inr ack"
    using prepareBranch_refuses [of "ent 0" req None False p] assms(6) by (cases "prepareBranch (ent 0) req None False p") auto
  ultimately show ?thesis using assms(1,2) by (simp add: Proxy_handleRequest_def handleAck_def forwardRaw_def)
qed

theorem ack_without_contact_crashes_witness:
  "Proxy_handleRequest demo_os 0 (\<lambda>_. demo_tag) (\<lambda>_. demo_tag) (demo_request ACK) demo_addr None
     (demo_proxy\<lparr>px_dialogs := [(''c1'', answered_dialog demo_tag (new_server_tx (demo_request INVITE) demo_key demo_addr) (demo_answer ''a''))]\<rparr>) =
   Inl GoPanic"
proof -
  let ?t = "new_server_tx (demo_request INVITE) demo_key demo_addr"
  have c: "contactUri (demo_answer ''a'') = None"
    by (simp add: contactUri_def Response_Contact_def demo_answer_def Headers_Get_def NameAddrList_First_def)
  have r: "RMethod (demo_request ACK) = ACK" "Request_CallID (demo_request ACK) = ''c1''"
    by (simp_all add: demo_request_def Request_CallID_def sample_Get_plain headerValue_def)
  have "Headers_Get (RHeaders (demo_request ACK)) ''Max-Forwards'' = None"
    by (simp add: demo_request_def sample_headers_def sample_addr_def Headers_Get_def named_def sample_names canonical_dialog_names)
  moreover have "AHost (s_src ?t) = ''h''" "AHost demo_addr = ''h''" by (simp_all add: new_server_tx_def demo_addr_def)
  moreover have "sameHost ''h'' ''h''" by code_simp
  ultimately show ?thesis
    using ack_without_contact_crashes [OF r(1) _ c, of _ demo_tag ?t demo_addr demo_os 0] r(2) by simp
qed

section \<open>The proxy on top of the transactions\<close>


lemma demo_run:
  "px_step\<^sup>*\<^sup>* demo_proxy (SetRecordRoute False (SetResolveTargets (Some (\<lambda>_. Inr [sample_uri])) demo_proxy))"
  by (meson px_step.set_record_route px_step.set_resolve r_into_rtranclp rtranclp.rtrancl_into_rtrancl)




end
