(* ===== verification/B2bua.thy ===== *)
theory B2bua
  imports UaProps
begin

text \<open>
  \<^verbatim>\<open>b2bua.go\<close>: a back-to-back user agent that answers a call on one user agent (ingress) with a call on
  another (egress). A leg is a dialog of one of the two. The media relay is not part of the program: what
  is asked of it is recorded in \<open>b_relay\<close>. A bridged INVITE that waits for the callee is an element of
  \<open>b_pending\<close>, and the calls of the application's hooks are in \<open>b_hooks\<close>.
\<close>

section \<open>Data\<close>

datatype Leg = Ingress nat | Egress nat

datatype RelayAction = RelayStart "Uri option" "Uri option" | RelayStop

record B2BSession =
  b2_ID :: string
  b2_ALeg :: Leg
  b2_BLeg :: Leg
  b2_ASession :: ClientInviteSession

datatype SessionHook = SessionStart B2BSession | SessionEnd B2BSession

record Pending =
  pe_req :: Request
  pe_stx :: "nat option"
  pe_aDlg :: nat
  pe_ct :: string
  pe_sess :: ClientInviteSession

record B2BUA =
  b_ingress :: UA
  b_egress :: UA
  b_egressPort :: int
  b_sessions :: "(string \<times> B2BSession) list"
  b_RouteTarget :: "(Request \<Rightarrow> Uri result) option"
  b_hasStart :: bool
  b_hasEnd :: bool
  b_relay :: "RelayAction list"
  b_pending :: "Pending list"
  b_hooks :: "SessionHook list"

definition mergeCallbacks :: "UACallbacks \<Rightarrow> UACallbacks \<Rightarrow> UACallbacks" where
  "mergeCallbacks a b = a\<lparr>has_OnBye := has_OnBye b\<rparr>"

text \<open>The callbacks of the ingress side are set twice; the second time those already there are merged in.\<close>

definition NewB2BUA :: "UA \<Rightarrow> UA \<Rightarrow> int \<Rightarrow> B2BUA" where
  "NewB2BUA ingress egress port =
     \<lparr>b_ingress = (let ua = SetCallbacks (no_callbacks\<lparr>has_OnInvite := True\<rparr>) ingress
                   in SetCallbacks (mergeCallbacks (ua_cb ua) (no_callbacks\<lparr>has_OnBye := True\<rparr>)) ua),
      b_egress = SetCallbacks (no_callbacks\<lparr>has_OnBye := True\<rparr>) egress,
      b_egressPort = port, b_sessions = [], b_RouteTarget = None, b_hasStart = False, b_hasEnd = False,
      b_relay = [], b_pending = [], b_hooks = []\<rparr>"

definition SetRouteTarget :: "(Request \<Rightarrow> Uri result) option \<Rightarrow> B2BUA \<Rightarrow> B2BUA" where
  "SetRouteTarget f b = b\<lparr>b_RouteTarget := f\<rparr>"

definition SetSessionHooks :: "bool \<Rightarrow> bool \<Rightarrow> B2BUA \<Rightarrow> B2BUA" where
  "SetSessionHooks onStart onEnd b = b\<lparr>b_hasStart := onStart, b_hasEnd := onEnd\<rparr>"

definition Sessions :: "B2BUA \<Rightarrow> nat" where
  "Sessions b = length (b_sessions b)"

section \<open>An incoming call\<close>

definition ingress_Respond :: "OS \<Rightarrow> int \<Rightarrow> nat \<Rightarrow> nat option \<Rightarrow> int \<Rightarrow> string \<Rightarrow> string option \<Rightarrow> B2BUA \<Rightarrow> B2BUA \<times> unit result" where
  "ingress_Respond os now aDlg stx status ct body b =
     (case UA_Respond os now (dm_heap (ua_dialogs (b_ingress b)) aDlg) stx status ct body (b_ingress b) of
        (ua, r) \<Rightarrow> (b\<lparr>b_ingress := ua\<rparr>, r))"

definition contentType :: "Request \<Rightarrow> string" where
  "contentType req = headerValue (Headers_Get (RHeaders req) ''Content-Type'')"

definition handleIngressInvite ::
    "OS \<Rightarrow> int \<Rightarrow> Entropy \<Rightarrow> Entropy \<Rightarrow> Entropy \<Rightarrow> Request \<Rightarrow> nat option \<Rightarrow> nat \<Rightarrow> B2BUA \<Rightarrow> B2BUA result" where
  "handleIngressInvite os now tag callid br req stx aDlg b = (case b_RouteTarget b of
     None \<Rightarrow> Inr (fst (ingress_Respond os now aDlg stx 501 [] None b))
   | Some route \<Rightarrow> (case route req of
       Inl _ \<Rightarrow> Inr (fst (ingress_Respond os now aDlg stx 500 [] None b))
     | Inr target \<Rightarrow> (case Request_From req of
         None \<Rightarrow> Inl GoPanic
       | Some f \<Rightarrow>
           (let ct = contentType req; from = plain_address (Uri_Clone (AUri f)) None in
            case UA_Invite os now tag callid br target from ct (Some (RBody req)) (b_egressPort b) (b_egress b) of
              (ua, Inl e) \<Rightarrow>
                if e = GoPanic then Inl GoPanic
                else Inr (fst (ingress_Respond os now aDlg stx 503 [] None (b\<lparr>b_egress := ua\<rparr>)))
            | (ua, Inr sess) \<Rightarrow>
                Inr (b\<lparr>b_egress := ua, b_pending := b_pending b @
                      [\<lparr>pe_req = req, pe_stx = stx, pe_aDlg = aDlg, pe_ct = ct, pe_sess = sess\<rparr>]\<rparr>)))))"

text \<open>\<^verbatim>\<open>WaitResponse\<close>: the session is done, or a minute has passed.\<close>

definition WaitResponse :: "bool \<Rightarrow> ClientInviteSession \<Rightarrow> (Response option \<times> error option) option" where
  "WaitResponse expired s =
     (if se_Done s then Some (se_Final s, se_Err s) else if expired then Some (None, Some ErrTimeout) else None)"

definition answer_body :: "Response \<Rightarrow> string option" where
  "answer_body resp = (if SBody resp = [] then None else Some (SBody resp))"

definition dialog_target :: "UA \<Rightarrow> nat \<Rightarrow> Uri option" where
  "dialog_target ua i = (case dm_heap (ua_dialogs ua) i of None \<Rightarrow> None | Some d \<Rightarrow> d_RemoteTarget d)"

definition start_session :: "Pending \<Rightarrow> B2BUA \<Rightarrow> B2BUA" where
  "start_session w b =
     (let s = \<lparr>b2_ID = Request_CallID (pe_req w), b2_ALeg = Ingress (pe_aDlg w), b2_BLeg = Egress (se_dlg (pe_sess w)),
               b2_ASession = pe_sess w\<rparr>
      in b\<lparr>b_relay := b_relay b @ [RelayStart (dialog_target (b_ingress b) (pe_aDlg w)) (dialog_target (b_egress b) (se_dlg (pe_sess w)))],
           b_sessions := map_put (b2_ID s) s (b_sessions b),
           b_hooks := b_hooks b @ (if b_hasStart b then [SessionStart s] else [])\<rparr>)"

text \<open>The goroutine of \<^verbatim>\<open>handleIngressInvite\<close> once \<^verbatim>\<open>WaitResponse\<close> has returned.\<close>

definition bridge_result :: "OS \<Rightarrow> int \<Rightarrow> Pending \<Rightarrow> Response option \<times> error option \<Rightarrow> B2BUA \<Rightarrow> B2BUA result" where
  "bridge_result os now w r b = (case r of
     (resp0, Some e) \<Rightarrow>
       Inr (fst (ingress_Respond os now (pe_aDlg w) (pe_stx w) (case resp0 of None \<Rightarrow> 503 | Some x \<Rightarrow> StatusCode x) [] None b))
   | (None, None) \<Rightarrow> Inl GoPanic
   | (Some resp, None) \<Rightarrow>
       if 300 \<le> StatusCode resp
       then Inr (fst (ingress_Respond os now (pe_aDlg w) (pe_stx w) (StatusCode resp) [] None b))
       else
         (let ack = (if StatusCode resp = 200 then session_Ack os now (pe_sess w) (b_egress b) else (b_egress b, Inr ())) in
          if snd ack = Inl GoPanic then Inl GoPanic
          else (case ingress_Respond os now (pe_aDlg w) (pe_stx w) 200 (pe_ct w) (answer_body resp) (b\<lparr>b_egress := fst ack\<rparr>) of
            (b', Inl _) \<Rightarrow> Inr b'
          | (b', Inr _) \<Rightarrow> Inr (start_session w b'))))"

section \<open>The end of a call\<close>

definition session_of :: "Leg \<Rightarrow> B2BUA \<Rightarrow> B2BSession option" where
  "session_of leg b = find (\<lambda>s. b2_ALeg s = leg \<or> b2_BLeg s = leg) (rev (map snd (b_sessions b)))"

definition hangup_leg :: "OS \<Rightarrow> int \<Rightarrow> (nat \<Rightarrow> Entropy) \<Rightarrow> (nat \<Rightarrow> TxEvent option list) \<Rightarrow> Leg \<Rightarrow> B2BUA \<Rightarrow> B2BUA \<times> bool" where
  "hangup_leg os now br evs leg b = (case leg of
     Ingress i \<Rightarrow> (case dm_heap (ua_dialogs (b_ingress b)) i of
       None \<Rightarrow> (b, True)
     | Some d \<Rightarrow> if d_State d = DialogTerminated then (b, True)
                 else (case Hangup os now br evs i (b_ingress b) of (ua, r) \<Rightarrow> (b\<lparr>b_ingress := ua\<rparr>, r \<noteq> None)))
   | Egress i \<Rightarrow> (case dm_heap (ua_dialogs (b_egress b)) i of
       None \<Rightarrow> (b, True)
     | Some d \<Rightarrow> if d_State d = DialogTerminated then (b, True)
                 else (case Hangup os now br evs i (b_egress b) of (ua, r) \<Rightarrow> (b\<lparr>b_egress := ua\<rparr>, r \<noteq> None))))"

text \<open>\<^verbatim>\<open>handleLegBye\<close>, called with the dialog that received a BYE; \<open>False\<close> while it waits for the other leg.\<close>

definition handleLegBye :: "OS \<Rightarrow> int \<Rightarrow> (nat \<Rightarrow> Entropy) \<Rightarrow> (nat \<Rightarrow> TxEvent option list) \<Rightarrow> Leg \<Rightarrow> B2BUA \<Rightarrow> B2BUA \<times> bool" where
  "handleLegBye os now br evs leg b = (case session_of leg b of
     None \<Rightarrow> (b, True)
   | Some s \<Rightarrow>
       (let peer = (if leg = b2_ALeg s then b2_BLeg s else b2_ALeg s);
            b1 = b\<lparr>b_sessions := map_delete (b2_ID s) (b_sessions b), b_relay := b_relay b @ [RelayStop]\<rparr>
        in case hangup_leg os now br evs peer b1 of
             (b2, False) \<Rightarrow> (b2, False)
           | (b2, True) \<Rightarrow> (b2\<lparr>b_hooks := b_hooks b2 @ (if b_hasEnd b2 then [SessionEnd s] else [])\<rparr>, True)))"

section \<open>Correctness\<close>

text \<open>A session is filed under its identifier, and no two sessions share a leg.\<close>

definition b2_inv :: "B2BUA \<Rightarrow> bool" where
  "b2_inv b \<longleftrightarrow> distinct (map fst (b_sessions b)) \<and> (\<forall>(k, s) \<in> set (b_sessions b). k = b2_ID s) \<and>
     (\<forall>(k, s) \<in> set (b_sessions b). \<forall>(k', s') \<in> set (b_sessions b).
        {b2_ALeg s, b2_BLeg s} \<inter> {b2_ALeg s', b2_BLeg s'} \<noteq> {} \<longrightarrow> k = k')"

lemma b2_inv_delete: "b2_inv b \<Longrightarrow> b2_inv (b\<lparr>b_sessions := map_delete k (b_sessions b), b_relay := r\<rparr>)"
  by (auto simp: b2_inv_def map_delete_def distinct_map_filter)

lemma session_of_Some:
  assumes "session_of leg b = Some s"
  shows "\<exists>k. (k, s) \<in> set (b_sessions b) \<and> (b2_ALeg s = leg \<or> b2_BLeg s = leg)"
proof -
  have "find P xs = Some x \<Longrightarrow> x \<in> set xs \<and> P x" for P and xs :: "B2BSession list" and x
    by (induction xs) (auto split: if_splits)
  from this [OF assms [unfolded session_of_def]] show ?thesis by auto
qed

lemma session_of_unique:
  assumes "b2_inv b" "(k, s) \<in> set (b_sessions b)" "leg = b2_ALeg s \<or> leg = b2_BLeg s"
  shows "session_of leg b = Some s"
proof -
  let ?P = "\<lambda>s. b2_ALeg s = leg \<or> b2_BLeg s = leg"
  obtain s' where s': "session_of leg b = Some s'"
    using assms(2,3) by (cases "session_of leg b") (auto simp: session_of_def find_None_iff)
  then obtain k' where k': "(k', s') \<in> set (b_sessions b)" "?P s'" using session_of_Some by blast
  with assms have "k' = k" unfolding b2_inv_def by fastforce
  with k'(1) assms(1,2) have "s' = s" by (auto simp: b2_inv_def dest: eq_key_imp_eq_value)
  with s' show ?thesis by simp
qed

lemma hangup_leg_frame:
  assumes "\<forall>k < 3. None \<in> set (evs k)"
  shows "\<exists>b'. hangup_leg os now br evs leg b = (b', True) \<and> b_sessions b' = b_sessions b \<and> b_relay b' = b_relay b \<and>
    b_hasEnd b' = b_hasEnd b \<and> b_hooks b' = b_hooks b"
proof -
  have "\<exists>r. snd (Hangup os now br evs i ua) = Some r" for i ua
    unfolding Hangup_def using Hangup_loop_returns [of 3 evs] assms by blast
  then show ?thesis
    by (cases leg) (auto simp: hangup_leg_def split: option.split prod.split, (metis option.distinct(1) snd_conv)+)
qed

text \<open>A BYE on either leg of a bridged call ends the call: the session is taken out and no other
  one, the relay is stopped once, the handler returns when the other leg has been hung up or has timed
  out, and the end is reported if the application asked for it.\<close>

theorem leg_bye_ends_session:
  assumes "b2_inv b" "(k, s) \<in> set (b_sessions b)" "leg = b2_ALeg s \<or> leg = b2_BLeg s" "\<forall>j < 3. None \<in> set (evs j)"
  shows "\<exists>b'. handleLegBye os now br evs leg b = (b', True) \<and> b_sessions b' = map_delete k (b_sessions b) \<and>
    Suc (Sessions b') = Sessions b \<and> session_of leg b' = None \<and> b_relay b' = b_relay b @ [RelayStop] \<and> b2_inv b' \<and>
    b_hooks b' = b_hooks b @ (if b_hasEnd b then [SessionEnd s] else [])"
proof -
  let ?b1 = "b\<lparr>b_sessions := map_delete (b2_ID s) (b_sessions b), b_relay := b_relay b @ [RelayStop]\<rparr>"
  let ?peer = "if leg = b2_ALeg s then b2_BLeg s else b2_ALeg s"
  have k: "b2_ID s = k" using assms(1,2) by (auto simp: b2_inv_def)
  obtain b2 where b2: "hangup_leg os now br evs ?peer ?b1 = (b2, True)" "b_sessions b2 = map_delete k (b_sessions b)"
      "b_relay b2 = b_relay b @ [RelayStop]" "b_hasEnd b2 = b_hasEnd b" "b_hooks b2 = b_hooks b"
    using hangup_leg_frame [OF assms(4), of os now br ?peer ?b1] k by auto
  let ?b' = "b2\<lparr>b_hooks := b_hooks b2 @ (if b_hasEnd b2 then [SessionEnd s] else [])\<rparr>"
  have run: "handleLegBye os now br evs leg b = (?b', True)"
    using session_of_unique [OF assms(1-3)] b2(1) by (simp add: handleLegBye_def Let_def)
  have d: "distinct (map fst (b_sessions b))" using assms(1) by (simp add: b2_inv_def)
  have "Suc (length (map_delete k xs)) = length xs" if "distinct (map fst xs)" "(k, s) \<in> set xs" for xs
    using that
  proof (induction xs)
    case (Cons x xs)
    have "k \<notin> fst ` set xs \<Longrightarrow> filter (\<lambda>p. fst p \<noteq> k) xs = xs" by (rule filter_True) force
    with Cons show ?case by (auto simp: map_delete_def rev_image_eqI)
  qed simp
  from this [OF d assms(2)] have len: "Suc (Sessions ?b') = Sessions b" by (simp add: Sessions_def b2)
  have inv: "b2_inv ?b'" using b2_inv_delete [OF assms(1), where k = k] b2(2) by (simp add: b2_inv_def)
  have "session_of leg ?b' = None"
  proof (rule ccontr)
    assume "session_of leg ?b' \<noteq> None"
    then obtain s' where "session_of leg ?b' = Some s'" by blast
    from session_of_Some [OF this] obtain k' where "(k', s') \<in> set (b_sessions b)" "k' \<noteq> k" "leg = b2_ALeg s' \<or> leg = b2_BLeg s'"
      using b2(2) by (auto simp: map_delete_def)
    with assms(1-3) show False unfolding b2_inv_def by fastforce
  qed
  then show ?thesis using run len inv b2 by auto
qed

definition demo_session :: B2BSession where
  "demo_session = \<lparr>b2_ID = ''c1'', b2_ALeg = Ingress 0, b2_BLeg = Egress 0,
     b2_ASession = \<lparr>se_ctx = 0, se_dlg = 0, se_Done = True, se_Final = None, se_Err = None\<rparr>\<rparr>"

definition demo_bridge :: B2BUA where
  "demo_bridge = (NewB2BUA demo_ua demo_calling 5)\<lparr>b_sessions := [(''c1'', demo_session)]\<rparr>"

theorem leg_bye_ends_session_witness:
  "\<exists>b'. handleLegBye demo_os 0 (\<lambda>_. demo_tag) (\<lambda>_. [None]) (Ingress 0) demo_bridge = (b', True) \<and>
     Sessions b' = 0 \<and> b_relay b' = [RelayStop]"
proof -
  have "b2_inv demo_bridge" "(''c1'', demo_session) \<in> set (b_sessions demo_bridge)" "Ingress 0 = b2_ALeg demo_session"
    "b_relay demo_bridge = []" "Sessions demo_bridge = 1"
    by (simp_all add: demo_bridge_def demo_session_def b2_inv_def NewB2BUA_def Sessions_def)
  then show ?thesis
    using leg_bye_ends_session [of demo_bridge "''c1''" demo_session "Ingress 0" "\<lambda>_. [None]" demo_os 0 "\<lambda>_. demo_tag"] by auto
qed

text \<open>The invariant of the sessions holds at the start, and a bridged call keeps it as long as its dialogs are
  new.\<close>

lemma b2_inv_init: "b2_inv (NewB2BUA ingress egress port)"
  by (simp add: b2_inv_def NewB2BUA_def)

lemma b2_inv_start:
  assumes "b2_inv b"
    "\<forall>(k, s) \<in> set (b_sessions b). k \<noteq> Request_CallID (pe_req w) \<longrightarrow>
       {b2_ALeg s, b2_BLeg s} \<inter> {Ingress (pe_aDlg w), Egress (se_dlg (pe_sess w))} = {}"
  shows "b2_inv (start_session w b)"
  using assms
  by (auto simp: b2_inv_def start_session_def Let_def map_put_def distinct_map_filter)

end
