(* ===== verification/UaLayer.thy ===== *)
theory UaLayer
  imports UaProps
begin

text \<open>
  The user agent is a layer on the transactions: each of its operations changes the transaction layer only
  by the layer's own steps.
\<close>

definition ua_run :: "UA \<Rightarrow> UA \<Rightarrow> bool" where
  "ua_run ua ua' \<longleftrightarrow> tx_step\<^sup>*\<^sup>* (ua_tm ua) (ua_tm ua')"

lemma ua_run_refl [simp]: "ua_run ua ua"
  by (simp add: ua_run_def)

lemma ua_run_trans: "ua_run u v \<Longrightarrow> ua_run v w \<Longrightarrow> ua_run u w"
  by (simp add: ua_run_def)

lemma ua_run_dialogs [simp]: "ua_run ua (ua'\<lparr>ua_dialogs := dm\<rparr>) = ua_run ua ua'" "ua_run (ua\<lparr>ua_dialogs := dm\<rparr>) ua' = ua_run ua ua'"
  by (simp_all add: ua_run_def)

lemma Respond_run: "m_heap m i = Some (STx t) \<Longrightarrow> ServerTx_Respond os now i t resp m = (m', r) \<Longrightarrow> tx_step\<^sup>*\<^sup>* m m'"
  by (rule r_into_rtranclp [of tx_step]) (rule tx_step.respond)

lemma respond_stx_run: "respond_stx os now stx resp ua = Inr ua' \<Longrightarrow> ua_run ua ua'"
  by (auto simp: respond_stx_def ua_run_def split: option.splits Tx.splits intro!: Respond_run [OF _ prod.collapse [symmetric]])

lemma respond_bind_run:
  "bind_result (respond_stx os now stx resp ua) (\<lambda>v. Inr (v, f v)) = Inr (ua', call) \<Longrightarrow> ua_run ua ua'"
  by (cases "respond_stx os now stx resp ua") (auto dest: respond_stx_run)

lemma findDialog_run: "findDialog req ua = (ua', i) \<Longrightarrow> ua_tm ua' = ua_tm ua"
  by (auto simp: findDialog_def split: option.splits)

lemma ua_run_tm: "ua_tm v = ua_tm u \<Longrightarrow> ua_run v w = ua_run u w"
  by (simp add: ua_run_def)

lemma handleBye_run:
  assumes "handleBye os now req src stx ua = Inr (ua', call)"
  shows "ua_run ua ua'"
proof -
  obtain ua0 o0 where f: "findDialog req ua = (ua0, o0)" by force
  have "ua_run ua0 ua'"
  proof (cases o0)
    case None
    then show ?thesis using assms f respond_bind_run by (simp add: handleBye_def)
  next
    case (Some i)
    show ?thesis
    proof (cases "dm_heap (ua_dialogs ua0) i")
      case None
      then show ?thesis using assms f Some by (simp add: handleBye_def)
    next
      case d: (Some dlg)
      let ?ua1 = "ua0\<lparr>ua_dialogs := DialogManager_Remove (Dialog_Terminate dlg) (set_dialog i (Dialog_Terminate dlg) (ua_dialogs ua0))\<rparr>"
      have "\<exists>st v g. v \<in> {ua0, ?ua1} \<and> bind_result (respond_stx os now stx (NewResponse st []) v) (\<lambda>w. Inr (w, g w)) = Inr (ua', call)"
        using assms f Some d by (force simp: handleBye_def Let_def split: if_splits)
      then obtain st v g where v: "v \<in> {ua0, ?ua1}"
          "bind_result (respond_stx os now stx (NewResponse st []) v) (\<lambda>w. Inr (w, g w)) = Inr (ua', call)"
        by blast
      from v(2) have "ua_run v ua'" by (rule respond_bind_run)
      then show ?thesis using v(1) by auto
    qed
  qed
  then show ?thesis using ua_run_tm [OF findDialog_run [OF f]] by simp
qed

lemma handleInvite_run: "handleInvite os now tag req stx ua = Inr (ua', call) \<Longrightarrow> ua_run ua ua'"
  by (auto simp: handleInvite_def Let_def respond_bind_run split: if_splits prod.splits)

lemma respond_if_run: "respond_if os now stx resp ua = Inr (ua', call) \<Longrightarrow> ua_run ua ua'"
  by (auto simp: respond_if_def respond_bind_run split: option.splits)

lemma UA_handleRequest_run:
  assumes "UA_handleRequest os now tag req src stx ua = Inr (ua', call)"
  shows "ua_run ua ua'"
proof -
  obtain ua0 o0 where f: "findDialog req ua = (ua0, o0)" by force
  have info: "ua_run ua ua'" if "respond_if os now stx not_implemented ua0 = Inr (ua', call)"
    using respond_if_run [OF that] ua_run_tm [OF findDialog_run [OF f]] by simp
  have same: "ua_run ua ua0" using findDialog_run [OF f] by (simp add: ua_run_def)
  show ?thesis
    using assms f info same handleBye_run handleInvite_run respond_if_run
    by (auto simp: UA_handleRequest_def Let_def split: if_splits option.splits)
qed

lemma UA_packet_run:
  assumes "UA_packet os now tag pkt ua = Inr (ua', call)"
  shows "ua_run ua ua'"
proof -
  obtain tm up where h: "handlePacket os now pkt (ua_tm ua) = Inr (tm, up)"
    using assms by (cases "handlePacket os now pkt (ua_tm ua)") (auto simp: UA_packet_def)
  let ?u = "ua\<lparr>ua_tm := tm\<rparr>"
  have 1: "ua_run ua ?u" using tx_step.packet [OF h] by (auto simp: ua_run_def)
  have "ua_run ?u ua'"
    using assms h UA_handleRequest_run by (auto simp: UA_packet_def Let_def split: option.splits Upcall.splits)
  with 1 show ?thesis by (rule ua_run_trans)
qed

lemma UA_request_run: "UA_request os now br ci req dst ua = (ua', r) \<Longrightarrow> ua_run ua ua'"
  by (auto simp: UA_request_def ua_run_def dest: Request_run split: prod.splits)

lemma UA_Respond_run: "UA_Respond os now dlg stx status ct body ua = (ua', r) \<Longrightarrow> ua_run ua ua'"
  by (auto simp: UA_Respond_def ua_run_def split: option.splits Tx.splits prod.splits dest: Respond_run)

lemma UA_Invite_run:
  assumes "UA_Invite os now tag callid br target from ct body port ua = (ua', r)"
  shows "ua_run ua ua'"
  using assms by (auto simp: UA_Invite_def Let_def dest: UA_request_run split: if_splits prod.splits sum.splits)

end
