(* ===== verification/B2buaRun.thy ===== *)
theory B2buaRun
  imports B2bua UaLayer
begin

text \<open>
  The back-to-back user agent of \<^verbatim>\<open>b2bua.go\<close> in operation: packets on its two user agents with the callbacks
  \<^verbatim>\<open>NewB2BUA\<close> installs, the goroutines of its bridged INVITEs (reading an event of the outgoing call, bridging
  its result) and the moves of the two transaction layers. The invariant that \<^verbatim>\<open>handleLegBye\<close> relies on (no two
  sessions share a leg) is shown to hold in every run, because every INVITE has a new dialog on both sides.
\<close>

section \<open>Steps\<close>

definition b2_ingress_call ::
    "OS \<Rightarrow> int \<Rightarrow> Entropy \<Rightarrow> Entropy \<Rightarrow> Entropy \<Rightarrow> (nat \<Rightarrow> Entropy) \<Rightarrow> (nat \<Rightarrow> TxEvent option list) \<Rightarrow> UaCall option \<Rightarrow> B2BUA \<Rightarrow> B2BUA result" where
  "b2_ingress_call os now tag callid br brs evs call b = (case call of
     Some (CallInvite req stx i) \<Rightarrow> handleIngressInvite os now tag callid br req stx i b
   | Some (CallBye req i stx) \<Rightarrow> Inr (fst (handleLegBye os now brs evs (Ingress i) b))
   | _ \<Rightarrow> Inr b)"

definition b2_egress_call ::
    "OS \<Rightarrow> int \<Rightarrow> (nat \<Rightarrow> Entropy) \<Rightarrow> (nat \<Rightarrow> TxEvent option list) \<Rightarrow> UaCall option \<Rightarrow> B2BUA \<Rightarrow> B2BUA" where
  "b2_egress_call os now brs evs call b = (case call of
     Some (CallBye req i stx) \<Rightarrow> fst (handleLegBye os now brs evs (Egress i) b)
   | _ \<Rightarrow> b)"

text \<open>The goroutine \<^verbatim>\<open>pump\<close> of the outgoing call \<open>k\<close> takes the next event of its transaction.\<close>

definition b2_pump :: "nat \<Rightarrow> ClientTx \<Rightarrow> TxEvent \<Rightarrow> TxEvent list \<Rightarrow> B2BUA \<Rightarrow> B2BUA" where
  "b2_pump k t e es b =
     (let w = b_pending b ! k;
          ua = (b_egress b)\<lparr>ua_tm := put_tx (se_ctx (pe_sess w)) (CTx (t\<lparr>c_events := es\<rparr>)) (ua_tm (b_egress b))\<rparr>
      in case pump e (pe_sess w) ua of
           (sess, ua') \<Rightarrow> b\<lparr>b_egress := ua', b_pending := (b_pending b)[k := w\<lparr>pe_sess := sess\<rparr>]\<rparr>)"

definition without_pending :: "nat \<Rightarrow> B2BUA \<Rightarrow> B2BUA" where
  "without_pending k b = b\<lparr>b_pending := take k (b_pending b) @ drop (Suc k) (b_pending b)\<rparr>"

inductive b2_step :: "B2BUA \<Rightarrow> B2BUA \<Rightarrow> bool" where
  ingress: "UA_packet os now tag pkt (b_ingress b) = Inr (ua, call) \<Longrightarrow>
    b2_ingress_call os now tag callid br brs evs call (b\<lparr>b_ingress := ua\<rparr>) = Inr b' \<Longrightarrow> b2_step b b'"
| egress: "UA_packet os now tag pkt (b_egress b) = Inr (ua, call) \<Longrightarrow>
    b2_step b (b2_egress_call os now brs evs call (b\<lparr>b_egress := ua\<rparr>))"
| event: "k < length (b_pending b) \<Longrightarrow> m_heap (ua_tm (b_egress b)) (se_ctx (pe_sess (b_pending b ! k))) = Some (CTx t) \<Longrightarrow>
    c_events t = e # es \<Longrightarrow> b2_step b (b2_pump k t e es b)"
| bridged: "k < length (b_pending b) \<Longrightarrow> WaitResponse expired (pe_sess (b_pending b ! k)) = Some r \<Longrightarrow>
    bridge_result os now (b_pending b ! k) r (without_pending k b) = Inr b' \<Longrightarrow> b2_step b b'"
| ingress_tx: "tx_step (ua_tm (b_ingress b)) m \<Longrightarrow> b2_step b (b\<lparr>b_ingress := (b_ingress b)\<lparr>ua_tm := m\<rparr>\<rparr>)"
| egress_tx: "tx_step (ua_tm (b_egress b)) m \<Longrightarrow> b2_step b (b\<lparr>b_egress := (b_egress b)\<lparr>ua_tm := m\<rparr>\<rparr>)"
| route: "b2_step b (SetRouteTarget f b)"
| hooks: "b2_step b (SetSessionHooks onStart onEnd b)"

definition b2_init :: "B2BUA \<Rightarrow> bool" where
  "b2_init b \<longleftrightarrow> (\<exists>ingress egress port. b = NewB2BUA ingress egress port)"

section \<open>New dialogs\<close>

abbreviation next_dlg :: "UA \<Rightarrow> nat" where
  "next_dlg ua \<equiv> dm_next (ua_dialogs ua)"

lemma dm_next_frame [simp]:
  "dm_next (set_dialog i d dm) = dm_next dm" "dm_next (DialogManager_Add i d dm) = dm_next dm"
  "dm_next (DialogManager_Remove d dm) = dm_next dm" "dm_next (fst (new_dialog d dm)) = Suc (dm_next dm)"
  "snd (new_dialog d dm) = dm_next dm"
  by (simp_all add: set_dialog_def DialogManager_Add_def DialogManager_Remove_def new_dialog_def)

lemma respond_stx_next: "respond_stx os now stx resp ua = Inr ua' \<Longrightarrow> next_dlg ua' = next_dlg ua"
  by (auto dest: respond_stx_frame)

lemma respond_bind_next: "bind_result (respond_stx os now stx resp ua) (\<lambda>w. Inr (w, g w)) = Inr (ua', call) \<Longrightarrow> next_dlg ua' = next_dlg ua"
  by (auto simp: bind_result_eq_Inr dest: respond_stx_next)

lemma respond_if_next: "respond_if os now stx resp ua = Inr (ua', call) \<Longrightarrow> next_dlg ua' = next_dlg ua \<and> call = None"
  by (auto simp: respond_if_def bind_result_eq_Inr dest: respond_stx_next split: option.splits)

lemma findDialog_next: "findDialog req ua = (ua', i) \<Longrightarrow> next_dlg ua' = next_dlg ua"
  by (auto simp: findDialog_def split: option.splits)

lemma handleBye_next:
  assumes "handleBye os now req src stx ua = Inr (ua', call)"
  shows "next_dlg ua' = next_dlg ua \<and> (\<forall>r s i. call \<noteq> Some (CallInvite r s i))"
proof -
  obtain ua0 o0 where f: "findDialog req ua = (ua0, o0)" by force
  have "next_dlg ua' = next_dlg ua0"
    using assms f by (auto simp: handleBye_def Let_def dest!: respond_bind_next split: option.splits if_splits)
  moreover have "\<forall>r s i. call \<noteq> Some (CallInvite r s i)"
    using assms f by (auto simp: handleBye_def Let_def bind_result_eq_Inr split: option.splits if_splits)
  ultimately show ?thesis using findDialog_next [OF f] by simp
qed

text \<open>A packet makes at most one dialog, the one of the INVITE it brings.\<close>

definition invite_new :: "UA \<Rightarrow> UA \<Rightarrow> UaCall option \<Rightarrow> bool" where
  "invite_new ua ua' call \<longleftrightarrow> next_dlg ua \<le> next_dlg ua' \<and>
     (\<forall>r s i. call = Some (CallInvite r s i) \<longrightarrow> i = next_dlg ua \<and> i < next_dlg ua')"

lemma UA_handleRequest_next:
  assumes "UA_handleRequest os now tag req src stx ua = Inr (ua', call)"
  shows "invite_new ua ua' call"
proof -
  obtain ua0 o0 where f: "findDialog req ua = (ua0, o0)" by force
  have same: "invite_new ua ua' call" if "next_dlg ua' = next_dlg ua" "\<forall>r s i. call \<noteq> Some (CallInvite r s i)"
    using that by (simp add: invite_new_def)
  have ni: "invite_new ua ua' call" if "respond_if os now stx resp v = Inr (ua', call)" "next_dlg v = next_dlg ua" for resp v
    using respond_if_next [OF that(1)] that(2) same by simp
  have bye: "invite_new ua ua' call" if "handleBye os now req src stx ua = Inr (ua', call)"
    using handleBye_next [OF that] same by blast
  have inv: "invite_new ua ua' call" if "handleInvite os now tag req stx ua = Inr (ua', call)"
  proof (cases "has_OnInvite (ua_cb ua)")
    case True
    then show ?thesis using that by (auto simp: handleInvite_def Let_def invite_new_def new_dialog_def)
  next
    case False
    then show ?thesis using that same by (auto simp: handleInvite_def bind_result_eq_Inr dest: respond_stx_next)
  qed
  have info: "invite_new ua ua' call"
    if "(case findDialog req ua of
           (ua1, Some i) \<Rightarrow> if has_OnInfo (ua_cb ua) then Inr (ua1, Some (CallInfo req stx i)) else respond_if os now stx not_implemented ua1
         | (ua1, None) \<Rightarrow> respond_if os now stx not_implemented ua1) = Inr (ua', call)"
    using that f ni [of not_implemented ua0] findDialog_next [OF f] same by (auto split: option.splits if_splits)
  show ?thesis
    using assms bye inv info ni [of _ ua] same unfolding UA_handleRequest_def Let_def
    by (auto split: if_splits)
qed

lemma UA_packet_next:
  assumes "UA_packet os now tag pkt ua = Inr (ua', call)"
  shows "invite_new ua ua' call"
proof -
  obtain tm up where h: "handlePacket os now pkt (ua_tm ua) = Inr (tm, up)"
    using assms by (cases "handlePacket os now pkt (ua_tm ua)") (auto simp: UA_packet_def)
  show ?thesis
  proof (cases "\<exists>req src stx. up = Some (OnRequest req src stx)")
    case True
    then obtain req src stx where "UA_handleRequest os now tag req src stx (ua\<lparr>ua_tm := tm\<rparr>) = Inr (ua', call)"
      using assms h by (auto simp: UA_packet_def Let_def)
    from UA_handleRequest_next [OF this] show ?thesis by (simp add: invite_new_def)
  next
    case False
    then have "ua' = ua\<lparr>ua_tm := tm\<rparr>" "call = None" using assms h by (auto simp: UA_packet_def Let_def split: option.splits Upcall.splits)
    then show ?thesis by (simp add: invite_new_def)
  qed
qed

lemma UA_Respond_next: "UA_Respond os now dlg stx st ct body ua = (ua', r) \<Longrightarrow> next_dlg ua' = next_dlg ua"
  by (auto simp: UA_Respond_def split: option.splits Tx.splits prod.splits)

lemma UA_Invite_next:
  assumes "UA_Invite os now tag callid br target from ct body port ua = (ua', r)"
  shows "next_dlg ua \<le> next_dlg ua' \<and> (\<forall>sess. r = Inr sess \<longrightarrow> se_dlg sess = next_dlg ua \<and> se_dlg sess < next_dlg ua')"
proof (cases "AUri from = None")
  case False
  let ?f = "from\<lparr>AParams := Some (Params_Set ''tag'' (NewTag tag) (address_params from))\<rparr>"
  let ?req = "invite_request (NewTag tag) callid target ?f ct body port ua"
  let ?dst = "\<lparr>Network = ''udp'', AHost = Host target, APort = Uri_EffectivePort (Some target)\<rparr>"
  obtain ua1 q where q: "UA_request os now br callid ?req ?dst ua = (ua1, q)" by force
  have d: "ua_dialogs ua1 = ua_dialogs ua" using UA_request_frame [of os now br callid ?req ?dst ua] q by simp
  show ?thesis using assms False q d by (cases q) (auto simp: UA_Invite_def Let_def new_dialog_def)
qed (use assms in \<open>auto simp: UA_Invite_def\<close>)

lemma Hangup_next: "next_dlg (fst (Hangup os now br evs i ua)) = next_dlg ua"
proof -
  have "next_dlg (fst (Hangup_loop n os now br evs l i ua)) = next_dlg ua" for n l
  proof (induction n arbitrary: l ua)
    case (Suc n)
    have sw: "sendAndWait os now b c req target es u = (u', x) \<Longrightarrow> next_dlg u' = next_dlg u" for b c req target es u u' x
      using sendAndWait_frame by simp
    show ?case
      using Suc by (auto split: option.split sum.split prod.split dest!: sw)
  qed simp
  then show ?thesis by (simp add: Hangup_def)
qed

lemma pump_next: "next_dlg (snd (pump e s ua)) = next_dlg ua \<and> se_dlg (fst (pump e s ua)) = se_dlg s \<and> se_ctx (fst (pump e s ua)) = se_ctx s"
  by (simp add: pump_def pump_response_def Let_def split: TxEvent.split option.split)

section \<open>The invariant\<close>

definition b2_ok :: "B2BUA \<Rightarrow> bool" where
  "b2_ok b \<longleftrightarrow> b2_inv b \<and>
     (\<forall>(k, s) \<in> set (b_sessions b). \<exists>i j. b2_ALeg s = Ingress i \<and> b2_BLeg s = Egress j \<and>
        i < next_dlg (b_ingress b) \<and> j < next_dlg (b_egress b) \<and>
        i \<notin> set (map pe_aDlg (b_pending b)) \<and> j \<notin> set (map (\<lambda>w. se_dlg (pe_sess w)) (b_pending b))) \<and>
     list_all (\<lambda>w. pe_aDlg w < next_dlg (b_ingress b) \<and> se_dlg (pe_sess w) < next_dlg (b_egress b)) (b_pending b) \<and>
     distinct (map pe_aDlg (b_pending b)) \<and> distinct (map (\<lambda>w. se_dlg (pe_sess w)) (b_pending b))"

definition dlg_pairs :: "B2BUA \<Rightarrow> (nat \<times> nat) list" where
  "dlg_pairs b = map (\<lambda>w. (pe_aDlg w, se_dlg (pe_sess w))) (b_pending b)"

lemma pending_dlgs:
  "map pe_aDlg (b_pending b) = map fst (dlg_pairs b)" "map (\<lambda>w. se_dlg (pe_sess w)) (b_pending b) = map snd (dlg_pairs b)"
  "list_all (\<lambda>w. pe_aDlg w < m \<and> se_dlg (pe_sess w) < n) (b_pending b) = list_all (\<lambda>(i, j). i < m \<and> j < n) (dlg_pairs b)"
  by (simp_all add: dlg_pairs_def o_def list_all_iff)

text \<open>Sessions may go away, dialogs may be added on either side.\<close>

lemma b2_ok_mono:
  assumes "b2_ok b" "b_sessions b' = filter P (b_sessions b)" "dlg_pairs b' = dlg_pairs b"
    "next_dlg (b_ingress b) \<le> next_dlg (b_ingress b')" "next_dlg (b_egress b) \<le> next_dlg (b_egress b')"
  shows "b2_ok b'"
proof -
  have inv: "b2_inv b'" using assms(1,2) by (auto simp: b2_ok_def b2_inv_def distinct_map_filter)
  have sub: "x \<in> set (b_sessions b)" if "x \<in> set (b_sessions b')" for x using that assms(2) by simp
  have "\<exists>i j. b2_ALeg s = Ingress i \<and> b2_BLeg s = Egress j \<and>
        i < next_dlg (b_ingress b') \<and> j < next_dlg (b_egress b') \<and> i \<notin> set (map fst (dlg_pairs b')) \<and> j \<notin> set (map snd (dlg_pairs b'))"
    if mem: "(k, s) \<in> set (b_sessions b')" for k s
  proof -
    obtain i j where "b2_ALeg s = Ingress i" "b2_BLeg s = Egress j" "i < next_dlg (b_ingress b)" "j < next_dlg (b_egress b)"
        "i \<notin> set (map fst (dlg_pairs b))" "j \<notin> set (map snd (dlg_pairs b))"
      using assms(1) sub [OF mem] unfolding b2_ok_def pending_dlgs by fast
    then show ?thesis using assms(3-5) by auto
  qed
  moreover have "list_all (\<lambda>(i, j). i < next_dlg (b_ingress b') \<and> j < next_dlg (b_egress b')) (dlg_pairs b')"
    using assms(1,3-5) unfolding b2_ok_def pending_dlgs by (auto simp: list_all_iff)
  ultimately show ?thesis using inv assms(1,3) unfolding b2_ok_def pending_dlgs by auto
qed

lemma filter_all: "filter (\<lambda>_. True) xs = xs"
  by simp

lemma b2_ok_same:
  assumes "b2_ok b" "b_sessions b' = b_sessions b" "dlg_pairs b' = dlg_pairs b"
    "next_dlg (b_ingress b) \<le> next_dlg (b_ingress b')" "next_dlg (b_egress b) \<le> next_dlg (b_egress b')"
  shows "b2_ok b'"
  by (rule b2_ok_mono [OF assms(1), of _ "\<lambda>_. True"]) (use assms in simp_all)

lemma ingress_Respond_frame:
  assumes "ingress_Respond os now a stx st ct body b = (b', r)"
  shows "b_sessions b' = b_sessions b" "b_pending b' = b_pending b" "b_egress b' = b_egress b" "next_dlg (b_ingress b') = next_dlg (b_ingress b)"
    "b_relay b' = b_relay b" "b_hasStart b' = b_hasStart b" "b_hooks b' = b_hooks b"
proof -
  obtain ua r1 where u: "UA_Respond os now (dm_heap (ua_dialogs (b_ingress b)) a) stx st ct body (b_ingress b) = (ua, r1)" by force
  then have "b' = b\<lparr>b_ingress := ua\<rparr>" using assms by (simp add: ingress_Respond_def)
  then show "b_sessions b' = b_sessions b" "b_pending b' = b_pending b" "b_egress b' = b_egress b" "next_dlg (b_ingress b') = next_dlg (b_ingress b)"
    "b_relay b' = b_relay b" "b_hasStart b' = b_hasStart b" "b_hooks b' = b_hooks b"
    using UA_Respond_next [OF u] by simp_all
qed

lemma ingress_Respond_ok:
  assumes "b2_ok b"
  shows "b2_ok (fst (ingress_Respond os now a stx st ct body b))"
  by (rule b2_ok_same [OF assms]) (simp_all add: ingress_Respond_frame [OF prod.collapse [symmetric]] dlg_pairs_def)

lemma hangup_leg_ok_frame:
  assumes "hangup_leg os now br evs leg b = (b', ok)"
  shows "b_sessions b' = b_sessions b \<and> b_pending b' = b_pending b \<and>
    next_dlg (b_ingress b') = next_dlg (b_ingress b) \<and> next_dlg (b_egress b') = next_dlg (b_egress b)"
proof -
  have H: "next_dlg (fst (Hangup os now br evs i ua)) = next_dlg ua" for i ua by (rule Hangup_next)
  show ?thesis
  proof (cases leg)
    case (Ingress i)
    then consider "b' = b" | "b' = b\<lparr>b_ingress := fst (Hangup os now br evs i (b_ingress b))\<rparr>"
      using assms by (auto simp: hangup_leg_def split: option.splits if_splits prod.splits)
    then show ?thesis using H by cases simp_all
  next
    case (Egress i)
    then consider "b' = b" | "b' = b\<lparr>b_egress := fst (Hangup os now br evs i (b_egress b))\<rparr>"
      using assms by (auto simp: hangup_leg_def split: option.splits if_splits prod.splits)
    then show ?thesis using H by cases simp_all
  qed
qed

lemma handleLegBye_ok:
  assumes "b2_ok b"
  shows "b2_ok (fst (handleLegBye os now br evs leg b))"
proof (cases "session_of leg b")
  case (Some s)
  let ?b1 = "b\<lparr>b_sessions := map_delete (b2_ID s) (b_sessions b), b_relay := b_relay b @ [RelayStop]\<rparr>"
  let ?peer = "if leg = b2_ALeg s then b2_BLeg s else b2_ALeg s"
  obtain b2 ok where h: "hangup_leg os now br evs ?peer ?b1 = (b2, ok)" by force
  note f = hangup_leg_ok_frame [OF h]
  have b2: "b2_ok b2"
    by (rule b2_ok_mono [OF assms, of _ "\<lambda>p. fst p \<noteq> b2_ID s"]) (use f in \<open>simp_all add: map_delete_def dlg_pairs_def\<close>)
  have "b2_ok (b2\<lparr>b_hooks := x\<rparr>)" for x by (rule b2_ok_same [OF b2]) (simp_all add: dlg_pairs_def)
  then show ?thesis using Some h b2 by (cases ok) (simp_all add: handleLegBye_def Let_def)
qed (use assms in \<open>simp add: handleLegBye_def\<close>)

text \<open>A new INVITE joins the pending ones with two new dialogs.\<close>

lemma b2_ok_pend:
  assumes "b2_ok b" "b_sessions b' = b_sessions b" "b_pending b' = b_pending b @ [w]"
    "next_dlg (b_ingress b) \<le> pe_aDlg w" "pe_aDlg w < next_dlg (b_ingress b')"
    "next_dlg (b_egress b) \<le> se_dlg (pe_sess w)" "se_dlg (pe_sess w) < next_dlg (b_egress b')"
  shows "b2_ok b'"
proof -
  have inv: "b2_inv b'" using assms(1,2) by (simp add: b2_ok_def b2_inv_def)
  have old: "list_all (\<lambda>w. pe_aDlg w < next_dlg (b_ingress b) \<and> se_dlg (pe_sess w) < next_dlg (b_egress b)) (b_pending b)"
    "distinct (map pe_aDlg (b_pending b))" "distinct (map (\<lambda>w. se_dlg (pe_sess w)) (b_pending b))"
    using assms(1) by (simp_all add: b2_ok_def)
  have "\<exists>i j. b2_ALeg s = Ingress i \<and> b2_BLeg s = Egress j \<and> i < next_dlg (b_ingress b') \<and> j < next_dlg (b_egress b') \<and>
      i \<notin> set (map pe_aDlg (b_pending b')) \<and> j \<notin> set (map (\<lambda>w. se_dlg (pe_sess w)) (b_pending b'))"
    if mem: "(k, s) \<in> set (b_sessions b')" for k s
  proof -
    obtain i j where "b2_ALeg s = Ingress i" "b2_BLeg s = Egress j" "i < next_dlg (b_ingress b)" "j < next_dlg (b_egress b)"
        "i \<notin> set (map pe_aDlg (b_pending b))" "j \<notin> set (map (\<lambda>w. se_dlg (pe_sess w)) (b_pending b))"
      using assms(1,2) mem unfolding b2_ok_def by fastforce
    then show ?thesis using assms(3-7) by auto
  qed
  moreover have "list_all (\<lambda>w. pe_aDlg w < next_dlg (b_ingress b') \<and> se_dlg (pe_sess w) < next_dlg (b_egress b')) (b_pending b')"
    using old(1) assms(3-7) by (auto simp: list_all_iff)
  moreover have "pe_aDlg w \<notin> set (map pe_aDlg (b_pending b))" "se_dlg (pe_sess w) \<notin> set (map (\<lambda>w. se_dlg (pe_sess w)) (b_pending b))"
    using old(1) assms(4,6) by (auto simp: list_all_iff)
  then have "distinct (map pe_aDlg (b_pending b'))" "distinct (map (\<lambda>w. se_dlg (pe_sess w)) (b_pending b'))"
    using old(2,3) assms(3) by simp_all
  ultimately show ?thesis using inv unfolding b2_ok_def by blast
qed

lemma handleIngressInvite_ok:
  assumes "b2_ok b" "i = next_dlg (b_ingress b)" "b1 = b\<lparr>b_ingress := ua\<rparr>" "i < next_dlg ua"
    "handleIngressInvite os now tag callid br req stx i b1 = Inr b'"
  shows "b2_ok b'"
proof -
  have b1: "b2_ok b1" using b2_ok_same [OF assms(1), of b1] assms(2-4) by (simp add: dlg_pairs_def)
  have resp: "b2_ok (fst (ingress_Respond os now i stx st [] None q))" if "b2_ok q" for st q using ingress_Respond_ok [OF that] .
  show ?thesis
  proof (cases "\<exists>route target f. b_RouteTarget b1 = Some route \<and> route req = Inr target \<and> Request_From req = Some f")
    case False
    then have "\<exists>st. b' = fst (ingress_Respond os now i stx st [] None b1)"
      using assms(5) by (auto simp: handleIngressInvite_def split: option.splits sum.splits)
    then show ?thesis using resp [OF b1] by blast
  next
    case True
    then obtain route target f where r: "b_RouteTarget b1 = Some route" "route req = Inr target" "Request_From req = Some f" by blast
    let ?from = "plain_address (Uri_Clone (AUri f)) None"
    obtain ua1 q where inv: "UA_Invite os now tag callid br target ?from (contentType req) (Some (RBody req)) (b_egressPort b1) (b_egress b1) = (ua1, q)"
      by force
    note n = UA_Invite_next [OF inv]
    show ?thesis
    proof (cases q)
      case (Inl e)
      have "b2_ok (b1\<lparr>b_egress := ua1\<rparr>)" by (rule b2_ok_same [OF b1]) (use n in \<open>simp_all add: dlg_pairs_def\<close>)
      moreover have "b' = fst (ingress_Respond os now i stx 503 [] None (b1\<lparr>b_egress := ua1\<rparr>))"
        using assms(5) r inv Inl by (auto simp: handleIngressInvite_def Let_def split: if_splits)
      ultimately show ?thesis using resp by blast
    next
      case (Inr sess)
      let ?w = "\<lparr>pe_req = req, pe_stx = stx, pe_aDlg = i, pe_ct = contentType req, pe_sess = sess\<rparr>"
      have "b' = b1\<lparr>b_egress := ua1, b_pending := b_pending b1 @ [?w]\<rparr>"
        using assms(5) r inv Inr by (simp add: handleIngressInvite_def Let_def)
      then show ?thesis using n Inr assms(2-4) by (intro b2_ok_pend [OF assms(1), of _ ?w]) simp_all
    qed
  qed
qed

lemma pending_split:
  assumes "k < length (b_pending b)"
  shows "b_pending b = take k (b_pending b) @ b_pending b ! k # drop (Suc k) (b_pending b)"
  using id_take_nth_drop [OF assms] .

text \<open>A bridged call leaves the pending ones; if it succeeds its two dialogs become the legs of a session.\<close>

lemma without_pending_ok:
  assumes "b2_ok b" "k < length (b_pending b)"
  defines "w \<equiv> b_pending b ! k"
  shows "b2_ok (without_pending k b)"
    and "pe_aDlg w \<notin> set (map pe_aDlg (b_pending (without_pending k b)))"
    and "se_dlg (pe_sess w) \<notin> set (map (\<lambda>w. se_dlg (pe_sess w)) (b_pending (without_pending k b)))"
    and "pe_aDlg w < next_dlg (b_ingress b)" and "se_dlg (pe_sess w) < next_dlg (b_egress b)"
    and "(l, s) \<in> set (b_sessions b) \<Longrightarrow> b2_ALeg s \<noteq> Ingress (pe_aDlg w) \<and> b2_BLeg s \<noteq> Egress (se_dlg (pe_sess w))"
proof -
  let ?x = "take k (b_pending b)" and ?y = "drop (Suc k) (b_pending b)"
  have sp: "b_pending b = ?x @ w # ?y" using pending_split [OF assms(2)] by (simp add: w_def)
  have wp: "b_pending (without_pending k b) = ?x @ ?y" by (simp add: without_pending_def)
  have fr: "b_sessions (without_pending k b) = b_sessions b" "b_ingress (without_pending k b) = b_ingress b"
    "b_egress (without_pending k b) = b_egress b" by (simp_all add: without_pending_def)
  have la: "list_all (\<lambda>w. pe_aDlg w < next_dlg (b_ingress b) \<and> se_dlg (pe_sess w) < next_dlg (b_egress b)) (?x @ w # ?y)"
    and da: "distinct (map pe_aDlg (?x @ w # ?y))" and db: "distinct (map (\<lambda>w. se_dlg (pe_sess w)) (?x @ w # ?y))"
    using assms(1) sp unfolding b2_ok_def by metis+
  have ss: "\<exists>i j. b2_ALeg s = Ingress i \<and> b2_BLeg s = Egress j \<and> i < next_dlg (b_ingress b) \<and> j < next_dlg (b_egress b) \<and>
      i \<notin> set (map pe_aDlg (?x @ w # ?y)) \<and> j \<notin> set (map (\<lambda>w. se_dlg (pe_sess w)) (?x @ w # ?y))"
    if "(k, s) \<in> set (b_sessions b)" for k s
    using assms(1) that sp unfolding b2_ok_def by fastforce
  have inv: "b2_inv (without_pending k b)" using assms(1) fr by (simp add: b2_ok_def b2_inv_def)
  show "pe_aDlg w \<notin> set (map pe_aDlg (b_pending (without_pending k b)))"
    "se_dlg (pe_sess w) \<notin> set (map (\<lambda>w. se_dlg (pe_sess w)) (b_pending (without_pending k b)))"
    "pe_aDlg w < next_dlg (b_ingress b)" "se_dlg (pe_sess w) < next_dlg (b_egress b)"
    using da db la unfolding wp by auto
  show "b2_ALeg s \<noteq> Ingress (pe_aDlg w) \<and> b2_BLeg s \<noteq> Egress (se_dlg (pe_sess w))" if mem: "(l, s) \<in> set (b_sessions b)"
    using ss [OF mem] by fastforce
  have "\<exists>i j. b2_ALeg s = Ingress i \<and> b2_BLeg s = Egress j \<and> i < next_dlg (b_ingress b) \<and> j < next_dlg (b_egress b) \<and>
      i \<notin> set (map pe_aDlg (?x @ ?y)) \<and> j \<notin> set (map (\<lambda>w. se_dlg (pe_sess w)) (?x @ ?y))"
    if mem: "(l, s) \<in> set (b_sessions b)" for l s
  proof -
    obtain i j where "b2_ALeg s = Ingress i" "b2_BLeg s = Egress j" "i < next_dlg (b_ingress b)" "j < next_dlg (b_egress b)"
        "i \<notin> set (map pe_aDlg (?x @ w # ?y))" "j \<notin> set (map (\<lambda>w. se_dlg (pe_sess w)) (?x @ w # ?y))" using ss [OF mem] by blast
    then show ?thesis by auto
  qed
  then show "b2_ok (without_pending k b)"
    unfolding b2_ok_def fr wp using inv la da db by auto
qed

lemma start_session_ok:
  assumes "b2_ok b" "pe_aDlg w \<notin> set (map pe_aDlg (b_pending b))" "se_dlg (pe_sess w) \<notin> set (map (\<lambda>w. se_dlg (pe_sess w)) (b_pending b))"
    "pe_aDlg w < next_dlg (b_ingress b)" "se_dlg (pe_sess w) < next_dlg (b_egress b)"
    "\<And>k s. (k, s) \<in> set (b_sessions b) \<Longrightarrow> b2_ALeg s \<noteq> Ingress (pe_aDlg w) \<and> b2_BLeg s \<noteq> Egress (se_dlg (pe_sess w))"
  shows "b2_ok (start_session w b)"
proof -
  let ?s = "\<lparr>b2_ID = Request_CallID (pe_req w), b2_ALeg = Ingress (pe_aDlg w), b2_BLeg = Egress (se_dlg (pe_sess w)), b2_ASession = pe_sess w\<rparr>"
  have fr: "b_sessions (start_session w b) = map_put (b2_ID ?s) ?s (b_sessions b)" "b_pending (start_session w b) = b_pending b"
    "b_ingress (start_session w b) = b_ingress b" "b_egress (start_session w b) = b_egress b"
    by (simp_all add: start_session_def Let_def)
  have legs: "\<exists>i j. b2_ALeg s = Ingress i \<and> b2_BLeg s = Egress j" if "(k, s) \<in> set (b_sessions b)" for k s
    using assms(1) that unfolding b2_ok_def by fastforce
  have "{b2_ALeg s, b2_BLeg s} \<inter> {Ingress (pe_aDlg w), Egress (se_dlg (pe_sess w))} = {}" if "(k, s) \<in> set (b_sessions b)" for k s
    using assms(6) [OF that] legs [OF that] by auto
  then have inv: "b2_inv (start_session w b)" using b2_inv_start [of b w] assms(1) by (auto simp: b2_ok_def)
  have mem: "(k, s) \<in> set (b_sessions (start_session w b)) \<Longrightarrow> s = ?s \<or> (k, s) \<in> set (b_sessions b)" for k s
    unfolding fr by (auto simp: map_put_def)
  have "\<exists>i j. b2_ALeg s = Ingress i \<and> b2_BLeg s = Egress j \<and> i < next_dlg (b_ingress b) \<and> j < next_dlg (b_egress b) \<and>
      i \<notin> set (map pe_aDlg (b_pending b)) \<and> j \<notin> set (map (\<lambda>w. se_dlg (pe_sess w)) (b_pending b))"
    if "(k, s) \<in> set (b_sessions (start_session w b))" for k s
    using mem [OF that]
  proof
    assume "s = ?s" then show ?thesis using assms(2-5) by simp
  next
    assume "(k, s) \<in> set (b_sessions b)" then show ?thesis using assms(1) unfolding b2_ok_def by fast
  qed
  then show ?thesis using inv assms(1) unfolding b2_ok_def fr(2-4) by auto
qed

lemma session_Ack_next: "next_dlg (fst (session_Ack os now s ua)) = next_dlg ua"
  by (simp add: session_Ack_def split: option.split Tx.split prod.split)

lemma bridge_result_cases:
  assumes "bridge_result os now w r b = Inr b'"
  obtains (refused) st where "b' = fst (ingress_Respond os now (pe_aDlg w) (pe_stx w) st [] None b)"
  | (unsent) ua body where "next_dlg ua = next_dlg (b_egress b)"
      "b' = fst (ingress_Respond os now (pe_aDlg w) (pe_stx w) 200 (pe_ct w) body (b\<lparr>b_egress := ua\<rparr>))"
  | (started) ua body where "next_dlg ua = next_dlg (b_egress b)"
      "b' = start_session w (fst (ingress_Respond os now (pe_aDlg w) (pe_stx w) 200 (pe_ct w) body (b\<lparr>b_egress := ua\<rparr>)))"
proof -
  obtain resp0 err where r: "r = (resp0, err)" by force
  show thesis
  proof (cases err)
    case (Some e)
    then show thesis using assms r refused by (cases resp0) (auto simp: bridge_result_def)
  next
    case None
    then obtain resp where resp: "resp0 = Some resp" using assms r by (cases resp0) (auto simp: bridge_result_def)
    show thesis
    proof (cases "300 \<le> StatusCode resp")
      case True
      then show thesis using assms r None resp refused by (auto simp: bridge_result_def)
    next
      case False
      let ?ack = "if StatusCode resp = 200 then session_Ack os now (pe_sess w) (b_egress b) else (b_egress b, Inr ())"
      have n: "next_dlg (fst ?ack) = next_dlg (b_egress b)" using session_Ack_next by simp
      obtain b1 q where R: "ingress_Respond os now (pe_aDlg w) (pe_stx w) 200 (pe_ct w) (answer_body resp) (b\<lparr>b_egress := fst ?ack\<rparr>) = (b1, q)"
        by force
      have "b' = (case q of Inl _ \<Rightarrow> b1 | Inr _ \<Rightarrow> start_session w b1)"
        using assms r None resp False R unfolding bridge_result_def Let_def by (auto split: if_splits sum.splits)
      then show thesis using n R unsent [of "fst ?ack" "answer_body resp"] started [of "fst ?ack" "answer_body resp"]
        by (cases q) simp_all
    qed
  qed
qed

lemma bridged_ok:
  assumes "b2_ok b" "k < length (b_pending b)" "bridge_result os now (b_pending b ! k) r (without_pending k b) = Inr b'"
  shows "b2_ok b'"
proof -
  let ?b = "without_pending k b" and ?w = "b_pending b ! k"
  note wp = without_pending_ok [OF assms(1,2)]
  have fr: "b_sessions ?b = b_sessions b" "b_ingress ?b = b_ingress b" "b_egress ?b = b_egress b" by (simp_all add: without_pending_def)
  have eg: "b2_ok (?b\<lparr>b_egress := ua\<rparr>)" if "next_dlg ua = next_dlg (b_egress ?b)" for ua
    by (rule b2_ok_same [OF wp(1)]) (use that in \<open>simp_all add: dlg_pairs_def\<close>)
  from assms(3) show ?thesis
  proof (cases rule: bridge_result_cases)
    case refused then show ?thesis using ingress_Respond_ok [OF wp(1)] by simp
  next
    case (unsent ua body) then show ?thesis using ingress_Respond_ok [OF eg] by simp
  next
    case (started ua body)
    let ?q = "fst (ingress_Respond os now (pe_aDlg ?w) (pe_stx ?w) 200 (pe_ct ?w) body (?b\<lparr>b_egress := ua\<rparr>))"
    note f = ingress_Respond_frame [OF prod.collapse [symmetric], of os now "pe_aDlg ?w" "pe_stx ?w" 200 "pe_ct ?w" body "?b\<lparr>b_egress := ua\<rparr>"]
    have "b2_ok (start_session ?w ?q)"
    proof (rule start_session_ok [OF ingress_Respond_ok [OF eg [OF started(1)]]])
      show "pe_aDlg ?w \<notin> set (map pe_aDlg (b_pending ?q))" "se_dlg (pe_sess ?w) \<notin> set (map (\<lambda>w. se_dlg (pe_sess w)) (b_pending ?q))"
        using wp(2,3) f(2) by simp_all
      show "pe_aDlg ?w < next_dlg (b_ingress ?q)" "se_dlg (pe_sess ?w) < next_dlg (b_egress ?q)"
        using wp(4,5) f(3,4) started(1) fr by simp_all
      show "b2_ALeg s \<noteq> Ingress (pe_aDlg ?w) \<and> b2_BLeg s \<noteq> Egress (se_dlg (pe_sess ?w))" if "(l, s) \<in> set (b_sessions ?q)" for l s
        using wp(6) [of l s] that f(1) fr by simp
    qed
    then show ?thesis using started(2) by simp
  qed
qed

lemma b2_pump_ok:
  assumes "b2_ok b" "k < length (b_pending b)"
  shows "b2_ok (b2_pump k t e es b)"
proof -
  let ?w = "b_pending b ! k"
  let ?ua = "(b_egress b)\<lparr>ua_tm := put_tx (se_ctx (pe_sess ?w)) (CTx (t\<lparr>c_events := es\<rparr>)) (ua_tm (b_egress b))\<rparr>"
  obtain sess ua' where p: "pump e (pe_sess ?w) ?ua = (sess, ua')" by force
  have n: "next_dlg ua' = next_dlg (b_egress b)" "se_dlg sess = se_dlg (pe_sess ?w)" using pump_next [of e "pe_sess ?w" ?ua] p by simp_all
  have eq: "b2_pump k t e es b = b\<lparr>b_egress := ua', b_pending := (b_pending b)[k := ?w\<lparr>pe_sess := sess\<rparr>]\<rparr>"
    using p by (simp add: b2_pump_def Let_def)
  have "dlg_pairs (b2_pump k t e es b) = (dlg_pairs b)[k := (pe_aDlg ?w, se_dlg sess)]" by (simp add: eq dlg_pairs_def map_update)
  also have "\<dots> = dlg_pairs b" using n assms(2) by (simp add: dlg_pairs_def list_update_same_conv)
  finally show ?thesis by (intro b2_ok_same [OF assms(1)]) (simp_all add: eq n)
qed

interpretation b2_system: step_system b2_init b2_step b2_ok
proof
  show "b2_ok b" if "b2_init b" for b using that by (auto simp: b2_init_def b2_ok_def b2_inv_def NewB2BUA_def)
  show "b2_ok b'" if "b2_ok b" "b2_step b b'" for b b'
    using that(2,1)
  proof (induction rule: b2_step.induct)
    case (ingress os now tag pkt b ua call callid br brs evs b')
    note n = UA_packet_next [OF ingress(1)]
    have b1: "b2_ok (b\<lparr>b_ingress := ua\<rparr>)"
      by (rule b2_ok_same [OF ingress.prems]) (use n in \<open>simp_all add: dlg_pairs_def invite_new_def\<close>)
    show ?case
    proof (cases "\<exists>req stx i. call = Some (CallInvite req stx i)")
      case True
      then obtain req stx i where c: "call = Some (CallInvite req stx i)" by blast
      then show ?thesis using handleIngressInvite_ok [OF ingress.prems _ refl] ingress(2) n by (auto simp: b2_ingress_call_def invite_new_def)
    next
      case False
      then have "b' = b\<lparr>b_ingress := ua\<rparr> \<or> (\<exists>i. b' = fst (handleLegBye os now brs evs (Ingress i) (b\<lparr>b_ingress := ua\<rparr>)))"
        using ingress(2) by (auto simp: b2_ingress_call_def split: option.splits UaCall.splits)
      then show ?thesis using b1 handleLegBye_ok by blast
    qed
  next
    case (egress os now tag pkt b ua call brs evs)
    note n = UA_packet_next [OF egress(1)]
    have b1: "b2_ok (b\<lparr>b_egress := ua\<rparr>)"
      by (rule b2_ok_same [OF egress.prems]) (use n in \<open>simp_all add: dlg_pairs_def invite_new_def\<close>)
    then show ?case using handleLegBye_ok [OF b1] by (simp add: b2_egress_call_def split: option.split UaCall.split)
  next
    case (event k b t e es) then show ?case by (intro b2_pump_ok)
  next
    case (bridged k b expired r os now b') then show ?case using bridged_ok by blast
  next
    case (ingress_tx b m) then show ?case by (intro b2_ok_same [OF ingress_tx.prems]) (simp_all add: dlg_pairs_def)
  next
    case (egress_tx b m) then show ?case by (intro b2_ok_same [OF egress_tx.prems]) (simp_all add: dlg_pairs_def)
  next
    case (route b f) then show ?case by (intro b2_ok_same [OF route.prems]) (simp_all add: dlg_pairs_def SetRouteTarget_def)
  next
    case (hooks b x y) then show ?case by (intro b2_ok_same [OF hooks.prems]) (simp_all add: dlg_pairs_def SetSessionHooks_def)
  qed
qed

section \<open>A bridged call\<close>

text \<open>A run that bridges a call: an INVITE arrives, the outgoing call is accepted, the session starts.\<close>

definition demo_target :: "Request \<Rightarrow> Uri result" where
  "demo_target req = Inr sample_uri"

definition demo_b2 :: B2BUA where
  "demo_b2 = NewB2BUA demo_idle demo_idle 5"

lemma drop_send:
  assumes "m_tp m = m_tp (ua_tm demo_idle)" "Network dst = ''udp''"
  shows "TxManager_send os now msg dst m = (m, Inr ())"
proof -
  have "ToLower ''udp'' = ''udp''" by code_simp
  moreover have "m\<lparr>m_tp := m_tp (ua_tm demo_idle)\<rparr> = m" using assms(1) by simp
  ultimately show ?thesis
    using assms by (simp add: TxManager_send_def send_target_def Transport_Send_def Let_def demo_idle_def SetCallbacks_def NewUA_def
        NewTxManager_def new_transport_def)
qed

text \<open>A 2xx that mirrors the headers of a client transaction's request reaches its event channel.\<close>

definition mirror :: "Request \<Rightarrow> Response" where
  "mirror req = \<lparr>StatusCode = 202, Reason = [], SProto = ''SIP/2.0'', SHeaders = RHeaders req, SBody = []\<rparr>"

lemma mirror_delivered:
  assumes "m_heap m i = Some (CTx t)" "m_txs m (clientTxKey (c_req t)) = Some i" "Request_Via (c_req t) \<noteq> None"
    "RMethod (c_req t) = INVITE" "c_events t = []" "c_state t = TxStateCalling"
  shows "\<exists>m' t'. tx_step m m' \<and> m_heap m' i = Some (CTx t') \<and> c_events t' = [EvResponse (mirror (c_req t))] \<and>
    (m_heap m' = (m_heap m)(i \<mapsto> CTx t'))"
proof -
  let ?resp = "mirror (c_req t)" and ?m = "inc_metric ''packets_received'' m"
  have key: "clientTxKeyOf ?resp = clientTxKey (c_req t)"
    using assms(3) by (auto simp: clientTxKeyOf_def clientTxKey_def mirror_def Response_Via_def Request_Via_def Response_CSeq_def Request_CSeq_def viaBranch_def)
  obtain ack where ack: "ack_request (c_req t) ?resp = Inr ack" using assms(3) by (auto simp: ack_request_def Let_def)
  let ?t1 = "t\<lparr>c_state := TxStateCompleted\<rparr>"
  let ?t' = "ClientTx_push (EvResponse ?resp) ?t1"
  let ?m1 = "schedule_finish i (put_tx i (CTx ?t') ?m)"
  have dl: "ClientTx_deliver i (EvResponse ?resp) ?t1 ?m = (?t', put_tx i (CTx ?t') ?m)"
    using assms(5) by (simp add: ClientTx_deliver_def event_capacity_def)
  have rc: "ClientTx_receive os now i t ?resp ?m = Inr (fst (TxManager_send os now (Req ack) (c_dst t) ?m1))" for os now
    using assms(4,6) dl ack by (simp add: ClientTx_receive_def mirror_def Let_def ClientTx_sendACK_def)
  have lk: "lookup_tx (clientTxKeyOf ?resp) ?m = Some (i, CTx t)" using assms(1,2) key by (simp add: lookup_tx_def inc_metric_def)
  have ne: "clientTxKeyOf ?resp \<noteq> []" using key by (simp add: clientTxKey_def)
  have "handlePacket demo_os 0 \<lparr>Msg = Resp ?resp, Src = demo_addr\<rparr> m =
      Inr (fst (TxManager_send demo_os 0 (Req ack) (c_dst t) ?m1), Some (OnResponse ?resp demo_addr i))"
    using lk ne rc by (simp add: handlePacket_def handleResponse_def Let_def)
  then have "tx_step m (fst (TxManager_send demo_os 0 (Req ack) (c_dst t) ?m1))" by (rule tx_step.packet)
  moreover have "m_heap (fst (TxManager_send demo_os 0 (Req ack) (c_dst t) ?m1)) = (m_heap m)(i \<mapsto> CTx ?t')"
    by (simp add: inc_metric_def)
  moreover have "c_events ?t' = [EvResponse ?resp]" using assms(5) by (simp add: ClientTx_push_def event_capacity_def)
  ultimately show ?thesis by (metis fun_upd_same)
qed

lemma demo_b2_invite:
  "\<exists>ua. UA_packet demo_os 0 demo_tag \<lparr>Msg = Req (demo_request INVITE), Src = demo_addr\<rparr> (b_ingress demo_b2) =
     Inr (ua, Some (CallInvite (demo_request INVITE) (Some 0) 0)) \<and>
     m_heap (ua_tm ua) 0 = Some (STx demo_stx) \<and> m_tp (ua_tm ua) = m_tp (ua_tm demo_idle)"
proof -
  have tm: "ua_tm (b_ingress demo_b2) = ua_tm demo_idle" "m_next (ua_tm demo_idle) = 0" "m_txs (ua_tm demo_idle) demo_key = None"
    by (simp_all add: demo_b2_def NewB2BUA_def mergeCallbacks_def Let_def SetCallbacks_def demo_idle_def NewUA_def NewTxManager_def)
  have cb: "has_OnInvite (ua_cb (b_ingress demo_b2))" "dm_next (ua_dialogs (b_ingress demo_b2)) = 0"
    by (simp_all add: demo_b2_def NewB2BUA_def mergeCallbacks_def Let_def SetCallbacks_def demo_idle_def NewUA_def NewDialogManager_def)
  note h = demo_invite [OF tm(3), of demo_os 0]
  have ne: "INVITE \<noteq> ACK" "INVITE \<noteq> CANCEL" "INVITE \<noteq> BYE" by (simp_all add: INVITE_def ACK_def CANCEL_def BYE_def)
  then show ?thesis
    by (simp add: UA_packet_def tm h Let_def UA_handleRequest_def demo_method handleInvite_def cb new_dialog_def add_tx_def inc_metric_def)
qed

definition demo_from_addr :: Address where
  "demo_from_addr = plain_address (Some sample_uri) None"

definition demo_out :: Request where
  "demo_out = complete_request demo_tag demo_tag (ua_tm demo_idle) (invite_request (NewTag demo_tag) demo_tag sample_uri
     (demo_from_addr\<lparr>AParams := Some (Params_Set ''tag'' (NewTag demo_tag) (address_params demo_from_addr))\<rparr>) [] (Some []) 5 demo_idle)"

lemma complete_request_adds_Via:
  assumes "Headers_Get (RHeaders req) ''Via'' = None"
  shows "Request_Via (complete_request a b m req) \<noteq> None"
  using assms
  by (simp add: complete_request_def Let_def Request_Via_def via_of_def Get_Set_miss Get_Add named_def same_name_def NewHeader_def
      sample_names canonical_dialog_names)

lemma invite_request_no_Via: "Headers_Get (RHeaders (invite_request tag ci target from ct body port ua)) ''Via'' = None"
proof -
  have "CanonicalName ''Contact'' = ''Contact''" "CanonicalName ''User-Agent'' = ''User-Agent''" by code_simp+
  moreover have "Headers_Get [] ''Via'' = None" by (simp add: Headers_Get_def)
  ultimately show ?thesis
    by (simp add: invite_request_def Let_def Request_SetBody_def body_headers_Get Get_Set_miss same_name_def NewHeader_def fromHeader_def
        toHeader_def sample_names canonical_dialog_names) (simp add: Headers_Get_def named_def sample_names)
qed

lemma demo_out_via: "Request_Via demo_out \<noteq> None"
  unfolding demo_out_def by (intro complete_request_adds_Via invite_request_no_Via)

lemma demo_b2_out:
  "\<exists>ua t. UA_Invite demo_os 0 demo_tag demo_tag demo_tag sample_uri demo_from_addr [] (Some []) 5 (b_egress demo_b2) =
     (ua, Inr \<lparr>se_ctx = 0, se_dlg = 0, se_Done = False, se_Final = None, se_Err = None\<rparr>) \<and>
     m_heap (ua_tm ua) 0 = Some (CTx t) \<and> m_txs (ua_tm ua) (clientTxKey (c_req t)) = Some 0 \<and> c_req t = demo_out \<and>
     c_events t = [] \<and> c_state t = TxStateCalling \<and> dm_heap (ua_dialogs ua) 0 \<noteq> None"
proof -
  let ?e = "b_egress demo_b2" and ?key = "clientTxKey demo_out"
  let ?dst = "\<lparr>Network = ''udp'', AHost = Host sample_uri, APort = Uri_EffectivePort (Some sample_uri)\<rparr>"
  have tm: "ua_tm ?e = ua_tm demo_idle" "ua_Host ?e = ua_Host demo_idle" "ua_UserAgent ?e = ua_UserAgent demo_idle"
    "m_txs (ua_tm demo_idle) = Map.empty" "m_next (ua_tm demo_idle) = 0" "dm_next (ua_dialogs ?e) = 0"
    by (simp_all add: demo_b2_def NewB2BUA_def mergeCallbacks_def Let_def SetCallbacks_def demo_idle_def NewUA_def NewTxManager_def NewDialogManager_def)
  have rq: "complete_request demo_tag demo_tag (ua_tm ?e) (invite_request (NewTag demo_tag) demo_tag sample_uri
     (demo_from_addr\<lparr>AParams := Some (Params_Set ''tag'' (NewTag demo_tag) (address_params demo_from_addr))\<rparr>) [] (Some []) 5 ?e) = demo_out"
    by (simp add: demo_out_def tm invite_request_def)
  have "RMethod demo_out = INVITE" by (simp add: demo_out_def complete_request_def invite_request_def Let_def Request_SetBody_def NewRequest_def)
  moreover have "TxManager_send demo_os 0 (Req demo_out) ?dst (add_tx ?key (CTx (new_client_tx demo_out ?key ?dst)) (ua_tm demo_idle)) =
      (add_tx ?key (CTx (new_client_tx demo_out ?key ?dst)) (ua_tm demo_idle), Inr ())"
    by (rule drop_send) simp_all
  ultimately show ?thesis
    using rq tm
    by (simp add: UA_Invite_def Let_def demo_from_addr_def plain_address_def UA_request_def TxManager_Request_def Request_begin_def
        Request_end_def add_tx_def new_client_tx_def put_tx_def ClientTx_startRetransmit_def new_dialog_def DialogManager_Add_def)
qed

lemma b2_steps: "b2_step\<^sup>*\<^sup>* b b1 \<Longrightarrow> b2_step b1 b2 \<Longrightarrow> b2_step\<^sup>*\<^sup>* b b2"
  by (rule rtranclp.rtrancl_into_rtrancl)

definition demo_wait :: "ClientInviteSession \<Rightarrow> Pending" where
  "demo_wait sess = \<lparr>pe_req = demo_request INVITE, pe_stx = Some 0, pe_aDlg = 0, pe_ct = [], pe_sess = sess\<rparr>"

definition ringing :: ClientInviteSession where
  "ringing = \<lparr>se_ctx = 0, se_dlg = 0, se_Done = False, se_Final = None, se_Err = None\<rparr>"

definition accepted :: ClientInviteSession where
  "accepted = ringing\<lparr>se_Final := Some (mirror demo_out), se_Done := True\<rparr>"

definition answerable :: "B2BUA \<Rightarrow> bool" where
  "answerable b \<longleftrightarrow> m_heap (ua_tm (b_ingress b)) 0 = Some (STx demo_stx) \<and> m_tp (ua_tm (b_ingress b)) = m_tp (ua_tm demo_idle)"

lemma demo_caller:
  "Request_From (demo_request INVITE) = Some \<lparr>DisplayName = [], Quoted = False, AUri = Some sample_uri, AParams = None\<rparr>"
  "contentType (demo_request INVITE) = []" "RBody (demo_request INVITE) = []" "Request_CallID (demo_request INVITE) = ''c1''"
proof -
  have "Headers_Get (RHeaders (demo_request INVITE)) ''Content-Type'' = None"
    by (simp add: demo_request_def Headers_Get_def named_def sample_headers_def sample_addr_def sample_names canonical_dialog_names)
  then show "contentType (demo_request INVITE) = []" by (simp add: contentType_def headerValue_def)
  show "Request_From (demo_request INVITE) = Some \<lparr>DisplayName = [], Quoted = False, AUri = Some sample_uri, AParams = None\<rparr>"
    by (simp add: Request_From_def demo_request_def sample_Get_plain sample_addr_def NameAddrList_First_def)
  show "RBody (demo_request INVITE) = []" "Request_CallID (demo_request INVITE) = ''c1''"
    by (simp_all add: Request_CallID_def demo_request_def sample_Get_plain headerValue_def)
qed

lemma demo_pending:
  "\<exists>b t. b2_step\<^sup>*\<^sup>* demo_b2 b \<and> b_pending b = [demo_wait ringing] \<and> answerable b \<and> dm_heap (ua_dialogs (b_egress b)) 0 \<noteq> None \<and>
     m_heap (ua_tm (b_egress b)) 0 = Some (CTx t) \<and> m_txs (ua_tm (b_egress b)) (clientTxKey (c_req t)) = Some 0 \<and> c_req t = demo_out \<and>
     c_events t = [] \<and> c_state t = TxStateCalling"
proof -
  let ?b1 = "SetRouteTarget (Some demo_target) demo_b2"
  obtain ua where ua: "UA_packet demo_os 0 demo_tag \<lparr>Msg = Req (demo_request INVITE), Src = demo_addr\<rparr> (b_ingress demo_b2) =
      Inr (ua, Some (CallInvite (demo_request INVITE) (Some 0) 0))" "m_heap (ua_tm ua) 0 = Some (STx demo_stx)" "m_tp (ua_tm ua) = m_tp (ua_tm demo_idle)"
    using demo_b2_invite by blast
  obtain eg t where eg: "UA_Invite demo_os 0 demo_tag demo_tag demo_tag sample_uri demo_from_addr [] (Some []) 5 (b_egress demo_b2) = (eg, Inr ringing)"
      "m_heap (ua_tm eg) 0 = Some (CTx t)" "m_txs (ua_tm eg) (clientTxKey (c_req t)) = Some 0" "c_req t = demo_out"
      "c_events t = []" "c_state t = TxStateCalling" "dm_heap (ua_dialogs eg) 0 \<noteq> None"
    using demo_b2_out unfolding ringing_def by blast
  let ?b2 = "?b1\<lparr>b_ingress := ua, b_egress := eg, b_pending := [demo_wait ringing]\<rparr>"
  have f: "b_egressPort demo_b2 = 5" "b_pending demo_b2 = []" by (simp_all add: demo_b2_def NewB2BUA_def)
  have clone: "Uri_Clone (Some sample_uri) = Some sample_uri" by code_simp
  have "b2_step ?b1 ?b2"
  proof (rule b2_step.ingress)
    show "UA_packet demo_os 0 demo_tag \<lparr>Msg = Req (demo_request INVITE), Src = demo_addr\<rparr> (b_ingress ?b1) =
      Inr (ua, Some (CallInvite (demo_request INVITE) (Some 0) 0))" using ua(1) by (simp add: SetRouteTarget_def)
    show "b2_ingress_call demo_os 0 demo_tag demo_tag demo_tag (\<lambda>_. demo_tag) (\<lambda>_. []) (Some (CallInvite (demo_request INVITE) (Some 0) 0))
        (?b1\<lparr>b_ingress := ua\<rparr>) = Inr ?b2"
      using eg(1) f by (simp add: b2_ingress_call_def handleIngressInvite_def SetRouteTarget_def demo_target_def demo_caller clone
          demo_from_addr_def [symmetric] Let_def demo_wait_def)
  qed
  then have "b2_step\<^sup>*\<^sup>* demo_b2 ?b2" using b2_step.route [of demo_b2 "Some demo_target"] by (meson converse_rtranclp_into_rtranclp r_into_rtranclp)
  then show ?thesis using ua(2,3) eg by (intro exI [of _ ?b2] exI [of _ t]) (simp add: answerable_def)
qed

lemma demo_accepted: "\<exists>b. b2_step\<^sup>*\<^sup>* demo_b2 b \<and> b_pending b = [demo_wait accepted] \<and> answerable b"
proof -
  obtain b t where b: "b2_step\<^sup>*\<^sup>* demo_b2 b" "b_pending b = [demo_wait ringing]" "answerable b" "dm_heap (ua_dialogs (b_egress b)) 0 \<noteq> None"
      "m_heap (ua_tm (b_egress b)) 0 = Some (CTx t)" "m_txs (ua_tm (b_egress b)) (clientTxKey (c_req t)) = Some 0" "c_req t = demo_out"
      "c_events t = []" "c_state t = TxStateCalling"
    using demo_pending by blast
  have "RMethod demo_out = INVITE" by (simp add: demo_out_def complete_request_def invite_request_def Let_def Request_SetBody_def NewRequest_def)
  then obtain m t' where m: "tx_step (ua_tm (b_egress b)) m" "m_heap m 0 = Some (CTx t')" "c_events t' = [EvResponse (mirror demo_out)]"
    using mirror_delivered [OF b(5,6)] b(7-9) demo_out_via by auto
  let ?b3 = "b\<lparr>b_egress := (b_egress b)\<lparr>ua_tm := m\<rparr>\<rparr>"
  let ?b4 = "b2_pump 0 t' (EvResponse (mirror demo_out)) [] ?b3"
  let ?u = "(b_egress b)\<lparr>ua_tm := put_tx 0 (CTx (t'\<lparr>c_events := []\<rparr>)) m\<rparr>"
  have ctx: "pe_sess (demo_wait ringing) = ringing" "se_ctx ringing = 0" "se_dlg ringing = 0" "\<not> se_Done ringing"
    by (simp_all add: demo_wait_def ringing_def)
  have "b2_step ?b3 ?b4" by (rule b2_step.event) (use m b(2) ctx in simp_all)
  then have run: "b2_step\<^sup>*\<^sup>* demo_b2 ?b4" using b(1) b2_step.egress_tx [OF m(1)] by (meson rtranclp.rtrancl_into_rtrancl)
  obtain d where d: "dm_heap (ua_dialogs (b_egress b)) 0 = Some d" using b(4) by blast
  have "\<exists>u. pump (EvResponse (mirror demo_out)) ringing ?u = (accepted, u)"
    using d ctx by (simp add: pump_def pump_response_def mirror_def Let_def accepted_def)
  then obtain u where u: "pump (EvResponse (mirror demo_out)) ringing ?u = (accepted, u)" by blast
  have "?b4 = ?b3\<lparr>b_egress := u, b_pending := [demo_wait accepted]\<rparr>"
    using u b(2) ctx by (simp add: b2_pump_def Let_def) (simp add: demo_wait_def)
  then show ?thesis using run b(3) by (intro exI [of _ ?b4]) (simp add: answerable_def)
qed

lemma demo_bridged:
  "\<exists>b s. b2_step\<^sup>*\<^sup>* demo_b2 b \<and> (''c1'', s) \<in> set (b_sessions b) \<and> b2_ALeg s = Ingress 0 \<and> b2_BLeg s = Egress 0"
proof -
  obtain b where b: "b2_step\<^sup>*\<^sup>* demo_b2 b" "b_pending b = [demo_wait accepted]" "answerable b" using demo_accepted by blast
  let ?b = "without_pending 0 b"
  have ans: "answerable ?b" using b(3) by (simp add: answerable_def without_pending_def)
  have send: "TxManager_send demo_os 0 msg demo_addr (put_tx i x (ua_tm (b_ingress ?b))) = (put_tx i x (ua_tm (b_ingress ?b)), Inr ())" for msg i x
    by (rule drop_send) (use ans in \<open>simp_all add: answerable_def demo_addr_def\<close>)
  have "\<exists>b5. ingress_Respond demo_os 0 0 (Some 0) 200 [] None (?b\<lparr>b_egress := b_egress ?b\<rparr>) = (b5, Inr ())"
    using ans send
    by (simp add: answerable_def ingress_Respond_def UA_Respond_def ServerTx_Respond_def Let_def ua_response_def Response_SetBody_def
        NewResponse_def demo_stx_def new_server_tx_def isInvite_def demo_method split: option.split)
  then obtain b5 where b5: "ingress_Respond demo_os 0 0 (Some 0) 200 [] None (?b\<lparr>b_egress := b_egress ?b\<rparr>) = (b5, Inr ())" by blast
  have "bridge_result demo_os 0 (demo_wait accepted) (Some (mirror demo_out), None) ?b = Inr (start_session (demo_wait accepted) b5)"
    using b5 by (simp add: bridge_result_def mirror_def answer_body_def demo_wait_def)
  moreover have "WaitResponse False (pe_sess (demo_wait accepted)) = Some (Some (mirror demo_out), None)"
    by (simp add: WaitResponse_def demo_wait_def accepted_def ringing_def)
  ultimately have "b2_step b (start_session (demo_wait accepted) b5)"
    using b2_step.bridged [of 0 b False "(Some (mirror demo_out), None)" demo_os 0] b(2) by simp
  then have "b2_step\<^sup>*\<^sup>* demo_b2 (start_session (demo_wait accepted) b5)" using b(1) by (rule b2_steps [rotated])
  moreover have "(''c1'', \<lparr>b2_ID = ''c1'', b2_ALeg = Ingress 0, b2_BLeg = Egress 0, b2_ASession = accepted\<rparr>)
      \<in> set (b_sessions (start_session (demo_wait accepted) b5))"
    by (simp add: start_session_def Let_def map_put_def demo_wait_def demo_caller accepted_def ringing_def)
  ultimately show ?thesis by force
qed

section \<open>Properties\<close>



text \<open>Sessions are filed under the Call-ID the caller chose. When a second call with the Call-ID of a bridged
  call is accepted its session replaces the first one, and a BYE on a leg of the first call is then ignored: the
  other leg is not hung up and the relay is not stopped.\<close>

theorem call_id_collision:
  assumes "b2_init b0" "b2_step\<^sup>*\<^sup>* b0 b" "(k, s) \<in> set (b_sessions b)" "w \<in> set (b_pending b)" "Request_CallID (pe_req w) = k"
    "leg = b2_ALeg s \<or> leg = b2_BLeg s"
  shows "handleLegBye os now br evs leg (start_session w b) = (start_session w b, True) \<and> Sessions (start_session w b) = Sessions b"
proof -
  have ok: "b2_ok b" using b2_system.reachable_inv [OF assms(1,2)] .
  obtain n where n: "n < length (b_pending b)" "b_pending b ! n = w" using assms(4) by (meson in_set_conv_nth)
  have dk: "distinct (map fst (b_sessions b))" and inv: "b2_inv b" using ok by (simp_all add: b2_ok_def b2_inv_def)
  have s: "\<exists>i j. b2_ALeg s = Ingress i \<and> b2_BLeg s = Egress j" using ok assms(3) unfolding b2_ok_def by fastforce
  have w: "b2_ALeg s \<noteq> Ingress (pe_aDlg w)" "b2_BLeg s \<noteq> Egress (se_dlg (pe_sess w))"
    using without_pending_ok(6) [OF ok n(1) assms(3)] n(2) by simp_all
  have "session_of leg (start_session w b) = None"
  proof (rule ccontr)
    assume "session_of leg (start_session w b) \<noteq> None"
    then obtain s' k' where s': "(k', s') \<in> set (b_sessions (start_session w b))" "b2_ALeg s' = leg \<or> b2_BLeg s' = leg"
      using session_of_Some by blast
    then consider "b2_ALeg s' = Ingress (pe_aDlg w)" "b2_BLeg s' = Egress (se_dlg (pe_sess w))" | "(k', s') \<in> set (b_sessions b)" "k' \<noteq> k"
      using assms(5) by (auto simp: start_session_def Let_def map_put_def)
    then show False
    proof cases
      case 1 then show ?thesis using s' s w assms(6) by auto
    next
      case 2 then show ?thesis using inv assms(3,6) s'(2) unfolding b2_inv_def by fastforce
    qed
  qed
  moreover have "length (filter (\<lambda>p. fst p \<noteq> k) xs) = length xs - 1" if "distinct (map fst xs)" "k \<in> fst ` set xs" for xs :: "(string \<times> B2BSession) list"
    using that
  proof (induction xs)
    case (Cons x xs)
    have "k \<notin> fst ` set xs \<Longrightarrow> filter (\<lambda>p. fst p \<noteq> k) xs = xs" by (rule filter_True) force
    moreover have "xs \<noteq> []" if "k \<in> fst ` set xs" using that by auto
    ultimately show ?case using Cons by (cases "fst x = k") (auto simp: neq_Nil_conv)
  qed simp
  from this [OF dk] have "length (filter (\<lambda>p. fst p \<noteq> k) (b_sessions b)) = length (b_sessions b) - 1" using assms(3) by force
  then have "Sessions (start_session w b) = Sessions b"
    using assms(3,5) by (cases "b_sessions b") (auto simp: Sessions_def start_session_def Let_def map_put_def)
  ultimately show ?thesis by (simp add: handleLegBye_def)
qed

end
