(* ===== verification/Sdp.thy ===== *)
theory Sdp
  imports GoNet
begin

text \<open>
  \<^verbatim>\<open>gb28181/sdp.go\<close> and \<^verbatim>\<open>ParseSSRC\<close> of \<^verbatim>\<open>gb28181/xml.go\<close>: session descriptions with the SSRC line of
  GB/T 28181, printed and read.
\<close>

section \<open>Building\<close>

record StreamSDP =
  st_Username :: string
  st_Address :: string
  st_SSRC :: "32 word"
  st_RecvOnly :: bool
  st_VideoPort :: int
  st_AudioPort :: int
  st_SessionName :: string
  st_StartTime :: string
  st_EndTime :: string

definition st_dir :: "StreamSDP \<Rightarrow> string" where
  "st_dir s = (if st_RecvOnly s then ''recvonly'' else ''sendonly'')"

definition st_name :: "StreamSDP \<Rightarrow> string" where
  "st_name s = (if st_SessionName s = [] then ''Play'' else st_SessionName s)"

definition st_time :: "StreamSDP \<Rightarrow> string" where
  "st_time s = (if st_StartTime s \<noteq> [] \<or> st_EndTime s \<noteq> [] then ''t='' @ st_StartTime s @ '' '' @ st_EndTime s else ''t=0 0'')"

definition ssrc_line :: "StreamSDP \<Rightarrow> string" where
  "ssrc_line s = ''y='' @ format_hex8 (unat (st_SSRC s))"

definition video_lines :: "StreamSDP \<Rightarrow> string list" where
  "video_lines s = (if 0 < st_VideoPort s
     then [''m=video '' @ Itoa (st_VideoPort s) @ '' RTP/AVP 96 98 97'', ''a='' @ st_dir s, ''a=rtpmap:96 PS/90000'',
           ''a=rtpmap:98 H264/90000'', ''a=rtpmap:97 MPEG4/90000'', ssrc_line s]
     else [])"

definition audio_lines :: "StreamSDP \<Rightarrow> string list" where
  "audio_lines s = (if 0 < st_AudioPort s
     then [''m=audio '' @ Itoa (st_AudioPort s) @ '' RTP/AVP 8 0'', ''a=rtpmap:8 PCMA/8000'', ''a=rtpmap:0 PCMU/8000'',
           ''a='' @ st_dir s, ssrc_line s]
     else [])"

definition sdp_lines :: "StreamSDP \<Rightarrow> string list" where
  "sdp_lines s =
     [''v=0'', ''o='' @ st_Username s @ '' 0 0 IN IP4 '' @ st_Address s, ''s='' @ st_name s, ''c=IN IP4 '' @ st_Address s, st_time s]
     @ video_lines s @ audio_lines s"

definition Build :: "StreamSDP \<Rightarrow> string" where
  "Build s = concat (map (\<lambda>l. l @ [CR, LF]) (sdp_lines s))"

section \<open>Reading\<close>

record SDP =
  sd_Username :: string
  sd_Address :: string
  sd_SessionName :: string
  sd_VideoPort :: int
  sd_AudioPort :: int
  sd_SSRC :: "32 word"
  sd_RecvOnly :: bool
  sd_StartTime :: string
  sd_EndTime :: string

definition empty_sdp :: SDP where
  "empty_sdp = \<lparr>sd_Username = [], sd_Address = [], sd_SessionName = [], sd_VideoPort = 0, sd_AudioPort = 0, sd_SSRC = 0,
     sd_RecvOnly = False, sd_StartTime = [], sd_EndTime = []\<rparr>"

definition ParseSSRC :: "string \<Rightarrow> 32 word result" where
  "ParseSSRC s0 = (let s = TrimSpace s0 in
     case ParseUint s 16 32 of
       Some v \<Rightarrow> Inr (of_nat v)
     | None \<Rightarrow> (case ParseUint s 10 32 of Some v \<Rightarrow> Inr (of_nat v) | None \<Rightarrow> Inl ErrOther))"

definition sdp_origin :: "string list \<Rightarrow> SDP \<Rightarrow> SDP" where
  "sdp_origin fs s =
     (let s1 = (if fs \<noteq> [] then s\<lparr>sd_Username := hd fs\<rparr> else s)
      in if 6 \<le> length fs then s1\<lparr>sd_Address := last fs\<rparr> else s1)"

definition sdp_connection :: "string list \<Rightarrow> SDP \<Rightarrow> SDP" where
  "sdp_connection fs s = (if length fs = 3 \<and> ParseIP (fs ! 2) \<noteq> None then s\<lparr>sd_Address := fs ! 2\<rparr> else s)"

definition sdp_time :: "string list \<Rightarrow> SDP \<Rightarrow> SDP" where
  "sdp_time fs s =
     (let s1 = (if 1 \<le> length fs then s\<lparr>sd_StartTime := fs ! 0\<rparr> else s)
      in if 2 \<le> length fs then s1\<lparr>sd_EndTime := fs ! 1\<rparr> else s1)"

definition sdp_media :: "string list \<Rightarrow> SDP \<Rightarrow> SDP" where
  "sdp_media fs s =
     (if 2 \<le> length fs then
        (let port = (case Atoi (fs ! 1) of Some p \<Rightarrow> p | None \<Rightarrow> 0) in
         if HasPrefix (fs ! 0) ''video'' then s\<lparr>sd_VideoPort := port\<rparr>
         else if HasPrefix (fs ! 0) ''audio'' then s\<lparr>sd_AudioPort := port\<rparr> else s)
      else s)"

definition sdp_field :: "string \<Rightarrow> string \<Rightarrow> SDP \<Rightarrow> SDP result" where
  "sdp_field k v s =
     (if k = ''o'' then Inr (sdp_origin (Fields v) s)
      else if k = ''s'' then Inr (s\<lparr>sd_SessionName := TrimSpace v\<rparr>)
      else if k = ''c'' then Inr (sdp_connection (Fields v) s)
      else if k = ''t'' then Inr (sdp_time (Fields v) s)
      else if k = ''m'' then Inr (sdp_media (Fields v) s)
      else if k = ''a'' then Inr (if TrimSpace v = ''recvonly'' then s\<lparr>sd_RecvOnly := True\<rparr> else s)
      else if k = ''y'' then bind_result (ParseSSRC v) (\<lambda>ssrc. Inr (s\<lparr>sd_SSRC := ssrc\<rparr>))
      else Inr s)"

fun ParseSDP_loop :: "string list \<Rightarrow> SDP \<Rightarrow> SDP result" where
  "ParseSDP_loop [] s = Inr s"
| "ParseSDP_loop (line0 # lines) s =
     (let line = TrimLeftSet (TrimRightSet line0 [CR]) [SP, TAB] in
      case Cut line CHR ''='' of (k, v, ok) \<Rightarrow>
        if \<not> ok then ParseSDP_loop lines s
        else bind_result (sdp_field (TrimSpace k) v s) (ParseSDP_loop lines))"

definition ParseSDP :: "string \<Rightarrow> SDP result" where
  "ParseSDP body = bind_result (ParseSDP_loop (Split body LF) empty_sdp) (\<lambda>s.
     if sd_SessionName s = [] then Inl ErrOther else Inr s)"

definition SSRCOf :: "SDP \<Rightarrow> string" where
  "SSRCOf s = format_nat 10 (unat (sd_SSRC s))"

section \<open>Correctness\<close>

lemma Split_lines:
  "(\<And>l. l \<in> set ls \<Longrightarrow> LF \<notin> set l) \<Longrightarrow> Split (concat (map (\<lambda>l. l @ [CR, LF]) ls)) LF = map (\<lambda>l. l @ [CR]) ls @ [[]]"
proof (induction ls)
  case (Cons l ls)
  then show ?case using Split_append [of LF "l @ [CR]" "concat (map (\<lambda>l. l @ [CR, LF]) ls)"] by simp
qed simp

lemma ParseSDP_line:
  assumes "visible k" "k \<noteq> CHR ''=''" "CR \<notin> set v"
  shows "ParseSDP_loop ((k # CHR ''='' # v @ [CR]) # lines) s = bind_result (sdp_field [k] v s) (ParseSDP_loop lines)"
proof -
  have "TrimRightSet (k # CHR ''='' # v @ [CR]) [CR] = k # CHR ''='' # v"
    using assms by (cases v rule: rev_cases) (auto simp: TrimRightSet_def)
  moreover have "TrimLeftSet (k # CHR ''='' # v) [SP, TAB] = k # CHR ''='' # v"
    using assms(1) by (auto simp: TrimLeftSet_def visible_def)
  moreover have "Cut (k # CHR ''='' # v) CHR ''='' = ([k], v, True)" using assms(2) Cut_append [of "CHR ''=''" "[k]" v] by simp
  moreover have "TrimSpace [k] = [k]" using assms(1) by (simp add: TrimSpace_vis vis_ends_def)
  ultimately show ?thesis by (simp add: Let_def)
qed

text \<open>Lines of the form the printer writes are read field by field.\<close>

fun clean_line :: "string \<Rightarrow> bool" where
  "clean_line (k # e # v) \<longleftrightarrow> visible k \<and> k \<noteq> CHR ''='' \<and> e = CHR ''='' \<and> CR \<notin> set v \<and> LF \<notin> set v"
| "clean_line _ \<longleftrightarrow> False"

fun sdp_read :: "string list \<Rightarrow> SDP \<Rightarrow> SDP result" where
  "sdp_read [] s = Inr s"
| "sdp_read (l # ls) s = bind_result (sdp_field (take 1 l) (drop 2 l) s) (sdp_read ls)"

lemma clean_line_cases:
  assumes "clean_line l"
  obtains k v where "l = k # CHR ''='' # v" "visible k" "k \<noteq> CHR ''=''" "CR \<notin> set v" "LF \<notin> set v"
  using assms by (cases l rule: clean_line.cases) auto

lemma ParseSDP_read:
  "list_all clean_line ls \<Longrightarrow> ParseSDP_loop (map (\<lambda>l. l @ [CR]) ls @ [[]]) s = sdp_read ls s"
proof (induction ls arbitrary: s)
  case Nil
  then show ?case by (simp add: TrimRightSet_def TrimLeftSet_def Cut_def)
next
  case (Cons l ls)
  from Cons.prems have "clean_line l" by simp
  then obtain k v where l: "l = k # CHR ''='' # v" "visible k" "k \<noteq> CHR ''=''" "CR \<notin> set v"
    by (rule clean_line_cases)
  have "ParseSDP_loop ((k # CHR ''='' # v @ [CR]) # map (\<lambda>l. l @ [CR]) ls @ [[]]) s =
      bind_result (sdp_field [k] v s) (sdp_read ls)"
    using ParseSDP_line [OF l(2-4)] Cons by (simp add: bind_result_def split: sum.split)
  then show ?case using l(1) by (simp del: ParseSDP_loop.simps)
qed

lemma sdp_read_append: "sdp_read (xs @ ys) s = bind_result (sdp_read xs s) (sdp_read ys)"
  by (induction xs arbitrary: s) (simp_all add: bind_result_def split: sum.split)

lemma clean_LF: "clean_line l \<Longrightarrow> LF \<notin> set l"
  by (cases l rule: clean_line.cases) (auto simp: visible_def)

definition sdp_word :: "string \<Rightarrow> bool" where "sdp_word w \<longleftrightarrow> w \<noteq> [] \<and> list_all visible w"

lemma word_Fields: "sdp_word w \<Longrightarrow> Fields (w @ SP # s) = w # Fields s" "sdp_word w \<Longrightarrow> Fields w = [w]"
  by (simp_all add: sdp_word_def Fields_word Fields_last)

lemma word_chars: "sdp_word w \<Longrightarrow> CR \<notin> set w" "sdp_word w \<Longrightarrow> LF \<notin> set w"
  by (auto simp: sdp_word_def list_all_iff visible_def)

lemma word_Itoa: "sdp_word (Itoa n)"
  by (simp add: sdp_word_def Itoa_visible)

lemma word_hex8: "n < 2 ^ 32 \<Longrightarrow> sdp_word (format_hex8 n)"
  using length_format_hex8 [of n] by (auto simp: sdp_word_def format_hex8_visible)

definition wf_sdp :: "StreamSDP \<Rightarrow> bool" where
  "wf_sdp s \<longleftrightarrow> sdp_word (st_Username s) \<and> sdp_word (st_Address s) \<and> (st_SessionName s \<noteq> [] \<longrightarrow> sdp_word (st_SessionName s)) \<and>
     ((st_StartTime s = [] \<and> st_EndTime s = []) \<or> (sdp_word (st_StartTime s) \<and> sdp_word (st_EndTime s))) \<and>
     (0 < st_VideoPort s \<or> 0 < st_AudioPort s) \<and>
     0 \<le> st_VideoPort s \<and> st_VideoPort s < 65536 \<and> 0 \<le> st_AudioPort s \<and> st_AudioPort s < 65536"

definition read_back :: "StreamSDP \<Rightarrow> SDP" where
  "read_back s = \<lparr>sd_Username = st_Username s, sd_Address = st_Address s, sd_SessionName = st_name s,
     sd_VideoPort = st_VideoPort s, sd_AudioPort = st_AudioPort s, sd_SSRC = st_SSRC s, sd_RecvOnly = st_RecvOnly s,
     sd_StartTime = (if st_StartTime s = [] then ''0'' else st_StartTime s),
     sd_EndTime = (if st_EndTime s = [] then ''0'' else st_EndTime s)\<rparr>"

lemma sdp_line_o:
  assumes "sdp_word u" "sdp_word a"
  shows "sdp_field ''o'' (u @ '' 0 0 IN IP4 '' @ a) s = Inr (s\<lparr>sd_Username := u, sd_Address := a\<rparr>)"
proof -
  have "sdp_word ''0''" "sdp_word ''IN''" "sdp_word ''IP4''" by (simp_all add: sdp_word_def visible_def)
  then have "Fields (u @ '' 0 0 IN IP4 '' @ a) = [u, ''0'', ''0'', ''IN'', ''IP4'', a]"
    using assms word_Fields(1) [of u "''0 0 IN IP4 '' @ a"] word_Fields(1) [of "''0''" "''0 IN IP4 '' @ a"]
      word_Fields(1) [of "''0''" "''IN IP4 '' @ a"] word_Fields(1) [of "''IN''" "''IP4 '' @ a"]
      word_Fields(1) [of "''IP4''" a] word_Fields(2) [of a] by simp
  then show ?thesis by (simp add: sdp_field_def sdp_origin_def Let_def)
qed

lemma sdp_line_c:
  assumes "sdp_word a"
  shows "\<exists>s'. sdp_field ''c'' (''IN IP4 '' @ a) s = Inr s' \<and> (sd_Address s = a \<longrightarrow> s' = s)"
proof -
  have "sdp_word ''IN''" "sdp_word ''IP4''" by (simp_all add: sdp_word_def visible_def)
  then have "Fields (''IN IP4 '' @ a) = [''IN'', ''IP4'', a]"
    using assms word_Fields(1) [of "''IN''" "''IP4 '' @ a"] word_Fields(1) [of "''IP4''" a] word_Fields(2) [of a] by simp
  then show ?thesis by (auto simp: sdp_field_def sdp_connection_def)
qed

lemma sdp_line_t:
  assumes "sdp_word x" "sdp_word y"
  shows "sdp_field ''t'' (x @ '' '' @ y) s = Inr (s\<lparr>sd_StartTime := x, sd_EndTime := y\<rparr>)"
proof -
  have "Fields (x @ '' '' @ y) = [x, y]" using assms word_Fields(1) [of x y] word_Fields(2) [of y] by simp
  then show ?thesis by (simp add: sdp_field_def sdp_time_def Let_def)
qed

lemma sdp_line_m:
  assumes "0 \<le> p" "p < 65536" "m = ''video'' \<or> m = ''audio''"
  shows "sdp_field ''m'' (m @ '' '' @ Itoa p @ '' '' @ rest) s =
    Inr (if m = ''video'' then s\<lparr>sd_VideoPort := p\<rparr> else s\<lparr>sd_AudioPort := p\<rparr>)"
proof -
  have "sdp_word m" using assms(3) by (auto simp: sdp_word_def visible_def)
  then have "Fields (m @ '' '' @ Itoa p @ '' '' @ rest) = m # Itoa p # Fields rest"
    using word_Fields(1) [of m "Itoa p @ SP # rest"] word_Fields(1) [OF word_Itoa, of p rest] by simp
  moreover have "Atoi (Itoa p) = Some p" using assms by (intro Atoi_Itoa) (simp add: int_in_range_def)
  ultimately show ?thesis using assms(3) by (auto simp: sdp_field_def sdp_media_def HasPrefix_def)
qed

lemma sdp_line_a: "vis_ends v \<Longrightarrow> sdp_field ''a'' v s = Inr (if v = ''recvonly'' then s\<lparr>sd_RecvOnly := True\<rparr> else s)"
  by (simp add: sdp_field_def TrimSpace_vis)

lemma sdp_line_y: "sdp_field ''y'' (format_hex8 (unat n)) s = Inr (s\<lparr>sd_SSRC := n\<rparr>)" for n :: "32 word"
proof -
  have n: "unat n < 2 ^ 32" using unsigned_less [of n] by simp
  then have "TrimSpace (format_hex8 (unat n)) = format_hex8 (unat n)"
    using word_hex8 by (intro TrimSpace_vis vis_ends_all) (simp add: sdp_word_def)
  with n show ?thesis by (simp add: sdp_field_def ParseSSRC_def ParseUint_hex8)
qed

lemma sdp_line_s: "sdp_word w \<Longrightarrow> sdp_field ''s'' w s = Inr (s\<lparr>sd_SessionName := w\<rparr>)"
  by (simp add: sdp_field_def TrimSpace_vis vis_ends_all sdp_word_def)

text \<open>The block of a medium: its port, the direction and the SSRC.\<close>

lemma video_block:
  assumes "0 \<le> st_VideoPort st" "st_VideoPort st < 65536"
  shows "sdp_read (video_lines st) s = Inr (if 0 < st_VideoPort st
      then s\<lparr>sd_VideoPort := st_VideoPort st, sd_RecvOnly := sd_RecvOnly s \<or> st_RecvOnly st, sd_SSRC := st_SSRC st\<rparr> else s)"
  using assms sdp_line_m [of "st_VideoPort st" "''video''" "''RTP/AVP 96 98 97''"]
  by (simp add: video_lines_def ssrc_line_def sdp_line_a sdp_line_y vis_ends_def visible_def st_dir_def)

lemma audio_block:
  assumes "0 \<le> st_AudioPort st" "st_AudioPort st < 65536"
  shows "sdp_read (audio_lines st) s = Inr (if 0 < st_AudioPort st
      then s\<lparr>sd_AudioPort := st_AudioPort st, sd_RecvOnly := sd_RecvOnly s \<or> st_RecvOnly st, sd_SSRC := st_SSRC st\<rparr> else s)"
  using assms sdp_line_m [of "st_AudioPort st" "''audio''" "''RTP/AVP 8 0''"]
  by (simp add: audio_lines_def ssrc_line_def sdp_line_a sdp_line_y vis_ends_def visible_def st_dir_def)

lemma ssrc_chars: "CR \<notin> set (format_hex8 (unat n))" "LF \<notin> set (format_hex8 (unat n))" for n :: "32 word"
  using word_chars [OF word_hex8] unsigned_less [of n] by simp_all

lemma media_clean: "list_all clean_line (video_lines st @ audio_lines st)"
  by (simp add: video_lines_def audio_lines_def ssrc_line_def st_dir_def visible_def ssrc_chars word_chars [OF word_Itoa])

lemma st_name_word: "wf_sdp st \<Longrightarrow> sdp_word (st_name st)"
  by (auto simp: st_name_def wf_sdp_def sdp_word_def visible_def)

lemma sdp_lines_clean:
  assumes "wf_sdp st"
  shows "list_all clean_line (sdp_lines st)"
  using assms media_clean [of st] st_name_word [OF assms] word_chars
  by (auto simp: sdp_lines_def wf_sdp_def st_time_def visible_def)

lemma sdp_read_lines:
  assumes "wf_sdp st"
  shows "sdp_read (sdp_lines st) empty_sdp = Inr (read_back st)"
proof -
  let ?u = "st_Username st" and ?a = "st_Address st"
  let ?s1 = "empty_sdp\<lparr>sd_Username := ?u, sd_Address := ?a, sd_SessionName := st_name st\<rparr>"
  have w: "sdp_word ?u" "sdp_word ?a" "sdp_word (st_name st)" using assms st_name_word by (simp_all add: wf_sdp_def)
  have c: "sdp_field ''c'' (''IN IP4 '' @ ?a) ?s1 = Inr ?s1" using sdp_line_c [OF w(2), of ?s1] by auto
  have t: "sdp_field ''t'' (drop 2 (st_time st)) ?s1 = Inr (?s1\<lparr>
      sd_StartTime := (if st_StartTime st = [] then ''0'' else st_StartTime st),
      sd_EndTime := (if st_EndTime st = [] then ''0'' else st_EndTime st)\<rparr>)" and t1: "take 1 (st_time st) = ''t''"
    using assms sdp_line_t [of "''0''" "''0''" ?s1] sdp_line_t [of "st_StartTime st" "st_EndTime st" ?s1]
    by (auto simp: wf_sdp_def st_time_def sdp_word_def visible_def)
  have v: "sdp_field ''v'' x s = Inr s" for x s by (simp add: sdp_field_def)
  have ports: "0 \<le> st_VideoPort st" "st_VideoPort st < 65536" "0 \<le> st_AudioPort st" "st_AudioPort st < 65536"
      "0 < st_VideoPort st \<or> 0 < st_AudioPort st"
    using assms by (simp_all add: wf_sdp_def)
  show ?thesis
    using w c t t1 ports sdp_line_o [OF w(1,2)] sdp_line_s [OF w(3)]
    by (auto simp: sdp_lines_def sdp_read_append video_block audio_block v read_back_def empty_sdp_def)
qed

lemma ParseSDP_Build:
  assumes "wf_sdp st"
  shows "ParseSDP (Build st) = Inr (read_back st)"
proof -
  have "Split (Build st) LF = map (\<lambda>l. l @ [CR]) (sdp_lines st) @ [[]]"
    unfolding Build_def using sdp_lines_clean [OF assms] clean_LF by (intro Split_lines) (auto simp: list_all_iff)
  then have "ParseSDP_loop (Split (Build st) LF) empty_sdp = Inr (read_back st)"
    using ParseSDP_read [OF sdp_lines_clean [OF assms]] sdp_read_lines [OF assms] by simp
  then show ?thesis using st_name_word [OF assms] by (simp add: ParseSDP_def read_back_def sdp_word_def)
qed

text \<open>C29 (round trip): a stream description with proper words, at least one medium and either both times or none,
  is read back from its text: every field, the SSRC of all 32 bits and the direction, with the default
  session name and times filled in.\<close>

theorem sdp_roundtrip: "wf_sdp st \<Longrightarrow> ParseSDP (Build st) = Inr (read_back st)"
  by (rule ParseSDP_Build)

definition demo_stream :: StreamSDP where
  "demo_stream = \<lparr>st_Username = ''34'', st_Address = ''h'', st_SSRC = 7, st_RecvOnly = True, st_VideoPort = 9, st_AudioPort = 0,
     st_SessionName = [], st_StartTime = [], st_EndTime = []\<rparr>"

theorem sdp_roundtrip_witness: "ParseSDP (Build demo_stream) = Inr (read_back demo_stream)"
proof -
  have "wf_sdp demo_stream" by (simp add: wf_sdp_def demo_stream_def sdp_word_def visible_def)
  then show ?thesis by (rule sdp_roundtrip)
qed

text \<open>The SSRC of a session is ten decimal digits in GB/T 28181, but a y= line is first read as
  hexadecimal, so every number of at most eight significant digits is read as another one:
  0012345678 becomes 0x12345678.\<close>

theorem decimal_ssrc_misread: "ParseSSRC ''0012345678'' = Inr 0x12345678"
proof -
  have t: "TrimSpace ''0012345678'' = ''0012345678''" by code_simp
  have "parse_digits 16 0 ''0012345678'' = Some 0x12345678" by (simp add: digit_val_def)
  then show ?thesis by (simp add: ParseSSRC_def t ParseUint_def)
qed

end
