(* ===== verification/GoXml.thy ===== *)
theory GoXml
  imports GoStrconv
begin

text \<open>
  Go's \<^verbatim>\<open>encoding/xml\<close> (as of Go 1.22, the version of \<^verbatim>\<open>go.mod\<close>) and the part of \<^verbatim>\<open>unicode/utf8\<close> it rests on, as far as
  the sources use them: the escaping of the encoder, and the decoder with \<^verbatim>\<open>Strict\<close> off and a \<^verbatim>\<open>CharsetReader\<close> that
  hands the bytes on as they are. The decoder is a function from the bytes to the tree of the first element;
  every error it can report is \<open>None\<close>. Names with characters outside ASCII are judged by tables of the library,
  which are the parameter \<open>u\<close>. Name spaces only matter for the match of start and end tags, because no field of
  the decoded structures names one.
\<close>

section \<open>UTF-8\<close>

abbreviation byte :: "char \<Rightarrow> nat" where
  "byte c \<equiv> of_char c"

definition cont :: "char \<Rightarrow> bool" where
  "cont c \<longleftrightarrow> 0x80 \<le> byte c \<and> byte c \<le> 0xBF"

text \<open>The size of the character at the front (\<^verbatim>\<open>utf8.DecodeRune\<close>); 0 for bytes that are not UTF-8.\<close>

fun rune_size :: "string \<Rightarrow> nat" where
  "rune_size [] = 0"
| "rune_size (a # s) =
     (if byte a < 0x80 then 1
      else if 0xC2 \<le> byte a \<and> byte a \<le> 0xDF then (case s of b # _ \<Rightarrow> if cont b then 2 else 0 | _ \<Rightarrow> 0)
      else if 0xE0 \<le> byte a \<and> byte a \<le> 0xEF then
        (case s of b # c # _ \<Rightarrow>
           if cont b \<and> cont c \<and> (byte a = 0xE0 \<longrightarrow> 0xA0 \<le> byte b) \<and> (byte a = 0xED \<longrightarrow> byte b \<le> 0x9F) then 3 else 0
         | _ \<Rightarrow> 0)
      else if 0xF0 \<le> byte a \<and> byte a \<le> 0xF4 then
        (case s of b # c # d # _ \<Rightarrow>
           if cont b \<and> cont c \<and> cont d \<and> (byte a = 0xF0 \<longrightarrow> 0x90 \<le> byte b) \<and> (byte a = 0xF4 \<longrightarrow> byte b \<le> 0x8F) then 4 else 0
         | _ \<Rightarrow> 0)
      else 0)"

declare rune_size.simps [simp del]

text \<open>\<^verbatim>\<open>isInCharacterRange\<close>, on the bytes of one character.\<close>

definition in_char_range :: "string \<Rightarrow> bool" where
  "in_char_range r = (case r of
     [c] \<Rightarrow> c = TAB \<or> c = LF \<or> c = CR \<or> 0x20 \<le> byte c
   | _ \<Rightarrow> r \<noteq> [CHR 0xEF, CHR 0xBF, CHR 0xBE] \<and> r \<noteq> [CHR 0xEF, CHR 0xBF, CHR 0xBF])"

fun legal_text :: "string \<Rightarrow> bool" where
  "legal_text [] = True"
| "legal_text (c # s) = (let n = rune_size (c # s) in
     n \<noteq> 0 \<and> in_char_range (take n (c # s)) \<and> legal_text (drop (n - 1) s))"

definition replacement :: string where
  "replacement = [CHR 0xEF, CHR 0xBF, CHR 0xBD]"

text \<open>\<^verbatim>\<open>string(rune(n))\<close>.\<close>

definition encode_rune :: "nat \<Rightarrow> string" where
  "encode_rune n =
     (if n < 0x80 then [char_of n]
      else if n < 0x800 then [char_of (0xC0 + n div 64), char_of (0x80 + n mod 64)]
      else if 0xD800 \<le> n \<and> n \<le> 0xDFFF \<or> 0x10FFFF < n then replacement
      else if n < 0x10000 then [char_of (0xE0 + n div 4096), char_of (0x80 + n div 64 mod 64), char_of (0x80 + n mod 64)]
      else [char_of (0xF0 + n div 262144), char_of (0x80 + n div 4096 mod 64), char_of (0x80 + n div 64 mod 64), char_of (0x80 + n mod 64)])"

section \<open>Escaping\<close>

definition xml_escape_char :: "char \<Rightarrow> string" where
  "xml_escape_char c =
     (if c = DQ then ''&#34;''
      else if c = CHR 0x27 then ''&#39;''
      else if c = CHR ''&'' then ''&amp;''
      else if c = CHR ''<'' then ''&lt;''
      else if c = CHR ''>'' then ''&gt;''
      else if c = TAB then ''&#x9;''
      else if c = LF then ''&#xA;''
      else if c = CR then ''&#xD;''
      else [c])"

text \<open>\<^verbatim>\<open>escapeText\<close>: bytes that are not UTF-8 and characters that XML does not have are replaced.\<close>

fun xml_escape :: "string \<Rightarrow> string" where
  "xml_escape [] = []"
| "xml_escape (c # s) = (let n = rune_size (c # s) in
     (if n = 0 \<or> \<not> in_char_range (take n (c # s)) then replacement
      else if n = 1 then xml_escape_char c
      else take n (c # s)) @ xml_escape (drop (n - 1) s))"

section \<open>Names and character data\<close>

definition name_byte :: "char \<Rightarrow> bool" where
  "name_byte c \<longleftrightarrow> 0x80 \<le> byte c \<or> 0x41 \<le> byte c \<and> byte c \<le> 0x5A \<or> 0x61 \<le> byte c \<and> byte c \<le> 0x7A \<or> is_digit c \<or>
     c \<in> set ''_:.-''"

definition isName :: "(string \<Rightarrow> bool) \<Rightarrow> string \<Rightarrow> bool" where
  "isName u n =
     (if list_all (\<lambda>c. byte c < 0x80) n
      then (case n of [] \<Rightarrow> False | c # _ \<Rightarrow> name_byte c \<and> \<not> is_digit c \<and> c \<noteq> CHR ''.'' \<and> c \<noteq> CHR ''-'')
      else u n)"

definition read_name :: "(string \<Rightarrow> bool) \<Rightarrow> string \<Rightarrow> (string \<times> string) option" where
  "read_name u s = (let n = takeWhile name_byte s; r = dropWhile name_byte s in
     if n \<noteq> [] \<and> r \<noteq> [] \<and> isName u n then Some (n, r) else None)"

text \<open>A name is its prefix and its local part.\<close>

type_synonym XName = "string \<times> string"

definition nsname :: "(string \<Rightarrow> bool) \<Rightarrow> string \<Rightarrow> (XName \<times> string) option" where
  "nsname u s = (case read_name u s of
     None \<Rightarrow> None
   | Some (n, r) \<Rightarrow>
       if 1 < count_list n CHR '':'' then None
       else (case Cut n CHR '':'' of (space, local, found) \<Rightarrow>
         if \<not> found \<or> space = [] \<or> local = [] then Some (([], n), r) else Some ((space, local), r)))"

definition xml_space :: "char \<Rightarrow> bool" where
  "xml_space c \<longleftrightarrow> c = SP \<or> c = CR \<or> c = LF \<or> c = TAB"

definition entities :: "(string \<times> string) list" where
  "entities = [(''lt'', ''<''), (''gt'', ''>''), (''amp'', ''&''), (''apos'', [CHR 0x27]), (''quot'', [DQ])]"

definition base_digit :: "nat \<Rightarrow> char \<Rightarrow> bool" where
  "base_digit base c \<longleftrightarrow> digit_val base c \<noteq> None"

text \<open>What follows an ampersand: the bytes read, what they stand for, and the rest. What stands for nothing is kept as
  it is, because the decoder is not strict.\<close>

definition char_ref :: "string \<Rightarrow> (string \<times> string option \<times> string) option" where
  "char_ref s = (case s of
     [] \<Rightarrow> None
   | c # t \<Rightarrow>
       (let base = (if c = CHR ''x'' then 16 else 10); s' = (if c = CHR ''x'' then t else s); pre = (if c = CHR ''x'' then ''#x'' else ''#'');
            ds = takeWhile (base_digit base) s'
        in case dropWhile (base_digit base) s' of
             [] \<Rightarrow> None
           | b # r \<Rightarrow>
               if b \<noteq> CHR '';'' then Some (pre @ ds, None, b # r)
               else (case ParseUint ds base 64 of
                 Some n \<Rightarrow> Some (pre @ ds @ '';'', if n \<le> 0x10FFFF then Some (encode_rune n) else None, r)
               | None \<Rightarrow> Some (pre @ ds @ '';'', None, r))))"

definition entity_ref :: "string \<Rightarrow> (string \<times> string option \<times> string) option" where
  "entity_ref s = (let n = takeWhile name_byte s in
     case dropWhile name_byte s of
       [] \<Rightarrow> None
     | b # r \<Rightarrow> if b \<noteq> CHR '';'' then Some (n, None, b # r) else Some (n @ '';'', map_of entities n, r))"

definition reference :: "string \<Rightarrow> (string \<times> string option \<times> string) option" where
  "reference s = (case s of
     [] \<Rightarrow> None
   | c # t \<Rightarrow> if c = CHR ''#'' then char_ref t else entity_ref s)"

lemma length_dropWhile_Cons: "dropWhile P s = b # r \<Longrightarrow> length r < length s"
  using length_dropWhile_le [of P s] by simp

lemma char_ref_length: "char_ref s = Some (raw, t, r) \<Longrightarrow> length r \<le> length s"
  by (auto simp: char_ref_def Let_def length_dropWhile_le le_SucI split: list.splits if_splits option.splits dest!: length_dropWhile_Cons)

lemma entity_ref_length: "entity_ref s = Some (raw, t, r) \<Longrightarrow> length r \<le> length s"
  by (auto simp: entity_ref_def Let_def length_dropWhile_le split: list.splits if_splits dest!: length_dropWhile_Cons)

lemma reference_length: "reference s = Some (raw, t, r) \<Longrightarrow> length r \<le> length s"
  by (auto simp: reference_def split: list.splits if_splits dest!: char_ref_length entity_ref_length)

text \<open>\<^verbatim>\<open>Decoder.text\<close>: \<open>q\<close> is the quote of an attribute value, \<open>b0\<close> and \<open>b1\<close> are the last two bytes, the text is
  collected in reverse. At the end of the input the text ends, except in a CDATA section.\<close>

function text_loop :: "char option \<Rightarrow> bool \<Rightarrow> char \<Rightarrow> char \<Rightarrow> string \<Rightarrow> string \<Rightarrow> (string \<times> string) option" where
  "text_loop q cdata b0 b1 acc [] = (if cdata then None else Some (rev acc, []))"
| "text_loop q cdata b0 b1 acc (b # s) =
     (if q = None \<and> b0 = CHR '']'' \<and> b1 = CHR '']'' \<and> b = CHR ''>'' then
        (if cdata then Some (rev (drop 2 acc), s) else None)
      else if b = CHR ''<'' \<and> \<not> cdata then (if q \<noteq> None then None else Some (rev acc, b # s))
      else if q = Some b then Some (rev acc, s)
      else if b = CHR ''&'' \<and> \<not> cdata then
        (case reference s of
           None \<Rightarrow> None
         | Some (raw, t, r) \<Rightarrow>
             text_loop q cdata (CHR 0x00) (CHR 0x00) ((case t of Some x \<Rightarrow> rev x | None \<Rightarrow> rev raw @ [CHR ''&'']) @ acc) r)
      else text_loop q cdata b1 b (if b = CR then LF # acc else if b1 = CR \<and> b = LF then acc else b # acc) s)"
  by pat_completeness auto
termination
  by (relation "measure (\<lambda>(q, cdata, b0, b1, acc, s). length s)") (auto dest!: reference_length)

definition read_text :: "char option \<Rightarrow> bool \<Rightarrow> string \<Rightarrow> (string \<times> string) option" where
  "read_text q cdata s = (case text_loop q cdata (CHR 0x00) (CHR 0x00) [] s of
     Some (t, r) \<Rightarrow> if legal_text t then Some (t, r) else None
   | None \<Rightarrow> None)"

lemma text_loop_length: "text_loop q cdata b0 b1 acc s = Some (t, r) \<Longrightarrow> length r \<le> length s"
proof (induction q cdata b0 b1 acc s rule: text_loop.induct)
  case (2 q cdata b0 b1 acc b s)
  then show ?case
    by (auto split: if_splits option.splits dest!: reference_length intro: le_SucI) (meson le_SucI le_trans)+
qed (auto split: if_splits)

text \<open>In text the loop stops at a tag, so it reads something unless a tag comes first.\<close>

lemma text_loop_shorter:
  assumes "text_loop q cdata b0 b1 acc (b # s) = Some (t, r)" "cdata \<or> q \<noteq> None \<or> b \<noteq> CHR ''<''"
  shows "length r \<le> length s"
  using assms by (auto split: if_splits option.splits dest!: reference_length text_loop_length)

lemma read_text_length: "read_text q cdata s = Some (t, r) \<Longrightarrow> length r \<le> length s"
  by (auto simp: read_text_def split: option.splits if_splits dest!: text_loop_length)

lemma read_text_shorter: "read_text None False (b # s) = Some (t, r) \<Longrightarrow> b \<noteq> CHR ''<'' \<Longrightarrow> length r \<le> length s"
  by (auto simp: read_text_def simp del: text_loop.simps split: option.splits if_splits dest!: text_loop_shorter)

section \<open>Tokens\<close>

datatype RawToken = StartTok XName "(XName \<times> string) list" bool | EndTok XName | TextTok string | SkipTok

text \<open>Comments: two hyphens may only end them. Inside a directive a comment may hold anything.\<close>

fun comment_rest :: "char \<Rightarrow> char \<Rightarrow> string \<Rightarrow> string option" where
  "comment_rest b0 b1 [] = None"
| "comment_rest b0 b1 (b # s) =
     (if b0 = CHR ''-'' \<and> b1 = CHR ''-'' then (if b = CHR ''>'' then Some s else None) else comment_rest b1 b s)"

fun inner_comment_rest :: "char \<Rightarrow> char \<Rightarrow> string \<Rightarrow> string option" where
  "inner_comment_rest b0 b1 [] = None"
| "inner_comment_rest b0 b1 (b # s) =
     (if b0 = CHR ''-'' \<and> b1 = CHR ''-'' \<and> b = CHR ''>'' then Some s else inner_comment_rest b1 b s)"

lemma comment_rest_length: "comment_rest b0 b1 s = Some r \<Longrightarrow> length r < length s"
  by (induction b0 b1 s rule: comment_rest.induct) (auto split: if_splits)

lemma inner_comment_rest_length: "inner_comment_rest b0 b1 s = Some r \<Longrightarrow> length r < length s"
  by (induction b0 b1 s rule: inner_comment_rest.induct) (auto split: if_splits)

text \<open>A directive such as \<^verbatim>\<open><!DOCTYPE\<close>: angle brackets nest, except in quotes.\<close>

function directive_rest :: "nat \<Rightarrow> char option \<Rightarrow> string \<Rightarrow> string option" where
  "directive_rest depth q [] = None"
| "directive_rest depth q (b # s) =
     (if q = None \<and> b = CHR ''>'' \<and> depth = 0 then Some s
      else if q = Some b then directive_rest depth None s
      else if q \<noteq> None then directive_rest depth q s
      else if b = CHR 0x27 \<or> b = DQ then directive_rest depth (Some b) s
      else if b = CHR ''>'' then directive_rest (depth - 1) None s
      else if b = CHR ''<'' then
        (if HasPrefix s ''!--''
         then (case inner_comment_rest (CHR 0x00) (CHR 0x00) (drop 3 s) of None \<Rightarrow> None | Some r \<Rightarrow> directive_rest depth None r)
         else directive_rest (depth + 1) None s)
      else directive_rest depth None s)"
  by pat_completeness auto
termination
  by (relation "measure (\<lambda>(depth, q, s). length s)") (auto dest!: inner_comment_rest_length)

lemma directive_rest_length: "directive_rest depth q s = Some r \<Longrightarrow> length r < length s"
  by (induction depth q s rule: directive_rest.induct)
    (auto split: if_splits option.splits dest!: inner_comment_rest_length intro: less_SucI)

text \<open>A processing instruction; its data in reverse. The XML declaration must not announce a version other than 1.0; the
  encoding it announces is ignored.\<close>

fun instruction_rest :: "char \<Rightarrow> string \<Rightarrow> string \<Rightarrow> (string \<times> string) option" where
  "instruction_rest b0 acc [] = None"
| "instruction_rest b0 acc (b # s) =
     (if b0 = CHR ''?'' \<and> b = CHR ''>'' then Some (rev (tl acc), s) else instruction_rest b (b # acc) s)"

lemma instruction_rest_length: "instruction_rest b0 acc s = Some (d, r) \<Longrightarrow> length r < length s"
  by (induction b0 acc s rule: instruction_rest.induct) (auto split: if_splits)

fun after_string :: "string \<Rightarrow> string \<Rightarrow> string" where
  "after_string p [] = []"
| "after_string p (c # s) = (if HasPrefix (c # s) p then drop (length p) (c # s) else after_string p s)"

definition procInst :: "string \<Rightarrow> string \<Rightarrow> string" where
  "procInst param s = (case after_string (param @ ''='') s of
     [] \<Rightarrow> []
   | q # v \<Rightarrow>
       if q \<noteq> CHR 0x27 \<and> q \<noteq> DQ then []
       else (case Cut v q of (w, _, found) \<Rightarrow> if found then w else []))"

definition instruction :: "(string \<Rightarrow> bool) \<Rightarrow> string \<Rightarrow> string option" where
  "instruction u s = (case read_name u s of
     None \<Rightarrow> None
   | Some (target, r) \<Rightarrow>
       (case instruction_rest (CHR 0x00) [] (dropWhile xml_space r) of
          None \<Rightarrow> None
        | Some (d, r') \<Rightarrow>
            if target = ''xml'' \<and> procInst ''version'' d \<noteq> [] \<and> procInst ''version'' d \<noteq> ''1.0'' then None else Some r'))"

definition unquoted_byte :: "char \<Rightarrow> bool" where
  "unquoted_byte c \<longleftrightarrow> 0x41 \<le> byte c \<and> byte c \<le> 0x5A \<or> 0x61 \<le> byte c \<and> byte c \<le> 0x7A \<or> is_digit c \<or> c \<in> set ''_:-''"

definition attrval :: "string \<Rightarrow> (string \<times> string) option" where
  "attrval s = (case s of
     [] \<Rightarrow> None
   | q # t \<Rightarrow>
       if q = DQ \<or> q = CHR 0x27 then read_text (Some q) False t
       else if dropWhile unquoted_byte s = [] then None
       else Some (takeWhile unquoted_byte s, dropWhile unquoted_byte s))"

lemma read_name_length: "read_name u s = Some (n, r) \<Longrightarrow> length r < length s"
proof -
  assume "read_name u s = Some (n, r)"
  then have "takeWhile name_byte s \<noteq> []" "r = dropWhile name_byte s" by (auto simp: read_name_def Let_def split: if_splits)
  moreover have "length s = length (takeWhile name_byte s) + length (dropWhile name_byte s)"
    by (metis length_append takeWhile_dropWhile_id)
  ultimately show ?thesis by simp
qed

lemma nsname_length: "nsname u s = Some (n, r) \<Longrightarrow> length r < length s"
  by (auto simp: nsname_def split: option.splits prod.splits if_splits dest!: read_name_length)

lemma attrval_length: "attrval s = Some (v, r) \<Longrightarrow> length r \<le> length s"
  using length_dropWhile_le [of unquoted_byte s]
  by (auto simp: attrval_def simp del: dropWhile.simps split: list.splits if_splits dest!: read_text_length)

lemma nsname_space_length: "nsname u (dropWhile xml_space s) = Some (n, r) \<Longrightarrow> length r < length s"
  using nsname_length length_dropWhile_le le_trans by (metis not_less)

lemma attrval_space_length: "attrval (dropWhile xml_space s) = Some (v, r) \<Longrightarrow> length r \<le> length s"
  using attrval_length length_dropWhile_le le_trans by metis

function attributes :: "(string \<Rightarrow> bool) \<Rightarrow> (XName \<times> string) list \<Rightarrow> string \<Rightarrow> ((XName \<times> string) list \<times> bool \<times> string) option" where
  "attributes u acc s = (case dropWhile xml_space s of
     [] \<Rightarrow> None
   | c # r \<Rightarrow>
       if c = CHR ''/'' then (case r of b # r' \<Rightarrow> if b = CHR ''>'' then Some (rev acc, True, r') else None | [] \<Rightarrow> None)
       else if c = CHR ''>'' then Some (rev acc, False, r)
       else (case nsname u (dropWhile xml_space s) of
         None \<Rightarrow> None
       | Some (n, r1) \<Rightarrow>
           (case dropWhile xml_space r1 of
              [] \<Rightarrow> None
            | b # r2 \<Rightarrow>
                if b \<noteq> CHR ''='' then attributes u ((n, snd n) # acc) (dropWhile xml_space r1)
                else (case attrval (dropWhile xml_space r2) of
                  None \<Rightarrow> None
                | Some (v, r3) \<Rightarrow> attributes u ((n, v) # acc) r3))))"
  by pat_completeness auto
termination
proof (relation "measure (\<lambda>(u, acc, s). length s)", goal_cases)
  case (2 u acc s c r y n r1 b r2)
  then show ?case using nsname_space_length [of u s n r1] length_dropWhile_le [of xml_space r1] by auto
next
  case (3 u acc s c r y n r1 b r2 z v r3)
  then show ?case
    using nsname_space_length [of u s n r1] length_dropWhile_Cons [of xml_space r1 b r2] attrval_space_length [of r2 v r3] by auto
qed simp

declare attributes.simps [simp del]

text \<open>\<^verbatim>\<open>rawToken\<close> on input that is not empty, up to the closing half of an empty element.\<close>

definition end_tag :: "(string \<Rightarrow> bool) \<Rightarrow> string \<Rightarrow> (RawToken \<times> string) option" where
  "end_tag u s = (case nsname u s of
     None \<Rightarrow> None
   | Some (n, r) \<Rightarrow> (case dropWhile xml_space r of
       b # r' \<Rightarrow> if b = CHR ''>'' then Some (EndTok n, r') else None
     | [] \<Rightarrow> None))"

definition start_tag :: "(string \<Rightarrow> bool) \<Rightarrow> string \<Rightarrow> (RawToken \<times> string) option" where
  "start_tag u s = (case nsname u s of
     None \<Rightarrow> None
   | Some (n, r) \<Rightarrow> (case attributes u [] r of
       Some (as, single, r') \<Rightarrow> Some (StartTok n as single, r')
     | None \<Rightarrow> None))"

definition markup :: "string \<Rightarrow> (RawToken \<times> string) option" where
  "markup s = (case s of
     [] \<Rightarrow> None
   | c # t \<Rightarrow>
       if c = CHR ''-'' then
         (case t of
            b # t' \<Rightarrow> if b = CHR ''-'' then map_option (Pair SkipTok) (comment_rest (CHR 0x00) (CHR 0x00) t') else None
          | [] \<Rightarrow> None)
       else if c = CHR ''['' then
         (if HasPrefix t ''CDATA['' then map_option (\<lambda>(d, r). (TextTok d, r)) (read_text None True (drop 6 t)) else None)
       else map_option (Pair SkipTok) (directive_rest 0 None t))"

definition raw_token :: "(string \<Rightarrow> bool) \<Rightarrow> string \<Rightarrow> (RawToken \<times> string) option" where
  "raw_token u s = (case s of
     [] \<Rightarrow> None
   | b # t \<Rightarrow>
       if b \<noteq> CHR ''<'' then map_option (\<lambda>(d, r). (TextTok d, r)) (read_text None False s)
       else (case t of
         [] \<Rightarrow> None
       | c # t' \<Rightarrow>
           if c = CHR ''/'' then end_tag u t'
           else if c = CHR ''?'' then map_option (Pair SkipTok) (instruction u t')
           else if c = CHR ''!'' then markup t'
           else start_tag u t))"

lemma attributes_length: "attributes u acc s = Some (as, e, r) \<Longrightarrow> length r < length s"
proof (induction u acc s rule: attributes.induct)
  case (1 u acc s)
  obtain c t where c: "dropWhile xml_space s = c # t" using 1(3) by (subst (asm) attributes.simps) (auto split: list.splits)
  have t: "length t < length s" using length_dropWhile_Cons [OF c] .
  note eq = 1(3) [unfolded attributes.simps [of u acc s] c]
  show ?case
  proof (cases "c = CHR ''/'' \<or> c = CHR ''>''")
    case True
    then show ?thesis using eq t by (auto split: list.splits if_splits)
  next
    case False
    then obtain n r1 where n: "nsname u (dropWhile xml_space s) = Some (n, r1)" using eq c by (auto split: option.splits)
    then obtain b r2 where b: "dropWhile xml_space r1 = b # r2" using eq False c by (auto split: list.splits)
    have l: "length r1 < length s" "length (b # r2) \<le> length r1"
      using nsname_space_length [OF n] length_dropWhile_le [of xml_space r1] b by simp_all
    show ?thesis
    proof (cases "b = CHR ''=''")
      case True
      then obtain v r3 where v: "attrval (dropWhile xml_space r2) = Some (v, r3)" "attributes u ((n, v) # acc) r3 = Some (as, e, r)"
        using eq False c n b by (auto split: option.splits)
      have "length r < length r3" using 1(2) [OF c _ _ n refl b _ v(1) refl v(2)] False True by auto
      then show ?thesis using attrval_space_length [OF v(1)] l by simp
    next
      case no: False
      then have v: "attributes u ((n, snd n) # acc) (b # r2) = Some (as, e, r)" using eq False c n b by auto
      have "length r < length (b # r2)" using 1(1) [OF c _ _ n refl b] v b False no by auto
      then show ?thesis using l by simp
    qed
  qed
qed

lemma raw_token_length:
  assumes "raw_token u s = Some (t, r)"
  shows "length r < length s"
proof -
  have e: "length r < length s" if "end_tag u s = Some (t, r)" for s
    using that by (auto simp: end_tag_def split: option.splits list.splits if_splits dest!: nsname_length length_dropWhile_Cons)
  have st: "length r < length s" if "start_tag u s = Some (t, r)" for s
    using that by (auto simp: start_tag_def split: option.splits dest!: nsname_length attributes_length)
  have i: "length r < length s" if ins: "instruction u s = Some r" for s
  proof -
    obtain n d q where q: "read_name u s = Some (n, q)" "instruction_rest (CHR 0x00) [] (dropWhile xml_space q) = Some (d, r)"
      using ins by (auto simp: instruction_def split: option.splits if_splits)
    then show ?thesis
      using read_name_length [OF q(1)] instruction_rest_length [OF q(2)] length_dropWhile_le [of xml_space q] by simp
  qed
  have m: "length r < length s" if "markup s = Some (t, r)" for s
    using that by (auto simp: markup_def simp del: directive_rest.simps comment_rest.simps split: list.splits if_splits dest!: comment_rest_length directive_rest_length read_text_length)
  show ?thesis
    using assms
    by (auto simp: raw_token_def split: list.splits if_splits dest!: e st i m read_text_shorter)
qed

section \<open>Elements\<close>

datatype Token = StartElement string "(string \<times> string) list" | EndElement | CharData string

text \<open>\<^verbatim>\<open>Decoder.Token\<close> until it fails. \<open>stk\<close> are the open elements; \<open>close\<close> is an end tag that is still to be returned: the
  closing half of an empty element, or an end tag that does not match the innermost open element, which closes
  the open elements one by one until it does. Attributes are given by their local names.\<close>

function tokens :: "(string \<Rightarrow> bool) \<Rightarrow> XName option \<Rightarrow> XName list \<Rightarrow> string \<Rightarrow> Token list" where
  "tokens u (Some n) stk s = (case stk of
     [] \<Rightarrow> []
   | m # stk' \<Rightarrow>
       if snd m \<noteq> snd n then EndElement # tokens u (Some n) stk' s
       else if fst m \<noteq> fst n then []
       else EndElement # tokens u None stk' s)"
| "tokens u None stk s = (case raw_token u s of
     None \<Rightarrow> []
   | Some (t, r) \<Rightarrow> (case t of
       StartTok n as single \<Rightarrow>
         StartElement (snd n) (map (\<lambda>(a, v). (snd a, v)) as) # tokens u (if single then Some n else None) (n # stk) r
     | EndTok n \<Rightarrow> tokens u (Some n) stk r
     | TextTok d \<Rightarrow> CharData d # tokens u None stk r
     | SkipTok \<Rightarrow> tokens u None stk r))"
  by pat_completeness auto
termination
  by (relation "measures [\<lambda>(u, c, stk, s). length s, \<lambda>(u, c, stk, s). length stk]") (auto dest!: raw_token_length)

datatype Node = Elem string "(string \<times> string) list" "Node list" | CharNode string

text \<open>The first element with what is in it, or \<open>None\<close> when the tokens run out before it is closed.\<close>

type_synonym Open = "string \<times> (string \<times> string) list \<times> Node list"

fun element :: "Open list \<Rightarrow> Token list \<Rightarrow> Node option" where
  "element stk [] = None"
| "element stk (StartElement n as # ts) = element ((n, as, []) # stk) ts"
| "element [] (EndElement # ts) = None"
| "element ((n, as, ns) # stk) (EndElement # ts) = (let e = Elem n as (rev ns) in
     case stk of [] \<Rightarrow> Some e | (m, bs, ms) # stk' \<Rightarrow> element ((m, bs, e # ms) # stk') ts)"
| "element [] (CharData d # ts) = element [] ts"
| "element ((n, as, ns) # stk) (CharData d # ts) = element ((n, as, CharNode d # ns) # stk) ts"

definition decode_element :: "(string \<Rightarrow> bool) \<Rightarrow> string \<Rightarrow> Node option" where
  "decode_element u s = element [] (tokens u None [] s)"

end
