(* ===== verification/Xml.thy ===== *)
theory Xml
  imports GoXml
begin

text \<open>
  \<^verbatim>\<open>gb28181/xml.go\<close>: the MANSCDP messages and their XML form. The encoder writes elements in the order of the
  fields and leaves out empty ones where the tag says so. The decoder reads the tree of the first element into
  the structures (\<open>xml_decode\<close>). \<open>Parse\<close> takes the decoder as an argument, so that what does not depend on it is shown
  for every decoder.
\<close>

section \<open>Data\<close>

definition CmdKeepalive :: string where "CmdKeepalive = ''Keepalive''"
definition CmdCatalog :: string where "CmdCatalog = ''Catalog''"
definition CmdDeviceInfo :: string where "CmdDeviceInfo = ''DeviceInfo''"
definition CmdDeviceStatus :: string where "CmdDeviceStatus = ''DeviceStatus''"
definition CmdDeviceConfig :: string where "CmdDeviceConfig = ''DeviceConfig''"
definition CmdConfigDownload :: string where "CmdConfigDownload = ''ConfigDownload''"
definition CmdPresetQuery :: string where "CmdPresetQuery = ''PresetQuery''"
definition CmdPTZCmd :: string where "CmdPTZCmd = ''PTZCmd''"
definition CmdTeleBoot :: string where "CmdTeleBoot = ''TeleBoot''"

record Item =
  it_DeviceID :: string
  it_Name :: string
  it_Manufacturer :: string
  it_Model :: string
  it_Owner :: string
  it_CivilCode :: string
  it_Address :: string
  it_Parental :: string
  it_ParentID :: string
  it_SafetyWay :: string
  it_RegisterWay :: string
  it_Secrecy :: string
  it_IPAddress :: string
  it_Port :: string
  it_Password :: string
  it_Status :: string
  it_Longitude :: string
  it_Latitude :: string

definition empty_item :: Item where
  "empty_item = \<lparr>it_DeviceID = [], it_Name = [], it_Manufacturer = [], it_Model = [], it_Owner = [], it_CivilCode = [],
     it_Address = [], it_Parental = [], it_ParentID = [], it_SafetyWay = [], it_RegisterWay = [], it_Secrecy = [],
     it_IPAddress = [], it_Port = [], it_Password = [], it_Status = [], it_Longitude = [], it_Latitude = []\<rparr>"

record DeviceList =
  dl_Num :: string
  dl_Items :: "Item list"

record Envelope =
  en_XMLName :: string
  en_CmdType :: string
  en_SN :: int
  en_DeviceID :: string
  en_SeqNum :: int
  en_PTZCmd :: string
  en_TeleBoot :: string
  en_RecordCmd :: string
  en_GuardCmd :: string
  en_AlarmCmd :: string
  en_AlarmTime :: string
  en_AlarmType :: string
  en_AlarmPriority :: string
  en_AlarmMethod :: string
  en_AlarmDescription :: string
  en_Longitude :: string
  en_Latitude :: string
  en_DeviceList :: "DeviceList option"
  en_DeviceName :: string
  en_Manufacturer :: string
  en_Model :: string
  en_Firmware :: string
  en_Result :: string
  en_Status :: string
  en_Reason :: string
  en_Online :: string
  en_SumNum :: int

definition empty_envelope :: Envelope where
  "empty_envelope = \<lparr>en_XMLName = [], en_CmdType = [], en_SN = 0, en_DeviceID = [], en_SeqNum = 0, en_PTZCmd = [], en_TeleBoot = [], 
     en_RecordCmd = [], en_GuardCmd = [], en_AlarmCmd = [], en_AlarmTime = [], en_AlarmType = [], 
     en_AlarmPriority = [], en_AlarmMethod = [], en_AlarmDescription = [], en_Longitude = [], 
     en_Latitude = [], en_DeviceList = None, en_DeviceName = [], en_Manufacturer = [], en_Model = [], 
     en_Firmware = [], en_Result = [], en_Status = [], en_Reason = [], en_Online = [], en_SumNum = 0\<rparr>"

section \<open>Encoding\<close>

definition xml_elem :: "string \<Rightarrow> string \<Rightarrow> string" where
  "xml_elem name inner = ''<'' @ name @ ''>'' @ inner @ ''</'' @ name @ ''>''"

definition xml_text :: "string \<Rightarrow> string \<Rightarrow> string" where
  "xml_text name v = xml_elem name (xml_escape v)"

text \<open>Fields with \<^verbatim>\<open>omitempty\<close>.\<close>

definition xml_opt :: "string \<Rightarrow> string \<Rightarrow> string" where
  "xml_opt name v = (if v = [] then [] else xml_text name v)"

definition xml_int :: "string \<Rightarrow> int \<Rightarrow> string" where
  "xml_int name n = xml_elem name (Itoa n)"

definition xml_int_opt :: "string \<Rightarrow> int \<Rightarrow> string" where
  "xml_int_opt name n = (if n = 0 then [] else xml_int name n)"

definition encode_item :: "Item \<Rightarrow> string" where
  "encode_item i = xml_elem ''Item'' (xml_text ''DeviceID'' (it_DeviceID i) @
     xml_opt ''Name'' (it_Name i) @ xml_opt ''Manufacturer'' (it_Manufacturer i) @ xml_opt ''Model'' (it_Model i) @
     xml_opt ''Owner'' (it_Owner i) @ xml_opt ''CivilCode'' (it_CivilCode i) @ xml_opt ''Address'' (it_Address i) @
     xml_opt ''Parental'' (it_Parental i) @ xml_opt ''ParentID'' (it_ParentID i) @ xml_opt ''SafetyWay'' (it_SafetyWay i) @
     xml_opt ''RegisterWay'' (it_RegisterWay i) @ xml_opt ''Secrecy'' (it_Secrecy i) @ xml_opt ''IPAddress'' (it_IPAddress i) @
     xml_opt ''Port'' (it_Port i) @ xml_opt ''Password'' (it_Password i) @ xml_opt ''Status'' (it_Status i) @
     xml_opt ''Longitude'' (it_Longitude i) @ xml_opt ''Latitude'' (it_Latitude i))"

definition encode_list :: "DeviceList \<Rightarrow> string" where
  "encode_list l = ''<DeviceList Num='' @ [DQ] @ xml_escape (dl_Num l) @ [DQ] @ ''>'' @ concat (map encode_item (dl_Items l)) @ ''</DeviceList>''"

definition encode_envelope :: "Envelope \<Rightarrow> string" where
  "encode_envelope e = xml_elem (if en_XMLName e = [] then ''Envelope'' else en_XMLName e) (
     xml_text ''CmdType'' (en_CmdType e) @ xml_int ''SN'' (en_SN e) @ xml_text ''DeviceID'' (en_DeviceID e) @
     xml_int_opt ''SeqNum'' (en_SeqNum e) @ xml_opt ''PTZCmd'' (en_PTZCmd e) @ xml_opt ''TeleBoot'' (en_TeleBoot e) @
     xml_opt ''RecordCmd'' (en_RecordCmd e) @ xml_opt ''GuardCmd'' (en_GuardCmd e) @ xml_opt ''AlarmCmd'' (en_AlarmCmd e) @
     xml_opt ''AlarmTime'' (en_AlarmTime e) @ xml_opt ''AlarmType'' (en_AlarmType e) @ xml_opt ''AlarmPriority'' (en_AlarmPriority e) @
     xml_opt ''AlarmMethod'' (en_AlarmMethod e) @ xml_opt ''AlarmDescription'' (en_AlarmDescription e) @ xml_opt ''Longitude'' (en_Longitude e) @
     xml_opt ''Latitude'' (en_Latitude e) @ (case en_DeviceList e of None \<Rightarrow> [] | Some l \<Rightarrow> encode_list l) @ xml_opt ''DeviceName'' (en_DeviceName e) @
     xml_opt ''Manufacturer'' (en_Manufacturer e) @ xml_opt ''Model'' (en_Model e) @ xml_opt ''Firmware'' (en_Firmware e) @
     xml_opt ''Result'' (en_Result e) @ xml_opt ''Status'' (en_Status e) @ xml_opt ''Reason'' (en_Reason e) @
     xml_opt ''Online'' (en_Online e) @ xml_int_opt ''SumNum'' (en_SumNum e))"

definition xml_Header :: string where
  "xml_Header = ''<?xml version='' @ [DQ] @ ''1.0'' @ [DQ] @ '' encoding='' @ [DQ] @ ''UTF-8'' @ [DQ] @ ''?>'' @ [LF]"

definition Marshal :: "Envelope \<Rightarrow> string" where
  "Marshal e = xml_Header @ encode_envelope e"

definition MarshalRoot :: "string \<Rightarrow> Envelope \<Rightarrow> string" where
  "MarshalRoot root e = Marshal (e\<lparr>en_XMLName := root\<rparr>)"

definition BuildNotify :: "Envelope \<Rightarrow> string" where "BuildNotify e = MarshalRoot ''Notify'' e"
definition BuildQuery :: "Envelope \<Rightarrow> string" where "BuildQuery e = MarshalRoot ''Query'' e"
definition BuildControl :: "Envelope \<Rightarrow> string" where "BuildControl e = MarshalRoot ''Control'' e"
definition BuildResponse :: "Envelope \<Rightarrow> string" where "BuildResponse e = MarshalRoot ''Response'' e"

section \<open>Decoding\<close>

text \<open>The character data of an element that is read into a string or a number; elements in it are skipped.\<close>

fun char_data :: "Node list \<Rightarrow> string" where
  "char_data [] = []"
| "char_data (CharNode d # ns) = d @ char_data ns"
| "char_data (Elem n as ms # ns) = char_data ns"

text \<open>\<^verbatim>\<open>copyValue\<close> for an \<^verbatim>\<open>int\<close>: empty text is zero.\<close>

definition int_data :: "string \<Rightarrow> int option" where
  "int_data d = (if d = [] then Some 0 else Atoi (TrimSpace d))"

definition item_fields :: "(string \<times> (string \<Rightarrow> Item \<Rightarrow> Item)) list" where
  "item_fields = [
     (''DeviceID'', \<lambda>v i. i\<lparr>it_DeviceID := v\<rparr>), (''Name'', \<lambda>v i. i\<lparr>it_Name := v\<rparr>),
     (''Manufacturer'', \<lambda>v i. i\<lparr>it_Manufacturer := v\<rparr>), (''Model'', \<lambda>v i. i\<lparr>it_Model := v\<rparr>),
     (''Owner'', \<lambda>v i. i\<lparr>it_Owner := v\<rparr>), (''CivilCode'', \<lambda>v i. i\<lparr>it_CivilCode := v\<rparr>),
     (''Address'', \<lambda>v i. i\<lparr>it_Address := v\<rparr>), (''Parental'', \<lambda>v i. i\<lparr>it_Parental := v\<rparr>),
     (''ParentID'', \<lambda>v i. i\<lparr>it_ParentID := v\<rparr>), (''SafetyWay'', \<lambda>v i. i\<lparr>it_SafetyWay := v\<rparr>),
     (''RegisterWay'', \<lambda>v i. i\<lparr>it_RegisterWay := v\<rparr>), (''Secrecy'', \<lambda>v i. i\<lparr>it_Secrecy := v\<rparr>),
     (''IPAddress'', \<lambda>v i. i\<lparr>it_IPAddress := v\<rparr>), (''Port'', \<lambda>v i. i\<lparr>it_Port := v\<rparr>),
     (''Password'', \<lambda>v i. i\<lparr>it_Password := v\<rparr>), (''Status'', \<lambda>v i. i\<lparr>it_Status := v\<rparr>),
     (''Longitude'', \<lambda>v i. i\<lparr>it_Longitude := v\<rparr>), (''Latitude'', \<lambda>v i. i\<lparr>it_Latitude := v\<rparr>)]"

definition envelope_fields :: "(string \<times> (string \<Rightarrow> Envelope \<Rightarrow> Envelope)) list" where
  "envelope_fields = [
     (''CmdType'', \<lambda>v e. e\<lparr>en_CmdType := v\<rparr>), (''DeviceID'', \<lambda>v e. e\<lparr>en_DeviceID := v\<rparr>),
     (''PTZCmd'', \<lambda>v e. e\<lparr>en_PTZCmd := v\<rparr>), (''TeleBoot'', \<lambda>v e. e\<lparr>en_TeleBoot := v\<rparr>),
     (''RecordCmd'', \<lambda>v e. e\<lparr>en_RecordCmd := v\<rparr>), (''GuardCmd'', \<lambda>v e. e\<lparr>en_GuardCmd := v\<rparr>),
     (''AlarmCmd'', \<lambda>v e. e\<lparr>en_AlarmCmd := v\<rparr>), (''AlarmTime'', \<lambda>v e. e\<lparr>en_AlarmTime := v\<rparr>),
     (''AlarmType'', \<lambda>v e. e\<lparr>en_AlarmType := v\<rparr>), (''AlarmPriority'', \<lambda>v e. e\<lparr>en_AlarmPriority := v\<rparr>),
     (''AlarmMethod'', \<lambda>v e. e\<lparr>en_AlarmMethod := v\<rparr>), (''AlarmDescription'', \<lambda>v e. e\<lparr>en_AlarmDescription := v\<rparr>),
     (''Longitude'', \<lambda>v e. e\<lparr>en_Longitude := v\<rparr>), (''Latitude'', \<lambda>v e. e\<lparr>en_Latitude := v\<rparr>),
     (''DeviceName'', \<lambda>v e. e\<lparr>en_DeviceName := v\<rparr>), (''Manufacturer'', \<lambda>v e. e\<lparr>en_Manufacturer := v\<rparr>),
     (''Model'', \<lambda>v e. e\<lparr>en_Model := v\<rparr>), (''Firmware'', \<lambda>v e. e\<lparr>en_Firmware := v\<rparr>),
     (''Result'', \<lambda>v e. e\<lparr>en_Result := v\<rparr>), (''Status'', \<lambda>v e. e\<lparr>en_Status := v\<rparr>),
     (''Reason'', \<lambda>v e. e\<lparr>en_Reason := v\<rparr>), (''Online'', \<lambda>v e. e\<lparr>en_Online := v\<rparr>)]"

definition envelope_ints :: "(string \<times> (int \<Rightarrow> Envelope \<Rightarrow> Envelope)) list" where
  "envelope_ints = [
     (''SN'', \<lambda>v e. e\<lparr>en_SN := v\<rparr>), (''SeqNum'', \<lambda>v e. e\<lparr>en_SeqNum := v\<rparr>),
     (''SumNum'', \<lambda>v e. e\<lparr>en_SumNum := v\<rparr>)]"

text \<open>An element whose name no field has is skipped; of several with one name the last counts.\<close>

fun set_item :: "Node \<Rightarrow> Item \<Rightarrow> Item" where
  "set_item (CharNode d) i = i"
| "set_item (Elem n as ns) i = (case map_of item_fields n of Some f \<Rightarrow> f (char_data ns) i | None \<Rightarrow> i)"

fun set_list :: "Node \<Rightarrow> DeviceList \<Rightarrow> DeviceList" where
  "set_list (CharNode d) l = l"
| "set_list (Elem n as ns) l =
     (if n = ''Item'' then l\<lparr>dl_Items := dl_Items l @ [fold set_item ns empty_item]\<rparr> else l)"

text \<open>A list is read into the one that is already there, if there is one.\<close>

definition read_list :: "(string \<times> string) list \<Rightarrow> Node list \<Rightarrow> DeviceList option \<Rightarrow> DeviceList" where
  "read_list as ns l =
     fold set_list ns (fold (\<lambda>(a, v) m. if a = ''Num'' then m\<lparr>dl_Num := v\<rparr> else m) as
       (case l of None \<Rightarrow> \<lparr>dl_Num = [], dl_Items = []\<rparr> | Some m \<Rightarrow> m))"

fun set_envelope :: "Node \<Rightarrow> Envelope \<Rightarrow> Envelope option" where
  "set_envelope (CharNode d) e = Some e"
| "set_envelope (Elem n as ns) e =
     (if n = ''DeviceList'' then Some (e\<lparr>en_DeviceList := Some (read_list as ns (en_DeviceList e))\<rparr>)
      else case map_of envelope_ints n of
        Some f \<Rightarrow> map_option (\<lambda>v. f v e) (int_data (char_data ns))
      | None \<Rightarrow> (case map_of envelope_fields n of Some f \<Rightarrow> Some (f (char_data ns) e) | None \<Rightarrow> Some e))"

fun set_envelopes :: "Node list \<Rightarrow> Envelope \<Rightarrow> Envelope option" where
  "set_envelopes [] e = Some e"
| "set_envelopes (n # ns) e = (case set_envelope n e of None \<Rightarrow> None | Some e' \<Rightarrow> set_envelopes ns e')"

type_synonym XmlDecoder = "string \<Rightarrow> Envelope result"

definition xml_decode :: "(string \<Rightarrow> bool) \<Rightarrow> XmlDecoder" where
  "xml_decode u s = (case decode_element u s of
     Some (Elem n as ns) \<Rightarrow>
       (case set_envelopes ns (empty_envelope\<lparr>en_XMLName := n\<rparr>) of Some e \<Rightarrow> Inr e | None \<Rightarrow> Inl ErrOther)
   | _ \<Rightarrow> Inl ErrOther)"

definition Parse :: "XmlDecoder \<Rightarrow> string \<Rightarrow> Envelope result" where
  "Parse dec body = (case IndexByte body CHR ''<'' of
     None \<Rightarrow> Inl ErrOther
   | Some i \<Rightarrow> (case dec (drop i body) of Inl _ \<Rightarrow> Inl ErrOther | Inr e \<Rightarrow> Inr e))"

section \<open>Correctness\<close>

text \<open>What is printed starts with a tag, so nothing of it is skipped when it is read.\<close>

lemma Parse_Marshal: "Parse dec (Marshal e) = (case dec (Marshal e) of Inl _ \<Rightarrow> Inl ErrOther | Inr e' \<Rightarrow> Inr e')"
proof -
  obtain t where t: "Marshal e = CHR ''<'' # t" by (simp add: Marshal_def xml_Header_def)
  then have "IndexByte (Marshal e) CHR ''<'' = Some 0" by (simp add: IndexByte_def)
  with t show ?thesis by (simp add: Parse_def)
qed

end
