(* ===== verification/Platform.thy ===== *)
theory Platform
  imports UaProps Sdp Xml
begin

text \<open>
  \<^verbatim>\<open>gb28181/platform.go\<close>: the server side of GB/T 28181 on top of the user agent: registration with Digest
  authentication, keep-alives and catalogues, and the requests the platform sends to devices. The password
  lookup is the application's; the XML decoder and the hash functions are parameters.
\<close>

section \<open>Data\<close>

record PlatformConfig =
  pc_ServerID :: string
  pc_ServerHost :: string
  pc_ListenPort :: int
  pc_Realm :: string
  pc_Password :: "(string \<Rightarrow> string option) option"
  pc_Expires :: int

record DeviceStatus =
  ds_ID :: string
  ds_LastSeen :: int
  ds_Registered :: bool
  ds_Nonce :: string
  ds_lastReg :: "Request option"

record DeviceEvent =
  ev_DeviceID :: string
  ev_Type :: string
  ev_Envelope :: "Envelope option"

record Platform =
  pl_cfg :: PlatformConfig
  pl_ua :: UA
  pl_port :: int
  pl_devices :: "(string \<times> DeviceStatus) list"
  pl_sn :: int
  pl_channelOf :: "(string \<times> string) list"
  pl_OnDevice :: bool

definition NewPlatform :: "PlatformConfig \<Rightarrow> PlatformConfig result" where
  "NewPlatform cfg =
     (if pc_ServerID cfg = [] then Inl ErrOther
      else Inr (cfg\<lparr>pc_ListenPort := (if pc_ListenPort cfg = 0 then 5060 else pc_ListenPort cfg),
                    pc_Realm := (if pc_Realm cfg = [] then pc_ServerID cfg else pc_Realm cfg),
                    pc_Expires := (if pc_Expires cfg = 0 then 3600 else pc_Expires cfg)\<rparr>))"

text \<open>\<^verbatim>\<open>Run\<close> with the transport bound: the user agent and its callbacks.\<close>

definition Platform_Run :: "PlatformConfig \<Rightarrow> Transport \<Rightarrow> bool \<Rightarrow> Platform" where
  "Platform_Run cfg tp onDevice =
     \<lparr>pl_cfg = cfg,
      pl_ua = SetCallbacks (no_callbacks\<lparr>has_OnRegister := True, has_OnMessage := True, has_OnInvite := True\<rparr>)
                (NewUA tp (pc_ServerHost cfg) (pc_ListenPort cfg)),
      pl_port = pc_ListenPort cfg, pl_devices = [], pl_sn = 0, pl_channelOf = [], pl_OnDevice = onDevice\<rparr>"

section \<open>The registry\<close>

definition new_device :: "string \<Rightarrow> DeviceStatus" where
  "new_device deviceID = \<lparr>ds_ID = deviceID, ds_LastSeen = 0, ds_Registered = False, ds_Nonce = [], ds_lastReg = None\<rparr>"

definition device :: "string \<Rightarrow> Platform \<Rightarrow> DeviceStatus" where
  "device deviceID p = (case map_of (pl_devices p) deviceID of Some d \<Rightarrow> d | None \<Rightarrow> new_device deviceID)"

definition put_device :: "string \<Rightarrow> DeviceStatus \<Rightarrow> Platform \<Rightarrow> Platform" where
  "put_device deviceID d p = p\<lparr>pl_devices := map_put deviceID d (pl_devices p)\<rparr>"

definition Devices :: "Platform \<Rightarrow> DeviceStatus list" where
  "Devices p = map snd (pl_devices p)"

definition IsOnline :: "int \<Rightarrow> string \<Rightarrow> Platform \<Rightarrow> bool" where
  "IsOnline now deviceID p = (case map_of (pl_devices p) deviceID of
     None \<Rightarrow> False
   | Some d \<Rightarrow> ds_Registered d \<and> now - ds_LastSeen d < pc_Expires (pl_cfg p) * 1000000000)"

definition Platform_nextSN :: "Platform \<Rightarrow> Platform \<times> int" where
  "Platform_nextSN p = (p\<lparr>pl_sn := pl_sn p + 1\<rparr>, pl_sn p + 1)"

definition resolveDevice :: "string \<Rightarrow> Platform \<Rightarrow> string option" where
  "resolveDevice sid p =
     (let registered = (\<lambda>i. case map_of (pl_devices p) i of None \<Rightarrow> False | Some d \<Rightarrow> ds_Registered d) in
      if registered sid then Some sid
      else (case map_of (pl_channelOf p) sid of
        Some dev \<Rightarrow> if registered dev then Some dev
                    else (case filter (\<lambda>e. ds_Registered (snd e)) (pl_devices p) of [e] \<Rightarrow> Some (fst e) | _ \<Rightarrow> None)
      | None \<Rightarrow> (case filter (\<lambda>e. ds_Registered (snd e)) (pl_devices p) of [e] \<Rightarrow> Some (fst e) | _ \<Rightarrow> None)))"

definition lastRegisterOf :: "string \<Rightarrow> Platform \<Rightarrow> Request option" where
  "lastRegisterOf deviceID p = (case map_of (pl_devices p) deviceID of None \<Rightarrow> None | Some d \<Rightarrow> ds_lastReg d)"

definition deviceAddr :: "string \<Rightarrow> Platform \<Rightarrow> Addr option" where
  "deviceAddr deviceID0 p =
     (let deviceID = (case resolveDevice deviceID0 p of Some parent \<Rightarrow> parent | None \<Rightarrow> deviceID0) in
      case lastRegisterOf deviceID p of
        None \<Rightarrow> None
      | Some req \<Rightarrow> (case Request_Via req of
          None \<Rightarrow> None
        | Some via \<Rightarrow>
            if VHost via = [] then None
            else Some \<lparr>Network = ''udp'', AHost = VHost via, APort = (if VPort via = 0 then 5060 else VPort via)\<rparr>))"

section \<open>Registration\<close>

text \<open>\<^verbatim>\<open>%q\<close>; printable characters outside ASCII are not escaped.\<close>

definition go_quote_char :: "char \<Rightarrow> string" where
  "go_quote_char c =
     (if c = DQ then [BS, DQ]
      else if c = BS then [BS, BS]
      else if c = CHR 0x07 then BS # ''a'' else if c = CHR 0x08 then BS # ''b''
      else if c = CHR 0x0C then BS # ''f'' else if c = LF then BS # ''n''
      else if c = CR then BS # ''r'' else if c = TAB then BS # ''t''
      else if c = CHR 0x0B then BS # ''v''
      else if (of_char c :: nat) < 0x20 \<or> (of_char c :: nat) = 0x7F then BS # CHR ''x'' # hex_byte (of_char c)
      else [c])"

definition go_quote :: "string \<Rightarrow> string" where
  "go_quote s = [DQ] @ concat (map go_quote_char s) @ [DQ]"

definition challenge_value :: "string \<Rightarrow> string \<Rightarrow> string" where
  "challenge_value realm nonce = ''Digest realm='' @ go_quote realm @ '' nonce='' @ go_quote nonce"

definition challenge_response :: "string \<Rightarrow> string \<Rightarrow> Response" where
  "challenge_response realm nonce =
     (let r = NewResponse 401 [] in
      r\<lparr>SHeaders := Headers_Set (NewHeader ''WWW-Authenticate'' (challenge_value realm nonce)) (SHeaders r)\<rparr>)"

text \<open>The value the platform expects in the \<^verbatim>\<open>response\<close> parameter.\<close>

definition expected_response :: "Hashes \<Rightarrow> Auth \<Rightarrow> string \<Rightarrow> string" where
  "expected_response h auth password =
     (let ha1 = MD5Hex h [Username auth @ '':'' @ Realm auth @ '':'' @ password];
          ha2 = MD5Hex h [REGISTER @ '':'' @ AuURI auth]
      in MD5Hex h [ha1 @ '':'' @ Nonce auth @ '':'' @ ha2])"

definition answer :: "OS \<Rightarrow> int \<Rightarrow> nat option \<Rightarrow> Response \<Rightarrow> DeviceEvent option \<Rightarrow> Platform \<Rightarrow> (Platform \<times> DeviceEvent option) result" where
  "answer os now stx resp ev p =
     bind_result (respond_stx os now stx resp (pl_ua p)) (\<lambda>ua. Inr (p\<lparr>pl_ua := ua\<rparr>, ev))"

definition device_event :: "string \<Rightarrow> string \<Rightarrow> Envelope option \<Rightarrow> Platform \<Rightarrow> DeviceEvent option" where
  "device_event deviceID ty e p =
     (if pl_OnDevice p then Some \<lparr>ev_DeviceID = deviceID, ev_Type = ty, ev_Envelope = e\<rparr> else None)"

definition register_auth :: "Request \<Rightarrow> Auth" where
  "register_auth req = ParseAuth (headerValue (Headers_Get (RHeaders req) ''Authorization''))"

definition from_user :: "Request \<Rightarrow> string result" where
  "from_user req = (case Request_From req of
     None \<Rightarrow> Inl GoPanic
   | Some f \<Rightarrow> (case AUri f of None \<Rightarrow> Inl GoPanic | Some u \<Rightarrow> Inr (User u)))"

definition onRegister ::
    "Hashes \<Rightarrow> OS \<Rightarrow> int \<Rightarrow> Entropy \<Rightarrow> Request \<Rightarrow> nat option \<Rightarrow> Platform \<Rightarrow> (Platform \<times> DeviceEvent option) result" where
  "onRegister h os now ent req stx p = bind_result (from_user req) (\<lambda>deviceID.
     (let auth = register_auth req in
      if AuScheme auth = [] \<or> AuResponse auth = [] then
        (let nonce = NewCallID ent;
             p1 = put_device deviceID ((device deviceID p)\<lparr>ds_Nonce := nonce, ds_lastReg := Some req\<rparr>) p
         in answer os now stx (challenge_response (pc_Realm (pl_cfg p)) nonce) None p1)
      else
        (case (case pc_Password (pl_cfg p) of None \<Rightarrow> None | Some f \<Rightarrow> f deviceID) of
           None \<Rightarrow> answer os now stx (NewResponse 403 []) None p
         | Some password \<Rightarrow>
             (let auth1 = (if Realm auth = [] then auth\<lparr>Realm := pc_Realm (pl_cfg p)\<rparr> else auth) in
              if expected_response h auth1 password \<noteq> AuResponse auth
              then answer os now stx (NewResponse 401 []) None p
              else
                (let p1 = put_device deviceID ((device deviceID p)\<lparr>ds_Registered := True, ds_LastSeen := now\<rparr>) p
                 in answer os now stx (NewResponse 200 []) (device_event deviceID ''registered'' None p) p1)))))"

section \<open>Messages\<close>

definition ua_answer :: "OS \<Rightarrow> int \<Rightarrow> nat option \<Rightarrow> int \<Rightarrow> Platform \<Rightarrow> Platform" where
  "ua_answer os now stx status p = p\<lparr>pl_ua := fst (UA_Respond os now None stx status [] None (pl_ua p))\<rparr>"

definition record_channels :: "string \<Rightarrow> Envelope \<Rightarrow> Platform \<Rightarrow> Platform" where
  "record_channels deviceID e p = (case en_DeviceList e of
     None \<Rightarrow> p
   | Some l \<Rightarrow> p\<lparr>pl_channelOf := fold (\<lambda>it. map_put (it_DeviceID it) deviceID) (dl_Items l) (pl_channelOf p)\<rparr>)"

definition onMessage ::
    "XmlDecoder \<Rightarrow> OS \<Rightarrow> int \<Rightarrow> Request \<Rightarrow> nat option \<Rightarrow> Platform \<Rightarrow> (Platform \<times> DeviceEvent option) result" where
  "onMessage dec os now req stx p = (case Parse dec (RBody req) of
     Inl _ \<Rightarrow> Inr (ua_answer os now stx 400 p, None)
   | Inr e \<Rightarrow>
       (let p1 = ua_answer os now stx 200 p in
        bind_result (from_user req) (\<lambda>deviceID.
          (let p2 = put_device deviceID ((device deviceID p1)\<lparr>ds_LastSeen := now\<rparr>) p1;
               p3 = (if en_CmdType e = CmdCatalog then record_channels deviceID e p2 else p2)
           in Inr (p3, device_event deviceID ''message'' (Some e) p3)))))"

text \<open>A packet on its way through the transaction layer and the user agent to the platform. A call of the
  application's own handler is the second component.\<close>

definition Platform_packet ::
    "Hashes \<Rightarrow> XmlDecoder \<Rightarrow> OS \<Rightarrow> int \<Rightarrow> Entropy \<Rightarrow> Entropy \<Rightarrow> Packet \<Rightarrow> Platform \<Rightarrow> (Platform \<times> DeviceEvent option \<times> UaCall option) result" where
  "Platform_packet h dec os now tag ent pkt p = bind_result (UA_packet os now tag pkt (pl_ua p)) (\<lambda>(ua, call).
     (let p' = p\<lparr>pl_ua := ua\<rparr> in
      case call of
        Some (CallRegister req stx) \<Rightarrow> bind_result (onRegister h os now ent req stx p') (\<lambda>(q, ev). Inr (q, ev, None))
      | Some (CallMessage req stx) \<Rightarrow> bind_result (onMessage dec os now req stx p') (\<lambda>(q, ev). Inr (q, ev, None))
      | c \<Rightarrow> Inr (p', None, c)))"

section \<open>Requests to devices\<close>

definition gb_from :: "Entropy \<Rightarrow> string \<Rightarrow> string \<Rightarrow> Address" where
  "gb_from tag user host = plain_address (Some (plain_uri ''sip'' user host 0)) (Some (Params_Set ''tag'' (NewTag tag) NewParams))"

definition gb_message :: "Entropy \<Rightarrow> Entropy \<Rightarrow> string \<Rightarrow> string \<Rightarrow> Uri \<Rightarrow> string \<Rightarrow> string \<Rightarrow> Request" where
  "gb_message tag callid user host to toText body =
     (let h1 = Headers_Set (NewHeader ''From'' (Address_String (gb_from tag user host))) [];
          h2 = Headers_Set (NewHeader ''To'' toText) h1;
          h3 = Headers_Set (NewHeader ''Call-ID'' (NewCallID callid)) h2;
          h4 = Headers_Set (CSeqHeader \<lparr>Seq = 1, CMethod = MESSAGE\<rparr>) h3;
          h5 = Headers_Set (MaxForwards 70) h4
      in Request_SetBody ''application/MANSCDP+xml'' (Some body) ((NewRequest MESSAGE (Some to))\<lparr>RHeaders := h5\<rparr>))"

definition Platform_newMessage :: "Entropy \<Rightarrow> Entropy \<Rightarrow> string \<Rightarrow> Addr \<Rightarrow> string \<Rightarrow> Platform \<Rightarrow> Request" where
  "Platform_newMessage tag callid deviceID dst body p =
     (let to = plain_uri ''sip'' deviceID (AHost dst) (APort dst)
      in gb_message tag callid (pc_ServerID (pl_cfg p)) (pc_ServerHost (pl_cfg p)) to (Address_String (plain_address (Some to) None)) body)"

text \<open>What \<^verbatim>\<open>sendMessage\<close> waits for: the first event of the transaction, or ten seconds (\<open>None\<close>).\<close>

fun first_event :: "TxEvent option \<Rightarrow> Response result" where
  "first_event None = Inl ErrTimeout"
| "first_event (Some (EvErr e)) = Inl e"
| "first_event (Some (EvResponse r)) = Inr r"

definition Platform_sendMessage ::
    "OS \<Rightarrow> int \<Rightarrow> Entropy \<Rightarrow> Entropy \<Rightarrow> Entropy \<Rightarrow> string \<Rightarrow> string \<Rightarrow> TxEvent option \<Rightarrow> Platform \<Rightarrow> Platform \<times> unit result" where
  "Platform_sendMessage os now tag callid br deviceID body ev p = (case deviceAddr deviceID p of
     None \<Rightarrow> (p, Inl ErrOther)
   | Some dst \<Rightarrow>
       (case UA_request os now br callid (Platform_newMessage tag callid deviceID dst body p) dst (pl_ua p) of
          (ua, Inl e) \<Rightarrow> (p\<lparr>pl_ua := ua\<rparr>, Inl e)
        | (ua, Inr ctx) \<Rightarrow> (p\<lparr>pl_ua := ua\<rparr>, bind_result (first_event ev) (\<lambda>_. Inr ()))))"

definition query :: "string \<Rightarrow> int \<Rightarrow> string \<Rightarrow> Envelope" where
  "query cmd sn deviceID = empty_envelope\<lparr>en_CmdType := cmd, en_SN := sn, en_DeviceID := deviceID\<rparr>"

definition QueryCatalog where
  "QueryCatalog os now tag callid br deviceID ev p = (case Platform_nextSN p of (p1, sn) \<Rightarrow>
     Platform_sendMessage os now tag callid br deviceID (BuildQuery (query CmdCatalog sn deviceID)) ev p1)"

definition QueryDeviceInfo where
  "QueryDeviceInfo os now tag callid br deviceID ev p = (case Platform_nextSN p of (p1, sn) \<Rightarrow>
     Platform_sendMessage os now tag callid br deviceID (BuildQuery (query CmdDeviceInfo sn deviceID)) ev p1)"

definition PTZControl where
  "PTZControl os now tag callid br deviceID ptzCmd ev p = (case Platform_nextSN p of (p1, sn) \<Rightarrow>
     Platform_sendMessage os now tag callid br deviceID (BuildControl ((query CmdPTZCmd sn deviceID)\<lparr>en_PTZCmd := ptzCmd\<rparr>)) ev p1)"

definition Platform_invite ::
    "OS \<Rightarrow> int \<Rightarrow> Entropy \<Rightarrow> Entropy \<Rightarrow> Entropy \<Rightarrow> string \<Rightarrow> StreamSDP \<Rightarrow> Platform \<Rightarrow> Platform \<times> ClientInviteSession result" where
  "Platform_invite os now tag callid br deviceID s p = (case deviceAddr deviceID p of
     None \<Rightarrow> (p, Inl ErrOther)
   | Some dst \<Rightarrow>
       (case UA_Invite os now tag callid br (plain_uri ''sip'' deviceID (AHost dst) (APort dst))
               (plain_address (Some (plain_uri ''sip'' (pc_ServerID (pl_cfg p)) (pc_ServerHost (pl_cfg p)) 0)) None)
               ''application/sdp'' (Some (Build s)) (pl_port p) (pl_ua p) of
          (ua, r) \<Rightarrow> (p\<lparr>pl_ua := ua\<rparr>, r)))"

definition live_stream :: "string \<Rightarrow> string \<Rightarrow> int \<Rightarrow> 32 word \<Rightarrow> StreamSDP" where
  "live_stream serverID mediaIP mediaPort ssrc = \<lparr>st_Username = serverID, st_Address = mediaIP, st_SSRC = ssrc, st_RecvOnly = True,
     st_VideoPort = mediaPort, st_AudioPort = 0, st_SessionName = [], st_StartTime = [], st_EndTime = []\<rparr>"

definition InviteLive where
  "InviteLive os now tag callid br deviceID mediaIP mediaPort ssrc p =
     Platform_invite os now tag callid br deviceID (live_stream (pc_ServerID (pl_cfg p)) mediaIP mediaPort ssrc) p"

definition InvitePlayback where
  "InvitePlayback os now tag callid br deviceID mediaIP mediaPort ssrc start stop p =
     Platform_invite os now tag callid br deviceID
       ((live_stream (pc_ServerID (pl_cfg p)) mediaIP mediaPort ssrc)\<lparr>st_SessionName := ''PlayBack'', st_StartTime := start, st_EndTime := stop\<rparr>) p"

section \<open>The platform in operation\<close>

text \<open>What can happen while \<^verbatim>\<open>Run\<close> serves: a packet, a call of the application, a move of the transaction layer.\<close>

inductive platform_step :: "Platform \<Rightarrow> Platform \<Rightarrow> bool" where
  packet: "Platform_packet h dec os now tag ent pkt p = Inr (p', ev, call) \<Longrightarrow> platform_step p p'"
| catalog: "QueryCatalog os now tag ent br deviceID event p = (p', r) \<Longrightarrow> platform_step p p'"
| device_info: "QueryDeviceInfo os now tag ent br deviceID event p = (p', r) \<Longrightarrow> platform_step p p'"
| ptz: "PTZControl os now tag ent br deviceID ptzCmd event p = (p', r) \<Longrightarrow> platform_step p p'"
| live: "InviteLive os now tag ent br deviceID ip port ssrc p = (p', s) \<Longrightarrow> platform_step p p'"
| playback: "InvitePlayback os now tag ent br deviceID ip port ssrc start stop p = (p', s) \<Longrightarrow> platform_step p p'"
| transactions: "tx_step (ua_tm (pl_ua p)) m \<Longrightarrow> platform_step p (p\<lparr>pl_ua := (pl_ua p)\<lparr>ua_tm := m\<rparr>\<rparr>)"

inductive_cases platform_stepE: "platform_step p p'"

end
