(* ===== verification/Device.thy ===== *)
theory Device
  imports Platform
begin

text \<open>
  \<^verbatim>\<open>gb28181/device.go\<close>: the device side of GB/T 28181: registration with Digest authentication, keep-alives,
  the answers to queries, and streaming calls. The callbacks of the application are flags; what is handed to
  them is the value \<open>DeviceCall\<close>.
\<close>

section \<open>Data\<close>

record DeviceInfoT =
  di_Name :: string
  di_Manufacturer :: string
  di_Model :: string
  di_Firmware :: string

record DeviceConfig =
  dc_DeviceID :: string
  dc_Password :: string
  dc_ServerID :: string
  dc_ServerHost :: string
  dc_ServerPort :: int
  dc_LocalHost :: string
  dc_LocalPort :: int
  dc_KeepaliveInterval :: int
  dc_RegisterTimeout :: int
  dc_Channels :: "Item list"
  dc_DeviceInfo :: DeviceInfoT

record Stream =
  sm_Dialog :: nat
  sm_SSRC :: "32 word"
  sm_SDP :: SDP

record Device =
  dv_cfg :: DeviceConfig
  dv_ua :: UA
  dv_sn :: int
  dv_nonce :: string
  dv_regOk :: bool
  dv_streams :: "(string \<times> Stream) list"
  dv_OnControl :: bool
  dv_OnInvite :: bool
  dv_OnError :: bool

datatype DeviceCall = ControlCall Envelope | InviteCall SDP nat | ErrorCall error

definition NewDevice :: "DeviceConfig \<Rightarrow> DeviceConfig result" where
  "NewDevice cfg =
     (if dc_DeviceID cfg = [] \<or> dc_ServerID cfg = [] \<or> dc_ServerHost cfg = [] then Inl ErrOther
      else Inr (cfg\<lparr>dc_LocalPort := (if dc_LocalPort cfg = 0 then 5060 else dc_LocalPort cfg),
                    dc_KeepaliveInterval := (if dc_KeepaliveInterval cfg = 0 then 60 * 1000000000 else dc_KeepaliveInterval cfg),
                    dc_RegisterTimeout := (if dc_RegisterTimeout cfg = 0 then 10 * 1000000000 else dc_RegisterTimeout cfg)\<rparr>))"

text \<open>\<^verbatim>\<open>Start\<close> with the transport bound, up to the loop \<^verbatim>\<open>run\<close>.\<close>

definition Device_Start :: "DeviceConfig \<Rightarrow> Transport \<Rightarrow> bool \<Rightarrow> bool \<Rightarrow> bool \<Rightarrow> Device" where
  "Device_Start cfg tp onControl onInvite onError =
     \<lparr>dv_cfg = cfg,
      dv_ua = SetCallbacks (no_callbacks\<lparr>has_OnMessage := True, has_OnInvite := True, has_OnBye := True\<rparr>)
                (NewUA tp (dc_LocalHost cfg) (dc_LocalPort cfg)),
      dv_sn = 0, dv_nonce = [], dv_regOk = False, dv_streams = [],
      dv_OnControl = onControl, dv_OnInvite = onInvite, dv_OnError = onError\<rparr>"

definition Registered :: "Device \<Rightarrow> bool" where "Registered d = dv_regOk d"

definition Device_nextSN :: "Device \<Rightarrow> Device \<times> int" where
  "Device_nextSN d = (d\<lparr>dv_sn := dv_sn d + 1\<rparr>, dv_sn d + 1)"

definition serverUri :: "Device \<Rightarrow> Uri" where
  "serverUri d = plain_uri ''sip'' (dc_ServerID (dv_cfg d)) (dc_ServerHost (dv_cfg d)) (dc_ServerPort (dv_cfg d))"

definition selfUri :: "Device \<Rightarrow> Uri" where
  "selfUri d = plain_uri ''sip'' (dc_DeviceID (dv_cfg d)) (dc_LocalHost (dv_cfg d)) (dc_LocalPort (dv_cfg d))"

definition serverAddr :: "Device \<Rightarrow> Addr" where
  "serverAddr d = \<lparr>Network = ''udp'', AHost = dc_ServerHost (dv_cfg d), APort = dc_ServerPort (dv_cfg d)\<rparr>"

section \<open>Registration\<close>

definition quoted :: "string \<Rightarrow> string" where "quoted s = [DQ] @ s @ [DQ]"

definition authHeaderString :: "Auth \<Rightarrow> string" where
  "authHeaderString a =
     ''Digest username='' @ quoted (Username a) @ '' realm='' @ quoted (Realm a) @ '' nonce='' @ quoted (Nonce a) @
     '' uri='' @ quoted (AuURI a) @
     (if AuResponse a \<noteq> [] then '' response='' @ quoted (AuResponse a) else []) @
     (if Algorithm a \<noteq> [] then '' algorithm='' @ quoted (Algorithm a) else []) @
     (if Cnonce a \<noteq> [] then '' cnonce='' @ quoted (Cnonce a) @ '' nc='' @ Nc a @ '' qop='' @ Qop a else []) @
     (if Opaque a \<noteq> [] then '' opaque='' @ quoted (Opaque a) else [])"

definition newRegister :: "Entropy \<Rightarrow> string \<Rightarrow> 32 word \<Rightarrow> Auth option \<Rightarrow> Device \<Rightarrow> Request" where
  "newRegister tag callID cseq auth d =
     (let to = serverUri d;
          h1 = Headers_Set (NewHeader ''To'' (Address_String (plain_address (Some to) None))) [];
          h2 = Headers_Set (NewHeader ''From'' (Address_String (gb_from tag (dc_DeviceID (dv_cfg d)) (dc_ServerHost (dv_cfg d))))) h1;
          h3 = Headers_Set (NewHeader ''Call-ID'' callID) h2;
          h4 = Headers_Set (CSeqHeader \<lparr>Seq = cseq, CMethod = REGISTER\<rparr>) h3;
          h5 = Headers_Set (MaxForwards 70) h4;
          h6 = Headers_Set (NewHeader ''Contact'' (Uri_String (Some (selfUri d)))) h5;
          h7 = Headers_Set (NewHeader ''Expires'' ''3600'') h6;
          h8 = Headers_Set (NewHeader ''User-Agent'' ''go-sip-gb28181'') h7;
          h9 = (case auth of None \<Rightarrow> h8 | Some a \<Rightarrow> Headers_Set (NewHeader ''Authorization'' (authHeaderString a)) h8)
      in (NewRequest REGISTER (Some to))\<lparr>RHeaders := h9\<rparr>)"

text \<open>The local function \<^verbatim>\<open>send\<close> of \<^verbatim>\<open>register\<close>; \<open>ev\<close> is the first event of the transaction, or \<open>None\<close> when the
  timeout comes first.\<close>

definition register_send ::
    "OS \<Rightarrow> int \<Rightarrow> Entropy \<Rightarrow> Entropy \<Rightarrow> string \<Rightarrow> 32 word \<Rightarrow> Auth option \<Rightarrow> TxEvent option \<Rightarrow> Device \<Rightarrow> Device \<times> Response result" where
  "register_send os now tag br callID cseq auth ev d =
     (case UA_request os now br br (newRegister tag callID cseq auth d) (serverAddr d) (dv_ua d) of
        (ua, Inl e) \<Rightarrow> (d\<lparr>dv_ua := ua\<rparr>, Inl e)
      | (ua, Inr ctx) \<Rightarrow> (d\<lparr>dv_ua := ua\<rparr>, first_event ev))"

definition learn_nonce :: "Response \<Rightarrow> Device \<Rightarrow> Device" where
  "learn_nonce resp d = (case Headers_Get (SHeaders resp) ''WWW-Authenticate'' of
     None \<Rightarrow> d
   | Some www \<Rightarrow> (let a = ParseAuth (Header_Value www) in if Nonce a \<noteq> [] then d\<lparr>dv_nonce := Nonce a\<rparr> else d))"

definition lastChallenge :: "Device \<Rightarrow> Auth option" where
  "lastChallenge d =
     (if dv_nonce d = [] then None
      else Some (empty_auth\<lparr>AuScheme := ''Digest'', Realm := dc_ServerID (dv_cfg d), Nonce := dv_nonce d\<rparr>))"

definition register_auth_for :: "Hashes \<Rightarrow> Auth \<Rightarrow> Device \<Rightarrow> Auth" where
  "register_auth_for h challenge d =
     DigestResponse h challenge REGISTER (''sip:'' @ dc_ServerID (dv_cfg d) @ ''@'' @ dc_ServerHost (dv_cfg d))
       (dc_DeviceID (dv_cfg d)) (dc_Password (dv_cfg d)) [] []"

definition register ::
    "Hashes \<Rightarrow> OS \<Rightarrow> int \<Rightarrow> Entropy \<Rightarrow> (nat \<Rightarrow> Entropy) \<Rightarrow> (nat \<Rightarrow> Entropy) \<Rightarrow> (nat \<Rightarrow> TxEvent option) \<Rightarrow> Device \<Rightarrow> Device \<times> unit result" where
  "register h os now callid tag br ev d =
     (let callID = NewCallID callid in
      case register_send os now (tag 0) (br 0) callID 1 None (ev 0) d of
        (d1, Inl e) \<Rightarrow> (d1, Inl e)
      | (d1, Inr resp) \<Rightarrow>
          if StatusCode resp = 200 then (d1, Inr ())
          else if StatusCode resp \<noteq> 401 then (d1, Inl ErrOther)
          else
            (let d2 = learn_nonce resp d1 in
             case lastChallenge d2 of
               None \<Rightarrow> (d2, Inl ErrOther)
             | Some challenge \<Rightarrow>
                 (case register_send os now (tag 1) (br 1) callID 2 (Some (register_auth_for h challenge d2)) (ev 1) d2 of
                    (d3, Inl e) \<Rightarrow> (d3, Inl e)
                  | (d3, Inr resp2) \<Rightarrow> (d3, if StatusCode resp2 = 200 then Inr () else Inl ErrOther))))"

section \<open>Messages\<close>

definition Device_newMessage :: "Entropy \<Rightarrow> Entropy \<Rightarrow> Uri \<Rightarrow> string \<Rightarrow> Device \<Rightarrow> Request" where
  "Device_newMessage tag callid to body d =
     gb_message tag callid (dc_DeviceID (dv_cfg d)) (dc_ServerHost (dv_cfg d)) to (Uri_String (Some to)) body"

definition SendMessage :: "OS \<Rightarrow> int \<Rightarrow> Entropy \<Rightarrow> Entropy \<Rightarrow> Entropy \<Rightarrow> string \<Rightarrow> Device \<Rightarrow> Device \<times> unit result" where
  "SendMessage os now tag callid br body d =
     (case UA_request os now br callid (Device_newMessage tag callid (serverUri d) body d) (serverAddr d) (dv_ua d) of
        (ua, r) \<Rightarrow> (d\<lparr>dv_ua := ua\<rparr>, bind_result r (\<lambda>_. Inr ())))"

definition keepalive_envelope :: "int \<Rightarrow> string \<Rightarrow> Envelope" where
  "keepalive_envelope sn deviceID = (query CmdKeepalive sn deviceID)\<lparr>en_SeqNum := 1\<rparr>"

definition Keepalive :: "OS \<Rightarrow> int \<Rightarrow> Entropy \<Rightarrow> Entropy \<Rightarrow> Entropy \<Rightarrow> Device \<Rightarrow> Device \<times> unit result" where
  "Keepalive os now tag callid br d = (case Device_nextSN d of (d1, sn) \<Rightarrow>
     SendMessage os now tag callid br (BuildNotify (keepalive_envelope sn (dc_DeviceID (dv_cfg d)))) d1)"

definition query_answer :: "Envelope \<Rightarrow> Device \<Rightarrow> Envelope option" where
  "query_answer e d =
     (let cfg = dv_cfg d; base = query (en_CmdType e) (en_SN e) (dc_DeviceID cfg); items = dc_Channels cfg; info = dc_DeviceInfo cfg in
      if en_CmdType e = CmdCatalog then
        Some (base\<lparr>en_SumNum := int (length items),
                   en_DeviceList := Some \<lparr>dl_Num = Itoa (int (length items)), dl_Items = items\<rparr>\<rparr>)
      else if en_CmdType e = CmdDeviceInfo then
        Some (base\<lparr>en_DeviceName := di_Name info, en_Manufacturer := di_Manufacturer info, en_Model := di_Model info,
                   en_Firmware := di_Firmware info, en_Result := ''OK''\<rparr>)
      else if en_CmdType e = CmdDeviceStatus then Some (base\<lparr>en_Status := ''ONLINE'', en_Result := ''OK''\<rparr>)
      else None)"

definition is_control_cmd :: "string \<Rightarrow> bool" where
  "is_control_cmd cmd \<longleftrightarrow> cmd \<in> {CmdPTZCmd, CmdTeleBoot, CmdDeviceConfig, CmdConfigDownload, CmdPresetQuery}"

definition Device_onMessage ::
    "XmlDecoder \<Rightarrow> OS \<Rightarrow> int \<Rightarrow> Entropy \<Rightarrow> Entropy \<Rightarrow> Entropy \<Rightarrow> Request \<Rightarrow> nat option \<Rightarrow> Device \<Rightarrow> Device \<times> DeviceCall option" where
  "Device_onMessage dec os now tag callid br req stx d =
     (let respond = (\<lambda>status. d\<lparr>dv_ua := fst (UA_Respond os now None stx status [] None (dv_ua d))\<rparr>) in
      case Parse dec (RBody req) of
        Inl _ \<Rightarrow> (respond 400, None)
      | Inr e \<Rightarrow>
          (let d1 = respond 200 in
           case query_answer e d1 of
             Some a \<Rightarrow> (fst (SendMessage os now tag callid br (BuildResponse a) d1), None)
           | None \<Rightarrow> (d1, if is_control_cmd (en_CmdType e) \<and> dv_OnControl d1 then Some (ControlCall e) else None)))"

section \<open>Streams\<close>

definition answer_sdp :: "SDP \<Rightarrow> Device \<Rightarrow> StreamSDP" where
  "answer_sdp remote d =
     \<lparr>st_Username = dc_DeviceID (dv_cfg d), st_Address = dc_LocalHost (dv_cfg d), st_SSRC = sd_SSRC remote, st_RecvOnly = False,
      st_VideoPort = sd_VideoPort remote, st_AudioPort = sd_AudioPort remote, st_SessionName = sd_SessionName remote,
      st_StartTime = sd_StartTime remote, st_EndTime = sd_EndTime remote\<rparr>"

definition invite_answer :: "Entropy \<Rightarrow> Request \<Rightarrow> SDP \<Rightarrow> Device \<Rightarrow> Response" where
  "invite_answer tag req remote d =
     (let r = NewResponse 200 [];
          h1 = (case Request_To req of
                  None \<Rightarrow> SHeaders r
                | Some to \<Rightarrow> Headers_Add (NewHeader ''To'' (Address_String (Address_SetTag (NewTag tag) to))) (SHeaders r));
          h2 = Headers_Set (NewHeader ''Contact'' (Address_String (plain_address (Some (selfUri d)) None))) h1
      in Response_SetBody ''application/sdp'' (Some (Build (answer_sdp remote d))) (r\<lparr>SHeaders := h2\<rparr>))"

definition Device_onInvite ::
    "OS \<Rightarrow> int \<Rightarrow> Entropy \<Rightarrow> Request \<Rightarrow> nat option \<Rightarrow> nat \<Rightarrow> Device \<Rightarrow> (Device \<times> DeviceCall option) result" where
  "Device_onInvite os now tag req stx dlg d = (case ParseSDP (RBody req) of
     Inl _ \<Rightarrow> Inr (d\<lparr>dv_ua := fst (UA_Respond os now None stx 400 [] None (dv_ua d))\<rparr>, None)
   | Inr remote \<Rightarrow> (case stx of
       None \<Rightarrow> Inl GoPanic
     | Some i \<Rightarrow> (case m_heap (ua_tm (dv_ua d)) i of
         Some (STx t) \<Rightarrow>
           (case ServerTx_Respond os now i t (invite_answer tag req remote d) (ua_tm (dv_ua d)) of
              (tm, r) \<Rightarrow>
                (let d1 = d\<lparr>dv_ua := (dv_ua d)\<lparr>ua_tm := tm\<rparr>\<rparr> in
                 case r of
                   Inl _ \<Rightarrow> Inr (d1, None)
                 | Inr _ \<Rightarrow>
                     Inr (d1\<lparr>dv_streams := map_put (Request_CallID req) \<lparr>sm_Dialog = dlg, sm_SSRC = sd_SSRC remote, sm_SDP = remote\<rparr> (dv_streams d1)\<rparr>,
                          if dv_OnInvite d1 then Some (InviteCall remote dlg) else None)))
       | _ \<Rightarrow> Inl GoPanic)))"

definition Device_onBye :: "Request \<Rightarrow> Device \<Rightarrow> Device" where
  "Device_onBye req d = d\<lparr>dv_streams := map_delete (Request_CallID req) (dv_streams d)\<rparr>"

definition Device_packet ::
    "XmlDecoder \<Rightarrow> OS \<Rightarrow> int \<Rightarrow> Entropy \<Rightarrow> Entropy \<Rightarrow> Entropy \<Rightarrow> Packet \<Rightarrow> Device \<Rightarrow> (Device \<times> DeviceCall option) result" where
  "Device_packet dec os now tag callid br pkt d = bind_result (UA_packet os now tag pkt (dv_ua d)) (\<lambda>(ua, call).
     (let d' = d\<lparr>dv_ua := ua\<rparr> in
      case call of
        Some (CallMessage req stx) \<Rightarrow> Inr (Device_onMessage dec os now tag callid br req stx d')
      | Some (CallInvite req stx dlg) \<Rightarrow> Device_onInvite os now callid req stx dlg d'
      | Some (CallBye req dlg stx) \<Rightarrow> Inr (Device_onBye req d', None)
      | _ \<Rightarrow> Inr (d', None)))"

section \<open>The loop\<close>

text \<open>\<^verbatim>\<open>run\<close>: the variables of the loop, an attempt to register with the wait that follows its failure, and a
  tick of the keep-alive timer. \<open>Milli\<close> is a millisecond.\<close>

definition Milli :: int where "Milli = 1000000"

record RunState =
  rs_registered :: bool
  rs_backoff :: int

definition run_init :: RunState where
  "run_init = \<lparr>rs_registered = False, rs_backoff = 500 * Milli\<rparr>"

definition run_attempt :: "Device \<times> unit result \<Rightarrow> RunState \<Rightarrow> Device \<times> RunState \<times> DeviceCall option" where
  "run_attempt r st = (case r of
     (d, Inr _) \<Rightarrow> (d\<lparr>dv_regOk := True\<rparr>, st\<lparr>rs_registered := True, rs_backoff := 500 * Milli\<rparr>, None)
   | (d, Inl e) \<Rightarrow>
       (d, st\<lparr>rs_backoff := (if rs_backoff st < 8000 * Milli then rs_backoff st * 2 else rs_backoff st)\<rparr>,
        if dv_OnError d then Some (ErrorCall e) else None))"

definition run_tick :: "Device \<times> unit result \<Rightarrow> RunState \<Rightarrow> Device \<times> RunState \<times> DeviceCall option" where
  "run_tick r st = (case r of
     (d, Inl e) \<Rightarrow> if dv_OnError d then (d, st\<lparr>rs_registered := False\<rparr>, Some (ErrorCall e)) else (d, st, None)
   | (d, Inr _) \<Rightarrow> (d, st, None))"

inductive run_step :: "Device \<times> RunState \<Rightarrow> Device \<times> RunState \<Rightarrow> bool" where
  attempt: "\<not> rs_registered st \<Longrightarrow>
    run_attempt (register h os now callid tag br ev d) st = (d', st', call) \<Longrightarrow> run_step (d, st) (d', st')"
| tick: "rs_registered st \<Longrightarrow>
    run_tick (Keepalive os now tag0 callid br0 d) st = (d', st', call) \<Longrightarrow> run_step (d, st) (d', st')"
| packet: "Device_packet dec os now tag0 callid br0 pkt d = Inr (d', call) \<Longrightarrow> run_step (d, st) (d', st)"

inductive_cases run_stepE: "run_step s s'"

end
