(* ===== verification/GbCorrect.thy ===== *)
theory GbCorrect
  imports Device TransportCorrect
begin

text \<open>
  Lemmas on the GB/T 28181 device and platform: the credentials a device writes are the ones the platform
  reads, the registry is a keyed table that only a verified REGISTER extends by a registered device, and
  the device's loop keeps its backoff within bounds.
\<close>

section \<open>Messages as they are received\<close>

text \<open>What the parser makes of a header list that was written to the wire: every header is read again from
  its name and value.\<close>

definition as_received :: "Header list \<Rightarrow> Header list" where
  "as_received hs = map (\<lambda>h. newTypedHeader (Header_Name h) (Header_Value h)) hs"

lemma newTypedHeader_name: "Header_Name (newTypedHeader k v) = k"
  by (simp add: newTypedHeader_def Let_def split: sum.split option.split)

lemma as_received_Get:
  "Headers_Get (as_received hs) k = map_option (\<lambda>h. newTypedHeader (Header_Name h) (Header_Value h)) (Headers_Get hs k)"
  by (induction hs) (simp_all add: as_received_def Headers_Get_def named_def newTypedHeader_name)

section \<open>Credentials\<close>

definition plain_id :: "string \<Rightarrow> bool" where
  "plain_id s \<longleftrightarrow> s \<noteq> [] \<and> wf_plain_field s \<and> BS \<notin> set s"

text \<open>The documented form of a hash: a non-empty string of digits and letters.\<close>

definition hex_hash :: "Hashes \<Rightarrow> bool" where
  "hex_hash h \<longleftrightarrow> (\<forall>s. plain_id (md5_hex h s))"

lemma plain_id_append: "plain_id s \<Longrightarrow> plain_id t \<Longrightarrow> plain_id (s @ t)"
  by (auto simp: plain_id_def wf_plain_field_def)

lemma plain_id_quoted: "plain_id s \<Longrightarrow> wf_quoted_field s"
  by (simp add: plain_id_def wf_quoted_field_def wf_plain_field_def)

definition auth_words :: "(bool \<times> string \<times> string) list \<Rightarrow> string" where
  "auth_words is = concat (map (\<lambda>i. SP # auth_part i) is)"

lemma splitAuth_words:
  "wf_item i \<Longrightarrow> list_all wf_item is \<Longrightarrow>
   splitAuthParams_loop False False (auth_part i) (auth_words is) = map auth_part (i # is)"
proof (induction "is" arbitrary: i)
  case Nil
  then show ?case by (simp add: auth_words_def auth_part_trim)
next
  case (Cons j js)
  then show ?case
    using splitAuth_part [of j "auth_words js"] auth_part_trim [of i]
    by (simp add: auth_words_def)
qed

lemma ParseAuth_loop_fold:
  "list_all wf_item is \<Longrightarrow> ParseAuth_loop (map auth_part is) a = fold (\<lambda>(q, k, v). auth_field k v) is a"
proof (induction "is" arbitrary: a)
  case (Cons i "is")
  obtain q k v where i: "i = (q, k, v)" by (cases i) auto
  show ?case using Cons ParseAuth_loop_item [of q k v] by (simp add: i del: ParseAuth_loop.simps)
qed simp

lemma auth_words_vis: "list_all wf_item is \<Longrightarrow> vis_ends (CHR ''D'' # s @ auth_part i @ auth_words is)" if "wf_item i"
proof -
  assume a: "list_all wf_item is"
  have "\<exists>t j. wf_item j \<and> auth_part i @ auth_words is = t @ auth_part j"
  proof (cases "is" rule: rev_cases)
    case Nil
    then have "auth_part i @ auth_words is = [] @ auth_part i" by (simp add: auth_words_def)
    then show ?thesis using that by blast
  next
    case (snoc js j)
    then have "auth_part i @ auth_words is = (auth_part i @ auth_words js @ [SP]) @ auth_part j"
      by (simp add: auth_words_def)
    moreover have "wf_item j" using a snoc by simp
    ultimately show ?thesis by blast
  qed
  then obtain t j where "wf_item j" "auth_part i @ auth_words is = t @ auth_part j" by blast
  then show ?thesis using auth_part_trim [of j] by (auto simp: vis_ends_def visible_def)
qed

text \<open>Parameters separated by spaces, as the GB/T 28181 package writes them.\<close>

lemma ParseAuth_words:
  assumes "wf_item i" "list_all wf_item is"
  shows "ParseAuth (''Digest '' @ auth_part i @ auth_words is) =
    fold (\<lambda>(q, k, v). auth_field k v) (i # is) (empty_auth\<lparr>AuScheme := ''Digest'', Other := Some NewParams\<rparr>)"
proof -
  let ?v = "''Digest '' @ auth_part i @ auth_words is"
  have "TrimSpace ?v = ?v"
    using auth_words_vis [OF assms, of "''igest ''"] by (intro TrimSpace_vis) simp
  moreover have "IndexAny ?v [SP, TAB, CHR '',''] = Some 6"
    using IndexAny_append [of "''Digest''" "[SP, TAB, CHR '','']" SP "auth_part i @ auth_words is"] by simp
  moreover have "splitAuthParams (auth_part i @ auth_words is) = map auth_part (i # is)"
    using splitAuth_part [OF assms(1)] splitAuth_words [OF assms] by (simp add: splitAuthParams_def)
  ultimately show ?thesis
    using ParseAuth_loop_fold [of "i # is"] assms by (simp add: ParseAuth_def del: ParseAuth_loop.simps fold.simps)
qed

lemma wf_item_quoted: "wf_field_name k \<Longrightarrow> plain_id v \<Longrightarrow> wf_item (True, k, v)"
  by (simp add: wf_item_def plain_id_quoted) (simp add: plain_id_def)

lemma auth_field_names:
  "wf_field_name ''username''" "wf_field_name ''realm''" "wf_field_name ''nonce''" "wf_field_name ''uri''"
  "wf_field_name ''response''"
  by (simp_all add: wf_field_name_def visible_def ToLower_def lower_char_def)

text \<open>Credentials without the optional parameters, the ones a device sends.\<close>

lemma ParseAuth_device:
  assumes "plain_id (Username a)" "plain_id (Realm a)" "plain_id (Nonce a)" "plain_id (AuURI a)" "plain_id (AuResponse a)"
    and opt: "Algorithm a = []" "Cnonce a = []" "Opaque a = []"
  shows "ParseAuth (authHeaderString a) =
    empty_auth\<lparr>AuScheme := ''Digest'', Username := Username a, Realm := Realm a, Nonce := Nonce a, AuURI := AuURI a,
      AuResponse := AuResponse a, Other := Some NewParams\<rparr>"
proof -
  let ?is = "[(True, ''realm'', Realm a), (True, ''nonce'', Nonce a), (True, ''uri'', AuURI a), (True, ''response'', AuResponse a)]"
  have "authHeaderString a = ''Digest '' @ auth_part (True, ''username'', Username a) @ auth_words ?is"
    using assms by (simp add: authHeaderString_def quoted_def auth_words_def auth_part_def plain_id_def)
  moreover have "list_all wf_item ?is" "wf_item (True, ''username'', Username a)"
    using assms auth_field_names by (simp_all add: wf_item_quoted)
  ultimately show ?thesis
    using ParseAuth_words [of "(True, ''username'', Username a)" ?is] by (simp add: auth_field_def empty_auth_def)
qed

lemma go_quote_plain: "plain_id s \<Longrightarrow> go_quote s = quoted s"
proof -
  assume a: "plain_id s"
  have "go_quote_char c = [c]" if "c \<in> set s" for c
  proof -
    have "visible c" "c \<noteq> DQ" "c \<noteq> BS" using a that by (auto simp: plain_id_def wf_plain_field_def list_all_iff)
    moreover have "(0x20::nat) < of_char c" "of_char c \<noteq> (0x7F::nat)" using \<open>visible c\<close> by (simp_all add: visible_def)
    then have "c \<noteq> CHR 0x07" "c \<noteq> CHR 0x08" "c \<noteq> CHR 0x0C" "c \<noteq> LF" "c \<noteq> CR" "c \<noteq> TAB" "c \<noteq> CHR 0x0B" by auto
    ultimately show ?thesis unfolding go_quote_char_def
      using \<open>(0x20::nat) < of_char c\<close> \<open>of_char c \<noteq> (0x7F::nat)\<close> by simp
  qed
  then have "concat (map go_quote_char s) = s" by (induction s) simp_all
  then show ?thesis by (simp add: go_quote_def quoted_def)
qed

lemma ParseAuth_challenge:
  assumes "plain_id realm" "plain_id nonce"
  shows "ParseAuth (challenge_value realm nonce) =
    empty_auth\<lparr>AuScheme := ''Digest'', Realm := realm, Nonce := nonce, Other := Some NewParams\<rparr>"
proof -
  have "challenge_value realm nonce = ''Digest '' @ auth_part (True, ''realm'', realm) @ auth_words [(True, ''nonce'', nonce)]"
    using assms by (simp add: challenge_value_def go_quote_plain quoted_def auth_words_def auth_part_def)
  then show ?thesis
    using ParseAuth_words [of "(True, ''realm'', realm)" "[(True, ''nonce'', nonce)]"] assms auth_field_names
    by (simp add: wf_item_quoted auth_field_def empty_auth_def)
qed

lemma received_auth:
  assumes "wf_auth (ParseAuth v)" "k \<in> set auth_header_names"
  shows "Header_Value (newTypedHeader k v) = Auth_Value (ParseAuth v)"
    and "ParseAuth (Header_Value (newTypedHeader k v)) = ParseAuth v"
proof -
  show "Header_Value (newTypedHeader k v) = Auth_Value (ParseAuth v)"
    using assms(2) typed_names_simps(1) [of k] by (simp add: newTypedHeader_def Let_def)
  then show "ParseAuth (Header_Value (newTypedHeader k v)) = ParseAuth v"
    using ParseAuth_Value [OF assms(1)] by simp
qed


lemma plain_auth_wf:
  assumes "plain_id (Nonce a)" "AuScheme a = ''Digest''"
    and "list_all (\<lambda>f. f = [] \<or> plain_id f) [Username a, Realm a, AuURI a, AuResponse a]"
    and "Cnonce a = []" "Opaque a = []" "Nc a = []" "Qop a = []" "Algorithm a = []" "Other a = Some NewParams"
  shows "wf_auth a"
proof -
  have e: "wf_quoted_field []" "wf_plain_field []" by (simp_all add: wf_quoted_field_def wf_plain_field_def)
  have p: "wf_quoted_field f \<and> wf_plain_field f" if "f = [] \<or> plain_id f" for f
    using that e plain_id_quoted by (auto simp: plain_id_def)
  have "wf_plain_field ''Digest''" by (simp add: wf_plain_field_def visible_def)
  then show ?thesis
    using assms p e by (simp add: wf_auth_def NewParams_def) (simp add: plain_id_def)
qed

section \<open>Registration end to end\<close>

definition wf_device_ids :: "DeviceConfig \<Rightarrow> bool" where
  "wf_device_ids cfg \<longleftrightarrow> plain_id (dc_DeviceID cfg) \<and> plain_id (dc_ServerID cfg) \<and> plain_id (dc_ServerHost cfg)"

lemma plain_at: "plain_id ''sip:''" "plain_id ''@''" "plain_id ''@localhost''"
  by (simp_all add: plain_id_def wf_plain_field_def visible_def)

lemma register_names:
  "CanonicalName ''WWW-Authenticate'' = ''WWW-Authenticate''" "CanonicalName ''Authorization'' = ''Authorization''"
  "CanonicalName ''Max-Forwards'' = ''Max-Forwards''" "CanonicalName ''Contact'' = ''Contact''"
  "CanonicalName ''Expires'' = ''Expires''" "CanonicalName ''User-Agent'' = ''User-Agent''"
  by code_simp+

lemma learn_nonce_challenge:
  assumes "plain_id realm" "plain_id nonce"
  shows "learn_nonce ((challenge_response realm nonce)\<lparr>SHeaders := as_received (SHeaders (challenge_response realm nonce))\<rparr>) d =
    d\<lparr>dv_nonce := nonce\<rparr>"
proof -
  let ?k = "''WWW-Authenticate''" and ?v = "challenge_value realm nonce"
  have g: "Headers_Get (SHeaders (challenge_response realm nonce)) ?k = Some (NewHeader ?k ?v)"
    by (simp add: challenge_response_def Let_def Get_Set_hit NewHeader_def same_name_def)
  have p: "ParseAuth ?v = empty_auth\<lparr>AuScheme := ''Digest'', Realm := realm, Nonce := nonce, Other := Some NewParams\<rparr>"
    by (rule ParseAuth_challenge [OF assms])
  have "wf_auth (ParseAuth ?v)" using assms unfolding p by (intro plain_auth_wf) (simp_all add: empty_auth_def)
  then have "ParseAuth (Header_Value (newTypedHeader ?k ?v)) = ParseAuth ?v"
    by (rule received_auth) (simp add: auth_header_names_def)
  then show ?thesis
    using g p assms by (simp add: learn_nonce_def as_received_Get NewHeader_def plain_id_def empty_auth_def)
qed

lemma newRegister_headers:
  "Headers_Get (RHeaders (newRegister tag callID cseq (Some a) d)) ''Authorization'' =
     Some (NewHeader ''Authorization'' (authHeaderString a))"
  "Headers_Get (RHeaders (newRegister tag callID cseq auth d)) ''From'' =
     Some (NewHeader ''From'' (Address_String (gb_from tag (dc_DeviceID (dv_cfg d)) (dc_ServerHost (dv_cfg d)))))"
  by (simp_all add: newRegister_def Let_def Get_Set_hit Get_Set_miss NewHeader_def same_name_def register_names sample_names
      del: Headers_Set.simps split: option.split)

lemma from_user_received:
  assumes "wf_address a" "AUri a = Some u"
    and "Headers_Get (RHeaders req) ''From'' = Some (newTypedHeader ''From'' (Address_String a))"
  shows "from_user req = Inr (User u)"
proof -
  let ?l = "\<lparr>NHName = [], Addresses = [a], All = False\<rparr>"
  have "ParseNameAddrList (NameAddrList_Value ?l) = Inr ?l"
    using assms(1) by (intro ParseNameAddrList_Value) (simp add: wf_addrlist_def)
  then have "ParseNameAddrList (Address_String a) = Inr ?l" by (simp add: NameAddrList_Value_def)
  then have "newTypedHeader ''From'' (Address_String a) = NameAddrListHeader (?l\<lparr>NHName := ''From''\<rparr>)"
    by (simp add: newTypedHeader_def addr_header_names_def)
  then show ?thesis using assms(2,3) by (simp add: from_user_def Request_From_def NameAddrList_First_def)
qed

lemma device_credentials:
  assumes "wf_device_ids (dv_cfg d)" "hex_hash h" "plain_id (Nonce ch)" "Realm ch = dc_ServerID (dv_cfg d)"
    "Algorithm ch = []" "Qop ch = []" "Opaque ch = []"
    and "Headers_Get (RHeaders req) ''Authorization'' =
      Some (newTypedHeader ''Authorization'' (authHeaderString (register_auth_for h ch d)))"
  shows "AuScheme (register_auth req) = ''Digest''" "AuResponse (register_auth req) \<noteq> []" "Realm (register_auth req) \<noteq> []"
    "expected_response h (register_auth req) (dc_Password (dv_cfg d)) = AuResponse (register_auth req)"
proof -
  let ?a = "register_auth_for h ch d"
  let ?p = "ParseAuth (authHeaderString ?a)"
  have ids: "plain_id (dc_DeviceID (dv_cfg d))" "plain_id (dc_ServerID (dv_cfg d))" "plain_id (dc_ServerHost (dv_cfg d))"
    using assms(1) by (simp_all add: wf_device_ids_def)
  have uri: "plain_id (AuURI ?a)"
    using plain_id_append [OF plain_at(1) plain_id_append [OF ids(2) plain_id_append [OF plain_at(2) ids(3)]]]
    by (simp add: register_auth_for_def DigestResponse_def)
  have resp: "AuResponse ?a = expected_response h ?a (dc_Password (dv_cfg d))"
    using assms by (simp add: register_auth_for_def DigestResponse_def digest_value_def digestHashHex_def expected_response_def
        empty_auth_def Let_def ToLower_def)
  have rp: "plain_id (AuResponse ?a)" using assms(2) unfolding resp by (simp add: expected_response_def Let_def MD5Hex_def hex_hash_def)
  have opt: "Algorithm ?a = []" "Cnonce ?a = []" "Opaque ?a = []" "Username ?a = dc_DeviceID (dv_cfg d)"
      "Realm ?a = dc_ServerID (dv_cfg d)" "Nonce ?a = Nonce ch"
    using assms by (simp_all add: register_auth_for_def DigestResponse_def empty_auth_def ToUpper_def)
  have p: "?p = empty_auth\<lparr>AuScheme := ''Digest'', Username := Username ?a, Realm := Realm ?a, Nonce := Nonce ?a, AuURI := AuURI ?a,
      AuResponse := AuResponse ?a, Other := Some NewParams\<rparr>"
    using ids assms(3) uri rp opt by (intro ParseAuth_device) simp_all
  have "wf_auth ?p" using ids assms(3) uri rp opt unfolding p by (intro plain_auth_wf) (simp_all add: empty_auth_def)
  then have "ParseAuth (Header_Value (newTypedHeader ''Authorization'' (authHeaderString ?a))) = ?p"
    by (rule received_auth) (simp add: auth_header_names_def)
  then have r: "register_auth req = ?p" using assms(8) by (simp add: register_auth_def headerValue_def)
  show "AuScheme (register_auth req) = ''Digest''" "AuResponse (register_auth req) \<noteq> []" "Realm (register_auth req) \<noteq> []"
    using rp opt ids(2) unfolding r p by (simp_all add: plain_id_def)
  show "expected_response h (register_auth req) (dc_Password (dv_cfg d)) = AuResponse (register_auth req)"
    using resp unfolding r p by (simp add: expected_response_def Let_def)
qed


section \<open>The registry\<close>

lemma put_device_get [simp]:
  "map_of (pl_devices (put_device k v p)) x = (if x = k then Some v else map_of (pl_devices p) x)"
  by (simp add: put_device_def)

lemma put_device_frame [simp]: "pl_cfg (put_device k v p) = pl_cfg p" "pl_channelOf (put_device k v p) = pl_channelOf p"
  by (simp_all add: put_device_def)

lemma answer_frame:
  assumes "answer os now stx resp ev p = Inr (p', ev')"
  shows "pl_devices p' = pl_devices p" "pl_cfg p' = pl_cfg p" "ev' = ev"
  using assms by (cases "respond_stx os now stx resp (pl_ua p)"; auto simp: answer_def)+

text \<open>Credentials that prove knowledge of the password the application has for the device.\<close>

definition proves_password :: "Hashes \<Rightarrow> PlatformConfig \<Rightarrow> string \<Rightarrow> Request \<Rightarrow> bool" where
  "proves_password h cfg deviceID req \<longleftrightarrow>
     (let auth = register_auth req; auth1 = (if Realm auth = [] then auth\<lparr>Realm := pc_Realm cfg\<rparr> else auth) in
      AuScheme auth \<noteq> [] \<and> AuResponse auth \<noteq> [] \<and>
      (case (case pc_Password cfg of None \<Rightarrow> None | Some f \<Rightarrow> f deviceID) of
         None \<Rightarrow> False
       | Some password \<Rightarrow> expected_response h auth1 password = AuResponse auth))"

definition registered :: "string \<Rightarrow> Platform \<Rightarrow> bool" where
  "registered deviceID p \<longleftrightarrow> (\<exists>d. map_of (pl_devices p) deviceID = Some d \<and> ds_Registered d)"

lemma onRegister_accepts:
  assumes "from_user req = Inr deviceID" "proves_password h (pl_cfg p) deviceID req"
  shows "onRegister h os now ent req stx p =
    answer os now stx (NewResponse 200 []) (device_event deviceID ''registered'' None p)
      (put_device deviceID ((device deviceID p)\<lparr>ds_Registered := True, ds_LastSeen := now\<rparr>) p)"
  using assms by (auto simp: onRegister_def proves_password_def Let_def split: option.splits if_splits)

lemma onRegister_challenges:
  assumes "from_user req = Inr deviceID" "AuScheme (register_auth req) = [] \<or> AuResponse (register_auth req) = []"
  shows "onRegister h os now ent req stx p =
    answer os now stx (challenge_response (pc_Realm (pl_cfg p)) (NewCallID ent)) None
      (put_device deviceID ((device deviceID p)\<lparr>ds_Nonce := NewCallID ent, ds_lastReg := Some req\<rparr>) p)"
  using assms by (simp add: onRegister_def Let_def)

lemma onRegister_rejects:
  assumes "from_user req = Inr deviceID" "AuScheme (register_auth req) \<noteq> []" "AuResponse (register_auth req) \<noteq> []"
    "\<not> proves_password h (pl_cfg p) deviceID req"
  obtains status where "onRegister h os now ent req stx p = answer os now stx (NewResponse status []) None p"
  using assms by (simp add: onRegister_def proves_password_def Let_def split: option.splits)

lemma onRegister_cases:
  assumes "onRegister h os now ent req stx p = Inr (p', ev)"
  obtains (challenge) deviceID nonce where "from_user req = Inr deviceID"
      "pl_devices p' = map_put deviceID ((device deviceID p)\<lparr>ds_Nonce := nonce, ds_lastReg := Some req\<rparr>) (pl_devices p)"
      "pl_cfg p' = pl_cfg p"
  | (accept) deviceID where "from_user req = Inr deviceID" "proves_password h (pl_cfg p) deviceID req"
      "pl_devices p' = map_put deviceID ((device deviceID p)\<lparr>ds_Registered := True, ds_LastSeen := now\<rparr>) (pl_devices p)"
      "pl_cfg p' = pl_cfg p"
  | (reject) "pl_devices p' = pl_devices p" "pl_cfg p' = pl_cfg p"
proof -
  obtain deviceID where u: "from_user req = Inr deviceID"
    using assms by (cases "from_user req") (auto simp: onRegister_def)
  show thesis
  proof (cases "AuScheme (register_auth req) = [] \<or> AuResponse (register_auth req) = []")
    case True
    show thesis
      using assms unfolding onRegister_challenges [OF u True]
      by (intro challenge [OF u]) (auto dest: answer_frame simp: put_device_def)
  next
    case False
    show thesis
    proof (cases "proves_password h (pl_cfg p) deviceID req")
      case True
      show thesis
        using assms unfolding onRegister_accepts [OF u True]
        by (intro accept [OF u True]) (auto dest: answer_frame simp: put_device_def)
    next
      case F: False
      obtain status where "onRegister h os now ent req stx p = answer os now stx (NewResponse status []) None p"
        using onRegister_rejects [OF u _ _ F] False by blast
      with assms have "answer os now stx (NewResponse status []) None p = Inr (p', ev)" by simp
      then show thesis by (intro reject) (auto dest: answer_frame)
    qed
  qed
qed


lemma onMessage_cases:
  assumes "onMessage dec os now req stx p = Inr (p', ev)"
  obtains "pl_devices p' = pl_devices p" "pl_cfg p' = pl_cfg p"
  | deviceID where "from_user req = Inr deviceID" "pl_cfg p' = pl_cfg p"
      "pl_devices p' = map_put deviceID ((device deviceID p)\<lparr>ds_LastSeen := now\<rparr>) (pl_devices p)"
proof (cases "Parse dec (RBody req)")
  case (Inl e)
  then show thesis using assms that(1) by (auto simp: onMessage_def ua_answer_def)
next
  case (Inr e)
  then obtain deviceID where u: "from_user req = Inr deviceID"
    using assms by (cases "from_user req") (auto simp: onMessage_def)
  let ?p1 = "ua_answer os now stx 200 p"
  have dev: "device deviceID ?p1 = device deviceID p" "pl_devices ?p1 = pl_devices p" "pl_cfg ?p1 = pl_cfg p"
    by (simp_all add: ua_answer_def device_def)
  have rc: "pl_devices (record_channels i e q) = pl_devices q" "pl_cfg (record_channels i e q) = pl_cfg q" for i q
    by (simp_all add: record_channels_def split: option.split)
  show thesis
    using assms Inr u dev by (intro that(2) [OF u]) (auto simp: onMessage_def Let_def rc put_device_def)
qed

lemma device_entry:
  "ds_Registered (device k p) \<longleftrightarrow> registered k p"
  by (simp add: device_def registered_def new_device_def split: option.split)

lemma platform_request_frame:
  "Platform_sendMessage os now tag ent br deviceID body event p = (p', r) \<Longrightarrow> pl_devices p' = pl_devices p \<and> pl_cfg p' = pl_cfg p"
  "Platform_invite os now tag ent br deviceID st p = (p', s) \<Longrightarrow> pl_devices p' = pl_devices p \<and> pl_cfg p' = pl_cfg p"
  by (auto simp: Platform_sendMessage_def Platform_invite_def split: option.splits prod.splits sum.splits)

text \<open>Every step leaves the registry alone or changes one entry in one of three ways.\<close>

lemma Platform_packet_cases:
  assumes "Platform_packet h dec os now tag ent pkt p = Inr (p', ev, call)"
  obtains (same) "pl_devices p' = pl_devices p"
  | (challenge) deviceID nonce req where
      "pl_devices p' = map_put deviceID ((device deviceID p)\<lparr>ds_Nonce := nonce, ds_lastReg := Some req\<rparr>) (pl_devices p)"
  | (accept) deviceID ua req stx where "UA_packet os now tag pkt (pl_ua p) = Inr (ua, Some (CallRegister req stx))"
      "from_user req = Inr deviceID" "proves_password h (pl_cfg p) deviceID req"
      "pl_devices p' = map_put deviceID ((device deviceID p)\<lparr>ds_Registered := True, ds_LastSeen := now\<rparr>) (pl_devices p)"
  | (seen) deviceID where "pl_devices p' = map_put deviceID ((device deviceID p)\<lparr>ds_LastSeen := now\<rparr>) (pl_devices p)"
proof -
  obtain ua c where u: "UA_packet os now tag pkt (pl_ua p) = Inr (ua, c)"
    using assms by (cases "UA_packet os now tag pkt (pl_ua p)") (auto simp: Platform_packet_def)
  let ?q = "p\<lparr>pl_ua := ua\<rparr>"
  have q: "device i ?q = device i p" for i by (simp add: device_def)
  consider req stx where "c = Some (CallRegister req stx)" "\<exists>e. onRegister h os now ent req stx ?q = Inr (p', e)"
    | req stx where "c = Some (CallMessage req stx)" "\<exists>e. onMessage dec os now req stx ?q = Inr (p', e)"
    | "p' = ?q"
    using assms u by (auto simp: Platform_packet_def Let_def bind_result_def split: option.splits UaCall.splits sum.splits prod.splits)
  then show thesis
  proof cases
    case (1 req stx)
    then obtain e where "onRegister h os now ent req stx ?q = Inr (p', e)" by blast
    then show thesis
      by (cases rule: onRegister_cases) (use u 1 q in \<open>auto intro: same challenge accept\<close>)
  next
    case (2 req stx)
    then obtain e where "onMessage dec os now req stx ?q = Inr (p', e)" by blast
    then show thesis by (cases rule: onMessage_cases) (use q in \<open>auto intro: same seen\<close>)
  qed (simp add: same)
qed


section \<open>The platform's invariant\<close>

text \<open>The registry has one entry per device, under its own identifier, and only devices whose password the
  application knows are registered.\<close>

definition platform_inv :: "Platform \<Rightarrow> bool" where
  "platform_inv p \<longleftrightarrow> distinct (map fst (pl_devices p)) \<and>
     (\<forall>k d. map_of (pl_devices p) k = Some d \<longrightarrow> ds_ID d = k \<and>
        (ds_Registered d \<longrightarrow> (\<exists>f pw. pc_Password (pl_cfg p) = Some f \<and> f k = Some pw)))"

lemma platform_inv_update:
  assumes "platform_inv p" "pl_devices p' = map_put k d (pl_devices p)" "pl_cfg p' = pl_cfg p" "ds_ID d = k"
    "ds_Registered d \<Longrightarrow> registered k p \<or> (\<exists>f pw. pc_Password (pl_cfg p) = Some f \<and> f k = Some pw)"
  shows "platform_inv p'"
  using assms by (auto simp: platform_inv_def distinct_put registered_def)

lemma device_ID: "platform_inv p \<Longrightarrow> ds_ID (device k p) = k"
  by (simp add: platform_inv_def device_def new_device_def split: option.split)

lemma proves_password_known:
  "proves_password h cfg k req \<Longrightarrow> \<exists>f pw. pc_Password cfg = Some f \<and> f k = Some pw"
  by (auto simp: proves_password_def Let_def split: option.splits)

lemma Platform_packet_cfg:
  "Platform_packet h dec os now tag ent pkt p = Inr (p', ev, call) \<Longrightarrow> pl_cfg p' = pl_cfg p"
proof -
  assume a: "Platform_packet h dec os now tag ent pkt p = Inr (p', ev, call)"
  obtain ua c where u: "UA_packet os now tag pkt (pl_ua p) = Inr (ua, c)"
    using a by (cases "UA_packet os now tag pkt (pl_ua p)") (auto simp: Platform_packet_def)
  have "pl_cfg q = pl_cfg p" if "onRegister h os now ent req stx (p\<lparr>pl_ua := ua\<rparr>) = Inr (q, e)" for req stx q e
    using that by (cases rule: onRegister_cases) simp_all
  moreover have "pl_cfg q = pl_cfg p" if "onMessage dec os now req stx (p\<lparr>pl_ua := ua\<rparr>) = Inr (q, e)" for req stx q e
    using that by (cases rule: onMessage_cases) simp_all
  ultimately show ?thesis
    using a u by (auto simp: Platform_packet_def Let_def bind_result_def split: option.splits UaCall.splits sum.splits prod.splits)
qed

lemma Platform_packet_inv:
  assumes "Platform_packet h dec os now tag ent pkt p = Inr (p', ev, call)" "platform_inv p"
  shows "platform_inv p'"
proof -
  note cfg = Platform_packet_cfg [OF assms(1)] and upd = platform_inv_update [OF assms(2) _ Platform_packet_cfg [OF assms(1)]]
  from assms(1) show ?thesis
  proof (cases rule: Platform_packet_cases)
    case same
    then show ?thesis using assms(2) cfg by (simp add: platform_inv_def)
  next
    case (challenge deviceID nonce req)
    then show ?thesis by (rule upd) (use assms(2) in \<open>simp_all add: device_ID device_entry\<close>)
  next
    case (accept deviceID ua req stx)
    from accept(4) show ?thesis
      by (rule upd) (use assms(2) proves_password_known [OF accept(3)] in \<open>simp_all add: device_ID\<close>)
  next
    case (seen deviceID)
    then show ?thesis by (rule upd) (use assms(2) in \<open>simp_all add: device_ID device_entry\<close>)
  qed
qed

lemma platform_inv_cong: "pl_devices p' = pl_devices p \<Longrightarrow> pl_cfg p' = pl_cfg p \<Longrightarrow> platform_inv p' = platform_inv p"
  by (simp add: platform_inv_def)

lemma platform_step_frame:
  assumes "platform_step p p'"
  shows "(pl_devices p' = pl_devices p \<and> pl_cfg p' = pl_cfg p) \<or>
    (\<exists>h dec os now tag ent pkt ev call. Platform_packet h dec os now tag ent pkt p = Inr (p', ev, call))"
  using assms
  by (cases rule: platform_stepE)
     (auto simp: QueryCatalog_def QueryDeviceInfo_def PTZControl_def InviteLive_def InvitePlayback_def Platform_nextSN_def
       dest!: platform_request_frame)

interpretation platform_system: step_system "\<lambda>p. \<exists>cfg tp od. p = Platform_Run cfg tp od" platform_step platform_inv
proof unfold_locales
  fix p assume "\<exists>cfg tp od. p = Platform_Run cfg tp od"
  then show "platform_inv p" by (auto simp: platform_inv_def Platform_Run_def)
next
  fix p p' assume "platform_inv p" "platform_step p p'"
  then show "platform_inv p'"
    using platform_step_frame [of p p'] Platform_packet_inv platform_inv_cong by blast
qed

lemma platform_run_cfg: "platform_step\<^sup>*\<^sup>* p p' \<Longrightarrow> pl_cfg p' = pl_cfg p"
proof (induction rule: rtranclp_induct)
  case (step q r)
  then show ?case using platform_step_frame [of q r] Platform_packet_cfg by metis
qed simp

lemma resolveDevice_cases:
  assumes "distinct (map fst (pl_devices p))" "resolveDevice sid p = Some k"
  shows "registered k p"
proof -
  have "registered (fst e) p" if "filter (\<lambda>e. ds_Registered (snd e)) (pl_devices p) = [e]" for e
  proof -
    have "e \<in> set (pl_devices p)" "ds_Registered (snd e)"
      using that by (auto dest!: arg_cong [where f = set])
    then show ?thesis using assms(1) by (cases e) (auto simp: registered_def)
  qed
  then show ?thesis
    using assms(2) by (auto simp: resolveDevice_def Let_def registered_def split: option.splits if_splits list.splits)
qed

section \<open>The device's loop\<close>

text \<open>None of the device's operations touches its flags or the outcome of the registration.\<close>

definition device_kept :: "Device \<Rightarrow> Device \<Rightarrow> bool" where
  "device_kept d d' \<longleftrightarrow> dv_OnError d' = dv_OnError d \<and> dv_regOk d' = dv_regOk d \<and> dv_cfg d' = dv_cfg d"

lemma register_send_kept: "register_send os now tag br callID cseq auth ev d = (d', r) \<Longrightarrow> device_kept d d'"
  by (auto simp: register_send_def device_kept_def split: prod.splits sum.splits)

lemma learn_nonce_kept: "device_kept d (learn_nonce resp d)"
  by (simp add: learn_nonce_def device_kept_def Let_def split: option.split)

lemma device_kept_trans: "device_kept d d1 \<Longrightarrow> device_kept d1 d2 \<Longrightarrow> device_kept d d2"
  by (simp add: device_kept_def)

lemma register_kept: "register h os now callid tag br ev d = (d', r) \<Longrightarrow> device_kept d d'"
proof -
  assume a: "register h os now callid tag br ev d = (d', r)"
  obtain d1 r1 where s1: "register_send os now (tag 0) (br 0) (NewCallID callid) 1 None (ev 0) d = (d1, r1)" by force
  have k1: "device_kept d d1" by (rule register_send_kept [OF s1])
  consider "d' = d1" | resp where "r1 = Inr resp" "d' = learn_nonce resp d1"
    | resp ch d3 r3 where "register_send os now (tag 1) (br 1) (NewCallID callid) 2
        (Some (register_auth_for h ch (learn_nonce resp d1))) (ev 1) (learn_nonce resp d1) = (d3, r3)" "d' = d3"
    using a s1 by (auto simp: register_def Let_def split: sum.splits if_splits option.splits prod.splits)
  then show ?thesis
    using k1 device_kept_trans learn_nonce_kept register_send_kept by cases blast+
qed

lemma SendMessage_kept: "device_kept d (fst (SendMessage os now tag callid br body d))"
  by (simp add: SendMessage_def device_kept_def split: prod.split)

lemma Keepalive_kept: "Keepalive os now tag callid br d = (d', r) \<Longrightarrow> device_kept d d'"
  using SendMessage_kept [of "d\<lparr>dv_sn := dv_sn d + 1\<rparr>" os now tag callid br]
  by (auto simp: Keepalive_def Device_nextSN_def device_kept_def dest!: arg_cong [where f = fst])


lemma Device_packet_kept:
  assumes "Device_packet dec os now tag callid br pkt d = Inr (d', call)"
  shows "device_kept d d'"
proof -
  have m: "device_kept d (fst (Device_onMessage dec os now tag callid br req stx d))" for req stx d
    using SendMessage_kept device_kept_trans [of d "d\<lparr>dv_ua := fst (UA_Respond os now None stx 200 [] None (dv_ua d))\<rparr>"]
    by (simp add: Device_onMessage_def Let_def split: sum.split option.split) (simp add: device_kept_def)
  have i: "device_kept d e" if "Device_onInvite os now t req stx dlg d = Inr (e, c)" for t req stx dlg d e c
    using that by (auto simp: Device_onInvite_def Let_def device_kept_def split: sum.splits option.splits Tx.splits prod.splits)
  have u: "device_kept (d\<lparr>dv_ua := ua\<rparr>) e = device_kept d e" for ua e by (simp add: device_kept_def)
  have b: "device_kept d ((Device_onBye req d)\<lparr>dv_ua := ua\<rparr>)" for req ua by (simp add: Device_onBye_def device_kept_def)
  obtain ua c where "UA_packet os now tag pkt (dv_ua d) = Inr (ua, c)"
    using assms by (cases "UA_packet os now tag pkt (dv_ua d)") (auto simp: Device_packet_def)
  then consider req stx where "d' = fst (Device_onMessage dec os now tag callid br req stx (d\<lparr>dv_ua := ua\<rparr>))"
    | req stx dlg c' where "Device_onInvite os now callid req stx dlg (d\<lparr>dv_ua := ua\<rparr>) = Inr (d', c')"
    | req where "d' = Device_onBye req (d\<lparr>dv_ua := ua\<rparr>)" | "d' = d\<lparr>dv_ua := ua\<rparr>"
    using assms by (fastforce simp: Device_packet_def Let_def split: option.splits UaCall.splits dest: arg_cong [where f = fst])
  then show ?thesis
    using m [of "d\<lparr>dv_ua := ua\<rparr>"] i u by cases (auto simp: Device_onBye_def device_kept_def)
qed

text \<open>The waits double from half a second to eight seconds.\<close>

definition run_inv :: "Device \<times> RunState \<Rightarrow> bool" where
  "run_inv s \<longleftrightarrow> (\<exists>k\<le>4. rs_backoff (snd s) = 500 * Milli * 2 ^ k)"

definition run_le :: "Device \<times> RunState \<Rightarrow> Device \<times> RunState \<Rightarrow> bool" where
  "run_le s s' \<longleftrightarrow> dv_OnError (fst s') = dv_OnError (fst s) \<and> (dv_regOk (fst s) \<longrightarrow> dv_regOk (fst s')) \<and>
     (\<not> dv_OnError (fst s) \<and> rs_registered (snd s) \<longrightarrow> rs_registered (snd s'))"

lemma backoff_doubles:
  assumes "run_inv (d, st)"
  shows "run_inv (d', st\<lparr>rs_backoff := (if rs_backoff st < 8000 * Milli then rs_backoff st * 2 else rs_backoff st)\<rparr>)"
proof -
  obtain k where k: "k \<le> 4" "rs_backoff st = 500 * Milli * 2 ^ k" using assms by (auto simp: run_inv_def)
  show ?thesis
  proof (cases "k = 4")
    case True
    then show ?thesis using k by (auto simp: run_inv_def Milli_def intro: exI [of _ 4])
  next
    case False
    then have "(2::int) ^ k \<le> 2 ^ 3" using k(1) by (intro power_increasing) auto
    then have "rs_backoff st < 8000 * Milli" using k by (simp add: Milli_def)
    then show ?thesis using k False by (auto simp: run_inv_def intro!: exI [of _ "Suc k"])
  qed
qed

lemma run_step_ok:
  assumes "run_step s s'" "run_inv s"
  shows "run_inv s' \<and> run_le s s'"
  using assms(1)
proof cases
  case (attempt st h os now callid tag br ev d d' st' call)
  obtain e r where reg: "register h os now callid tag br ev d = (e, r)" by force
  have kept: "device_kept d e" by (rule register_kept [OF reg])
  show ?thesis
  proof (cases r)
    case (Inl x)
    then have "d' = e" "st' = st\<lparr>rs_backoff := (if rs_backoff st < 8000 * Milli then rs_backoff st * 2 else rs_backoff st)\<rparr>"
      using attempt reg by (auto simp: run_attempt_def)
    then show ?thesis using attempt kept assms(2) backoff_doubles [of d st] by (simp add: run_le_def device_kept_def)
  next
    case (Inr x)
    then have "d' = e\<lparr>dv_regOk := True\<rparr>" "st' = st\<lparr>rs_registered := True, rs_backoff := 500 * Milli\<rparr>"
      using attempt reg by (auto simp: run_attempt_def)
    then show ?thesis using attempt kept by (auto simp: run_le_def run_inv_def device_kept_def intro!: exI [of _ 0])
  qed
next
  case (tick st os now tag0 callid br0 d d' st' call)
  obtain e r where ka: "Keepalive os now tag0 callid br0 d = (e, r)" by force
  have kept: "device_kept d e" by (rule Keepalive_kept [OF ka])
  have "d' = e \<and> rs_backoff st' = rs_backoff st \<and> (\<not> dv_OnError e \<longrightarrow> st' = st)"
    using tick ka by (auto simp: run_tick_def split: sum.splits if_splits)
  then show ?thesis using tick kept assms(2) by (auto simp: run_le_def run_inv_def device_kept_def)
next
  case (packet dec os now tag0 callid br0 pkt d d' call st)
  then show ?thesis using Device_packet_kept [OF packet(3)] assms(2) by (simp add: run_le_def run_inv_def device_kept_def)
qed

interpretation device_loop: monotone_system "\<lambda>s. \<exists>cfg tp c i e. s = (Device_Start cfg tp c i e, run_init)" run_step run_inv run_le
proof unfold_locales
  fix s assume "\<exists>cfg tp c i e. s = (Device_Start cfg tp c i e, run_init)"
  then show "run_inv s" by (auto simp: run_inv_def run_init_def intro!: exI [of _ 0])
qed (use run_step_ok in \<open>auto simp: run_le_def\<close>)

end
