(* ===== verification/GbProps.thy ===== *)
theory GbProps
  imports GbCorrect
begin

text \<open>
  The properties of the GB/T 28181 platform and device, with instances on a small platform and a small
  device that share the password \<open>''pw''\<close>.
\<close>

section \<open>A platform and a device\<close>

definition demo_hash :: Hashes where
  "demo_hash = (let f = (\<lambda>s. [digit_char (length s mod 16)]) in \<lparr>md5_hex = f, sha256_hex = f, sha512_256_hex = f\<rparr>)"

definition gb_transport :: Transport where
  "gb_transport = (new_transport (Some (v4_prefix @ [0, 0, 0, 0])) False False)\<lparr>tp_DropHook := Some (\<lambda>_ _. True)\<rparr>"

definition demo_platform_cfg :: PlatformConfig where
  "demo_platform_cfg = \<lparr>pc_ServerID = ''34'', pc_ServerHost = ''p'', pc_ListenPort = 5060, pc_Realm = ''34'',
     pc_Password = Some (\<lambda>i. if i = ''a'' then Some ''pw'' else None), pc_Expires = 3600\<rparr>"

definition demo_platform :: Platform where
  "demo_platform = Platform_Run demo_platform_cfg gb_transport True"

definition demo_device_cfg :: DeviceConfig where
  "demo_device_cfg = \<lparr>dc_DeviceID = ''a'', dc_Password = ''pw'', dc_ServerID = ''34'', dc_ServerHost = ''p'', dc_ServerPort = 5060,
     dc_LocalHost = ''h'', dc_LocalPort = 5061, dc_KeepaliveInterval = 60, dc_RegisterTimeout = 10, dc_Channels = [],
     dc_DeviceInfo = \<lparr>di_Name = [], di_Manufacturer = [], di_Model = [], di_Firmware = []\<rparr>\<rparr>"

definition demo_device :: Device where
  "demo_device = Device_Start demo_device_cfg gb_transport False False False"

text \<open>REGISTER requests of device \<open>''a''\<close>: one with valid credentials, one without any, sent by the host \<open>''x''\<close>.\<close>

definition demo_auth :: Auth where
  "demo_auth = (let a = empty_auth\<lparr>AuScheme := ''Digest'', Username := ''a'', Realm := ''34'', Nonce := ''n'', AuURI := ''u'', Other := Some []\<rparr>
     in a\<lparr>AuResponse := expected_response demo_hash a ''pw''\<rparr>)"

definition demo_register :: Request where
  "demo_register = \<lparr>RMethod = REGISTER, RUri = Some sample_uri, RProto = ''SIP/2.0'',
     RHeaders = sample_headers REGISTER @ [TypedAuthHeader demo_auth ''Authorization''], RBody = []\<rparr>"

definition bare_register :: Request where
  "bare_register = \<lparr>RMethod = REGISTER, RUri = Some sample_uri, RProto = ''SIP/2.0'',
     RHeaders = [ViaHeader (sample_via\<lparr>VHost := ''x'', VPort := 5\<rparr>), sample_addr ''From''], RBody = []\<rparr>"

lemma digit_plain: "d < 16 \<Longrightarrow> plain_id [digit_char d]"
  using of_char_digit_char [of d]
  by (auto simp: plain_id_def wf_plain_field_def visible_def dest!: arg_cong [where f = "of_char :: char \<Rightarrow> nat"] split: if_splits)

lemma demo_hash_hex: "hex_hash demo_hash"
  by (simp add: hex_hash_def demo_hash_def Let_def digit_plain)

lemma demo_ids: "wf_device_ids demo_device_cfg" "plain_id ''n''" "plain_id ''34''"
  by (simp_all add: wf_device_ids_def demo_device_cfg_def plain_id_def wf_plain_field_def visible_def)

lemma demo_proves: "from_user demo_register = Inr ''a''" "proves_password demo_hash demo_platform_cfg ''a'' demo_register"
proof -
  show "from_user demo_register = Inr ''a''"
    by (simp add: from_user_def Request_From_def demo_register_def sample_Get sample_addr_def NameAddrList_First_def sample_uri_def)
  have r: "AuResponse demo_auth = expected_response demo_hash demo_auth ''pw''"
    by (simp add: demo_auth_def Let_def expected_response_def)
  have "plain_id (AuResponse demo_auth)"
    unfolding r using demo_hash_hex by (simp add: expected_response_def Let_def MD5Hex_def hex_hash_def)
  moreover have "plain_id ''a''" "plain_id ''u''" by (simp_all add: plain_id_def wf_plain_field_def visible_def)
  ultimately have "wf_auth demo_auth"
    using demo_ids by (intro plain_auth_wf) (simp_all add: demo_auth_def Let_def empty_auth_def NewParams_def)
  then have "ParseAuth (Auth_Value demo_auth) = demo_auth" by (rule ParseAuth_Value)
  moreover have "Headers_Get (RHeaders demo_register) ''Authorization'' = Some (TypedAuthHeader demo_auth ''Authorization'')"
    by (simp add: demo_register_def Headers_Get_def named_def sample_headers_def sample_addr_def sample_names register_names)
  ultimately have "register_auth demo_register = demo_auth" by (simp add: register_auth_def headerValue_def)
  then show "proves_password demo_hash demo_platform_cfg ''a'' demo_register"
    using r \<open>plain_id (AuResponse demo_auth)\<close>
    by (simp add: proves_password_def Let_def demo_platform_cfg_def demo_auth_def plain_id_def empty_auth_def)
qed

lemma answer_total: "\<exists>p'. answer os now (Some i) resp ev p = Inr (p', ev)"
  using respond_stx_total [of os now i resp "pl_ua p"] by (auto simp: answer_def)

section \<open>Registration\<close>

text \<open>The device's second REGISTER, after it has read the platform's challenge.\<close>

definition second_register :: "Hashes \<Rightarrow> Entropy \<Rightarrow> string \<Rightarrow> Auth \<Rightarrow> Device \<Rightarrow> Header list" where
  "second_register h tag callID ch d = as_received (RHeaders (newRegister tag callID 2 (Some (register_auth_for h ch d)) d))"

lemma second_register_accepted:
  assumes ids: "wf_device_ids (dv_cfg d)" "hex_hash h" "wf_address (gb_from tag (dc_DeviceID (dv_cfg d)) (dc_ServerHost (dv_cfg d)))"
    and ch: "lastChallenge d = Some ch" "plain_id (dv_nonce d)"
    and pw: "pc_Password (pl_cfg p) = Some f" "f (dc_DeviceID (dv_cfg d)) = Some (dc_Password (dv_cfg d))"
    and req: "Headers_Get (RHeaders req) ''From'' = Headers_Get (second_register h tag callID ch d) ''From''"
      "Headers_Get (RHeaders req) ''Authorization'' = Headers_Get (second_register h tag callID ch d) ''Authorization''"
  shows "from_user req = Inr (dc_DeviceID (dv_cfg d))" "proves_password h (pl_cfg p) (dc_DeviceID (dv_cfg d)) req"
proof -
  have c: "Realm ch = dc_ServerID (dv_cfg d)" "Nonce ch = dv_nonce d" "Algorithm ch = []" "Qop ch = []" "Opaque ch = []"
    using ch(1) by (auto simp: lastChallenge_def empty_auth_def split: if_splits)
  have r: "Headers_Get (RHeaders req) ''From'' =
      Some (newTypedHeader ''From'' (Address_String (gb_from tag (dc_DeviceID (dv_cfg d)) (dc_ServerHost (dv_cfg d)))))"
    "Headers_Get (RHeaders req) ''Authorization'' = Some (newTypedHeader ''Authorization'' (authHeaderString (register_auth_for h ch d)))"
    using req by (simp_all add: second_register_def as_received_Get newRegister_headers NewHeader_def)
  show "from_user req = Inr (dc_DeviceID (dv_cfg d))"
    using from_user_received [OF ids(3) _ r(1)] by (simp add: gb_from_def plain_address_def plain_uri_def)
  show "proves_password h (pl_cfg p) (dc_DeviceID (dv_cfg d)) req"
    using device_credentials [OF ids(1,2) _ c(1,3-5) r(2)] c(2) ch(2) pw by (simp add: proves_password_def)
qed

text \<open>C6 (functional): a device that knows its password registers. From the platform's challenge, read off the wire, the
  device takes the nonce; the REGISTER it answers with, read off the wire by the platform, is answered with 200 and
  the registry holds the device as registered and seen now. Stated for identifiers without quotes, blanks
  and separators; the hash is any function into non-empty plain strings.\<close>

theorem registration_accepted:
  assumes "wf_device_ids (dv_cfg d)" "hex_hash h" "plain_id (pc_Realm (pl_cfg p))" "plain_id nonce"
    and "wf_address (gb_from tag (dc_DeviceID (dv_cfg d)) (dc_ServerHost (dv_cfg d)))"
    and "pc_Password (pl_cfg p) = Some f" "f (dc_DeviceID (dv_cfg d)) = Some (dc_Password (dv_cfg d))"
    and "resp = challenge_response (pc_Realm (pl_cfg p)) nonce"
    and "d1 = learn_nonce (resp\<lparr>SHeaders := as_received (SHeaders resp)\<rparr>) d"
    and "lastChallenge d1 = Some ch"
    and "Headers_Get (RHeaders req) ''From'' = Headers_Get (second_register h tag callID ch d1) ''From''"
    and "Headers_Get (RHeaders req) ''Authorization'' = Headers_Get (second_register h tag callID ch d1) ''Authorization''"
  shows "onRegister h os now ent req stx p =
    answer os now stx (NewResponse 200 []) (device_event (dc_DeviceID (dv_cfg d)) ''registered'' None p)
      (put_device (dc_DeviceID (dv_cfg d)) ((device (dc_DeviceID (dv_cfg d)) p)\<lparr>ds_Registered := True, ds_LastSeen := now\<rparr>) p)"
proof -
  have d1: "d1 = d\<lparr>dv_nonce := nonce\<rparr>" using learn_nonce_challenge assms by simp
  then have "from_user req = Inr (dc_DeviceID (dv_cfg d))" "proves_password h (pl_cfg p) (dc_DeviceID (dv_cfg d)) req"
    using second_register_accepted [of d1 h tag ch p f req callID] assms by simp_all
  then show ?thesis by (rule onRegister_accepts)
qed

lemma demo_from: "wf_address (gb_from demo_tag ''a'' ''p'')"
  by code_simp

theorem registration_accepted_witness:
  "let d1 = demo_device\<lparr>dv_nonce := ''n''\<rparr>;
       ch = empty_auth\<lparr>AuScheme := ''Digest'', Realm := ''34'', Nonce := ''n''\<rparr>;
       req = bare_register\<lparr>RHeaders := second_register demo_hash demo_tag ''c'' ch d1\<rparr>
   in \<exists>p' ev. onRegister demo_hash demo_os 0 demo_tag req (Some 9) demo_platform = Inr (p', ev) \<and> registered ''a'' p'"
proof -
  let ?d1 = "demo_device\<lparr>dv_nonce := ''n''\<rparr>" and ?resp = "challenge_response ''34'' ''n''"
  let ?ch = "empty_auth\<lparr>AuScheme := ''Digest'', Realm := ''34'', Nonce := ''n''\<rparr>"
  let ?req = "bare_register\<lparr>RHeaders := second_register demo_hash demo_tag ''c'' ?ch ?d1\<rparr>"
  have cfg: "dv_cfg demo_device = demo_device_cfg" "pl_cfg demo_platform = demo_platform_cfg"
    by (simp_all add: demo_device_def Device_Start_def demo_platform_def Platform_Run_def)
  have l: "?d1 = learn_nonce (?resp\<lparr>SHeaders := as_received (SHeaders ?resp)\<rparr>) demo_device"
    using learn_nonce_challenge demo_ids by simp
  have "onRegister demo_hash demo_os 0 demo_tag ?req (Some 9) demo_platform =
      answer demo_os 0 (Some 9) (NewResponse 200 []) (device_event ''a'' ''registered'' None demo_platform)
        (put_device ''a'' ((device ''a'' demo_platform)\<lparr>ds_Registered := True, ds_LastSeen := 0\<rparr>) demo_platform)"
    using registration_accepted [of demo_device demo_hash demo_platform "''n''" demo_tag _ ?resp ?d1 ?ch ?req "''c''" demo_os 0 demo_tag "Some 9",
        OF _ demo_hash_hex _ _ _ _ _ _ l] demo_ids demo_from cfg
    by (simp add: demo_platform_cfg_def demo_device_cfg_def lastChallenge_def)
  moreover obtain p' where "answer demo_os 0 (Some 9) (NewResponse 200 []) (device_event ''a'' ''registered'' None demo_platform)
        (put_device ''a'' ((device ''a'' demo_platform)\<lparr>ds_Registered := True, ds_LastSeen := 0\<rparr>) demo_platform) =
        Inr (p', device_event ''a'' ''registered'' None demo_platform)"
    using answer_total by blast
  moreover from answer_frame(1) [OF this] have "registered ''a'' p'" by (simp add: registered_def)
  ultimately show ?thesis unfolding Let_def by auto
qed

text \<open>C12 (safety): a device becomes registered only by a REGISTER whose digest was computed from the password the
  application has for it; no other packet marks a device as registered.\<close>

theorem only_password_registers:
  assumes "Platform_packet h dec os now tag ent pkt p = Inr (p', ev, call)" "registered k p'" "\<not> registered k p"
  shows "\<exists>ua req stx. UA_packet os now tag pkt (pl_ua p) = Inr (ua, Some (CallRegister req stx)) \<and>
    from_user req = Inr k \<and> proves_password h (pl_cfg p) k req"
  using assms(1)
proof (cases rule: Platform_packet_cases)
  case (accept deviceID ua req stx)
  then have "k = deviceID" using assms(2,3) by (auto simp: registered_def split: if_splits)
  then show ?thesis using accept by blast
qed (use assms(2,3) in \<open>auto simp: registered_def device_entry split: if_splits\<close>)

definition demo_packet :: Packet where
  "demo_packet = \<lparr>Msg = Req demo_register, Src = demo_addr\<rparr>"

lemma register_handled:
  "\<exists>ua. UA_packet os now tag demo_packet (pl_ua (Platform_Run cfg tp od)) = Inr (ua, Some (CallRegister demo_register (Some 0)))"
proof -
  have "Via_Branch sample_via = ''z9hG4bK1''" by code_simp
  then have "viaBranch demo_register = ''z9hG4bK1''" "cseq_method (Request_CSeq demo_register) = REGISTER"
    by (simp_all add: viaBranch_def Request_Via_def via_of_def demo_register_def sample_Get Request_CSeq_def cseq_method_def)
  then show ?thesis
    by (simp add: UA_packet_def handlePacket_def handleRequest_def Let_def demo_packet_def serverTxKey_def lookup_tx_def inc_metric_def
        Platform_Run_def NewUA_def SetCallbacks_def NewTxManager_def UA_handleRequest_def demo_register_def
        no_callbacks_def REGISTER_def ACK_def CANCEL_def BYE_def INVITE_def MESSAGE_def OPTIONS_def INFO_def NOTIFY_def SUBSCRIBE_def
        split: option.split)
qed

lemma register_accepted:
  assumes "proves_password demo_hash cfg ''a'' demo_register"
  shows "\<exists>p' q. Platform_packet demo_hash dec os now tag ent demo_packet (Platform_Run cfg tp od) =
      Inr (p', device_event ''a'' ''registered'' None q, None) \<and> pl_OnDevice q = od \<and> registered ''a'' p'"
proof -
  let ?p = "Platform_Run cfg tp od"
  obtain ua where ua: "UA_packet os now tag demo_packet (pl_ua ?p) = Inr (ua, Some (CallRegister demo_register (Some 0)))"
    using register_handled by blast
  let ?q = "?p\<lparr>pl_ua := ua\<rparr>"
  have "proves_password demo_hash (pl_cfg ?q) ''a'' demo_register" using assms by (simp add: Platform_Run_def)
  note acc = onRegister_accepts [OF demo_proves(1) this, of os now ent "Some 0"]
  obtain p' where p': "onRegister demo_hash os now ent demo_register (Some 0) ?q = Inr (p', device_event ''a'' ''registered'' None ?q)"
    using answer_total unfolding acc by blast
  moreover have "registered ''a'' p'"
    using answer_frame(1) [OF p' [unfolded acc]] by (simp add: registered_def)
  moreover have "pl_OnDevice ?q = od" by (simp add: Platform_Run_def)
  ultimately show ?thesis using ua by (auto simp: Platform_packet_def intro!: exI [of _ ?q])
qed

lemma demo_registers:
  "\<exists>p' ev. Platform_packet demo_hash dec os now tag ent demo_packet demo_platform = Inr (p', ev, None) \<and> registered ''a'' p'"
  using register_accepted [OF demo_proves(2)] unfolding demo_platform_def by blast

theorem only_password_registers_witness:
  "\<exists>ua req stx. UA_packet demo_os 0 demo_tag demo_packet (pl_ua demo_platform) = Inr (ua, Some (CallRegister req stx)) \<and>
    from_user req = Inr ''a'' \<and> proves_password demo_hash (pl_cfg demo_platform) ''a'' req"
proof -
  obtain p' ev where p: "Platform_packet demo_hash (\<lambda>_. Inl ErrOther) demo_os 0 demo_tag demo_tag demo_packet demo_platform = Inr (p', ev, None)"
      "registered ''a'' p'"
    using demo_registers by blast
  have "\<not> registered ''a'' demo_platform" by (simp add: registered_def demo_platform_def Platform_Run_def)
  with p show ?thesis by (rule only_password_registers)
qed



text \<open>The nonce of a challenge is stored but never compared: a REGISTER that was accepted once is
  accepted again on every later state of the platform, whatever nonce it has issued in the meantime.\<close>

theorem register_replay_accepted:
  assumes "from_user req = Inr k" "proves_password h (pl_cfg p) k req" "platform_step\<^sup>*\<^sup>* p q"
  shows "onRegister h os now ent req (Some i) q =
    answer os now (Some i) (NewResponse 200 []) (device_event k ''registered'' None q)
      (put_device k ((device k q)\<lparr>ds_Registered := True, ds_LastSeen := now\<rparr>) q)"
  using assms platform_run_cfg [OF assms(3)] by (simp add: onRegister_accepts)

theorem register_replay_accepted_witness:
  "onRegister demo_hash demo_os 0 demo_tag demo_register (Some 9) demo_platform =
    answer demo_os 0 (Some 9) (NewResponse 200 []) (device_event ''a'' ''registered'' None demo_platform)
      (put_device ''a'' ((device ''a'' demo_platform)\<lparr>ds_Registered := True, ds_LastSeen := 0\<rparr>) demo_platform)"
proof (rule register_replay_accepted [OF demo_proves(1) _ rtranclp.rtrancl_refl])
  show "proves_password demo_hash (pl_cfg demo_platform) ''a'' demo_register"
    using demo_proves(2) by (simp add: demo_platform_def Platform_Run_def)
qed

text \<open>A REGISTER without credentials is remembered as the device's last one before anything was
  verified: anyone who names a registered device redirects the platform's requests to the host in its Via.\<close>

theorem unauthenticated_register_redirects:
  assumes "registered k p" "from_user req = Inr k" "AuResponse (register_auth req) = []"
    and "Request_Via req = Some via" "VHost via \<noteq> []" "0 < VPort via"
    and "onRegister h os now ent req stx p = Inr (p', ev)"
  shows "registered k p' \<and> deviceAddr k p' = Some \<lparr>Network = ''udp'', AHost = VHost via, APort = VPort via\<rparr>"
proof -
  have e: "onRegister h os now ent req stx p = answer os now stx (challenge_response (pc_Realm (pl_cfg p)) (NewCallID ent)) None
      (put_device k ((device k p)\<lparr>ds_Nonce := NewCallID ent, ds_lastReg := Some req\<rparr>) p)"
    using assms(2,3) by (intro onRegister_challenges) simp_all
  have m: "map_of (pl_devices p') k = Some ((device k p)\<lparr>ds_Nonce := NewCallID ent, ds_lastReg := Some req\<rparr>)"
    using assms(7) unfolding e by (auto dest: answer_frame)
  then have r: "registered k p'" using assms(1) by (simp add: registered_def device_entry)
  then have "resolveDevice k p' = Some k" by (auto simp: resolveDevice_def registered_def)
  then show ?thesis using r m assms(4-6) by (simp add: deviceAddr_def lastRegisterOf_def)
qed

theorem unauthenticated_register_redirects_witness:
  "\<exists>p p' ev. registered ''a'' p \<and> onRegister demo_hash demo_os 0 demo_tag bare_register (Some 9) p = Inr (p', ev) \<and>
     deviceAddr ''a'' p' = Some \<lparr>Network = ''udp'', AHost = ''x'', APort = 5\<rparr>"
proof -
  obtain p where p: "registered ''a'' p" using demo_registers by blast
  have u: "from_user bare_register = Inr ''a''"
    by (simp add: bare_register_def from_user_def Request_From_def Headers_Get_def named_def sample_addr_def sample_names
        NameAddrList_First_def sample_uri_def)
  have "ParseAuth [] = empty_auth" by code_simp
  then have a: "AuResponse (register_auth bare_register) = []"
    by (simp add: bare_register_def register_auth_def Headers_Get_def named_def sample_addr_def sample_names register_names headerValue_def
        empty_auth_def)
  have v: "Request_Via bare_register = Some (sample_via\<lparr>VHost := ''x'', VPort := 5\<rparr>)"
    by (simp add: bare_register_def Request_Via_def via_of_def Headers_Get_def named_def sample_names)
  obtain p' ev where r: "onRegister demo_hash demo_os 0 demo_tag bare_register (Some 9) p = Inr (p', ev)"
    using onRegister_challenges [OF u disjI2 [OF a]] answer_total by metis
  show ?thesis
    using unauthenticated_register_redirects [OF p u a v _ _ r] p r by auto
qed

section \<open>The device's loop\<close>

text \<open>C34 (bounds): in every run of a device the wait before the next attempt to register is half a second, doubled at
  most four times: never less than half a second, never more than eight.\<close>

theorem register_backoff_bounded:
  assumes "run_step\<^sup>*\<^sup>* (Device_Start cfg tp onControl onInvite onError, run_init) (d, st)"
  shows "(\<exists>k\<le>4. rs_backoff st = 500 * Milli * 2 ^ k) \<and> 500 * Milli \<le> rs_backoff st \<and> rs_backoff st \<le> 8000 * Milli"
proof -
  have "run_inv (d, st)" using device_loop.reachable_inv [OF _ assms] by blast
  then obtain k where k: "k \<le> 4" "rs_backoff st = 500 * Milli * 2 ^ k" by (auto simp: run_inv_def)
  then have "(1::int) \<le> 2 ^ k" "(2::int) ^ k \<le> 2 ^ 4" using power_increasing [of k 4 "2::int"] by simp_all
  then show ?thesis using k by (auto simp: Milli_def)
qed

lemma register_unanswered: "\<exists>d' e. register h os now callid tag br (\<lambda>_. None) d = (d', Inl e)"
  by (cases "UA_request os now (br 0) (br 0) (newRegister (tag 0) (NewCallID callid) 1 None d) (serverAddr d) (dv_ua d)")
     (auto simp: register_def register_send_def split: sum.split)

theorem register_backoff_bounded_witness:
  "\<exists>d st. run_step\<^sup>*\<^sup>* (demo_device, run_init) (d, st) \<and> rs_backoff st = 1000 * Milli \<and> rs_backoff st \<le> 8000 * Milli"
proof -
  obtain d e where r: "register demo_hash demo_os 0 demo_tag (\<lambda>_. demo_tag) (\<lambda>_. demo_tag) (\<lambda>_. None) demo_device = (d, Inl e)"
    using register_unanswered by blast
  let ?st = "\<lparr>rs_registered = False, rs_backoff = 1000 * Milli\<rparr>"
  have "run_attempt (d, Inl e) run_init = (d, ?st, if dv_OnError d then Some (ErrorCall e) else None)"
    by (simp add: run_attempt_def run_init_def Milli_def)
  then have "run_step (demo_device, run_init) (d, ?st)"
    using run_step.attempt [of run_init, OF _ _] r by (metis run_init_def RunState.select_convs(1))
  then have run: "run_step\<^sup>*\<^sup>* (demo_device, run_init) (d, ?st)" by blast
  then have "rs_backoff ?st \<le> 8000 * Milli"
    using register_backoff_bounded [OF run [unfolded demo_device_def]] by blast
  then show ?thesis using run by (intro exI [of _ d] exI [of _ ?st]) simp
qed

text \<open>Once registered, a device stays so for good: \<open>Registered\<close>, documented as the outcome of the last
  registration, never turns false again, and without an error callback the loop never attempts another
  registration, however many keep-alives fail.\<close>

theorem registration_never_renewed:
  assumes "run_step\<^sup>*\<^sup>* (Device_Start cfg tp onControl onInvite onError, run_init) (d, st)" "run_step\<^sup>*\<^sup>* (d, st) (d', st')"
    and "Registered d"
  shows "Registered d' \<and> (rs_registered st \<and> \<not> dv_OnError d \<longrightarrow> rs_registered st')"
proof -
  have "run_inv (d, st)" using device_loop.reachable_inv [OF _ assms(1)] by blast
  then show ?thesis using device_loop.steps_le [OF assms(2)] assms(3) by (simp add: run_le_def Registered_def)
qed

lemma gb_send:
  assumes "m_tp m = Some gb_transport"
  shows "TxManager_send os now (Req r) (serverAddr demo_device) m = (m, Inr ())"
proof -
  have "ToLower ''udp'' = ''udp''" by code_simp
  then show ?thesis
    using assms by (simp add: TxManager_send_def serverAddr_def send_target_def Transport_Send_def Let_def gb_transport_def new_transport_def)
qed

lemma demo_register_ok:
  "\<exists>d. register h os now callid tag br (\<lambda>_. Some (EvResponse (NewResponse 200 []))) demo_device = (d, Inr ())"
proof -
  let ?req = "newRegister (tag 0) (NewCallID callid) 1 None demo_device"
  have tm: "ua_tm (dv_ua demo_device) = NewTxManager (Some gb_transport) ''h'' 5061"
    by (simp add: demo_device_def Device_Start_def NewUA_def SetCallbacks_def demo_device_cfg_def)
  obtain m where "Request_begin os now (br 0) (br 0) ?req (serverAddr demo_device) (ua_tm (dv_ua demo_device)) = (m, Inr 0)"
    unfolding tm by (simp add: Request_begin_def Let_def NewTxManager_def gb_send)
  then have "\<exists>m'. TxManager_Request os now (br 0) (br 0) ?req (serverAddr demo_device) (ua_tm (dv_ua demo_device)) = (m', Inr 0)"
    by (simp add: TxManager_Request_def split: option.split Tx.split)
  then show ?thesis by (auto simp: register_def register_send_def UA_request_def NewResponse_def)
qed

lemma demo_first_attempt:
  assumes "register h os now callid tag br ev demo_device = (e, Inr ())"
  shows "run_step\<^sup>*\<^sup>* (demo_device, run_init) (e\<lparr>dv_regOk := True\<rparr>, \<lparr>rs_registered = True, rs_backoff = 500 * Milli\<rparr>)"
proof -
  have "run_attempt (e, Inr ()) run_init = (e\<lparr>dv_regOk := True\<rparr>, \<lparr>rs_registered = True, rs_backoff = 500 * Milli\<rparr>, None)"
    by (simp add: run_attempt_def run_init_def)
  then have "run_step (demo_device, run_init) (e\<lparr>dv_regOk := True\<rparr>, \<lparr>rs_registered = True, rs_backoff = 500 * Milli\<rparr>)"
    using run_step.attempt [of run_init, OF _ _] assms by (metis run_init_def RunState.select_convs(1))
  then show ?thesis by blast
qed

theorem registration_never_renewed_witness:
  "\<exists>d st. run_step\<^sup>*\<^sup>* (demo_device, run_init) (d, st) \<and> Registered d \<and> rs_registered st \<and>
     (\<forall>d' st'. run_step (d, st) (d', st') \<longrightarrow> Registered d' \<and> rs_registered st')"
proof -
  obtain e where r: "register demo_hash demo_os 0 demo_tag (\<lambda>_. demo_tag) (\<lambda>_. demo_tag)
      (\<lambda>_. Some (EvResponse (NewResponse 200 []))) demo_device = (e, Inr ())"
    using demo_register_ok by blast
  let ?d = "e\<lparr>dv_regOk := True\<rparr>" and ?st = "\<lparr>rs_registered = True, rs_backoff = 500 * Milli\<rparr>"
  have run: "run_step\<^sup>*\<^sup>* (demo_device, run_init) (?d, ?st)" by (rule demo_first_attempt [OF r])
  have "\<not> dv_OnError ?d" using register_kept [OF r] by (simp add: device_kept_def demo_device_def Device_Start_def)
  then have "Registered d' \<and> rs_registered st'" if "run_step (?d, ?st) (d', st')" for d' st'
    using registration_never_renewed [OF run [unfolded demo_device_def] r_into_rtranclp [of run_step, OF that]]
    by (simp add: Registered_def)
  then show ?thesis
    using run by (intro exI [of _ ?d] exI [of _ ?st]) (simp add: Registered_def)
qed

section \<open>Streams\<close>

text \<open>C30 (functional): the offer of a live stream and the device's answer agree: the device reads the platform's SSRC and port
  and its answer, read by the platform, carries the same SSRC and port, is not receive-only and names the
  device's own address.\<close>

theorem live_stream_agreed:
  assumes "wf_sdp (live_stream serverID ip port ssrc)" "sdp_word (dc_DeviceID (dv_cfg d))" "sdp_word (dc_LocalHost (dv_cfg d))"
  shows "\<exists>offer reply. ParseSDP (Build (live_stream serverID ip port ssrc)) = Inr offer \<and> sd_RecvOnly offer \<and>
    ParseSDP (Build (answer_sdp offer d)) = Inr reply \<and> sd_SSRC reply = ssrc \<and> sd_VideoPort reply = port \<and>
    \<not> sd_RecvOnly reply \<and> sd_Address reply = dc_LocalHost (dv_cfg d) \<and> sd_SessionName reply = sd_SessionName offer"
proof -
  let ?offer = "read_back (live_stream serverID ip port ssrc)"
  have w: "wf_sdp (answer_sdp ?offer d)"
    using assms by (auto simp: wf_sdp_def answer_sdp_def read_back_def live_stream_def st_name_def sdp_word_def visible_def)
  show ?thesis
    using ParseSDP_Build [OF assms(1)] ParseSDP_Build [OF w]
    by (auto simp: answer_sdp_def read_back_def live_stream_def st_name_def)
qed

theorem live_stream_agreed_witness:
  "\<exists>offer reply. ParseSDP (Build (live_stream ''34'' ''m'' 9 7)) = Inr offer \<and>
    ParseSDP (Build (answer_sdp offer demo_device)) = Inr reply \<and> sd_SSRC reply = 7 \<and> sd_VideoPort reply = 9"
proof -
  have "wf_sdp (live_stream ''34'' ''m'' 9 7)" by (simp add: wf_sdp_def live_stream_def sdp_word_def visible_def)
  moreover have "sdp_word (dc_DeviceID (dv_cfg demo_device))" "sdp_word (dc_LocalHost (dv_cfg demo_device))"
    by (simp_all add: demo_device_def Device_Start_def demo_device_cfg_def sdp_word_def visible_def)
  ultimately show ?thesis using live_stream_agreed by blast
qed

end
