(* ===== verification/GbLayer.thy ===== *)
theory GbLayer
  imports GbCorrect UaLayer
begin

text \<open>
  The GB/T 28181 platform and device are layers on the transactions of their user agent: whatever they do,
  the transaction layer below takes its own steps only, so that its guarantees hold in them.
\<close>

section \<open>The platform\<close>

lemma answer_run: "answer os now stx resp ev p = Inr (p', ev') \<Longrightarrow> ua_run (pl_ua p) (pl_ua p')"
  by (cases "respond_stx os now stx resp (pl_ua p)") (auto simp: answer_def dest: respond_stx_run)

lemma put_device_ua [simp]: "pl_ua (put_device k d p) = pl_ua p"
  by (simp add: put_device_def)

lemma onRegister_run:
  assumes "onRegister h os now ent req stx p = Inr (p', ev)"
  shows "ua_run (pl_ua p) (pl_ua p')"
proof -
  obtain k where k: "from_user req = Inr k" using assms by (cases "from_user req") (auto simp: onRegister_def)
  obtain resp e q where "answer os now stx resp e q = Inr (p', ev)" "pl_ua q = pl_ua p"
    using assms k by (auto simp: onRegister_def Let_def split: if_splits option.splits)
  then show ?thesis using answer_run by metis
qed

lemma ua_answer_run: "ua_run (pl_ua p) (pl_ua (ua_answer os now stx status p))"
  using UA_Respond_run [OF prod.collapse [symmetric]] by (simp add: ua_answer_def)

lemma onMessage_run:
  assumes "onMessage dec os now req stx p = Inr (p', ev)"
  shows "ua_run (pl_ua p) (pl_ua p')"
proof -
  have rc: "pl_ua (record_channels k e q) = pl_ua q" for k e q by (simp add: record_channels_def split: option.split)
  have "\<exists>st. pl_ua p' = pl_ua (ua_answer os now stx st p)"
    using assms by (auto simp: onMessage_def Let_def bind_result_def rc split: sum.splits if_splits)
  then show ?thesis using ua_answer_run by metis
qed

lemma Platform_packet_run:
  assumes "Platform_packet h dec os now tag ent pkt p = Inr (p', ev, call)"
  shows "ua_run (pl_ua p) (pl_ua p')"
proof -
  obtain ua c where u: "UA_packet os now tag pkt (pl_ua p) = Inr (ua, c)"
    using assms by (cases "UA_packet os now tag pkt (pl_ua p)") (auto simp: Platform_packet_def)
  have "ua_run (pl_ua (p\<lparr>pl_ua := ua\<rparr>)) (pl_ua p')"
    using assms u
    by (auto simp: Platform_packet_def Let_def bind_result_def split: option.splits UaCall.splits sum.splits prod.splits
        dest: onRegister_run onMessage_run)
  then show ?thesis using UA_packet_run [OF u] ua_run_trans by simp
qed

lemma platform_request_run:
  "Platform_sendMessage os now tag ent br deviceID body event p = (p', r) \<Longrightarrow> ua_run (pl_ua p) (pl_ua p')"
  "Platform_invite os now tag ent br deviceID st p = (p', s) \<Longrightarrow> ua_run (pl_ua p) (pl_ua p')"
  by (auto simp: Platform_sendMessage_def Platform_invite_def split: option.splits prod.splits sum.splits
      dest: UA_request_run UA_Invite_run)

lemma platform_step_run: "platform_step p p' \<Longrightarrow> tx_step\<^sup>*\<^sup>* (ua_tm (pl_ua p)) (ua_tm (pl_ua p'))"
  unfolding ua_run_def [symmetric]
proof (induction rule: platform_step.induct)
  case packet
  then show ?case by (rule Platform_packet_run)
next
  case transactions
  then show ?case by (auto simp: ua_run_def)
qed (auto simp: QueryCatalog_def QueryDeviceInfo_def PTZControl_def InviteLive_def InvitePlayback_def Platform_nextSN_def
       dest!: platform_request_run)

interpretation platform_layer: layered_system tx_init tx_step tx_inv manager_le platform_step "\<lambda>p. ua_tm (pl_ua p)"
  by unfold_locales (rule platform_step_run)

section \<open>The device\<close>

lemma register_send_run: "register_send os now tag br callID cseq auth ev d = (d', r) \<Longrightarrow> ua_run (dv_ua d) (dv_ua d')"
  by (auto simp: register_send_def split: prod.splits sum.splits dest: UA_request_run)

lemma learn_nonce_ua [simp]: "dv_ua (learn_nonce resp d) = dv_ua d"
  by (simp add: learn_nonce_def Let_def split: option.split)

lemma register_run: "register h os now callid tag br ev d = (d', r) \<Longrightarrow> ua_run (dv_ua d) (dv_ua d')"
proof -
  assume a: "register h os now callid tag br ev d = (d', r)"
  obtain d1 r1 where s1: "register_send os now (tag 0) (br 0) (NewCallID callid) 1 None (ev 0) d = (d1, r1)" by force
  have k1: "ua_run (dv_ua d) (dv_ua d1)" by (rule register_send_run [OF s1])
  consider "dv_ua d' = dv_ua d1"
    | resp ch d3 r3 where "register_send os now (tag 1) (br 1) (NewCallID callid) 2
        (Some (register_auth_for h ch (learn_nonce resp d1))) (ev 1) (learn_nonce resp d1) = (d3, r3)" "d' = d3"
    using a s1 by (auto simp: register_def Let_def split: sum.splits if_splits option.splits prod.splits)
  then show ?thesis
  proof cases
    case (2 resp ch d3 r3)
    then show ?thesis using k1 register_send_run [OF 2(1)] ua_run_trans by simp
  qed (use k1 in simp)
qed

lemma SendMessage_run: "SendMessage os now tag callid br body d = (d', r) \<Longrightarrow> ua_run (dv_ua d) (dv_ua d')"
  by (auto simp: SendMessage_def split: prod.splits dest: UA_request_run)

lemma Keepalive_run: "Keepalive os now tag callid br d = (d', r) \<Longrightarrow> ua_run (dv_ua d) (dv_ua d')"
  by (auto simp: Keepalive_def Device_nextSN_def dest: SendMessage_run)

lemma Device_respond_run: "ua_run (dv_ua d) (fst (UA_Respond os now None stx st [] None (dv_ua d)))"
  by (rule UA_Respond_run) (rule prod.collapse [symmetric])

lemma Device_onMessage_run:
  assumes "Device_onMessage dec os now tag callid br req stx d = (d', c)"
  shows "ua_run (dv_ua d) (dv_ua d')"
proof -
  let ?r = "\<lambda>st. d\<lparr>dv_ua := fst (UA_Respond os now None stx st [] None (dv_ua d))\<rparr>"
  have r: "ua_run (dv_ua d) (dv_ua (?r st))" for st using Device_respond_run by simp
  have "(\<exists>st. d' = ?r st) \<or> (\<exists>a. d' = fst (SendMessage os now tag callid br (BuildResponse a) (?r 200)))"
    using assms by (auto simp: Device_onMessage_def Let_def split: sum.splits option.splits)
  then show ?thesis
  proof (elim disjE exE)
    fix a assume "d' = fst (SendMessage os now tag callid br (BuildResponse a) (?r 200))"
    then have "ua_run (dv_ua (?r 200)) (dv_ua d')" using SendMessage_run [OF prod.collapse [symmetric]] by (simp only:)
    with r show ?thesis by (rule ua_run_trans)
  qed (use r in simp)
qed

lemma Device_onInvite_run:
  assumes "Device_onInvite os now t req stx dlg d = Inr (d', c)"
  shows "ua_run (dv_ua d) (dv_ua d')"
proof (cases "ParseSDP (RBody req)")
  case (Inl e)
  then show ?thesis
    using assms Device_respond_run by (auto simp: Device_onInvite_def)
next
  case (Inr remote)
  then obtain i t1 tm where "m_heap (ua_tm (dv_ua d)) i = Some (STx t1)"
      "\<exists>r resp. ServerTx_Respond os now i t1 resp (ua_tm (dv_ua d)) = (tm, r)" "ua_tm (dv_ua d') = tm"
    using assms by (auto simp: Device_onInvite_def Let_def split: option.splits Tx.splits prod.splits sum.splits) blast+
  then show ?thesis using Respond_run unfolding ua_run_def by blast
qed

lemma Device_packet_run:
  assumes "Device_packet dec os now tag callid br pkt d = Inr (d', call)"
  shows "ua_run (dv_ua d) (dv_ua d')"
proof -
  obtain ua c where u: "UA_packet os now tag pkt (dv_ua d) = Inr (ua, c)"
    using assms by (cases "UA_packet os now tag pkt (dv_ua d)") (auto simp: Device_packet_def)
  have "ua_run (dv_ua (d\<lparr>dv_ua := ua\<rparr>)) (dv_ua d')"
    using assms u
    by (auto simp: Device_packet_def Device_onBye_def Let_def split: option.splits UaCall.splits
        dest: Device_onMessage_run Device_onInvite_run)
  then show ?thesis using UA_packet_run [OF u] ua_run_trans by simp
qed

lemma run_step_run: "run_step s s' \<Longrightarrow> tx_step\<^sup>*\<^sup>* (ua_tm (dv_ua (fst s))) (ua_tm (dv_ua (fst s')))"
  unfolding ua_run_def [symmetric]
proof (induction rule: run_step.induct)
  case (attempt st h os now callid tag br ev d d' st' call)
  then have "dv_ua d' = dv_ua (fst (register h os now callid tag br ev d))"
    by (auto simp: run_attempt_def split: prod.splits sum.splits)
  then show ?case using register_run [of h os now callid tag br ev d] by (metis fst_conv prod.collapse)
next
  case (tick st os now tag0 callid br0 d d' st' call)
  then have "d' = fst (Keepalive os now tag0 callid br0 d)"
    by (auto simp: run_tick_def split: prod.splits sum.splits if_splits)
  then show ?case using Keepalive_run [of os now tag0 callid br0 d] by (metis fst_conv prod.collapse)
next
  case packet
  then show ?case using Device_packet_run by simp
qed

interpretation device_layer: layered_system tx_init tx_step tx_inv manager_le run_step "\<lambda>s. ua_tm (dv_ua (fst s))"
  by unfold_locales (rule run_step_run)

end
