(* ===== verification/SipServ.thy ===== *)
theory SipServ
  imports UaLayer TransportOpen
begin

text \<open>
  \<^verbatim>\<open>cmd/sipserv/main.go\<close>: the demo SIP server, a user agent whose callbacks answer every request. The
  callback for INVITE starts a goroutine that rings and then answers; its program counter is a \<open>ServJob\<close>. The
  steps of the server are a packet, a turn of such a goroutine and the timers of its transactions. Shown: in
  every run every request other than ACK and CANCEL is answered or has a goroutine that will answer it; a
  CANCEL is never answered.
\<close>

section \<open>The server\<close>

datatype ServJob = Ring (job_dlg: nat) (job_stx: "nat option") | Answer (job_dlg: nat) (job_stx: "nat option")

record SipServ =
  sv_ua :: UA
  sv_jobs :: "ServJob list"

definition serv_callbacks :: UACallbacks where
  "serv_callbacks = \<lparr>has_OnInvite = True, has_OnRegister = True, has_OnBye = True, has_OnMessage = True,
     has_OnInfo = True, has_OnNotify = True, has_OnSubscribe = True\<rparr>"

definition sipserv_main :: "Listen \<Rightarrow> string \<Rightarrow> int \<Rightarrow> SipServ result" where
  "sipserv_main li host port = (case NewTransport li host port port of
     (p, Some e) \<Rightarrow> Inl e
   | (p, None) \<Rightarrow> Inr \<lparr>sv_ua = SetCallbacks serv_callbacks (NewUA (op_tp p) host (UDPPort p)), sv_jobs = []\<rparr>)"

definition serv_sdp :: string where
  "serv_sdp = ''v=0'' @ CRLF @ ''o=- 0 0 IN IP4 127.0.0.1'' @ CRLF @ ''s=sip'' @ CRLF @ ''t=0 0'' @ CRLF"

definition serv_Respond :: "OS \<Rightarrow> int \<Rightarrow> nat option \<Rightarrow> nat option \<Rightarrow> int \<Rightarrow> string \<Rightarrow> string option \<Rightarrow> SipServ \<Rightarrow> SipServ" where
  "serv_Respond os now dlg stx status ct body s =
     s\<lparr>sv_ua := fst (UA_Respond os now (Option.bind dlg (dm_heap (ua_dialogs (sv_ua s)))) stx status ct body (sv_ua s))\<rparr>"

text \<open>The callbacks.\<close>

fun serve_call :: "OS \<Rightarrow> int \<Rightarrow> UaCall \<Rightarrow> SipServ \<Rightarrow> SipServ" where
  "serve_call os now (CallRegister req stx) s = serv_Respond os now None stx 200 [] None s"
| "serve_call os now (CallMessage req stx) s = serv_Respond os now None stx 200 [] None s"
| "serve_call os now (CallNotify req stx) s = serv_Respond os now None stx 200 [] None s"
| "serve_call os now (CallSubscribe req stx) s = serv_Respond os now None stx 200 [] None s"
| "serve_call os now (CallInfo req stx dlg) s = serv_Respond os now (Some dlg) stx 200 [] None s"
| "serve_call os now (CallInvite req stx dlg) s = s\<lparr>sv_jobs := sv_jobs s @ [Ring dlg stx]\<rparr>"
| "serve_call os now (CallBye req dlg stx) s = s"

definition sipserv_packet :: "OS \<Rightarrow> int \<Rightarrow> Entropy \<Rightarrow> Packet \<Rightarrow> SipServ \<Rightarrow> SipServ result" where
  "sipserv_packet os now tag pkt s = bind_result (UA_packet os now tag pkt (sv_ua s)) (\<lambda>(ua, call).
     Inr (case call of None \<Rightarrow> s\<lparr>sv_ua := ua\<rparr> | Some c \<Rightarrow> serve_call os now c (s\<lparr>sv_ua := ua\<rparr>)))"

text \<open>The next statement of the goroutine \<open>k\<close> that answers an INVITE: 180, then 200 with the description.\<close>

definition run_job :: "OS \<Rightarrow> int \<Rightarrow> nat \<Rightarrow> SipServ \<Rightarrow> SipServ" where
  "run_job os now k s = (case sv_jobs s ! k of
     Ring dlg stx \<Rightarrow> (serv_Respond os now (Some dlg) stx 180 [] None s)\<lparr>sv_jobs := (sv_jobs s)[k := Answer dlg stx]\<rparr>
   | Answer dlg stx \<Rightarrow>
       (serv_Respond os now (Some dlg) stx 200 ''application/sdp'' (Some serv_sdp) s)\<lparr>sv_jobs := take k (sv_jobs s) @ drop (Suc k) (sv_jobs s)\<rparr>)"

abbreviation sv_tm :: "SipServ \<Rightarrow> TxManager" where
  "sv_tm s \<equiv> ua_tm (sv_ua s)"

abbreviation set_tm :: "TxManager \<Rightarrow> SipServ \<Rightarrow> SipServ" where
  "set_tm m s \<equiv> s\<lparr>sv_ua := (sv_ua s)\<lparr>ua_tm := m\<rparr>\<rparr>"

inductive sv_step :: "SipServ \<Rightarrow> SipServ \<Rightarrow> bool" where
  packet: "sipserv_packet os now tag pkt s = Inr s' \<Longrightarrow> sv_step s s'"
| job: "k < length (sv_jobs s) \<Longrightarrow> sv_step s (run_job os now k s)"
| timer: "i \<in> set (m_timers (sv_tm s)) \<Longrightarrow>
    sv_step s (set_tm (finish_tx i ((sv_tm s)\<lparr>m_timers := remove1 i (m_timers (sv_tm s))\<rparr>)) s)"
| tick: "m_heap (sv_tm s) i = Some (STx t) \<Longrightarrow> sv_step s (set_tm (ServerTx_tick os now i t (sv_tm s)) s)"
| stop: "m_heap (sv_tm s) i = Some (STx t) \<Longrightarrow> sv_step s (set_tm (ServerTx_tick_stop i t (sv_tm s)) s)"

definition sv_init :: "SipServ \<Rightarrow> bool" where
  "sv_init s \<longleftrightarrow> (\<exists>li host port. sipserv_main li host port = Inr s)"

section \<open>Requests without an answer\<close>

definition must_answer :: "Method \<Rightarrow> bool" where
  "must_answer method \<longleftrightarrow> method \<noteq> ACK \<and> method \<noteq> CANCEL"

definition unanswered :: "TxManager \<Rightarrow> nat set" where
  "unanswered m = {i. \<exists>t. m_heap m i = Some (STx t) \<and> must_answer (RMethod (s_req t)) \<and> s_final t = None}"

definition job_targets :: "SipServ \<Rightarrow> nat set" where
  "job_targets s = {i. \<exists>j \<in> set (sv_jobs s). job_stx j = Some i}"

lemma unanswered_heap: "m_heap m' = m_heap m \<Longrightarrow> unanswered m' = unanswered m"
  by (simp add: unanswered_def)

lemma unanswered_evolves:
  assumes "m_heap m i = Some t" "evolves i t m m'"
  shows "unanswered m' \<subseteq> unanswered m"
proof -
  obtain t' where h: "m_heap m' = (m_heap m)(i \<mapsto> t')" "tx_le t t'" using assms(2) by (auto simp: evolves_def)
  show ?thesis
  proof
    fix j assume "j \<in> unanswered m'"
    then obtain u where u: "m_heap m' j = Some (STx u)" "must_answer (RMethod (s_req u))" "s_final u = None"
      by (auto simp: unanswered_def)
    show "j \<in> unanswered m"
    proof (cases "j = i")
      case True
      then have "t' = STx u" using u(1) h(1) by simp
      then obtain v where "t = STx v" "server_le v u" using h(2) by (cases t) auto
      then show ?thesis using assms(1) True u by (auto simp: unanswered_def server_le_def)
    qed (use u h(1) in \<open>auto simp: unanswered_def\<close>)
  qed
qed

lemma respond_final:
  assumes "tx_inv m" "m_heap m i = Some (STx t)" "200 \<le> StatusCode resp" "StatusCode resp \<le> 699"
    "ServerTx_Respond os now i t resp m = (m', r)"
  shows "unanswered m' \<subseteq> unanswered m - {i}"
proof -
  have ok: "server_ok t" using tx_inv_heap [OF assms(1,2)] by simp
  have sub: "unanswered m' \<subseteq> unanswered m" using unanswered_evolves [OF assms(2)] respond_evolves [OF assms(2) ok assms(5)] .
  have "\<exists>u. m_heap m' i = Some (STx u) \<and> s_final u \<noteq> None"
  proof (cases "s_final t")
    case (Some f)
    then have "m' = m" using assms(3-5) by (simp add: ServerTx_Respond_def Let_def)
    then show ?thesis using assms(2) Some by auto
  next
    case None
    let ?f = "t\<lparr>s_final := Some (resp\<lparr>SHeaders := respond_headers (s_req t) (SHeaders resp)\<rparr>), s_state := TxStateCompleted\<rparr>"
    obtain m1 r1 where snd: "TxManager_send os now (Resp (resp\<lparr>SHeaders := respond_headers (s_req t) (SHeaders resp)\<rparr>)) (s_src t)
        (put_tx i (STx ?f) m) = (m1, r1)" by fastforce
    have "m' = m1 \<or> m' = schedule_finish i m1 \<or> m' = schedule_finish i (put_tx i (STx (ServerTx_startFinalRetransmit (m_cfg m1) ?f)) m1)"
      using assms(3-5) None snd by (auto simp: ServerTx_Respond_def Let_def split: if_splits sum.splits)
    then show ?thesis
      using send_pair [OF snd] by (auto simp: schedule_finish_def put_tx_def ServerTx_startFinalRetransmit_def)
  qed
  then show ?thesis using sub by (auto simp: unanswered_def)
qed

lemma respond_stx_answers:
  assumes "tx_inv (ua_tm ua)" "respond_stx os now stx resp ua = Inr ua'" "200 \<le> StatusCode resp" "StatusCode resp \<le> 699"
  shows "unanswered (ua_tm ua') \<subseteq> unanswered (ua_tm ua) - set_option stx"
proof -
  obtain i where i: "stx = Some i" using assms(2) by (cases stx) (auto simp: respond_stx_def)
  show ?thesis
  proof (cases "\<exists>t. m_heap (ua_tm ua) i = Some (STx t)")
    case True
    then obtain t where t: "m_heap (ua_tm ua) i = Some (STx t)" by blast
    have "ua_tm ua' = fst (ServerTx_Respond os now i t resp (ua_tm ua))" using assms(2) i t by (auto simp: respond_stx_def)
    then show ?thesis using respond_final [OF assms(1) t assms(3,4) prod.collapse [symmetric]] i by simp
  next
    case False
    then have "ua' = ua" using assms(2) i by (auto simp: respond_stx_def split: option.splits Tx.splits)
    then show ?thesis using False i by (auto simp: unanswered_def)
  qed
qed

lemma UA_Respond_unanswered:
  assumes "tx_inv (ua_tm ua)"
  shows "unanswered (ua_tm (fst (UA_Respond os now dlg stx status ct body ua))) \<subseteq> unanswered (ua_tm ua)"
    and "200 \<le> status \<Longrightarrow> status \<le> 699 \<Longrightarrow>
      unanswered (ua_tm (fst (UA_Respond os now dlg stx status ct body ua))) \<subseteq> unanswered (ua_tm ua) - set_option stx"
proof -
  have code: "StatusCode (ua_response dlg status ct body) = status"
    by (simp add: ua_response_def Let_def NewResponse_def Response_SetBody_def split: option.split)
  have "unanswered (ua_tm (fst (UA_Respond os now dlg stx status ct body ua))) \<subseteq> unanswered (ua_tm ua) \<and>
    (200 \<le> status \<and> status \<le> 699 \<longrightarrow>
      unanswered (ua_tm (fst (UA_Respond os now dlg stx status ct body ua))) \<subseteq> unanswered (ua_tm ua) - set_option stx)"
  proof (cases "\<exists>i t. stx = Some i \<and> m_heap (ua_tm ua) i = Some (STx t)")
    case True
    then obtain i t where i: "stx = Some i" and t: "m_heap (ua_tm ua) i = Some (STx t)" by blast
    let ?R = "ServerTx_Respond os now i t (ua_response dlg status ct body) (ua_tm ua)"
    have eq: "ua_tm (fst (UA_Respond os now dlg stx status ct body ua)) = fst ?R"
      using i t by (simp add: UA_Respond_def split: prod.split)
    have "server_ok t" using tx_inv_heap [OF assms t] by simp
    from respond_evolves [OF t this prod.collapse [symmetric]]
    show ?thesis unfolding eq using unanswered_evolves [OF t]
      respond_final [OF assms t _ _ prod.collapse [symmetric], of "ua_response dlg status ct body" os now] code i by auto
  next
    case False
    then have "fst (UA_Respond os now dlg stx status ct body ua) = ua"
      by (auto simp: UA_Respond_def split: option.splits Tx.splits)
    then show ?thesis using False by (cases stx) (auto simp: unanswered_def)
  qed
  then show "unanswered (ua_tm (fst (UA_Respond os now dlg stx status ct body ua))) \<subseteq> unanswered (ua_tm ua)"
    "200 \<le> status \<Longrightarrow> status \<le> 699 \<Longrightarrow>
      unanswered (ua_tm (fst (UA_Respond os now dlg stx status ct body ua))) \<subseteq> unanswered (ua_tm ua) - set_option stx" by blast+
qed

section \<open>A packet\<close>

lemma handleRequest_unanswered:
  assumes "tx_inv m" "handleRequest os now req src m = (m', u)"
  shows "unanswered m' \<subseteq> unanswered m \<and> (\<nexists>r a i. u = Some (OnRequest r a (Some i))) \<or>
    (u = Some (OnRequest req src (Some (m_next m))) \<and>
     m_heap m' = (m_heap m)(m_next m \<mapsto> STx (new_server_tx req (serverTxKey req) src)))"
proof (cases "cseq_method (Request_CSeq req) = ACK")
  case True
  show ?thesis
  proof (cases rule: lookup_cases [of "''S|'' @ viaBranch req @ ''|INVITE''" m])
    case (server i t)
    have t: "m_heap m i = Some (STx t)" using lookup_tx_Some [OF server] by simp
    have "m' = ServerTx_receiveACK i t m" "u = None" using assms(2) True server by (simp_all add: handleRequest_def Let_def)
    moreover have "server_ok t" using tx_inv_heap [OF assms(1) t] by simp
    ultimately show ?thesis using unanswered_evolves [OF t receiveACK_evolves [OF t]] by simp
  qed (use assms(2) True in \<open>auto simp: handleRequest_def Let_def\<close>)
next
  case nack: False
  show ?thesis
  proof (cases "cseq_method (Request_CSeq req) = CANCEL \<and>
      (case lookup_tx (''S|'' @ viaBranch req @ ''|INVITE'') m of Some (i, STx stx) \<Rightarrow> \<not> sameAddr src (s_src stx) | _ \<Rightarrow> False)")
    case True
    then show ?thesis using assms(2) nack by (auto simp: handleRequest_def Let_def)
  next
    case False
    have "serverTxKey req \<noteq> []" by (simp add: serverTxKey_def)
    then have eq: "(case lookup_tx (serverTxKey req) m of
           Some (i, STx stx) \<Rightarrow> (ServerTx_receiveRetransmission os now stx m, None)
         | _ \<Rightarrow> (add_tx (serverTxKey req) (STx (new_server_tx req (serverTxKey req) src)) m,
                   Some (OnRequest req src (Some (m_next m))))) = (m', u)"
      using assms(2) nack False unfolding handleRequest_def Let_def by (simp only: if_False)
    show ?thesis
    proof (cases rule: lookup_cases [of "serverTxKey req" m])
      case (server i t)
      then show ?thesis using eq unanswered_heap [of m' m] by auto
    qed (use eq in \<open>auto simp: add_tx_def\<close>)
  qed
qed

lemma handlePacket_unanswered:
  assumes "tx_inv m" "handlePacket os now pkt m = Inr (m', u)"
  shows "unanswered m' \<subseteq> unanswered m \<and> (\<nexists>r a i. u = Some (OnRequest r a (Some i))) \<or>
    (\<exists>req src i t. u = Some (OnRequest req src (Some i)) \<and> m_heap m' i = Some (STx t) \<and> s_req t = req \<and>
      unanswered m' \<subseteq> insert i (unanswered m))"
proof -
  let ?m = "inc_metric ''packets_received'' m"
  have inv: "tx_inv ?m" and un: "unanswered ?m = unanswered m"
    using assms(1) by (simp_all add: inc_metric_def tx_inv_def unanswered_def)
  show ?thesis
  proof (cases "Msg pkt")
    case (Req r)
    then have h: "handleRequest os now r (Src pkt) ?m = (m', u)" using assms(2) by (simp add: handlePacket_def Let_def)
    from handleRequest_unanswered [OF inv h] show ?thesis
    proof
      assume "u = Some (OnRequest r (Src pkt) (Some (m_next ?m))) \<and>
        m_heap m' = (m_heap ?m)(m_next ?m \<mapsto> STx (new_server_tx r (serverTxKey r) (Src pkt)))"
      then have "u = Some (OnRequest r (Src pkt) (Some (m_next ?m)))"
        "m_heap m' (m_next ?m) = Some (STx (new_server_tx r (serverTxKey r) (Src pkt)))"
        "unanswered m' \<subseteq> insert (m_next ?m) (unanswered ?m)" by (auto simp: unanswered_def split: if_splits)
      then show ?thesis using un by (intro disjI2) (auto simp: new_server_tx_def)
    qed (use un in simp)
  next
    case (Resp r)
    then have h: "handleResponse os now r (Src pkt) ?m = Inr (m', u)" using assms(2) by (simp add: handlePacket_def Let_def)
    have up: "\<nexists>q a i. u = Some (OnRequest q a (Some i))"
      using h by (auto simp: handleResponse_def Let_def bind_result_eq_Inr split: if_splits option.splits Tx.splits)
    have "unanswered m' \<subseteq> unanswered ?m"
    proof (cases "\<exists>i t. clientTxKeyOf r \<noteq> [] \<and> lookup_tx (clientTxKeyOf r) ?m = Some (i, CTx t)")
      case True
      then obtain i t where t: "clientTxKeyOf r \<noteq> []" "lookup_tx (clientTxKeyOf r) ?m = Some (i, CTx t)" by blast
      have i: "m_heap ?m i = Some (CTx t)" using lookup_tx_Some [OF t(2)] by simp
      have "client_ok t" using tx_inv_heap [OF inv i] by simp
      moreover have "ClientTx_receive os now i t r ?m = Inr m'"
        using h t by (auto simp: handleResponse_def Let_def bind_result_eq_Inr)
      ultimately show ?thesis using unanswered_evolves [OF i] receive_evolves [OF i] by blast
    next
      case False
      then have "m' = ?m" using h by (auto simp: handleResponse_def Let_def split: if_splits option.splits Tx.splits)
      then show ?thesis by simp
    qed
    then show ?thesis using up un by simp
  qed
qed

fun call_stx :: "UaCall \<Rightarrow> nat option" where
  "call_stx (CallInvite req stx dlg) = stx"
| "call_stx (CallRegister req stx) = stx"
| "call_stx (CallBye req dlg stx) = None"
| "call_stx (CallMessage req stx) = stx"
| "call_stx (CallInfo req stx dlg) = stx"
| "call_stx (CallNotify req stx) = stx"
| "call_stx (CallSubscribe req stx) = stx"

text \<open>A request handled by the user agent is answered at once, or the callback it calls has the transaction.\<close>

definition covers :: "nat option \<Rightarrow> UA \<Rightarrow> UA \<Rightarrow> UaCall option \<Rightarrow> bool" where
  "covers stx ua ua' call \<longleftrightarrow> unanswered (ua_tm ua') \<subseteq>
     (unanswered (ua_tm ua) - set_option stx) \<union> (case call of None \<Rightarrow> {} | Some c \<Rightarrow> set_option (call_stx c))"

lemma respond_covers:
  assumes "tx_inv (ua_tm ua)" "bind_result (respond_stx os now stx resp v) (\<lambda>w. Inr (w, g w)) = Inr (ua', call)" "ua_tm v = ua_tm ua"
    "200 \<le> StatusCode resp" "StatusCode resp \<le> 699"
  shows "covers stx ua ua' call"
proof -
  have "respond_stx os now stx resp v = Inr ua'" using assms(2) by (auto simp: bind_result_eq_Inr)
  from respond_stx_answers [OF _ this assms(4,5)] show ?thesis using assms(1,3) by (auto simp: covers_def)
qed

lemma respond_if_covers:
  assumes "tx_inv (ua_tm ua)" "respond_if os now stx resp v = Inr (ua', call)" "ua_tm v = ua_tm ua"
    "200 \<le> StatusCode resp" "StatusCode resp \<le> 699"
  shows "covers stx ua ua' call"
proof (cases stx)
  case (Some i)
  then have "bind_result (respond_stx os now stx resp v) (\<lambda>w. Inr (w, None)) = Inr (ua', call)"
    using assms(2) by (simp add: respond_if_def)
  from respond_covers [OF assms(1) this assms(3-5)] show ?thesis .
qed (use assms(2,3) in \<open>simp add: respond_if_def covers_def\<close>)

lemma StatusCode_New [simp]: "StatusCode (NewResponse c r) = c"
  by (simp add: NewResponse_def)

lemma handleBye_covers:
  assumes "tx_inv (ua_tm ua)" "handleBye os now req src stx ua = Inr (ua', call)"
  shows "covers stx ua ua' call"
proof -
  obtain ua0 o0 where f: "findDialog req ua = (ua0, o0)" by force
  have tm: "ua_tm ua0 = ua_tm ua" using findDialog_run [OF f] .
  have "\<exists>st v g. st \<in> {481, 403, 500, 200} \<and> ua_tm v = ua_tm ua \<and>
      bind_result (respond_stx os now stx (NewResponse st []) v) (\<lambda>w. Inr (w, g w)) = Inr (ua', call)"
  proof (cases o0)
    case None
    then show ?thesis using assms(2) f tm by (intro exI [of _ 481] exI [of _ ua0] exI [of _ "\<lambda>_. None"]) (simp add: handleBye_def)
  next
    case (Some i)
    obtain d where d: "dm_heap (ua_dialogs ua0) i = Some d"
      using f Some by (auto simp: findDialog_def set_dialog_def split: option.splits)
    let ?d = "Dialog_Terminate d"
    let ?ua1 = "ua0\<lparr>ua_dialogs := DialogManager_Remove ?d (set_dialog i ?d (ua_dialogs ua0))\<rparr>"
    let ?g = "\<lambda>u. if has_OnBye (ua_cb u) then Some (CallBye req i stx) else None"
    consider "\<not> dialogSourceAllowed d src"
      | "dialogSourceAllowed d src" "case Request_CSeq req of Some c \<Rightarrow> Seq c < d_RemoteSeq d | None \<Rightarrow> False"
      | "dialogSourceAllowed d src" "\<not> (case Request_CSeq req of Some c \<Rightarrow> Seq c < d_RemoteSeq d | None \<Rightarrow> False)" by blast
    then show ?thesis
    proof cases
      case 1 then show ?thesis
        using assms(2) f Some d tm by (intro exI [of _ 403] exI [of _ ua0] exI [of _ "\<lambda>_. None"]) (simp add: handleBye_def)
    next
      case 2 then show ?thesis
        using assms(2) f Some d tm by (intro exI [of _ 500] exI [of _ ua0] exI [of _ "\<lambda>_. None"]) (simp add: handleBye_def)
    next
      case 3 then show ?thesis
        using assms(2) f Some d tm by (intro exI [of _ 200] exI [of _ ?ua1] exI [of _ ?g]) (simp add: handleBye_def Let_def)
    qed
  qed
  then obtain st v g where v: "st \<in> {481, 403, 500, 200}" "ua_tm v = ua_tm ua"
      "bind_result (respond_stx os now stx (NewResponse st []) v) (\<lambda>w. Inr (w, g w)) = Inr (ua', call)" by blast
  show ?thesis by (rule respond_covers [OF assms(1) v(3,2)]) (use v(1) in auto)
qed

lemma covers_call: "ua_tm ua' = ua_tm ua \<Longrightarrow> call_stx c = stx \<Longrightarrow> covers stx ua ua' (Some c)"
  by (auto simp: covers_def)

lemma UA_handleRequest_covers:
  assumes "tx_inv (ua_tm ua)" "ua_cb ua = serv_callbacks" "must_answer (RMethod req)"
    "UA_handleRequest os now tag req src stx ua = Inr (ua', call)"
  shows "covers stx ua ua' call"
proof -
  have codes: "StatusCode not_implemented = 501" "StatusCode options_response = 200"
    by (simp_all add: not_implemented_def options_response_def Let_def)
  obtain ua0 o0 where f: "findDialog req ua = (ua0, o0)" by force
  have tm: "ua_tm ua0 = ua_tm ua" using findDialog_run [OF f] .
  have ni: "covers stx ua ua' call" if "respond_if os now stx not_implemented v = Inr (ua', call)" "ua_tm v = ua_tm ua" for v
    using respond_if_covers [OF assms(1) that] codes by simp
  have opt: "covers stx ua ua' call" if "respond_if os now stx options_response ua = Inr (ua', call)"
    using respond_if_covers [OF assms(1) that] codes by simp
  have inv: "covers stx ua ua' call" if "handleInvite os now tag req stx ua = Inr (ua', call)"
    using that assms(2) covers_call by (auto simp: handleInvite_def Let_def serv_callbacks_def split: prod.splits)
  have info: "covers stx ua ua' call"
    if "(case o0 of Some i \<Rightarrow> Inr (ua0, Some (CallInfo req stx i)) | None \<Rightarrow> respond_if os now stx not_implemented ua0) = Inr (ua', call)"
    using that ni [of ua0] tm covers_call by (auto split: option.splits)
  consider "RMethod req = BYE" | "RMethod req = INVITE" | "RMethod req = MESSAGE" | "RMethod req = OPTIONS" | "RMethod req = INFO"
    | "RMethod req = NOTIFY" | "RMethod req = SUBSCRIBE" | "RMethod req = REGISTER"
    | "RMethod req \<notin> {BYE, INVITE, MESSAGE, OPTIONS, INFO, NOTIFY, SUBSCRIBE, REGISTER}" by blast
  then show ?thesis
    using assms(3,4) f handleBye_covers [OF assms(1)] inv opt info ni [of ua] covers_call
    by cases (auto simp: UA_handleRequest_def Let_def assms(2) serv_callbacks_def must_answer_def ACK_def CANCEL_def BYE_def INVITE_def
        MESSAGE_def OPTIONS_def INFO_def NOTIFY_def SUBSCRIBE_def REGISTER_def split: option.splits)
qed

section \<open>The invariant\<close>

definition sv_inv :: "SipServ \<Rightarrow> bool" where
  "sv_inv s \<longleftrightarrow> tx_inv (sv_tm s) \<and> ua_cb (sv_ua s) = serv_callbacks \<and> unanswered (sv_tm s) \<subseteq> job_targets s"

lemma respond_bind_cb: "bind_result (respond_stx os now stx resp ua) (\<lambda>w. Inr (w, g w)) = Inr (ua', call) \<Longrightarrow> ua_cb ua' = ua_cb ua"
  by (auto simp: bind_result_eq_Inr dest: respond_stx_frame)

lemma findDialog_cb: "findDialog req ua = (ua', i) \<Longrightarrow> ua_cb ua' = ua_cb ua"
  by (auto simp: findDialog_def split: option.splits)

lemma handleBye_cb:
  assumes "handleBye os now req src stx ua = Inr (ua', call)"
  shows "ua_cb ua' = ua_cb ua"
proof -
  obtain ua0 o0 where f: "findDialog req ua = (ua0, o0)" by force
  have "ua_cb ua' = ua_cb ua0"
    using assms f by (auto simp: handleBye_def Let_def dest!: respond_bind_cb split: option.splits if_splits)
  then show ?thesis using findDialog_cb [OF f] by simp
qed

lemma UA_handleRequest_cb:
  assumes "UA_handleRequest os now tag req src stx ua = Inr (ua', call)"
  shows "ua_cb ua' = ua_cb ua"
proof -
  obtain ua0 o0 where f: "findDialog req ua = (ua0, o0)" by force
  have if_cb: "ua_cb ua' = ua_cb v" if "respond_if os now stx resp v = Inr (ua', call)" for resp v
    using that by (auto simp: respond_if_def dest: respond_bind_cb split: option.splits)
  have inv: "ua_cb ua' = ua_cb ua" if "handleInvite os now tag req stx ua = Inr (ua', call)"
    using that by (auto simp: handleInvite_def Let_def dest: respond_bind_cb split: if_splits prod.splits)
  show ?thesis
    using assms f findDialog_cb [OF f] if_cb inv handleBye_cb
    by (auto simp: UA_handleRequest_def Let_def split: if_splits option.splits)
qed

lemma UA_packet_covers:
  assumes "sv_inv s" "UA_packet os now tag pkt (sv_ua s) = Inr (ua', call)"
  shows "tx_inv (ua_tm ua') \<and> ua_cb ua' = serv_callbacks \<and>
    unanswered (ua_tm ua') \<subseteq> job_targets s \<union> (case call of None \<Rightarrow> {} | Some c \<Rightarrow> set_option (call_stx c))"
proof -
  have inv: "tx_inv (sv_tm s)" and cb: "ua_cb (sv_ua s) = serv_callbacks" and un: "unanswered (sv_tm s) \<subseteq> job_targets s"
    using assms(1) by (simp_all add: sv_inv_def)
  have inv': "tx_inv (ua_tm ua')"
    using UA_packet_run [OF assms(2)] tx_system.steps_inv inv unfolding ua_run_def by blast
  obtain tm up where h: "handlePacket os now pkt (sv_tm s) = Inr (tm, up)"
    using assms(2) by (cases "handlePacket os now pkt (sv_tm s)") (auto simp: UA_packet_def)
  let ?u = "(sv_ua s)\<lparr>ua_tm := tm\<rparr>"
  have tm: "tx_inv tm" using tx_system.step_inv [OF inv tx_step.packet [OF h]] .
  show ?thesis
  proof (cases "\<exists>req src stx. up = Some (OnRequest req src stx)")
    case False
    then have "ua' = ?u" "call = None" using assms(2) h by (auto simp: UA_packet_def Let_def split: option.splits Upcall.splits)
    then show ?thesis using handlePacket_unanswered [OF inv h] False un cb inv' by auto
  next
    case True
    then obtain req src stx where up: "up = Some (OnRequest req src stx)" by blast
    then have r: "UA_handleRequest os now tag req src stx ?u = Inr (ua', call)" using assms(2) h by (simp add: UA_packet_def Let_def)
    have cb': "ua_cb ua' = serv_callbacks" using UA_handleRequest_cb [OF r] cb by simp
    have sub: "unanswered tm - set_option stx \<subseteq> job_targets s"
      using handlePacket_unanswered [OF inv h] un up by (cases stx) auto
    show ?thesis
    proof (cases "must_answer (RMethod req)")
      case True
      then have "covers stx ?u ua' call" using UA_handleRequest_covers [OF _ _ True r] tm cb by simp
      then show ?thesis using sub inv' cb' by (auto simp: covers_def)
    next
      case False
      then have eq: "ua' = ?u" "call = None" using r by (auto simp: UA_handleRequest_def must_answer_def)
      have "i \<notin> unanswered tm" if "stx = Some i" for i
        using handlePacket_unanswered [OF inv h] up that False by (auto simp: unanswered_def)
      then have "unanswered tm \<subseteq> job_targets s" using sub by (cases stx) auto
      then show ?thesis using eq inv' cb' by simp
    qed
  qed
qed

lemma serv_Respond_inv:
  assumes "tx_inv (sv_tm s)"
  shows "tx_inv (sv_tm (serv_Respond os now dlg stx st ct body s))"
    and "ua_cb (sv_ua (serv_Respond os now dlg stx st ct body s)) = ua_cb (sv_ua s)"
    and "sv_jobs (serv_Respond os now dlg stx st ct body s) = sv_jobs s"
    and "unanswered (sv_tm (serv_Respond os now dlg stx st ct body s)) \<subseteq> unanswered (sv_tm s)"
    and "200 \<le> st \<Longrightarrow> st \<le> 699 \<Longrightarrow> unanswered (sv_tm (serv_Respond os now dlg stx st ct body s)) \<subseteq> unanswered (sv_tm s) - set_option stx"
proof -
  let ?d = "Option.bind dlg (dm_heap (ua_dialogs (sv_ua s)))"
  have run: "ua_run (sv_ua s) (fst (UA_Respond os now ?d stx st ct body (sv_ua s)))"
    using UA_Respond_run [OF prod.collapse [symmetric]] .
  show "tx_inv (sv_tm (serv_Respond os now dlg stx st ct body s))"
    using tx_system.steps_inv assms run unfolding ua_run_def serv_Respond_def by auto
  show "ua_cb (sv_ua (serv_Respond os now dlg stx st ct body s)) = ua_cb (sv_ua s)"
    by (simp add: serv_Respond_def UA_Respond_def split: option.split Tx.split prod.split)
  show "sv_jobs (serv_Respond os now dlg stx st ct body s) = sv_jobs s" by (simp add: serv_Respond_def)
  show "unanswered (sv_tm (serv_Respond os now dlg stx st ct body s)) \<subseteq> unanswered (sv_tm s)"
    "200 \<le> st \<Longrightarrow> st \<le> 699 \<Longrightarrow> unanswered (sv_tm (serv_Respond os now dlg stx st ct body s)) \<subseteq> unanswered (sv_tm s) - set_option stx"
    using UA_Respond_unanswered [OF assms] by (auto simp: serv_Respond_def)
qed

lemma serve_call_inv:
  assumes "tx_inv (sv_tm s)" "ua_cb (sv_ua s) = serv_callbacks" "unanswered (sv_tm s) \<subseteq> job_targets s \<union> set_option (call_stx c)"
  shows "sv_inv (serve_call os now c s)"
proof -
  have ok: "sv_inv (serv_Respond os now dlg stx 200 [] None s)" if "call_stx c = stx" for dlg stx
    using serv_Respond_inv [OF assms(1), where os = os and now = now and dlg = dlg and stx = stx and st = 200 and ct = "[]" and body = None] assms(2,3) that
    by (auto simp: sv_inv_def job_targets_def)
  show ?thesis
    using ok assms by (cases c) (auto simp: sv_inv_def job_targets_def)
qed

lemma packet_inv: "sv_inv s \<Longrightarrow> sipserv_packet os now tag pkt s = Inr s' \<Longrightarrow> sv_inv s'"
proof -
  assume inv: "sv_inv s" and p: "sipserv_packet os now tag pkt s = Inr s'"
  obtain ua' call where u: "UA_packet os now tag pkt (sv_ua s) = Inr (ua', call)"
      and s': "s' = (case call of None \<Rightarrow> s\<lparr>sv_ua := ua'\<rparr> | Some c \<Rightarrow> serve_call os now c (s\<lparr>sv_ua := ua'\<rparr>))"
    using p by (auto simp: sipserv_packet_def bind_result_eq_Inr)
  note c = UA_packet_covers [OF inv u]
  show "sv_inv s'"
  proof (cases call)
    case None then show ?thesis using c s' by (simp add: sv_inv_def job_targets_def)
  next
    case (Some x) then show ?thesis using c s' by (auto simp: job_targets_def intro!: serve_call_inv)
  qed
qed

lemma run_job_inv:
  assumes "sv_inv s" "k < length (sv_jobs s)"
  shows "sv_inv (run_job os now k s)"
proof -
  have inv: "tx_inv (sv_tm s)" and cb: "ua_cb (sv_ua s) = serv_callbacks" and un: "unanswered (sv_tm s) \<subseteq> job_targets s"
    using assms(1) by (simp_all add: sv_inv_def)
  show ?thesis
  proof (cases "sv_jobs s ! k")
    case (Ring dlg stx)
    have "job_targets s \<subseteq> {i. \<exists>j \<in> set ((sv_jobs s)[k := Answer dlg stx]). job_stx j = Some i}"
    proof
      fix i assume "i \<in> job_targets s"
      then obtain n where n: "n < length (sv_jobs s)" "job_stx (sv_jobs s ! n) = Some i" by (auto simp: job_targets_def in_set_conv_nth)
      then have "job_stx ((sv_jobs s)[k := Answer dlg stx] ! n) = Some i" using Ring by (cases "n = k") auto
      then show "i \<in> {i. \<exists>j \<in> set ((sv_jobs s)[k := Answer dlg stx]). job_stx j = Some i}"
        using n(1) nth_mem [of n "(sv_jobs s)[k := Answer dlg stx]"] by auto
    qed
    then show ?thesis
      using serv_Respond_inv [OF inv, where os = os and now = now and dlg = "Some dlg" and stx = stx and st = 180 and ct = "[]" and body = None]
        cb un Ring by (auto simp: sv_inv_def run_job_def job_targets_def)
  next
    case (Answer dlg stx)
    have "sv_jobs s = take k (sv_jobs s) @ Answer dlg stx # drop (Suc k) (sv_jobs s)"
      using id_take_nth_drop [OF assms(2)] Answer by simp
    then have "set (sv_jobs s) = insert (Answer dlg stx) (set (take k (sv_jobs s) @ drop (Suc k) (sv_jobs s)))"
      by (metis Un_insert_right list.simps(15) set_append)
    then have "job_targets s - set_option stx \<subseteq> {i. \<exists>j \<in> set (take k (sv_jobs s) @ drop (Suc k) (sv_jobs s)). job_stx j = Some i}"
      unfolding job_targets_def by auto
    moreover note R = serv_Respond_inv [OF inv, where os = os and now = now and dlg = "Some dlg" and stx = stx and st = 200 and
          ct = "''application/sdp''" and body = "Some serv_sdp"]
    ultimately have "unanswered (sv_tm (serv_Respond os now (Some dlg) stx 200 ''application/sdp'' (Some serv_sdp) s)) \<subseteq>
        {i. \<exists>j \<in> set (take k (sv_jobs s) @ drop (Suc k) (sv_jobs s)). job_stx j = Some i}"
      using un by fastforce
    then show ?thesis using R(1,2) cb Answer by (simp add: sv_inv_def run_job_def job_targets_def)
  qed
qed

lemma quiet_inv:
  assumes "sv_inv s" "tx_step (sv_tm s) m'" "unanswered m' \<subseteq> unanswered (sv_tm s)"
  shows "sv_inv (set_tm m' s)"
  using assms tx_system.step_inv [OF _ assms(2)] by (auto simp: sv_inv_def job_targets_def)

lemma finish_unanswered:
  assumes "tx_inv m"
  shows "unanswered (finish_tx i m) \<subseteq> unanswered m"
proof (cases "m_heap m i")
  case (Some t)
  show ?thesis
  proof (cases t)
    case (STx c)
    then show ?thesis
      using Some unanswered_evolves [OF Some] server_finish_evolves [of m i c] tx_inv_heap [OF assms Some] by (simp add: finish_tx_def)
  next
    case (CTx c)
    then have "m_heap (finish_tx i m) = (m_heap m)(i \<mapsto> CTx (c\<lparr>c_stop := True, c_terminated := True\<rparr>))"
      using Some by (simp add: finish_tx_def ClientTx_finish_def TxManager_remove_def put_tx_def)
    then show ?thesis by (auto simp: unanswered_def split: if_splits)
  qed
qed (simp add: finish_tx_def)

interpretation sv_system: step_system sv_init sv_step sv_inv
proof
  show "sv_inv s" if "sv_init s" for s
  proof -
    obtain li host port where "sipserv_main li host port = Inr s" using \<open>sv_init s\<close> unfolding sv_init_def by blast
    then have "\<exists>p. s = \<lparr>sv_ua = SetCallbacks serv_callbacks (NewUA (op_tp p) host (UDPPort p)), sv_jobs = []\<rparr>"
      by (auto simp: sipserv_main_def split: prod.splits option.splits)
    then show ?thesis
      by (auto simp: sv_inv_def SetCallbacks_def NewUA_def NewTxManager_def serv_callbacks_def tx_inv_def unanswered_def)
  qed
  show "sv_inv s'" if "sv_inv s" "sv_step s s'" for s s'
    using that(2,1)
  proof (induction rule: sv_step.induct)
    case (packet os now tag pkt s s') then show ?case using packet_inv by blast
  next
    case (job k s os now) then show ?case by (intro run_job_inv)
  next
    case (timer i s)
    let ?m = "(sv_tm s)\<lparr>m_timers := remove1 i (m_timers (sv_tm s))\<rparr>"
    have "tx_inv ?m" "unanswered ?m = unanswered (sv_tm s)" using timer.prems by (simp_all add: sv_inv_def tx_inv_def unanswered_def)
    then show ?case using quiet_inv [OF timer.prems tx_step.timer [OF timer.hyps]] finish_unanswered by auto
  next
    case (tick s i t os now)
    have "server_ok t" using tx_inv_heap [OF _ tick.hyps] tick.prems by (simp add: sv_inv_def)
    then show ?case using quiet_inv [OF tick.prems tx_step.server_tick [OF tick.hyps]]
        unanswered_evolves [OF tick.hyps server_tick_evolves [OF tick.hyps]] by simp
  next
    case (stop s i t)
    have "server_ok t" using tx_inv_heap [OF _ stop.hyps] stop.prems by (simp add: sv_inv_def)
    then show ?case using quiet_inv [OF stop.prems tx_step.server_stop [OF stop.hyps]]
        unanswered_evolves [OF stop.hyps server_stop_evolves [OF stop.hyps]] by simp
  qed
qed

section \<open>The server is a layer on the transactions\<close>

lemma serv_Respond_run: "tx_step\<^sup>*\<^sup>* (sv_tm s) (sv_tm (serv_Respond os now dlg stx st ct body s))"
  using UA_Respond_run [OF prod.collapse [symmetric]] by (simp add: serv_Respond_def ua_run_def)

lemma run_job_run: "tx_step\<^sup>*\<^sup>* (sv_tm s) (sv_tm (run_job os now k s))"
  using serv_Respond_run by (simp add: run_job_def split: ServJob.split)

lemma packet_run:
  assumes "sipserv_packet os now tag pkt s = Inr s'"
  shows "tx_step\<^sup>*\<^sup>* (sv_tm s) (sv_tm s')"
proof -
  obtain ua' call where u: "UA_packet os now tag pkt (sv_ua s) = Inr (ua', call)"
      and s': "s' = (case call of None \<Rightarrow> s\<lparr>sv_ua := ua'\<rparr> | Some c \<Rightarrow> serve_call os now c (s\<lparr>sv_ua := ua'\<rparr>))"
    using assms by (auto simp: sipserv_packet_def bind_result_eq_Inr)
  have serve: "tx_step\<^sup>*\<^sup>* (sv_tm t) (sv_tm (serve_call os now c t))" for c t
    using serv_Respond_run by (cases c) simp_all
  have "tx_step\<^sup>*\<^sup>* (sv_tm (s\<lparr>sv_ua := ua'\<rparr>)) (sv_tm s')" using s' serve [of "s\<lparr>sv_ua := ua'\<rparr>"] by (cases call) simp_all
  then show ?thesis using UA_packet_run [OF u] by (simp add: ua_run_def)
qed

interpretation sv_layer: layered_system tx_init tx_step tx_inv manager_le sv_step "\<lambda>s. ua_tm (sv_ua s)"
proof
  show "tx_step\<^sup>*\<^sup>* (sv_tm s) (sv_tm s')" if "sv_step s s'" for s s'
    using that
  proof (induction rule: sv_step.induct)
    case (packet os now tag pkt s s') then show ?case by (rule packet_run)
  next
    case (job k s os now) then show ?case by (simp add: run_job_run)
  next
    case (timer i s) then show ?case using r_into_rtranclp [of tx_step, OF tx_step.timer [OF timer]] by simp
  next
    case (tick s i t os now) then show ?case using r_into_rtranclp [of tx_step, OF tx_step.server_tick [OF tick]] by simp
  next
    case (stop s i t) then show ?case using r_into_rtranclp [of tx_step, OF tx_step.server_stop [OF stop]] by simp
  qed
qed

section \<open>Properties\<close>

fun job_weight :: "ServJob \<Rightarrow> nat" where
  "job_weight (Ring d stx) = 2"
| "job_weight (Answer d stx) = 1"

lemma jobs_finish:
  "\<exists>s'. sv_step\<^sup>*\<^sup>* s s' \<and> sv_jobs s' = []"
proof (induction "sum_list (map job_weight (sv_jobs s))" arbitrary: s rule: less_induct)
  case less
  show ?case
  proof (cases "sv_jobs s")
    case (Cons j js)
    let ?s = "run_job demo_os 0 0 s"
    have "sv_jobs ?s = (case j of Ring d stx \<Rightarrow> Answer d stx # js | Answer d stx \<Rightarrow> js)"
      using Cons by (simp add: run_job_def split: ServJob.split)
    then have "sum_list (map job_weight (sv_jobs ?s)) < sum_list (map job_weight (sv_jobs s))"
      using Cons by (cases j) auto
    then obtain s' where "sv_step\<^sup>*\<^sup>* ?s s'" "sv_jobs s' = []" using less by blast
    moreover have "sv_step s ?s" by (rule sv_step.job) (simp add: Cons)
    ultimately show ?thesis by (meson converse_rtranclp_into_rtranclp)
  qed blast
qed

text \<open>C11 (liveness): in every run of the server each request but ACK and CANCEL has its final answer or a goroutine
  that still has to answer it; once those goroutines have run, no request is without an answer, and no
  transaction was lost on the way.\<close>

theorem sipserv_answers:
  assumes "sv_init s0" "sv_step\<^sup>*\<^sup>* s0 s"
  shows "unanswered (ua_tm (sv_ua s)) \<subseteq> job_targets s \<and>
    (\<exists>s'. sv_step\<^sup>*\<^sup>* s s' \<and> unanswered (ua_tm (sv_ua s')) = {} \<and> manager_le (ua_tm (sv_ua s)) (ua_tm (sv_ua s')))"
proof -
  have inv: "sv_inv s" using sv_system.reachable_inv [OF assms] .
  obtain s' where s': "sv_step\<^sup>*\<^sup>* s s'" "sv_jobs s' = []" using jobs_finish by blast
  have "unanswered (sv_tm s') \<subseteq> job_targets s'" using sv_system.steps_inv [OF s'(1) inv] by (simp add: sv_inv_def)
  then have "unanswered (sv_tm s') = {}" using s'(2) by (simp add: job_targets_def)
  moreover have "manager_le (sv_tm s) (sv_tm s')" using sv_layer.upper_le [OF s'(1)] inv by (simp add: sv_inv_def)
  ultimately show ?thesis using inv s'(1) by (auto simp: sv_inv_def)
qed

definition demo_server :: SipServ where
  "demo_server = \<lparr>sv_ua = SetCallbacks serv_callbacks (NewUA (op_tp (fst (NewTransport demo_listen ''127.0.0.1'' 0 0))) ''127.0.0.1'' 49152),
     sv_jobs = []\<rparr>"

lemma demo_server_init: "sv_init demo_server"
proof -
  have "sipserv_main demo_listen ''127.0.0.1'' 0 = Inr demo_server"
    by (simp add: sipserv_main_def demo_server_def NewTransport_def open_udp_def open_tcp_def demo_listen_def UDPPort_def)
  then show ?thesis unfolding sv_init_def by blast
qed

lemma demo_server_invite:
  "\<exists>s. sipserv_packet demo_os 0 demo_tag \<lparr>Msg = Req (demo_request INVITE), Src = demo_addr\<rparr> demo_server = Inr s \<and> 0 \<in> unanswered (sv_tm s)"
proof -
  have "m_txs (sv_tm demo_server) demo_key = None"
    by (simp add: demo_server_def SetCallbacks_def NewUA_def NewTxManager_def)
  note h = demo_invite [OF this, of demo_os 0]
  have fresh: "m_next (sv_tm demo_server) = 0" by (simp add: demo_server_def SetCallbacks_def NewUA_def NewTxManager_def)
  have "INVITE \<noteq> ACK" "INVITE \<noteq> CANCEL" "INVITE \<noteq> BYE" by (simp_all add: INVITE_def ACK_def CANCEL_def BYE_def)
  moreover have "has_OnInvite (ua_cb (sv_ua demo_server))" by (simp add: demo_server_def SetCallbacks_def serv_callbacks_def)
  ultimately have "\<exists>dm i. sipserv_packet demo_os 0 demo_tag \<lparr>Msg = Req (demo_request INVITE), Src = demo_addr\<rparr> demo_server =
      Inr (demo_server\<lparr>sv_ua := (sv_ua demo_server)\<lparr>ua_tm := add_tx demo_key (STx demo_stx) (inc_metric ''packets_received'' (sv_tm demo_server)),
        ua_dialogs := dm\<rparr>, sv_jobs := sv_jobs demo_server @ [Ring i (Some 0)]\<rparr>)"
    by (simp add: sipserv_packet_def UA_packet_def h fresh Let_def UA_handleRequest_def demo_method handleInvite_def split: prod.split) blast
  then show ?thesis
    by (auto simp: unanswered_def add_tx_def inc_metric_def fresh demo_stx_def new_server_tx_def must_answer_def demo_method
        INVITE_def ACK_def CANCEL_def)
qed

theorem sipserv_answers_witness:
  "\<exists>s s'. sipserv_packet demo_os 0 demo_tag \<lparr>Msg = Req (demo_request INVITE), Src = demo_addr\<rparr> demo_server = Inr s \<and>
     0 \<in> unanswered (ua_tm (sv_ua s)) \<and> sv_step\<^sup>*\<^sup>* s s' \<and> unanswered (ua_tm (sv_ua s')) = {}"
proof -
  obtain s where s: "sipserv_packet demo_os 0 demo_tag \<lparr>Msg = Req (demo_request INVITE), Src = demo_addr\<rparr> demo_server = Inr s"
    "0 \<in> unanswered (sv_tm s)" using demo_server_invite by blast
  have "sv_step\<^sup>*\<^sup>* demo_server s" using sv_step.packet [OF s(1)] by blast
  from sipserv_answers [OF demo_server_init this] show ?thesis using s by blast
qed

text \<open>A CANCEL gets no answer, neither from the user agent nor from the server: its transaction stays without a
  final response whatever happens, and the INVITE it cancels is answered 200.\<close>

lemma cancel_never_answered:
  assumes "RMethod req = CANCEL"
  shows "UA_handleRequest os now tag req src stx ua = Inr (ua, None)"
  using assms by (simp add: UA_handleRequest_def CANCEL_def ACK_def)

end
