(* ===== verification/GbServ.thy ===== *)
theory GbServ
  imports GbProps GbLayer TransportOpen
begin

text \<open>
  \<^verbatim>\<open>cmd/gb28181serv/main.go\<close>: the demo GB/T 28181 endpoint. In platform mode it runs a platform that accepts one
  password for every identifier and, for every device that registers, starts a goroutine that queries its
  catalogue and then its information; the goroutine's program counter is a \<open>QueryJob\<close>. In device mode it runs a
  device with simulated channels. The printing of events is the list \<open>gs_log\<close>.
\<close>

section \<open>Platform mode\<close>

record ServFlags =
  fl_serverID :: string
  fl_serverHost :: string
  fl_serverPort :: int
  fl_deviceID :: string
  fl_password :: string
  fl_port :: int
  fl_channels :: int

definition default_flags :: ServFlags where
  "default_flags = \<lparr>fl_serverID = ''34020000002000000001'', fl_serverHost = ''127.0.0.1'', fl_serverPort = 5060,
     fl_deviceID = ''34020000001320000001'', fl_password = ''12345678'', fl_port = 5060, fl_channels = 1\<rparr>"

definition serv_platform_config :: "ServFlags \<Rightarrow> PlatformConfig" where
  "serv_platform_config fl = \<lparr>pc_ServerID = fl_serverID fl, pc_ServerHost = ''127.0.0.1'', pc_ListenPort = fl_port fl,
     pc_Realm = [], pc_Password = Some (\<lambda>_. Some (fl_password fl)), pc_Expires = 0\<rparr>"

datatype QueryJob = AskCatalog (query_id: string) | AskInfo (query_id: string)

record GbServer =
  gs_platform :: Platform
  gs_jobs :: "QueryJob list"
  gs_log :: "DeviceEvent list"

text \<open>\<^verbatim>\<open>main\<close> in platform mode. An error of \<^verbatim>\<open>Run\<close> is dropped: the process stays, without a platform (\<open>None\<close>).\<close>

definition gbserv_platform :: "Listen \<Rightarrow> ServFlags \<Rightarrow> GbServer option result" where
  "gbserv_platform li fl = bind_result (NewPlatform (serv_platform_config fl)) (\<lambda>cfg.
     (case NewTransport li ''0.0.0.0'' (pc_ListenPort cfg) (pc_ListenPort cfg) of
        (p, Some e) \<Rightarrow> Inr None
      | (p, None) \<Rightarrow> Inr (Some \<lparr>gs_platform = Platform_Run cfg (op_tp p) True, gs_jobs = [], gs_log = []\<rparr>)))"

text \<open>The callback \<^verbatim>\<open>OnDevice\<close>.\<close>

definition onDevice :: "DeviceEvent \<Rightarrow> GbServer \<Rightarrow> GbServer" where
  "onDevice ev s = s\<lparr>gs_log := gs_log s @ [ev],
     gs_jobs := (if ev_Type ev = ''registered'' then gs_jobs s @ [AskCatalog (ev_DeviceID ev)] else gs_jobs s)\<rparr>"

definition gbserv_packet ::
    "Hashes \<Rightarrow> XmlDecoder \<Rightarrow> OS \<Rightarrow> int \<Rightarrow> Entropy \<Rightarrow> Entropy \<Rightarrow> Packet \<Rightarrow> GbServer \<Rightarrow> GbServer result" where
  "gbserv_packet h dec os now tag ent pkt s =
     bind_result (Platform_packet h dec os now tag ent pkt (gs_platform s)) (\<lambda>(p, ev, call).
       Inr (case ev of None \<Rightarrow> s\<lparr>gs_platform := p\<rparr> | Some e \<Rightarrow> onDevice e (s\<lparr>gs_platform := p\<rparr>)))"

text \<open>The next query of the goroutine \<open>k\<close>; errors of the queries are dropped.\<close>

definition run_query ::
    "OS \<Rightarrow> int \<Rightarrow> Entropy \<Rightarrow> Entropy \<Rightarrow> Entropy \<Rightarrow> TxEvent option \<Rightarrow> nat \<Rightarrow> GbServer \<Rightarrow> GbServer" where
  "run_query os now tag callid br ev k s = (case gs_jobs s ! k of
     AskCatalog i \<Rightarrow>
       s\<lparr>gs_platform := fst (QueryCatalog os now tag callid br i ev (gs_platform s)), gs_jobs := (gs_jobs s)[k := AskInfo i]\<rparr>
   | AskInfo i \<Rightarrow>
       s\<lparr>gs_platform := fst (QueryDeviceInfo os now tag callid br i ev (gs_platform s)),
         gs_jobs := take k (gs_jobs s) @ drop (Suc k) (gs_jobs s)\<rparr>)"

inductive gs_step :: "GbServer \<Rightarrow> GbServer \<Rightarrow> bool" where
  packet: "gbserv_packet h dec os now tag ent pkt s = Inr s' \<Longrightarrow> gs_step s s'"
| run_a_query: "k < length (gs_jobs s) \<Longrightarrow> gs_step s (run_query os now tag callid br ev k s)"
| transactions: "tx_step (ua_tm (pl_ua (gs_platform s))) m \<Longrightarrow>
    gs_step s (s\<lparr>gs_platform := (gs_platform s)\<lparr>pl_ua := (pl_ua (gs_platform s))\<lparr>ua_tm := m\<rparr>\<rparr>\<rparr>)"

definition gs_init :: "GbServer \<Rightarrow> bool" where
  "gs_init s \<longleftrightarrow> (\<exists>li fl. gbserv_platform li fl = Inr (Some s))"

section \<open>Device mode\<close>

definition two_digits :: "int \<Rightarrow> string" where
  "two_digits n = (let s = Itoa n in replicate (2 - length s) CHR ''0'' @ s)"

text \<open>The identifier of a channel replaces the last two bytes of the device's; a shorter identifier is sliced out
  of range.\<close>

definition sim_channel :: "string \<Rightarrow> int \<Rightarrow> Item result" where
  "sim_channel deviceID i =
     (if length deviceID < 2 then Inl GoPanic
      else Inr (empty_item\<lparr>it_DeviceID := take (length deviceID - 2) deviceID @ two_digits i,
                  it_Name := ''cam'' @ Itoa i, it_Status := ''ON''\<rparr>))"

text \<open>\<^verbatim>\<open>make\<close> panics on a negative capacity.\<close>

definition sim_channels :: "string \<Rightarrow> int \<Rightarrow> Item list result" where
  "sim_channels deviceID n = (if n < 0 then Inl GoPanic else map_result (sim_channel deviceID) [1..n])"

definition serv_device_config :: "ServFlags \<Rightarrow> Item list \<Rightarrow> DeviceConfig" where
  "serv_device_config fl chs = \<lparr>dc_DeviceID = fl_deviceID fl, dc_Password = fl_password fl, dc_ServerID = fl_serverID fl,
     dc_ServerHost = fl_serverHost fl, dc_ServerPort = fl_serverPort fl, dc_LocalHost = ''127.0.0.1'', dc_LocalPort = fl_port fl,
     dc_KeepaliveInterval = 5 * 1000000000, dc_RegisterTimeout = 0, dc_Channels = chs,
     dc_DeviceInfo = \<lparr>di_Name = ''pytest-device'', di_Manufacturer = ''go-sip'', di_Model = ''sim'', di_Firmware = ''1.0''\<rparr>\<rparr>"

text \<open>\<^verbatim>\<open>main\<close> in device mode: the device with the state of its loop. As in platform mode an error of \<^verbatim>\<open>Start\<close> is dropped.\<close>

definition gbserv_device :: "Listen \<Rightarrow> ServFlags \<Rightarrow> (Device \<times> RunState) option result" where
  "gbserv_device li fl = bind_result (sim_channels (fl_deviceID fl) (fl_channels fl)) (\<lambda>chs.
     bind_result (NewDevice (serv_device_config fl chs)) (\<lambda>cfg.
       (case NewTransport li ''0.0.0.0'' (dc_LocalPort cfg) (dc_LocalPort cfg) of
          (p, Some e) \<Rightarrow> Inr None
        | (p, None) \<Rightarrow> Inr (Some (Device_Start cfg (op_tp p) False True True, run_init)))))"

section \<open>Registered devices\<close>

lemma registered_put:
  "pl_devices p' = map_put k d (pl_devices p) \<Longrightarrow> (ds_Registered (device k p) \<longrightarrow> ds_Registered d) \<Longrightarrow> registered i p \<Longrightarrow> registered i p'"
  by (auto simp: registered_def device_def)

lemma registered_cong: "pl_devices p' = pl_devices p \<Longrightarrow> registered i p' = registered i p"
  by (simp add: registered_def)

lemma registered_packet:
  assumes "Platform_packet h dec os now tag ent pkt p = Inr (p', ev, call)" "registered i p"
  shows "registered i p'"
  using assms(1)
proof (cases rule: Platform_packet_cases)
  case same then show ?thesis using registered_cong assms(2) by blast
next
  case challenge then show ?thesis by (rule registered_put) (use assms(2) in simp_all)
next
  case accept from accept(4) show ?thesis by (rule registered_put) (use assms(2) in simp_all)
next
  case seen then show ?thesis by (rule registered_put) (use assms(2) in simp_all)
qed

lemma registered_step: "platform_step p p' \<Longrightarrow> registered i p \<Longrightarrow> registered i p'"
  using platform_step_frame [of p p'] registered_cong registered_packet by metis

lemma onRegister_event:
  assumes "onRegister h os now ent req stx p = Inr (p', Some ev)"
  shows "registered (ev_DeviceID ev) p'"
proof -
  obtain k where k: "from_user req = Inr k" using assms by (cases "from_user req") (auto simp: onRegister_def)
  have ev: "answer os now stx resp e q = Inr (p', Some ev) \<Longrightarrow> e = Some ev \<and> pl_devices p' = pl_devices q" for resp e q
    by (cases "respond_stx os now stx resp (pl_ua q)") (auto simp: answer_def)
  show ?thesis
  proof (cases "AuScheme (register_auth req) = [] \<or> AuResponse (register_auth req) = []")
    case True
    then show ?thesis using assms ev unfolding onRegister_challenges [OF k True] by blast
  next
    case False
    show ?thesis
    proof (cases "proves_password h (pl_cfg p) k req")
      case True
      then show ?thesis
        using ev [OF assms [unfolded onRegister_accepts [OF k True]]]
        by (auto simp: device_event_def registered_def put_device_def split: if_splits)
    next
      case np: False
      obtain status where "onRegister h os now ent req stx p = answer os now stx (NewResponse status []) None p"
        using onRegister_rejects [OF k _ _ np] False by blast
      then show ?thesis using assms ev [of _ None p] by auto
    qed
  qed
qed

lemma packet_event:
  assumes "Platform_packet h dec os now tag ent pkt p = Inr (p', Some ev, call)" "ev_Type ev = ''registered''"
  shows "registered (ev_DeviceID ev) p'"
proof -
  obtain ua c where u: "UA_packet os now tag pkt (pl_ua p) = Inr (ua, c)"
    using assms by (cases "UA_packet os now tag pkt (pl_ua p)") (auto simp: Platform_packet_def)
  consider req stx where "onRegister h os now ent req stx (p\<lparr>pl_ua := ua\<rparr>) = Inr (p', Some ev)"
    | req stx where "onMessage dec os now req stx (p\<lparr>pl_ua := ua\<rparr>) = Inr (p', Some ev)"
    using assms(1) u by (auto simp: Platform_packet_def Let_def bind_result_def split: option.splits UaCall.splits sum.splits prod.splits)
  then show ?thesis
  proof cases
    case 1 then show ?thesis by (rule onRegister_event)
  next
    case 2
    then have "ev_Type ev = ''message''"
      by (auto simp: onMessage_def Let_def device_event_def bind_result_def split: sum.splits if_splits)
    then show ?thesis using assms(2) by simp
  qed
qed

section \<open>The server's invariant\<close>

definition gs_inv :: "GbServer \<Rightarrow> bool" where
  "gs_inv s \<longleftrightarrow> platform_inv (gs_platform s) \<and> (\<forall>j \<in> set (gs_jobs s). registered (query_id j) (gs_platform s))"

lemma query_frame:
  "pl_devices (fst (QueryCatalog os now tag callid br i ev p)) = pl_devices p \<and> pl_cfg (fst (QueryCatalog os now tag callid br i ev p)) = pl_cfg p"
  "pl_devices (fst (QueryDeviceInfo os now tag callid br i ev p)) = pl_devices p \<and> pl_cfg (fst (QueryDeviceInfo os now tag callid br i ev p)) = pl_cfg p"
  using platform_request_frame(1) [OF prod.collapse [symmetric]]
  by (simp_all add: QueryCatalog_def QueryDeviceInfo_def Platform_nextSN_def)

lemma gbserv_packet_inv:
  assumes "gs_inv s" "gbserv_packet h dec os now tag ent pkt s = Inr s'"
  shows "gs_inv s'"
proof -
  obtain p ev call where p: "Platform_packet h dec os now tag ent pkt (gs_platform s) = Inr (p, ev, call)"
      and s': "s' = (case ev of None \<Rightarrow> s\<lparr>gs_platform := p\<rparr> | Some e \<Rightarrow> onDevice e (s\<lparr>gs_platform := p\<rparr>))"
    using assms(2) by (auto simp: gbserv_packet_def bind_result_eq_Inr)
  have inv: "platform_inv p" using Platform_packet_inv [OF p] assms(1) by (simp add: gs_inv_def)
  have keep: "registered (query_id j) p" if "j \<in> set (gs_jobs s)" for j
    using registered_packet [OF p] assms(1) that by (simp add: gs_inv_def)
  show ?thesis
  proof (cases ev)
    case None then show ?thesis using s' inv keep by (simp add: gs_inv_def)
  next
    case (Some e)
    then show ?thesis using s' inv keep packet_event [of h dec os now tag ent pkt "gs_platform s" p e call] p
      by (auto simp: gs_inv_def onDevice_def)
  qed
qed

lemma run_query_inv:
  assumes "gs_inv s" "k < length (gs_jobs s)"
  shows "gs_inv (run_query os now tag callid br ev k s)"
proof -
  have job: "registered (query_id (gs_jobs s ! k)) (gs_platform s)" using assms by (simp add: gs_inv_def)
  have reg: "registered i (fst (QueryCatalog os now tag callid br j ev (gs_platform s))) = registered i (gs_platform s)"
    "registered i (fst (QueryDeviceInfo os now tag callid br j ev (gs_platform s))) = registered i (gs_platform s)" for i j
    using registered_cong query_frame by metis+
  have inv: "platform_inv (fst (QueryCatalog os now tag callid br j ev (gs_platform s)))"
    "platform_inv (fst (QueryDeviceInfo os now tag callid br j ev (gs_platform s)))" for j
    using platform_inv_cong query_frame assms(1) unfolding gs_inv_def by metis+
  show ?thesis
  proof (cases "gs_jobs s ! k")
    case (AskCatalog i)
    then show ?thesis using assms job reg inv set_update_subset_insert [of "gs_jobs s" k "AskInfo i"]
      by (auto simp: gs_inv_def run_query_def)
  next
    case (AskInfo i)
    then show ?thesis using assms(1) reg inv by (auto simp: gs_inv_def run_query_def dest: in_set_takeD in_set_dropD)
  qed
qed

lemma gs_initE:
  assumes "gs_init s"
  obtains fl cfg tp where "NewPlatform (serv_platform_config fl) = Inr cfg"
    "s = \<lparr>gs_platform = Platform_Run cfg tp True, gs_jobs = [], gs_log = []\<rparr>"
proof -
  obtain li fl cfg where cfg: "NewPlatform (serv_platform_config fl) = Inr cfg"
      and s: "(case NewTransport li ''0.0.0.0'' (pc_ListenPort cfg) (pc_ListenPort cfg) of
        (p, Some e) \<Rightarrow> Inr None
      | (p, None) \<Rightarrow> Inr (Some \<lparr>gs_platform = Platform_Run cfg (op_tp p) True, gs_jobs = [], gs_log = []\<rparr>)) =
        (Inr (Some s) :: GbServer option result)"
    using assms unfolding gs_init_def gbserv_platform_def bind_result_eq_Inr by blast
  obtain p e where "NewTransport li ''0.0.0.0'' (pc_ListenPort cfg) (pc_ListenPort cfg) = (p, e)" by fastforce
  then show ?thesis using s that [OF cfg, of "op_tp p"] by (cases e) auto
qed

interpretation gs_system: step_system gs_init gs_step gs_inv
proof
  show "gs_inv s" if "gs_init s" for s
    using that by (elim gs_initE) (simp add: gs_inv_def platform_inv_def Platform_Run_def)
  show "gs_inv s'" if "gs_inv s" "gs_step s s'" for s s'
    using that(2,1)
  proof (induction rule: gs_step.induct)
    case (packet h dec os now tag ent pkt s s') then show ?case using gbserv_packet_inv by blast
  next
    case (run_a_query k s os now tag callid br ev) then show ?case by (intro run_query_inv)
  next
    case (transactions s m)
    let ?p = "(gs_platform s)\<lparr>pl_ua := (pl_ua (gs_platform s))\<lparr>ua_tm := m\<rparr>\<rparr>"
    show ?case
      using transactions.prems platform_inv_cong [of ?p "gs_platform s"] registered_cong [of ?p "gs_platform s"]
      by (simp add: gs_inv_def)
  qed
qed

section \<open>Simulated channels\<close>

lemma two_digits_facts: "list_all (\<lambda>i. length (two_digits i) = 2) [1..99]" "distinct (map two_digits [1..99])"
  by code_simp+

lemma sim_channels_eq:
  assumes "2 \<le> length deviceID" "0 \<le> n"
  shows "sim_channels deviceID n = Inr (map (\<lambda>i. empty_item\<lparr>it_DeviceID := take (length deviceID - 2) deviceID @ two_digits i,
    it_Name := ''cam'' @ Itoa i, it_Status := ''ON''\<rparr>) [1..n])"
proof -
  have "map_result (sim_channel deviceID) xs = Inr (map (\<lambda>i. empty_item\<lparr>it_DeviceID := take (length deviceID - 2) deviceID @ two_digits i,
      it_Name := ''cam'' @ Itoa i, it_Status := ''ON''\<rparr>) xs)" for xs
    using assms by (induction xs) (simp_all add: sim_channel_def)
  then show ?thesis using assms(2) by (simp add: sim_channels_def)
qed

section \<open>Properties\<close>


definition small_flags :: ServFlags where
  "small_flags = default_flags\<lparr>fl_serverID := ''34'', fl_password := ''pw'', fl_port := 0\<rparr>"

definition small_config :: PlatformConfig where
  "small_config = (serv_platform_config small_flags)\<lparr>pc_ListenPort := 5060, pc_Realm := ''34'', pc_Expires := 3600\<rparr>"

lemma small_platform:
  "\<exists>tp. gbserv_platform (demo_listen\<lparr>li_tcp := \<lambda>_ n. Inr n\<rparr>) small_flags =
     Inr (Some \<lparr>gs_platform = Platform_Run small_config tp True, gs_jobs = [], gs_log = []\<rparr>)"
proof -
  have "NewPlatform (serv_platform_config small_flags) = Inr small_config"
    by (simp add: NewPlatform_def small_config_def serv_platform_config_def small_flags_def default_flags_def)
  then show ?thesis
    by (simp add: gbserv_platform_def NewTransport_def open_udp_def open_tcp_def demo_listen_def small_config_def) blast
qed

lemma small_proves: "proves_password demo_hash small_config ''a'' demo_register"
proof -
  have "pc_Realm small_config = pc_Realm demo_platform_cfg" by (simp add: small_config_def demo_platform_cfg_def)
  moreover have "pc_Password small_config = Some (\<lambda>_. Some ''pw'')"
    by (simp add: small_config_def serv_platform_config_def small_flags_def)
  moreover have "pc_Password demo_platform_cfg = Some (\<lambda>i. if i = ''a'' then Some ''pw'' else None)"
    by (simp add: demo_platform_cfg_def)
  ultimately show ?thesis using demo_proves(2) by (simp add: proves_password_def Let_def split: if_splits)
qed


text \<open>The simulated device announces exactly the number of channels asked for; up to 99 channels their identifiers
  are pairwise different and as long as the device's. A negative number panics, and so does an identifier of
  fewer than two characters as soon as there is a channel.\<close>

theorem simulated_channels:
  assumes "2 \<le> length deviceID" "0 \<le> n"
  shows "\<exists>chs. sim_channels deviceID n = Inr chs \<and> length chs = nat n \<and>
      (n \<le> 99 \<longrightarrow> distinct (map it_DeviceID chs) \<and> list_all (\<lambda>c. length (it_DeviceID c) = length deviceID) chs)"
proof -
  let ?ids = "map (\<lambda>i. take (length deviceID - 2) deviceID @ two_digits i) [1..n]"
  have len: "length (two_digits i) = 2" if "1 \<le> i" "i \<le> 99" for i
    using two_digits_facts(1) that by (auto simp: list_all_iff)
  have "inj_on two_digits {1..99}" using two_digits_facts(2) by (simp add: distinct_map)
  then have "distinct (map two_digits [1..n])" if "n \<le> 99"
    using that by (auto simp: distinct_map intro: inj_on_subset)
  then have "distinct ?ids" if "n \<le> 99" using that by (auto simp: distinct_map inj_on_def)
  then show ?thesis
    using assms len by (auto simp: sim_channels_eq o_def list_all_iff)
qed

lemma short_identifier_panics: "length deviceID < 2 \<Longrightarrow> 1 \<le> n \<Longrightarrow> sim_channels deviceID n = Inl GoPanic"
  using upto.simps [of 1 n] by (simp add: sim_channels_def sim_channel_def)

text \<open>The first simulated channel of the device with the default flags has the identifier of the device itself.\<close>

lemma first_channel_is_device:
  "\<exists>chs. sim_channels (fl_deviceID default_flags) (fl_channels default_flags) = Inr chs \<and>
     map it_DeviceID chs = [fl_deviceID default_flags]"
proof -
  have "take (length (fl_deviceID default_flags) - 2) (fl_deviceID default_flags) @ two_digits 1 = fl_deviceID default_flags" by code_simp
  then show ?thesis by (subst sim_channels_eq) (simp_all add: default_flags_def)
qed

text \<open>A device whose first REGISTER already carries credentials (the platform was restarted, say) is registered, but
  the platform keeps no address for it: only a REGISTER without credentials is remembered. Every query to it fails.\<close>

lemma registered_unreachable:
  assumes "from_user req = Inr k" "proves_password h (pl_cfg p) k req" "map_of (pl_devices p) k = None"
    "onRegister h os now ent req stx p = Inr (p', ev)"
  shows "registered k p' \<and> deviceAddr k p' = None"
proof -
  have "pl_devices p' = map_put k ((device k p)\<lparr>ds_Registered := True, ds_LastSeen := now\<rparr>) (pl_devices p)"
    using answer_frame(1) [OF assms(4) [unfolded onRegister_accepts [OF assms(1,2)]]] by (simp add: put_device_def)
  then show ?thesis
    using assms(3) by (simp add: registered_def deviceAddr_def resolveDevice_def lastRegisterOf_def device_def new_device_def Let_def)
qed

end
