(* ===== verification/XmlCorrect.thy ===== *)
theory XmlCorrect
  imports Xml Interfaces
begin

text \<open>
  The decoder reads back what the encoder writes: escaped text, tags, whole elements, and the MANSCDP messages of
  \<^verbatim>\<open>gb28181/xml.go\<close>.
\<close>

section \<open>Escaped text\<close>

lemma xml_escape_high:
  assumes "0x80 \<le> byte c"
  shows "xml_escape_char c = [c]"
proof -
  have "c \<notin> {DQ, CHR 0x27, CHR ''&'', CHR ''<'', CHR ''>'', TAB, LF, CR}" using assms by auto
  then show ?thesis by (simp add: xml_escape_char_def)
qed

lemma rune_size_high: "rune_size (c # s) = Suc (Suc n) \<Longrightarrow> list_all (\<lambda>b. 0x80 \<le> byte b) (take (Suc n) s) \<and> 0x80 \<le> byte c \<and> Suc n \<le> length s"
  by (auto simp: rune_size.simps cont_def split: if_splits list.splits)

lemma rune_size_one: "rune_size (c # s) = Suc 0 \<Longrightarrow> byte c < 0x80"
  by (auto simp: rune_size.simps split: if_splits list.splits)

lemma concat_escape_high: "list_all (\<lambda>b. 0x80 \<le> byte b) s \<Longrightarrow> concat (map xml_escape_char s) = s"
  by (induction s) (simp_all add: xml_escape_high)

lemma xml_escape_legal: "legal_text s \<Longrightarrow> xml_escape s = concat (map xml_escape_char s)"
proof (induction s rule: legal_text.induct)
  case (2 c s)
  obtain n where n: "rune_size (c # s) = Suc n" using 2(2) by (cases "rune_size (c # s)") (auto simp: Let_def)
  have l: "in_char_range (take (Suc n) (c # s))" "legal_text (drop n s)" using 2(2) n by (simp_all add: Let_def)
  have ih: "xml_escape (drop n s) = concat (map xml_escape_char (drop n s))" using 2(1) [OF refl] n l(2) by simp
  show ?case
  proof (cases n)
    case 0
    then show ?thesis using n l ih by simp
  next
    case (Suc k)
    then have "list_all (\<lambda>b. 0x80 \<le> byte b) (c # take n s)" using rune_size_high n by fastforce
    then have "concat (map xml_escape_char (c # take n s)) = c # take n s" by (rule concat_escape_high)
    moreover have "xml_escape (c # s) = (c # take n s) @ xml_escape (drop n s)" using n l Suc by simp
    ultimately show ?thesis using ih by (metis append_Cons append_take_drop_id concat_append map_append)
  qed
qed simp

lemma xml_escape_markup:
  assumes "legal_text s" shows "CHR ''<'' \<notin> set (xml_escape s)" "DQ \<notin> set (xml_escape s)"
  using assms by (auto simp: xml_escape_legal xml_escape_char_def split: if_splits)

lemma xml_escape_char_not_Nil: "xml_escape_char c \<noteq> []"
  by (simp add: xml_escape_char_def)

lemma xml_escape_Nil: "legal_text s \<Longrightarrow> xml_escape s = [] \<longleftrightarrow> s = []"
  unfolding xml_escape_legal by (cases s) (simp_all add: xml_escape_char_not_Nil)

lemma entity_refs:
  "reference (CHR ''a'' # CHR ''m'' # CHR ''p'' # CHR '';'' # r) = Some (''amp;'', Some ''&'', r)"
  "reference (CHR ''l'' # CHR ''t'' # CHR '';'' # r) = Some (''lt;'', Some ''<'', r)"
  "reference (CHR ''g'' # CHR ''t'' # CHR '';'' # r) = Some (''gt;'', Some ''>'', r)"
  by (simp_all add: reference_def entity_ref_def name_byte_def is_digit_def entities_def)

lemma char_of_specials: "char_of (34 :: nat) = DQ" "char_of (39 :: nat) = CHR 0x27" "char_of (9 :: nat) = TAB"
    "char_of (10 :: nat) = LF" "char_of (13 :: nat) = CR"
  by code_simp+

lemma char_refs:
  "reference (CHR ''#'' # CHR ''3'' # CHR ''4'' # CHR '';'' # r) = Some (''#34;'', Some [DQ], r)"
  "reference (CHR ''#'' # CHR ''3'' # CHR ''9'' # CHR '';'' # r) = Some (''#39;'', Some [CHR 0x27], r)"
  "reference (CHR ''#'' # CHR ''x'' # CHR ''9'' # CHR '';'' # r) = Some (''#x9;'', Some [TAB], r)"
  "reference (CHR ''#'' # CHR ''x'' # CHR ''A'' # CHR '';'' # r) = Some (''#xA;'', Some [LF], r)"
  "reference (CHR ''#'' # CHR ''x'' # CHR ''D'' # CHR '';'' # r) = Some (''#xD;'', Some [CR], r)"
  by (simp_all add: reference_def char_ref_def base_digit_def digit_val_def ParseUint_def encode_rune_def char_of_specials)

text \<open>An escaped character puts the character back into the text, whatever was read before it.\<close>

lemma text_loop_reference:
  "reference s = Some (raw, Some x, r) \<Longrightarrow> q \<noteq> Some CHR ''&'' \<Longrightarrow>
    text_loop q False b0 b1 acc (CHR ''&'' # s) = text_loop q False (CHR 0x00) (CHR 0x00) (rev x @ acc) r"
  by simp

lemma text_loop_plain:
  "c \<notin> {DQ, CHR 0x27, CHR ''&'', CHR ''<'', CHR ''>'', TAB, LF, CR} \<Longrightarrow> q = None \<or> q = Some DQ \<Longrightarrow>
    text_loop q False b0 b1 acc (c # r) = text_loop q False b1 c (c # acc) r"
  by auto

lemma escaped_special:
  assumes "c \<in> {DQ, CHR 0x27, CHR ''&'', CHR ''<'', CHR ''>'', TAB, LF, CR}"
  shows "\<exists>s raw. xml_escape_char c = CHR ''&'' # s \<and> (\<forall>r. reference (s @ r) = Some (raw, Some [c], r))"
proof -
  have "\<exists>s raw. xml_escape_char DQ = CHR ''&'' # s \<and> (\<forall>r. reference (s @ r) = Some (raw, Some [DQ], r))"
    "\<exists>s raw. xml_escape_char (CHR 0x27) = CHR ''&'' # s \<and> (\<forall>r. reference (s @ r) = Some (raw, Some [CHR 0x27], r))"
    "\<exists>s raw. xml_escape_char (CHR ''&'') = CHR ''&'' # s \<and> (\<forall>r. reference (s @ r) = Some (raw, Some ''&'', r))"
    "\<exists>s raw. xml_escape_char (CHR ''<'') = CHR ''&'' # s \<and> (\<forall>r. reference (s @ r) = Some (raw, Some ''<'', r))"
    "\<exists>s raw. xml_escape_char (CHR ''>'') = CHR ''&'' # s \<and> (\<forall>r. reference (s @ r) = Some (raw, Some ''>'', r))"
    "\<exists>s raw. xml_escape_char TAB = CHR ''&'' # s \<and> (\<forall>r. reference (s @ r) = Some (raw, Some [TAB], r))"
    "\<exists>s raw. xml_escape_char LF = CHR ''&'' # s \<and> (\<forall>r. reference (s @ r) = Some (raw, Some [LF], r))"
    "\<exists>s raw. xml_escape_char CR = CHR ''&'' # s \<and> (\<forall>r. reference (s @ r) = Some (raw, Some [CR], r))"
    by (simp_all add: xml_escape_char_def entity_refs char_refs)
  then show ?thesis using assms by blast
qed

lemma text_loop_escaped:
  assumes "q = None \<or> q = Some DQ"
  shows "\<exists>a b. text_loop q False b0 b1 acc (xml_escape_char c @ r) = text_loop q False a b (c # acc) r"
proof (cases "c \<in> {DQ, CHR 0x27, CHR ''&'', CHR ''<'', CHR ''>'', TAB, LF, CR}")
  case True
  obtain s raw where s: "xml_escape_char c = CHR ''&'' # s" "reference (s @ r) = Some (raw, Some [c], r)"
    using escaped_special [OF True] by blast
  have "q \<noteq> Some CHR ''&''" using assms by auto
  from text_loop_reference [OF s(2) this] show ?thesis unfolding s(1) by auto
next
  case False
  then have "xml_escape_char c = [c]" by (simp add: xml_escape_char_def)
  then show ?thesis using text_loop_plain [OF False assms] by (metis append_Cons append_Nil)
qed

lemma text_loop_escape:
  assumes "q = None \<or> q = Some DQ" "\<And>a b acc. text_loop q False a b acc r = Some (rev acc, r')"
  shows "text_loop q False b0 b1 acc (concat (map xml_escape_char v) @ r) = Some (rev acc @ v, r')"
proof (induction v arbitrary: b0 b1 acc)
  case (Cons c v)
  obtain a b where "text_loop q False b0 b1 acc (xml_escape_char c @ concat (map xml_escape_char v) @ r) =
      text_loop q False a b (c # acc) (concat (map xml_escape_char v) @ r)"
    using text_loop_escaped [OF assms(1)] by blast
  then show ?case using Cons by simp
qed (simp add: assms(2))

lemma read_text_escape:
  assumes "legal_text v"
  shows "read_text None False (xml_escape v @ CHR ''<'' # r) = Some (v, CHR ''<'' # r)"
    "read_text (Some DQ) False (xml_escape v @ DQ # r) = Some (v, r)"
  using text_loop_escape [of None "CHR ''<'' # r" "CHR ''<'' # r"] text_loop_escape [of "Some DQ" "DQ # r" r] assms
  by (simp_all add: read_text_def xml_escape_legal)

section \<open>Tags and elements\<close>

text \<open>The names the encoder writes: ASCII, without a prefix.\<close>

definition plain_name :: "string \<Rightarrow> bool" where
  "plain_name n \<longleftrightarrow> list_all (\<lambda>c. byte c < 0x80 \<and> name_byte c \<and> c \<noteq> CHR '':'') n \<and>
     (case n of [] \<Rightarrow> False | c # _ \<Rightarrow> \<not> is_digit c \<and> c \<noteq> CHR ''.'' \<and> c \<noteq> CHR ''-'')"

lemma read_name_plain:
  assumes "plain_name n" "\<not> name_byte c"
  shows "read_name u (n @ c # r) = Some (n, c # r)"
proof -
  have "list_all name_byte n" "list_all (\<lambda>c. byte c < 0x80) n" using assms(1) by (auto simp: plain_name_def list_all_iff)
  then show ?thesis
    using assms by (cases n) (auto simp: read_name_def isName_def plain_name_def list_all_iff takeWhile_append dropWhile_append)
qed

lemma nsname_plain:
  assumes "plain_name n" "\<not> name_byte c"
  shows "nsname u (n @ c # r) = Some (([], n), c # r)"
proof -
  have "CHR '':'' \<notin> set n" using assms(1) by (auto simp: plain_name_def list_all_iff)
  then show ?thesis using read_name_plain [OF assms] by (simp add: nsname_def Cut_none count_list_0_iff)
qed

lemma not_name_bytes: "\<not> name_byte (CHR ''>'')" "\<not> name_byte SP" "\<not> name_byte (CHR ''='')" "\<not> name_byte (CHR ''?'')"
  by (simp_all add: name_byte_def is_digit_def)

lemma attributes_end: "attributes u acc (CHR ''>'' # r) = Some (rev acc, False, r)"
  by (subst attributes.simps) (simp add: xml_space_def)

lemma plain_name_front:
  assumes "plain_name n"
  shows "\<exists>c t. n = c # t \<and> c \<noteq> CHR ''/'' \<and> c \<noteq> CHR ''?'' \<and> c \<noteq> CHR ''!'' \<and> c \<noteq> CHR ''>'' \<and> \<not> xml_space c"
proof (cases n)
  case (Cons c t)
  then have c: "name_byte c" using assms by (simp add: plain_name_def)
  have "\<not> name_byte x" if "x \<in> {CHR ''/'', CHR ''?'', CHR ''!'', CHR ''>'', SP, CR, LF, TAB}" for x
    using that by (auto simp: name_byte_def is_digit_def)
  then show ?thesis using Cons c unfolding xml_space_def by blast
qed (use assms in \<open>simp add: plain_name_def\<close>)

lemma attributes_one:
  assumes "plain_name a" "legal_text v"
  shows "attributes u [] (SP # a @ CHR ''='' # DQ # xml_escape v @ DQ # CHR ''>'' # r) = Some ([(([], a), v)], False, r)"
proof -
  let ?r = "CHR ''='' # DQ # xml_escape v @ DQ # CHR ''>'' # r"
  obtain c t where c: "a = c # t" "c \<noteq> CHR ''/''" "c \<noteq> CHR ''>''" "\<not> xml_space c" using plain_name_front [OF assms(1)] by blast
  have sp: "dropWhile xml_space (SP # a @ ?r) = c # t @ ?r" "nsname u (c # t @ ?r) = Some (([], a), ?r)"
    "dropWhile xml_space ?r = ?r" "dropWhile xml_space (DQ # xml_escape v @ DQ # CHR ''>'' # r) = DQ # xml_escape v @ DQ # CHR ''>'' # r"
    using nsname_plain [OF assms(1) not_name_bytes(3)] c by (simp_all add: xml_space_def)
  show ?thesis
    by (subst attributes.simps) (use c in \<open>simp add: sp xml_space_def attrval_def read_text_escape(2) [OF assms(2)] attributes_end\<close>)
qed

fun toks :: "Node \<Rightarrow> Token list" where
  "toks (CharNode d) = [CharData d]"
| "toks (Elem n as ns) = StartElement n as # concat (map toks ns) @ [EndElement]"

text \<open>A piece of text is read as a list of nodes, whatever is open and whatever follows.\<close>

definition reads_as :: "(string \<Rightarrow> bool) \<Rightarrow> string \<Rightarrow> Node list \<Rightarrow> bool" where
  "reads_as u s ns \<longleftrightarrow> (\<forall>stk r. tokens u None stk (s @ r) = concat (map toks ns) @ tokens u None stk r)"

lemma reads_as_Nil: "reads_as u [] []"
  by (simp add: reads_as_def)

lemma reads_as_append: "reads_as u s ns \<Longrightarrow> reads_as u t ms \<Longrightarrow> reads_as u (s @ t) (ns @ ms)"
  by (simp add: reads_as_def)

lemma reads_as_concat:
  "(\<And>x. x \<in> set xs \<Longrightarrow> reads_as u (f x) [g x]) \<Longrightarrow> reads_as u (concat (map f xs)) (map g xs)"
proof (induction xs)
  case (Cons x xs)
  then have "reads_as u (f x @ concat (map f xs)) ([g x] @ map g xs)" by (intro reads_as_append) simp_all
  then show ?case by simp
qed (simp add: reads_as_Nil)

lemma tokens_end:
  assumes "plain_name n"
  shows "tokens u None (([], n) # stk) (''</'' @ n @ ''>'' @ r) = EndElement # tokens u None stk r"
  using nsname_plain [OF assms not_name_bytes(1)]
  by (simp add: raw_token_def end_tag_def xml_space_def)

lemma tokens_start:
  assumes "plain_name n"
  shows "tokens u None stk (''<'' @ n @ ''>'' @ r) = StartElement n [] # tokens u None (([], n) # stk) r"
proof -
  obtain c t where c: "n = c # t" "c \<noteq> CHR ''/''" "c \<noteq> CHR ''?''" "c \<noteq> CHR ''!''" using plain_name_front [OF assms] by blast
  have "nsname u (c # t @ CHR ''>'' # r) = Some (([], n), CHR ''>'' # r)" using nsname_plain [OF assms not_name_bytes(1)] c(1) by simp
  then show ?thesis using c by (simp add: raw_token_def start_tag_def attributes_end)
qed

lemma tokens_start_attr:
  assumes "plain_name n" "plain_name a" "legal_text v"
  shows "tokens u None stk (''<'' @ n @ [SP] @ a @ ''='' @ [DQ] @ xml_escape v @ [DQ] @ ''>'' @ r) =
    StartElement n [(a, v)] # tokens u None (([], n) # stk) r"
proof -
  let ?r = "SP # a @ CHR ''='' # DQ # xml_escape v @ DQ # CHR ''>'' # r"
  obtain c t where c: "n = c # t" "c \<noteq> CHR ''/''" "c \<noteq> CHR ''?''" "c \<noteq> CHR ''!''" using plain_name_front [OF assms(1)] by blast
  have "nsname u (c # t @ ?r) = Some (([], n), ?r)" using nsname_plain [OF assms(1) not_name_bytes(2)] c(1) by simp
  then show ?thesis using c by (simp add: raw_token_def start_tag_def attributes_one [OF assms(2,3)])
qed

lemma reads_as_elem:
  assumes "plain_name n" "reads_as u s ns"
  shows "reads_as u (xml_elem n s) [Elem n [] ns]"
  using tokens_start [OF assms(1)] tokens_end [OF assms(1)] assms(2) by (simp add: reads_as_def xml_elem_def)

text \<open>Elements with text only, and those that are left out when they are empty.\<close>

definition leaf :: "string \<Rightarrow> string \<Rightarrow> Node" where
  "leaf n v = Elem n [] (if v = [] then [] else [CharNode v])"

definition opt_leaf :: "string \<Rightarrow> string \<Rightarrow> Node list" where
  "opt_leaf n v = (if v = [] then [] else [leaf n v])"

definition opt_int :: "string \<Rightarrow> int \<Rightarrow> Node list" where
  "opt_int n v = (if v = 0 then [] else [leaf n (Itoa v)])"

lemma reads_as_leaf:
  assumes "plain_name n" "legal_text v"
  shows "reads_as u (xml_text n v) [leaf n v]"
proof (cases "v = []")
  case True
  then show ?thesis
    using reads_as_elem [OF assms(1) reads_as_Nil] by (simp add: xml_text_def leaf_def)
next
  case False
  then obtain b t where b: "xml_escape v = b # t" using xml_escape_Nil [OF assms(2)] by (cases "xml_escape v") auto
  have "b \<noteq> CHR ''<''" using xml_escape_markup(1) [OF assms(2)] b by auto
  then have cd: "tokens u None stk (xml_escape v @ CHR ''<'' # r) = CharData v # tokens u None stk (CHR ''<'' # r)" for stk r
    using read_text_escape(1) [OF assms(2), of r] b by (simp add: raw_token_def del: text_loop.simps)
  have "tokens u None stk (xml_text n v @ r) = concat (map toks [leaf n v]) @ tokens u None stk r" for stk r
  proof -
    have "tokens u None (([], n) # stk) (xml_escape v @ ''</'' @ n @ ''>'' @ r) = CharData v # EndElement # tokens u None stk r"
      using cd [of "([], n) # stk" "CHR ''/'' # n @ ''>'' @ r"] tokens_end [OF assms(1), of u stk r] by simp
    moreover have "xml_text n v @ r = ''<'' @ n @ ''>'' @ xml_escape v @ ''</'' @ n @ ''>'' @ r" by (simp add: xml_text_def xml_elem_def)
    ultimately show ?thesis using tokens_start [OF assms(1), of u stk] False by (simp add: leaf_def)
  qed
  then show ?thesis unfolding reads_as_def by blast
qed

lemma reads_as_opt: "plain_name n \<Longrightarrow> legal_text v \<Longrightarrow> reads_as u (xml_opt n v) (opt_leaf n v)"
  by (simp add: xml_opt_def opt_leaf_def reads_as_Nil reads_as_leaf)

lemma legal_ascii: "list_all (\<lambda>c. 0x20 \<le> byte c \<and> byte c < 0x80) s \<Longrightarrow> legal_text s"
  by (induction s) (simp_all add: rune_size.simps in_char_range_def)

lemma xml_escape_digit:
  assumes "is_digit c" shows "xml_escape_char c = [c]"
proof -
  have "c \<notin> {DQ, CHR 0x27, CHR ''&'', CHR ''<'', CHR ''>'', TAB, LF, CR}" using assms by (auto simp: is_digit_def)
  then show ?thesis by (simp add: xml_escape_char_def)
qed

lemma concat_escape_digits: "list_all is_digit s \<Longrightarrow> concat (map xml_escape_char s) = s"
  by (induction s) (simp_all add: xml_escape_digit)

lemma Itoa_text: "legal_text (Itoa n)" "xml_escape (Itoa n) = Itoa n"
proof -
  show l: "legal_text (Itoa n)"
    by (rule legal_ascii) (auto simp: list_all_iff Itoa_def is_digit_def dest!: format_nat_set)
  have "xml_escape_char (CHR ''-'') = ''-''" by (simp add: xml_escape_char_def)
  then show "xml_escape (Itoa n) = Itoa n"
    unfolding xml_escape_legal [OF l] by (simp add: Itoa_def concat_escape_digits [OF format_nat_digits])
qed

lemma reads_as_int: "plain_name n \<Longrightarrow> reads_as u (xml_int n v) [leaf n (Itoa v)]"
  using reads_as_leaf [of n "Itoa v" u] by (simp add: Itoa_text xml_int_def xml_text_def)

lemma reads_as_int_opt: "plain_name n \<Longrightarrow> reads_as u (xml_int_opt n v) (opt_int n v)"
  by (simp add: xml_int_opt_def opt_int_def reads_as_Nil reads_as_int)

section \<open>Messages\<close>

lemma plain_names: "list_all plain_name [
    ''Address'', ''AlarmCmd'', ''AlarmDescription'', ''AlarmMethod'', ''AlarmPriority'', ''AlarmTime'', ''AlarmType'', ''CivilCode'',
    ''CmdType'', ''Control'', ''DeviceID'', ''DeviceList'', ''DeviceName'', ''Envelope'', ''Firmware'', ''GuardCmd'',
    ''IPAddress'', ''Item'', ''Latitude'', ''Longitude'', ''Manufacturer'', ''Model'', ''Name'', ''Notify'',
    ''Num'', ''Online'', ''Owner'', ''PTZCmd'', ''ParentID'', ''Parental'', ''Password'', ''Port'',
    ''Query'', ''Reason'', ''RecordCmd'', ''RegisterWay'', ''Response'', ''Result'', ''SN'', ''SafetyWay'',
    ''Secrecy'', ''SeqNum'', ''Status'', ''SumNum'', ''TeleBoot'']"
  by code_simp

lemmas plain_name_facts = plain_names [simplified]

definition item_node :: "Item \<Rightarrow> Node" where
  "item_node i = Elem ''Item'' [] ([leaf ''DeviceID'' (it_DeviceID i)] @ opt_leaf ''Name'' (it_Name i) @ opt_leaf ''Manufacturer'' (it_Manufacturer i) @ opt_leaf ''Model'' (it_Model i) @
     opt_leaf ''Owner'' (it_Owner i) @ opt_leaf ''CivilCode'' (it_CivilCode i) @ opt_leaf ''Address'' (it_Address i) @
     opt_leaf ''Parental'' (it_Parental i) @ opt_leaf ''ParentID'' (it_ParentID i) @ opt_leaf ''SafetyWay'' (it_SafetyWay i) @
     opt_leaf ''RegisterWay'' (it_RegisterWay i) @ opt_leaf ''Secrecy'' (it_Secrecy i) @ opt_leaf ''IPAddress'' (it_IPAddress i) @
     opt_leaf ''Port'' (it_Port i) @ opt_leaf ''Password'' (it_Password i) @ opt_leaf ''Status'' (it_Status i) @
     opt_leaf ''Longitude'' (it_Longitude i) @ opt_leaf ''Latitude'' (it_Latitude i))"

definition list_node :: "DeviceList \<Rightarrow> Node" where
  "list_node l = Elem ''DeviceList'' [(''Num'', dl_Num l)] (map item_node (dl_Items l))"

definition envelope_nodes :: "Envelope \<Rightarrow> Node list" where
  "envelope_nodes e = [leaf ''CmdType'' (en_CmdType e)] @ [leaf ''SN'' (Itoa (en_SN e))] @ [leaf ''DeviceID'' (en_DeviceID e)] @
     opt_int ''SeqNum'' (en_SeqNum e) @ opt_leaf ''PTZCmd'' (en_PTZCmd e) @ opt_leaf ''TeleBoot'' (en_TeleBoot e) @
     opt_leaf ''RecordCmd'' (en_RecordCmd e) @ opt_leaf ''GuardCmd'' (en_GuardCmd e) @ opt_leaf ''AlarmCmd'' (en_AlarmCmd e) @
     opt_leaf ''AlarmTime'' (en_AlarmTime e) @ opt_leaf ''AlarmType'' (en_AlarmType e) @ opt_leaf ''AlarmPriority'' (en_AlarmPriority e) @
     opt_leaf ''AlarmMethod'' (en_AlarmMethod e) @ opt_leaf ''AlarmDescription'' (en_AlarmDescription e) @ opt_leaf ''Longitude'' (en_Longitude e) @
     opt_leaf ''Latitude'' (en_Latitude e) @ (case en_DeviceList e of None \<Rightarrow> [] | Some l \<Rightarrow> [list_node l]) @ opt_leaf ''DeviceName'' (en_DeviceName e) @
     opt_leaf ''Manufacturer'' (en_Manufacturer e) @ opt_leaf ''Model'' (en_Model e) @ opt_leaf ''Firmware'' (en_Firmware e) @
     opt_leaf ''Result'' (en_Result e) @ opt_leaf ''Status'' (en_Status e) @ opt_leaf ''Reason'' (en_Reason e) @
     opt_leaf ''Online'' (en_Online e) @ opt_int ''SumNum'' (en_SumNum e)"

text \<open>Messages XML can carry: the texts are UTF-8 without the control characters XML lacks, the numbers fit an \<^verbatim>\<open>int\<close>.\<close>

definition legal_item :: "Item \<Rightarrow> bool" where
  "legal_item i \<longleftrightarrow> list_all legal_text [
     it_DeviceID i, it_Name i, it_Manufacturer i, it_Model i, it_Owner i, it_CivilCode i,
     it_Address i, it_Parental i, it_ParentID i, it_SafetyWay i, it_RegisterWay i, it_Secrecy i,
     it_IPAddress i, it_Port i, it_Password i, it_Status i, it_Longitude i, it_Latitude i]"

definition legal_list :: "DeviceList \<Rightarrow> bool" where
  "legal_list l \<longleftrightarrow> legal_text (dl_Num l) \<and> list_all legal_item (dl_Items l)"

definition legal_envelope :: "Envelope \<Rightarrow> bool" where
  "legal_envelope e \<longleftrightarrow> list_all legal_text [
     en_CmdType e, en_DeviceID e, en_PTZCmd e, en_TeleBoot e, en_RecordCmd e,
     en_GuardCmd e, en_AlarmCmd e, en_AlarmTime e, en_AlarmType e, en_AlarmPriority e,
     en_AlarmMethod e, en_AlarmDescription e, en_Longitude e, en_Latitude e, en_DeviceName e,
     en_Manufacturer e, en_Model e, en_Firmware e, en_Result e, en_Status e,
     en_Reason e, en_Online e] \<and>
     list_all int_in_range [en_SN e, en_SeqNum e, en_SumNum e] \<and> (case en_DeviceList e of None \<Rightarrow> True | Some l \<Rightarrow> legal_list l)"

lemma reads_item: "legal_item i \<Longrightarrow> reads_as u (encode_item i) [item_node i]"
  unfolding encode_item_def item_node_def
  by (intro reads_as_elem reads_as_append reads_as_leaf reads_as_opt) (simp_all add: legal_item_def plain_name_facts)

lemma reads_list: "legal_list l \<Longrightarrow> reads_as u (encode_list l) [list_node l]"
proof -
  assume l: "legal_list l"
  have items: "reads_as u (concat (map encode_item (dl_Items l))) (map item_node (dl_Items l))"
    by (rule reads_as_concat) (use l in \<open>auto simp: legal_list_def list_all_iff intro: reads_item\<close>)
  have n: "plain_name ''DeviceList''" "plain_name ''Num''" by (simp_all add: plain_name_facts)
  have "tokens u None stk (encode_list l @ r) = concat (map toks [list_node l]) @ tokens u None stk r" for stk r
    using tokens_start_attr [OF n, of "dl_Num l" u stk "concat (map encode_item (dl_Items l)) @ ''</'' @ ''DeviceList'' @ ''>'' @ r"]
      tokens_end [OF n(1), of u stk r] items l
    by (simp add: reads_as_def encode_list_def list_node_def legal_list_def)
  then show ?thesis unfolding reads_as_def by blast
qed

lemma reads_opt_list:
  "case_option True legal_list x \<Longrightarrow> reads_as u (case x of None \<Rightarrow> [] | Some l \<Rightarrow> encode_list l) (case x of None \<Rightarrow> [] | Some l \<Rightarrow> [list_node l])"
  by (cases x) (simp_all add: reads_as_Nil reads_list)

lemma reads_envelope:
  assumes "legal_envelope e" "plain_name (en_XMLName e)"
  shows "reads_as u (encode_envelope e) [Elem (en_XMLName e) [] (envelope_nodes e)]"
proof -
  have "en_XMLName e \<noteq> []" using assms(2) by (auto simp: plain_name_def)
  then show ?thesis
    unfolding encode_envelope_def envelope_nodes_def
    by (simp only: if_False, intro reads_as_elem reads_as_append reads_as_leaf reads_as_opt reads_as_int reads_as_int_opt reads_opt_list)
      (use assms in \<open>simp_all add: legal_envelope_def plain_name_facts\<close>)
qed

text \<open>The declaration before the message.\<close>

lemma tokens_header:
  "tokens u None [] (xml_Header @ CHR ''<'' # r) = CharData [LF] # tokens u None [] (CHR ''<'' # r)"
proof -
  let ?d = "'' version='' @ [DQ] @ ''1.0'' @ [DQ] @ '' encoding='' @ [DQ] @ ''UTF-8'' @ [DQ]"
  have "plain_name ''xml''" by code_simp
  then have "read_name u (''xml'' @ SP # tl ?d @ ''?>'' @ LF # CHR ''<'' # r) = Some (''xml'', SP # tl ?d @ ''?>'' @ LF # CHR ''<'' # r)"
    by (rule read_name_plain [OF _ not_name_bytes(2)])
  moreover have "procInst ''version'' (tl ?d) = ''1.0''" by code_simp
  ultimately have "instruction u (''xml'' @ SP # tl ?d @ ''?>'' @ LF # CHR ''<'' # r) = Some (LF # CHR ''<'' # r)"
    by (simp add: instruction_def xml_space_def)
  then have "raw_token u (xml_Header @ CHR ''<'' # r) = Some (SkipTok, LF # CHR ''<'' # r)"
    by (simp add: raw_token_def xml_Header_def)
  moreover have "raw_token u (LF # CHR ''<'' # r) = Some (TextTok [LF], CHR ''<'' # r)"
    by (simp add: raw_token_def read_text_def rune_size.simps in_char_range_def)
  ultimately show ?thesis by simp
qed

text \<open>The tokens of a tree give the tree back.\<close>

lemma element_toks: "element ((n, as, ms) # stk) (toks nd @ ts) = element ((n, as, nd # ms) # stk) ts"
proof (induction nd arbitrary: n as ms stk ts)
  case (Elem m bs ns)
  have "element ((m, bs, ks) # stk) (concat (map toks xs) @ ts) = element ((m, bs, rev xs @ ks) # stk) ts" if "set xs \<subseteq> set ns" for xs ks stk ts
    using that by (induction xs arbitrary: ks) (simp_all add: Elem)
  from this [of ns "[]" "(n, as, ms) # stk" "EndElement # ts"] show ?case by simp
qed simp

lemma element_root: "element [] (CharData d # concat (map toks [Elem n as ns]) @ ts) = Some (Elem n as ns)"
proof -
  have "element ((n, as, ms) # stk) (concat (map toks xs) @ ts) = element ((n, as, rev xs @ ms) # stk) ts" for xs ms stk ts
    by (induction xs arbitrary: ms) (simp_all add: element_toks)
  from this [of "[]" "[]" ns "EndElement # ts"] show ?thesis by simp
qed

lemma decode_Marshal:
  assumes "legal_envelope e" "plain_name (en_XMLName e)"
  shows "decode_element u (Marshal e) = Some (Elem (en_XMLName e) [] (envelope_nodes e))"
proof -
  obtain r where r: "encode_envelope e = CHR ''<'' # r" by (simp add: encode_envelope_def xml_elem_def)
  have "tokens u None [] (encode_envelope e @ []) = concat (map toks [Elem (en_XMLName e) [] (envelope_nodes e)]) @ tokens u None [] []"
    using reads_envelope [OF assms] unfolding reads_as_def by blast
  then have "tokens u None [] (Marshal e) = CharData [LF] # concat (map toks [Elem (en_XMLName e) [] (envelope_nodes e)]) @ tokens u None [] []"
    using tokens_header [of u r] r by (simp add: Marshal_def)
  then show ?thesis unfolding decode_element_def using element_root by metis
qed

section \<open>Reading the fields\<close>

lemma char_data_leaf: "leaf n v = Elem n [] ns \<Longrightarrow> char_data ns = v"
  by (auto simp: leaf_def)

lemma set_item_opt:
  assumes "map_of item_fields n = Some f" "f [] i = i"
  shows "fold set_item (opt_leaf n v) i = f v i"
  using assms by (auto simp: opt_leaf_def leaf_def)

lemma read_item: "fold set_item (case item_node i of Elem n as ns \<Rightarrow> ns) empty_item = i"
  by (cases i) (simp add: item_node_def empty_item_def leaf_def set_item_opt item_fields_def)

lemma read_items: "fold set_list (map item_node is) l = l\<lparr>dl_Items := dl_Items l @ is\<rparr>"
proof (induction "is" arbitrary: l)
  case (Cons i "is")
  have "set_list (item_node i) l = l\<lparr>dl_Items := dl_Items l @ [i]\<rparr>"
    using read_item [of i] by (simp add: item_node_def)
  then show ?case by (simp add: Cons)
qed simp

lemma read_list_node: "read_list [(''Num'', dl_Num l)] (map item_node (dl_Items l)) None = l"
  by (simp add: read_list_def read_items)

lemma int_data_Itoa: "int_in_range v \<Longrightarrow> int_data (Itoa v) = Some v"
  by (simp add: int_data_def TrimSpace_vis vis_ends_all Itoa_visible Atoi_Itoa)

lemma set_envelope_leaf:
  "map_of envelope_fields n = Some f \<Longrightarrow> map_of envelope_ints n = None \<Longrightarrow> n \<noteq> ''DeviceList'' \<Longrightarrow>
    set_envelope (leaf n v) e = Some (f v e)"
  by (simp add: leaf_def)

lemma set_envelope_int:
  "map_of envelope_ints n = Some f \<Longrightarrow> n \<noteq> ''DeviceList'' \<Longrightarrow> int_in_range v \<Longrightarrow>
    set_envelope (leaf n (Itoa v)) e = Some (f v e)"
  by (simp add: leaf_def int_data_Itoa)

lemma set_envelopes_opt:
  "map_of envelope_fields n = Some f \<Longrightarrow> map_of envelope_ints n = None \<Longrightarrow> n \<noteq> ''DeviceList'' \<Longrightarrow> f [] e = e \<Longrightarrow>
    set_envelopes (opt_leaf n v @ ns) e = set_envelopes ns (f v e)"
  by (simp add: opt_leaf_def set_envelope_leaf)

lemma set_envelopes_int_opt:
  "map_of envelope_ints n = Some f \<Longrightarrow> n \<noteq> ''DeviceList'' \<Longrightarrow> int_in_range v \<Longrightarrow> f 0 e = e \<Longrightarrow>
    set_envelopes (opt_int n v @ ns) e = set_envelopes ns (f v e)"
  by (simp add: opt_int_def set_envelope_int)

lemmas set_envelopes_int_last = set_envelopes_int_opt [of _ _ _ _ "[]", simplified]

lemma set_envelopes_list:
  "en_DeviceList e = None \<Longrightarrow>
    set_envelopes ((case x of None \<Rightarrow> [] | Some l \<Rightarrow> [list_node l]) @ ns) e = set_envelopes ns (e\<lparr>en_DeviceList := x\<rparr>)"
  by (cases x; cases e) (simp_all add: list_node_def read_list_node)

lemma read_envelope:
  assumes "legal_envelope e"
  shows "set_envelopes (envelope_nodes e) (empty_envelope\<lparr>en_XMLName := en_XMLName e\<rparr>) = Some e"
proof (cases e)
  case (fields xn cmd sn dev seq)
  then show ?thesis
    using assms
    by (simp add: envelope_nodes_def empty_envelope_def legal_envelope_def set_envelope_leaf set_envelope_int set_envelopes_opt
        set_envelopes_int_opt set_envelopes_int_last set_envelopes_list envelope_fields_def envelope_ints_def)
qed

lemma Parse_MarshalRoot:
  assumes "legal_envelope e" "plain_name root"
  shows "Parse (xml_decode u) (MarshalRoot root e) = Inr (e\<lparr>en_XMLName := root\<rparr>)"
proof -
  have "legal_envelope (e\<lparr>en_XMLName := root\<rparr>)" using assms(1) by (simp add: legal_envelope_def)
  then show ?thesis
    using decode_Marshal [of "e\<lparr>en_XMLName := root\<rparr>" u] read_envelope [of "e\<lparr>en_XMLName := root\<rparr>"] assms(2)
    by (simp add: MarshalRoot_def Parse_Marshal xml_decode_def)
qed

interpretation manscdp_codec: codec Marshal "Parse (xml_decode u)" "\<lambda>e. legal_envelope e \<and> plain_name (en_XMLName e)" for u
proof unfold_locales
  show "Parse (xml_decode u) (Marshal e) = Inr e" if "legal_envelope e \<and> plain_name (en_XMLName e)" for e
    using Parse_MarshalRoot [of e "en_XMLName e" u] that by (simp add: MarshalRoot_def)
qed

section \<open>Properties\<close>

text \<open>C14 (round trip): a MANSCDP message that is encoded under any root element is decoded to the same message,
  whatever its texts hold (markup, quotes, line breaks, text outside ASCII) and with all the items of its list;
  only texts that are not UTF-8 or hold control characters XML lacks are excluded.\<close>

theorem manscdp_roundtrip:
  assumes "legal_envelope e" "plain_name root"
  shows "Parse (xml_decode u) (MarshalRoot root e) = Inr (e\<lparr>en_XMLName := root\<rparr>)"
  using manscdp_codec.dec_enc [of "e\<lparr>en_XMLName := root\<rparr>" u] assms by (simp add: MarshalRoot_def legal_envelope_def)

definition demo_envelope :: Envelope where
  "demo_envelope = empty_envelope\<lparr>en_CmdType := CmdCatalog, en_SN := - 7, en_DeviceID := ''a<b>&'' @ [DQ, LF, CR], en_SumNum := 1,
     en_DeviceList := Some \<lparr>dl_Num = [DQ], dl_Items = [empty_item\<lparr>it_DeviceID := '']]>'', it_Name := [CHR 0xE4, CHR 0xB8, CHR 0xAD]\<rparr>]\<rparr>\<rparr>"

lemma demo_envelope_legal: "legal_envelope demo_envelope"
  by code_simp

theorem manscdp_roundtrip_witness:
  "\<exists>e. Parse (xml_decode (\<lambda>_. False)) (BuildResponse demo_envelope) = Inr e \<and> map it_DeviceID (dl_Items (the (en_DeviceList e))) = ['']]>'']"
proof -
  have "plain_name ''Response''" by code_simp
  from manscdp_roundtrip [OF demo_envelope_legal this, of "\<lambda>_. False"] show ?thesis by (simp add: BuildResponse_def demo_envelope_def)
qed

text \<open>Text that is not UTF-8 is refused, whatever encoding the declaration announces: with it the whole message, also
  when the element is one the program does not use.\<close>

lemma text_loop_verbatim:
  "set v \<inter> {DQ, CHR 0x27, CHR ''&'', CHR ''<'', CHR ''>'', TAB, LF, CR} = {} \<Longrightarrow>
    text_loop None False b0 b1 acc (v @ CHR ''<'' # r) = Some (rev acc @ v, CHR ''<'' # r)"
proof (induction v arbitrary: b0 b1 acc)
  case (Cons c v)
  then have "text_loop None False b0 b1 acc (c # v @ CHR ''<'' # r) = text_loop None False b1 c (c # acc) (v @ CHR ''<'' # r)"
    by (intro text_loop_plain) auto
  then show ?case using Cons by simp
qed simp

lemma foreign_encoding_refused:
  assumes "set v \<inter> {DQ, CHR 0x27, CHR ''&'', CHR ''<'', CHR ''>'', TAB, LF, CR} = {}" "\<not> legal_text v" "plain_name root" "plain_name n"
  shows "Parse (xml_decode u) (xml_elem root (xml_elem n v @ rest)) = Inl ErrOther"
proof -
  obtain b t where v: "v = b # t" using assms(2) by (cases v) simp_all
  have "read_text None False (v @ CHR ''<'' # r) = None" for r
    using text_loop_verbatim [OF assms(1)] assms(2) by (simp add: read_text_def del: text_loop.simps)
  moreover have "b \<noteq> CHR ''<''" using assms(1) v by auto
  ultimately have "raw_token u (v @ CHR ''<'' # r) = None" for r using v by (simp add: raw_token_def del: text_loop.simps)
  then have "tokens u None stk (v @ CHR ''<'' # r) = []" for stk r by simp
  then have "tokens u None [] (xml_elem root (xml_elem n v @ rest)) = [StartElement root [], StartElement n []]"
    using tokens_start [OF assms(3), of u "[]"] tokens_start [OF assms(4), of u "[([], root)]"] by (simp add: xml_elem_def)
  moreover have "IndexByte (xml_elem root (xml_elem n v @ rest)) CHR ''<'' = Some 0" by (simp add: xml_elem_def IndexByte_def)
  ultimately show ?thesis by (simp add: Parse_def xml_decode_def decode_element_def)
qed

lemma gb2312_refused: "\<not> legal_text [CHR 0xD6, CHR 0xD0]"
  by code_simp

end
