(* ===== verification/Catalog.thy ===== *)
theory Catalog
  imports XmlCorrect GbProps
begin

text \<open>
  Platform and device in conversation about the catalogue: the query of \<^verbatim>\<open>QueryCatalog\<close> as the device reads it, its answer
  as the platform reads it, and what the platform has learnt by it. Both sides use the decoder of \<open>Xml\<close>.
\<close>

section \<open>Messages both sides understand\<close>

lemma legal_query:
  assumes "legal_text cmd" "legal_text k" "int_in_range sn"
  shows "legal_envelope (query cmd sn k)"
  using assms by (simp add: legal_envelope_def query_def empty_envelope_def int_in_range_def)

lemma legal_commands: "legal_text CmdCatalog" "legal_text CmdDeviceInfo" "legal_text CmdDeviceStatus" "legal_text CmdPTZCmd"
  by code_simp+

lemma query_understood:
  assumes "legal_text cmd" "legal_text k" "int_in_range sn"
  shows "Parse (xml_decode u) (BuildQuery (query cmd sn k)) = Inr ((query cmd sn k)\<lparr>en_XMLName := ''Query''\<rparr>)"
  unfolding BuildQuery_def by (rule Parse_MarshalRoot [OF legal_query [OF assms]]) (simp add: plain_name_facts)

definition catalog_answer :: "int \<Rightarrow> Device \<Rightarrow> Envelope" where
  "catalog_answer sn d = (query CmdCatalog sn (dc_DeviceID (dv_cfg d)))\<lparr>en_SumNum := int (length (dc_Channels (dv_cfg d))),
     en_DeviceList := Some \<lparr>dl_Num = Itoa (int (length (dc_Channels (dv_cfg d)))), dl_Items = dc_Channels (dv_cfg d)\<rparr>\<rparr>"

lemma query_answer_catalog:
  "query_answer ((query CmdCatalog sn k)\<lparr>en_XMLName := root\<rparr>) d = Some (catalog_answer sn d)"
  by (simp add: query_answer_def catalog_answer_def query_def Let_def)

lemma answer_understood:
  assumes "int_in_range sn" "legal_text (dc_DeviceID (dv_cfg d))" "list_all legal_item (dc_Channels (dv_cfg d))"
    "int_in_range (int (length (dc_Channels (dv_cfg d))))"
  shows "Parse (xml_decode u) (BuildResponse (catalog_answer sn d)) = Inr ((catalog_answer sn d)\<lparr>en_XMLName := ''Response''\<rparr>)"
proof -
  have "legal_envelope (catalog_answer sn d)"
    using legal_query [OF legal_commands(1) assms(2,1)] assms(3,4)
    by (simp add: catalog_answer_def legal_envelope_def legal_list_def Itoa_text)
  then show ?thesis unfolding BuildResponse_def by (rule Parse_MarshalRoot) (simp add: plain_name_facts)
qed

lemma recorded_channels:
  "map_of (fold (\<lambda>it. map_put (it_DeviceID it) k) items m) c = (if c \<in> it_DeviceID ` set items then Some k else map_of m c)"
  by (induction items arbitrary: m) auto

lemma resolve_recorded:
  assumes "registered k p" "map_of (pl_channelOf p) c = Some k"
  shows "resolveDevice c p = Some (if registered c p then c else k)"
proof -
  have "(case map_of (pl_devices p) i of None \<Rightarrow> False | Some d \<Rightarrow> ds_Registered d) \<longleftrightarrow> registered i p" for i
    by (auto simp: registered_def split: option.split)
  then show ?thesis using assms by (simp add: resolveDevice_def Let_def)
qed

text \<open>A request as the other side has it after the wire: the same body, and the headers read off their text. Only the From
  header is looked at here.\<close>

definition received_as :: "Request \<Rightarrow> Request \<Rightarrow> bool" where
  "received_as req msg \<longleftrightarrow> RBody req = RBody msg \<and> Headers_Get (RHeaders req) ''From'' = Headers_Get (as_received (RHeaders msg)) ''From''"

lemma gb_message_From:
  "Headers_Get (RHeaders (gb_message tag callid user host to toText body)) ''From'' = Some (NewHeader ''From'' (Address_String (gb_from tag user host)))"
  "RBody (gb_message tag callid user host to toText body) = body"
  by (simp_all add: gb_message_def Let_def Request_SetBody_def body_headers_Get Get_Set_hit Get_Set_miss NewHeader_def same_name_def
      register_names sample_names del: Headers_Set.simps)

lemma device_message_from:
  assumes "received_as req (Device_newMessage tag callid to body d)" "wf_address (gb_from tag (dc_DeviceID (dv_cfg d)) (dc_ServerHost (dv_cfg d)))"
  shows "from_user req = Inr (dc_DeviceID (dv_cfg d))" "RBody req = body"
proof -
  have "Headers_Get (RHeaders req) ''From'' =
      Some (newTypedHeader ''From'' (Address_String (gb_from tag (dc_DeviceID (dv_cfg d)) (dc_ServerHost (dv_cfg d)))))"
    using assms(1) by (simp add: received_as_def Device_newMessage_def as_received_Get gb_message_From(1) NewHeader_def)
  from from_user_received [OF assms(2) _ this] show "from_user req = Inr (dc_DeviceID (dv_cfg d))"
    by (simp add: gb_from_def plain_address_def plain_uri_def)
  show "RBody req = body" using assms(1) by (simp add: received_as_def Device_newMessage_def gb_message_From(2))
qed

lemma platform_learns_channels:
  assumes "RBody req = BuildResponse (catalog_answer sn d)" "from_user req = Inr k" "registered k p"
    and "int_in_range sn" "legal_text (dc_DeviceID (dv_cfg d))" "list_all legal_item (dc_Channels (dv_cfg d))"
      "int_in_range (int (length (dc_Channels (dv_cfg d))))"
  shows "\<exists>p' ev. onMessage (xml_decode u) os now req stx p = Inr (p', ev) \<and>
    (\<forall>c \<in> set (dc_Channels (dv_cfg d)). resolveDevice (it_DeviceID c) p' = Some (if registered (it_DeviceID c) p then it_DeviceID c else k))"
proof -
  let ?a = "(catalog_answer sn d)\<lparr>en_XMLName := ''Response''\<rparr>" and ?p = "ua_answer os now stx 200 p"
  let ?q = "put_device k ((device k ?p)\<lparr>ds_LastSeen := now\<rparr>) ?p"
  let ?p' = "record_channels k ?a ?q"
  have "Parse (xml_decode u) (RBody req) = Inr ?a" using answer_understood [OF assms(4-7), of u] assms(1) by simp
  then have m: "onMessage (xml_decode u) os now req stx p = Inr (?p', device_event k ''message'' (Some ?a) ?p')"
    using assms(2) by (simp add: onMessage_def Let_def catalog_answer_def query_def)
  have reg: "registered c ?p' \<longleftrightarrow> registered c p" for c
    using assms(3) by (auto simp: registered_def record_channels_def catalog_answer_def put_device_def ua_answer_def device_def)
  have "resolveDevice (it_DeviceID c) ?p' = Some (if registered (it_DeviceID c) p then it_DeviceID c else k)"
    if "c \<in> set (dc_Channels (dv_cfg d))" for c
    using resolve_recorded [of k ?p' "it_DeviceID c"] reg assms(3) that
    by (simp add: record_channels_def catalog_answer_def recorded_channels)
  then show ?thesis using m by blast
qed

section \<open>Properties\<close>

text \<open>C23 (functional): the catalogue. A device that gets the platform's query for its catalogue understands it and answers
  with all its channels; that answer, received from the wire by a platform where the device is registered, makes
  it resolve every one of these channels to the device, unless the channel is itself registered as a device.\<close>

theorem catalog_exchange:
  assumes "received_as qreq (Platform_newMessage ptag pcallid k dst (BuildQuery (query CmdCatalog sn k)) p0)" "dc_DeviceID (dv_cfg d) = k"
    and "legal_text k" "int_in_range sn" "list_all legal_item (dc_Channels (dv_cfg d))" "int_in_range (int (length (dc_Channels (dv_cfg d))))"
    and "wf_address (gb_from tag k (dc_ServerHost (dv_cfg d)))"
  shows "\<exists>body. Device_onMessage (xml_decode u) os now tag callid br qreq qstx d =
      (fst (SendMessage os now tag callid br body (d\<lparr>dv_ua := fst (UA_Respond os now None qstx 200 [] None (dv_ua d))\<rparr>)), None) \<and>
    (\<forall>req stx p os' now'. received_as req (Device_newMessage tag callid (serverUri d) body d) \<and> registered k p \<longrightarrow>
      (\<exists>p' ev. onMessage (xml_decode u) os' now' req stx p = Inr (p', ev) \<and>
        (\<forall>c \<in> set (dc_Channels (dv_cfg d)). resolveDevice (it_DeviceID c) p' = Some (if registered (it_DeviceID c) p then it_DeviceID c else k))))"
proof (intro exI [of _ "BuildResponse (catalog_answer sn d)"] conjI allI impI)
  have "RBody qreq = BuildQuery (query CmdCatalog sn k)"
    using assms(1) by (simp add: received_as_def Platform_newMessage_def Let_def gb_message_From(2))
  then show "Device_onMessage (xml_decode u) os now tag callid br qreq qstx d =
      (fst (SendMessage os now tag callid br (BuildResponse (catalog_answer sn d)) (d\<lparr>dv_ua := fst (UA_Respond os now None qstx 200 [] None (dv_ua d))\<rparr>)), None)"
    using query_understood [OF legal_commands(1) assms(3,4), of u] query_answer_catalog
    by (simp add: Device_onMessage_def Let_def catalog_answer_def)
  fix req stx p os' now'
  assume r: "received_as req (Device_newMessage tag callid (serverUri d) (BuildResponse (catalog_answer sn d)) d) \<and> registered k p"
  have "from_user req = Inr k" "RBody req = BuildResponse (catalog_answer sn d)"
    using device_message_from r assms(2,7) by blast+
  then show "\<exists>p' ev. onMessage (xml_decode u) os' now' req stx p = Inr (p', ev) \<and>
      (\<forall>c \<in> set (dc_Channels (dv_cfg d)). resolveDevice (it_DeviceID c) p' = Some (if registered (it_DeviceID c) p then it_DeviceID c else k))"
    using platform_learns_channels r assms(2-6) by blast
qed

definition demo_channel :: Item where
  "demo_channel = empty_item\<lparr>it_DeviceID := ''b''\<rparr>"

definition demo_cam :: Device where
  "demo_cam = demo_device\<lparr>dv_cfg := (dv_cfg demo_device)\<lparr>dc_Channels := [demo_channel]\<rparr>\<rparr>"

definition over_the_wire :: "Request \<Rightarrow> Request" where
  "over_the_wire msg = msg\<lparr>RHeaders := as_received (RHeaders msg)\<rparr>"

lemma over_the_wire_received: "received_as (over_the_wire msg) msg"
  by (simp add: received_as_def over_the_wire_def)

theorem catalog_exchange_witness:
  "\<exists>req p p' ev. registered ''a'' p \<and> onMessage (xml_decode (\<lambda>_. False)) demo_os 0 req None p = Inr (p', ev) \<and>
     resolveDevice ''b'' p' \<noteq> None"
proof -
  let ?dec = "xml_decode (\<lambda>_. False)"
  let ?q = "over_the_wire (Platform_newMessage demo_tag demo_tag ''a'' demo_addr (BuildQuery (query CmdCatalog 1 ''a'')) demo_platform)"
  obtain p where p: "registered ''a'' p" using demo_registers by blast
  have d: "dc_DeviceID (dv_cfg demo_cam) = ''a''" "dc_Channels (dv_cfg demo_cam) = [demo_channel]" "dc_ServerHost (dv_cfg demo_cam) = ''p''"
    by (simp_all add: demo_cam_def demo_device_def Device_Start_def demo_device_cfg_def)
  have l: "legal_text ''a''" "legal_item demo_channel" by code_simp+
  have ex: "\<exists>body. Device_onMessage ?dec demo_os 0 demo_tag demo_tag demo_tag ?q None demo_cam =
      (fst (SendMessage demo_os 0 demo_tag demo_tag demo_tag body
        (demo_cam\<lparr>dv_ua := fst (UA_Respond demo_os 0 None None 200 [] None (dv_ua demo_cam))\<rparr>)), None) \<and>
    (\<forall>req stx p os' now'. received_as req (Device_newMessage demo_tag demo_tag (serverUri demo_cam) body demo_cam) \<and> registered ''a'' p \<longrightarrow>
      (\<exists>p' ev. onMessage ?dec os' now' req stx p = Inr (p', ev) \<and>
        (\<forall>c \<in> set (dc_Channels (dv_cfg demo_cam)). resolveDevice (it_DeviceID c) p' = Some (if registered (it_DeviceID c) p then it_DeviceID c else ''a''))))"
    by (rule catalog_exchange [OF over_the_wire_received d(1) l(1)]) (use d l demo_from in \<open>simp_all add: int_in_range_def\<close>)
  then obtain body where b: "\<And>req stx p os' now'. received_as req (Device_newMessage demo_tag demo_tag (serverUri demo_cam) body demo_cam) \<Longrightarrow>
      registered ''a'' p \<Longrightarrow> \<exists>p' ev. onMessage ?dec os' now' req stx p = Inr (p', ev) \<and>
        (\<forall>c \<in> set (dc_Channels (dv_cfg demo_cam)). resolveDevice (it_DeviceID c) p' = Some (if registered (it_DeviceID c) p then it_DeviceID c else ''a''))"
    by blast
  have "it_DeviceID demo_channel = ''b''" "demo_channel \<in> set (dc_Channels (dv_cfg demo_cam))" by (simp_all add: demo_channel_def d(2))
  with b [OF over_the_wire_received p, of demo_os 0 None] p show ?thesis by (metis option.distinct(1))
qed

end
