(* ===== verification/Spec2Isabelle.thy ===== *)
theory Spec2Isabelle
  imports ParserSafe Splitter Dialing Intake UaProps Resolver ProxyProps B2buaRun GbProps GbLayer SipServ GbServ Catalog
begin

text \<open>
  A verification of \<^verbatim>\<open>go-sip\<close>, a SIP stack (RFC 3261) in Go, and of its package \<^verbatim>\<open>gb28181\<close> for surveillance
  devices and platforms (GB/T 28181). The definitions are translated from the sources function by
  function and keep their names; what a Go method does to its receiver is a function from state to state.

  \<^bold>\<open>Parts of the program and the theories that model them.\<close> Bytes enter through the transport, are cut into
  messages and parsed, and reach the transaction manager, which matches them with transactions and calls
  the layer above: a user agent, a proxy, a back-to-back user agent or, on top of a user agent, a GB/T 28181
  platform or device.

  \<^item> \<^verbatim>\<open>errors.go\<close>: \<open>Prelude\<close> (the type \<open>error\<close>, results \<open>error + 'a\<close>; a Go panic is the error \<open>GoPanic\<close>).
  \<^item> The Go standard library the sources use: \<open>GoStrings\<close> (strings), \<open>GoStrconv\<close> (number formats), \<open>GoNet\<close>
    (addresses), \<open>GoXml\<close> (UTF-8, the escaping and the lenient decoder of \<^verbatim>\<open>encoding/xml\<close>).
  \<^item> \<^verbatim>\<open>params.go\<close>: \<open>Params\<close>. \<^verbatim>\<open>uri.go\<close>: \<open>Uri\<close>. \<^verbatim>\<open>headers.go\<close>: \<open>Headers\<close>, with round trips in \<open>HeadersCorrect\<close> and
    \<open>HeadersLists\<close>. \<^verbatim>\<open>headers_map.go\<close>: \<open>HeadersMap\<close>. \<^verbatim>\<open>message.go\<close>: \<open>Message\<close>.
  \<^item> \<^verbatim>\<open>parser.go\<close>: \<open>Parser\<close> (the message parser; \<open>ParserCorrect\<close>: it reads back what \<open>render\<close> prints; \<open>ParserSafe\<close>: no
    parsed message holds a line break that would split a header) and \<open>Splitter\<close> (the stream splitter).
  \<^item> \<^verbatim>\<open>transport.go\<close>, the counters of \<^verbatim>\<open>logging.go\<close>: \<open>Transport\<close>, \<open>TransportCorrect\<close>; \<open>TransportOpen\<close> (opening
    the sockets, the reading loops) and \<open>Dialing\<close> (concurrent calls that ask for a connection).
  \<^item> \<^verbatim>\<open>transaction.go\<close>: \<open>Transaction\<close>, \<open>TransactionCorrect\<close>, \<open>TransactionProps\<close>; \<open>Intake\<close> (the loop of \<^verbatim>\<open>Run\<close>
    over the packets the transport has read).
  \<^item> \<^verbatim>\<open>dialog.go\<close>: \<open>Dialog\<close>. \<^verbatim>\<open>ua.go\<close>: \<open>UA\<close>, \<open>UaCorrect\<close>, \<open>UaProps\<close>, \<open>UaLayer\<close>.
  \<^item> \<^verbatim>\<open>resolver.go\<close>: \<open>Resolver\<close>. \<^verbatim>\<open>proxy.go\<close>: \<open>Proxy\<close>, \<open>ProxyCorrect\<close>, \<open>ProxyProps\<close>. \<^verbatim>\<open>b2bua.go\<close>: \<open>B2bua\<close>,
    \<open>B2buaRun\<close> (its runs).
  \<^item> \<^verbatim>\<open>gb28181/sdp.go\<close>: \<open>Sdp\<close>. \<^verbatim>\<open>gb28181/xml.go\<close>: \<open>Xml\<close>, \<open>XmlCorrect\<close>. \<^verbatim>\<open>gb28181/platform.go\<close>: \<open>Platform\<close>. \<^verbatim>\<open>gb28181/device.go\<close>: \<open>Device\<close>; their
    lemmas and properties are in \<open>GbCorrect\<close>, \<open>GbProps\<close>, \<open>GbLayer\<close> and \<open>Catalog\<close>.
  \<^item> The programs: \<^verbatim>\<open>cmd/sipserv/main.go\<close>: \<open>SipServ\<close>. \<^verbatim>\<open>cmd/gb28181serv/main.go\<close>: \<open>GbServ\<close>.
  \<^item> \<open>Samples\<close> has the concrete messages at which properties are instantiated; \<open>Interfaces\<close> the locales.

  \<^bold>\<open>State and operations.\<close> A struct is a record, a map an association list or a partial function, a pointer that is
  shared (a transaction, a dialog, a branch of a fork) an index into a heap. What the network, the resolver
  and the random source answer are arguments of every operation (\<open>OS\<close>, \<open>Entropy\<close>). Goroutines and timers are
  steps: \<open>tx_step\<close> (transactions), \<open>px_step\<close> (proxy), \<open>b2_step\<close> (back-to-back user agent), \<open>platform_step\<close>, \<open>run_step\<close> (a
  device), \<open>sv_step\<close> and \<open>gs_step\<close> (the programs), \<open>dial_step\<close> (callers of the transport) interleave packets, timers,
  loop bodies and calls of the application in any order, one handler at a time; \<open>Request\<close> is split in two
  (\<open>Request_begin\<close>, \<open>Request_end\<close>) because a response can be handled between its halves. A callback of the
  application is a flag and what it is called with is part of the result.

  \<^bold>\<open>Interfaces.\<close> \<open>keyed_store\<close> (parameter lists, header lists, Go maps), \<open>codec\<close> and \<open>normalising_codec\<close> (printers with
  their parsers), \<open>framing\<close> (the splitter), \<open>step_system\<close> and \<open>monotone_system\<close> (invariants and what never goes
  back), \<open>layered_system\<close> (a component that changes the one below only by its steps) are interpreted on the
  definitions above; the properties rest on the interpretations.

  \<^bold>\<open>What is shown.\<close>
  \<^item> Round trips of URIs, headers, credentials, whole messages, streams of messages cut anywhere,
    session descriptions, and MANSCDP messages through the XML encoder and decoder.
  \<^item> Safety of parsing: nothing parsed or printed smuggles in a line break; quoted credentials stay quoted.
  \<^item> Transactions: an invariant of every reachable state, answers that stay, retransmissions absorbed,
    a spoofed CANCEL refused, and that a request nobody answers ends within \<open>TimerF div T1 + 1\<close> ticks.
  \<^item> Transport: the bytes of a stream, however cut, have the effect of its messages handled one by one; concurrent
    callers share one dial per address and are all answered; the connection table is bounded when calls do
    not overlap; an opened transport has what was asked for.
  \<^item> The proxy, the platform and the device refine the transaction layer; the tables of the proxy stay
    consistent; its answer is the best of its branches; Max-Forwards bounds the hops.
  \<^item> Dialogs, user agent and back-to-back user agent: sequence numbers and tags of requests inside a dialog,
    hanging up returns; in every run a BYE on a leg ends the bridged call.
  \<^item> GB/T 28181: a device with the right password registers, no other way to be registered, requests go to
    registered devices only, the catalogue a device reports is what the platform resolves by, offer and answer of a stream agree, the waits between attempts are bounded.
  \<^item> The demo server answers every request it has to answer; the demo platform queries registered devices only.
  \<^item> Behaviour the authors will not have meant is stated as such: a stream that is never split to an
    end, a crash by one packet, a BYE of the caller that is refused, a cancelled call without an answer, replayed
    and unauthenticated registrations, a limit on connections that a race defeats, sockets that a failed
    constructor leaves open, a bridged call lost to another with its Call-ID, and others.

  \<^bold>\<open>Bounds and termination.\<close> Integers of a fixed width are words (sequence numbers, SSRC, SRV fields, lengths in headers);
  Go's \<^verbatim>\<open>int\<close> is \<^typ>\<open>int\<close> with the range checked where a number is parsed, and nothing adds up beyond 64 bits. The
  splitter's loop is a \<^verbatim>\<open>partial_function\<close> because it may diverge; \<open>Hangup_loop\<close> has the three attempts of the
  source as its fuel; every other loop is a terminating function.

  \<^bold>\<open>Parameters.\<close> The operating system's network, DNS, random numbers, the hash functions, the tables of
  \<^verbatim>\<open>encoding/xml\<close> for element names outside ASCII, the application's callbacks and password lookup.

  \<^bold>\<open>Not modelled.\<close> The loggers, locks (handlers are atomic), the texts of error messages, the end of a context, the parsing of
  command-line flags and the signals of the programs under \<^verbatim>\<open>cmd\<close>, and accessors that only return a field.
\<close>

section \<open>The layers on the transactions\<close>





end
